(* ===== verification/Model.thy ===== *)
theory Model
  imports Prelude
begin

text \<open>
  The data of \<^verbatim>\<open>src/src/model.rs\<close>: the snapshot of a virtual machine (\<open>state\<close>) and the
  requests and responses of the HTTP interface.

  Correspondence of base types: \<^verbatim>\<open>String\<close> is \<open>string\<close> (its bytes); \<^verbatim>\<open>Uuid\<close> is the string it
  prints as; \<^verbatim>\<open>DateTime<Utc>\<close> is a number of nanoseconds; \<^verbatim>\<open>u64\<close> addresses and sizes are
  64-bit words; \<^verbatim>\<open>serde_json::Value\<close> is a type parameter \<open>'j\<close>, since the program never looks
  inside one.  Record fields carry a prefix where two structs share a name.
\<close>

type_synonym u8 = "8 word"
type_synonym u16 = "16 word"
type_synonym u32 = "32 word"
type_synonym u64 = "64 word"
type_synonym datetime = int
type_synonym uuid = string

datatype state_id = StateId string

primrec sid_str :: "state_id \<Rightarrow> string" where
  "sid_str (StateId s) = s"

record vm_config =
  vcpus :: u8
  memory_mb :: u32
  kernel_image :: string
  rootfs_image :: string

record 'j cpu_state =
  arch :: string
  registers :: 'j

record memory_flags =
  flag_read :: bool
  flag_write :: bool
  flag_execute :: bool

datatype memory_temperature = Hot | Warm | Cold

record memory_region =
  region_id :: string
  region_base :: u64
  region_size :: u64
  region_flags :: memory_flags
  region_temperature :: memory_temperature

datatype fd_kind = FDFile string | FDSocket string | FDOther string

record fd_descriptor =
  fd_num :: int
  fd_kind_of :: fd_kind

datatype transport_protocol = Tcp | Quic

record socket_descriptor =
  socket_id :: string
  socket_protocol :: transport_protocol

record 'j device_state =
  device_type :: string
  device_payload :: 'j

datatype deterministic_event =
    Syscall string
  | Signal string
  | ThreadSchedule u64
  | NetworkIoBoundary string
  | RandomnessSeed u64

record event_log =
  log_events :: "deterministic_event list"

record ui_state_ref =
  stream_id :: uuid

record state_metadata =
  meta_label :: string
  meta_created_at :: datetime
  meta_ttl_seconds :: "u64 option"

record 'j state =
  st_id :: state_id
  st_vm_config :: vm_config
  st_cpu :: "'j cpu_state"
  st_manifest :: "memory_region list"
  st_fds :: "fd_descriptor list"
  st_sockets :: "socket_descriptor list"
  st_devices :: "'j device_state list"
  st_log :: event_log
  st_ui :: ui_state_ref
  st_metadata :: state_metadata

section \<open>Requests and responses\<close>

record snapshot_request =
  snap_label :: string
  snap_ttl :: "string option"

record snapshot_response =
  snap_state_id :: string

record resume_request =
  res_state_id :: string
  res_mode :: "string option"
  res_region :: "string option"

record fork_request =
  fork_state_id :: string
  fork_label :: "string option"

record resume_response =
  resp_accepted :: bool
  resp_region :: string
  resp_mode :: string

record fork_response =
  fork_new_state_id :: string

text \<open>
  \<^verbatim>\<open>State::new\<close>; the two fresh UUIDs and the JSON value \<^verbatim>\<open>json!({})\<close> are arguments.
\<close>

definition state_new ::
  "uuid \<Rightarrow> uuid \<Rightarrow> 'j \<Rightarrow> vm_config \<Rightarrow> state_metadata \<Rightarrow> 'j state" where
  "state_new fresh_id fresh_stream empty_json cfg meta =
     \<lparr>st_id = StateId fresh_id, st_vm_config = cfg,
      st_cpu = \<lparr>arch = ''x86_64'', registers = empty_json\<rparr>,
      st_manifest = [], st_fds = [], st_sockets = [], st_devices = [],
      st_log = \<lparr>log_events = []\<rparr>, st_ui = \<lparr>stream_id = fresh_stream\<rparr>,
      st_metadata = meta\<rparr>"

text \<open>\<^verbatim>\<open>is_success\<close> of an HTTP status.\<close>

definition http_success :: "nat \<Rightarrow> bool" where
  "http_success s \<longleftrightarrow> 200 \<le> s \<and> s < 300"

lemma sid_str_inject [simp]: "sid_str a = sid_str b \<longleftrightarrow> a = b"
  by (cases a; cases b) simp

end
