(* ===== verification/F32.thy ===== *)
theory F32
  imports Complex_Main Prelude
begin

text \<open>
  Rust's \<^verbatim>\<open>f32\<close> on the finite values the program computes with.  A value is the rational it
  denotes; every arithmetic operation is the exact rational operation followed by
  \<open>f32_round\<close>, rounding to nearest with ties to even at 24 bits of precision and a least
  exponent of -149 (subnormals included).  Not modelled: infinities, NaN and the sign of
  zero.  The lemmas are what the proofs about token buckets and page temperatures need:
  rounding is monotone, idempotent and exact on small integers.
\<close>

type_synonym f32 = rat

definition rne :: "rat \<Rightarrow> int" where
  "rne x = (let f = \<lfloor>x\<rfloor>; r = x - of_int f
            in if r < 1 / 2 then f else if 1 / 2 < r then f + 1
               else if even f then f else f + 1)"

text \<open>
  The binary exponent of a positive value, by halving down to or doubling up to [1, 2); the
  fuel is the exponent range of the format.
\<close>

fun f32_up :: "nat \<Rightarrow> rat \<Rightarrow> nat" where
  "f32_up 0 x = 0"
| "f32_up (Suc k) x = (if x < 2 then 0 else Suc (f32_up k (x / 2)))"

fun f32_dn :: "nat \<Rightarrow> rat \<Rightarrow> nat" where
  "f32_dn 0 x = 0"
| "f32_dn (Suc k) x = (if 1 \<le> x then 0 else Suc (f32_dn k (2 * x)))"

definition f32_exp :: "rat \<Rightarrow> int" where
  "f32_exp x = (if 1 \<le> x then int (f32_up 127 x) else - int (f32_dn 126 x)) - 23"

definition f32_round_pos :: "rat \<Rightarrow> f32" where
  "f32_round_pos x = of_int (rne (x / 2 powi f32_exp x)) * 2 powi f32_exp x"

definition f32_round :: "rat \<Rightarrow> f32" where
  "f32_round x = (if x = 0 then 0 else if x < 0 then - f32_round_pos (- x) else f32_round_pos x)"

definition f32_add :: "f32 \<Rightarrow> f32 \<Rightarrow> f32" where "f32_add x y = f32_round (x + y)"
definition f32_sub :: "f32 \<Rightarrow> f32 \<Rightarrow> f32" where "f32_sub x y = f32_round (x - y)"
definition f32_mul :: "f32 \<Rightarrow> f32 \<Rightarrow> f32" where "f32_mul x y = f32_round (x * y)"
definition f32_div :: "f32 \<Rightarrow> f32 \<Rightarrow> f32" where "f32_div x y = f32_round (x / y)"

text \<open>\<^verbatim>\<open>n as f32\<close> for an unsigned integer, and the saturating \<^verbatim>\<open>x as u32\<close>.\<close>

definition f32_of_nat :: "nat \<Rightarrow> f32" where "f32_of_nat n = f32_round (of_nat n)"

definition f32_to_u32 :: "f32 \<Rightarrow> nat" where
  "f32_to_u32 x = min (nat \<lfloor>x\<rfloor>) (2 ^ 32 - 1)"

definition is_f32 :: "rat \<Rightarrow> bool" where "is_f32 x \<longleftrightarrow> f32_round x = x"

section \<open>Rounding to an integer\<close>

lemma rne_of_int [simp]: "rne (of_int k) = k"
  by (simp add: rne_def Let_def)

lemma rne_cases: "rne x = \<lfloor>x\<rfloor> \<or> rne x = \<lfloor>x\<rfloor> + 1"
  by (simp add: rne_def Let_def)

lemma rne_mono:
  assumes "x \<le> y" shows "rne x \<le> rne y"
proof (cases "\<lfloor>x\<rfloor> = \<lfloor>y\<rfloor>")
  case True
  with assms show ?thesis by (auto simp: rne_def Let_def)
next
  case False
  with floor_mono [OF assms] have "\<lfloor>x\<rfloor> + 1 \<le> \<lfloor>y\<rfloor>" by simp
  with rne_cases [of x] rne_cases [of y] show ?thesis by linarith
qed

lemma rne_ge: "of_int k \<le> x \<Longrightarrow> k \<le> rne x"
  using rne_mono [of "of_int k" x] by simp

lemma rne_le: "x \<le> of_int k \<Longrightarrow> rne x \<le> k"
  using rne_mono [of x "of_int k"] by simp

section \<open>The exponent\<close>

lemma f32_up_lower: "1 \<le> x \<Longrightarrow> 2 ^ f32_up k x \<le> x"
proof (induction k arbitrary: x)
  case (Suc k)
  show ?case using Suc.IH [of "x / 2"] Suc.prems by (auto simp: field_simps)
qed simp

lemma f32_up_upper: "1 \<le> x \<Longrightarrow> f32_up k x < k \<Longrightarrow> x < 2 ^ Suc (f32_up k x)"
proof (induction k arbitrary: x)
  case (Suc k)
  show ?case using Suc.IH [of "x / 2"] Suc.prems by (auto simp: field_simps split: if_splits)
qed simp

lemma f32_up_mono: "x \<le> y \<Longrightarrow> f32_up k x \<le> f32_up k y"
proof (induction k arbitrary: x y)
  case (Suc k)
  show ?case using Suc.IH [of "x / 2" "y / 2"] Suc.prems by auto
qed simp

lemma f32_up_le: "f32_up k x \<le> k"
  by (induction k arbitrary: x) auto

lemma f32_dn_lower: "f32_dn k x < k \<Longrightarrow> 1 \<le> 2 ^ f32_dn k x * x"
proof (induction k arbitrary: x)
  case (Suc k)
  show ?case using Suc.IH [of "2 * x"] Suc.prems by (auto simp: algebra_simps split: if_splits)
qed simp

lemma f32_dn_upper: "0 < x \<Longrightarrow> x < 1 \<Longrightarrow> 2 ^ f32_dn k x * x < 2"
proof (induction k arbitrary: x)
  case (Suc k)
  show ?case
  proof (cases "2 * x < 1")
    case True
    then show ?thesis using Suc.IH [of "2 * x"] Suc.prems by (simp add: algebra_simps)
  next
    case False
    then have "f32_dn k (2 * x) = 0" by (cases k) auto
    then show ?thesis using Suc.prems by simp
  qed
qed simp

lemma f32_dn_anti: "x \<le> y \<Longrightarrow> f32_dn k y \<le> f32_dn k x"
proof (induction k arbitrary: x y)
  case (Suc k)
  show ?case using Suc.IH [of "2 * x" "2 * y"] Suc.prems by auto
qed simp

lemma f32_dn_le: "f32_dn k x \<le> k"
  by (induction k arbitrary: x) auto

lemma f32_exp_mono: "x \<le> y \<Longrightarrow> f32_exp x \<le> f32_exp y"
  using f32_up_mono [of x y 127] f32_dn_anti [of x y 126] by (auto simp: f32_exp_def)

lemma f32_exp_bounds: "- 149 \<le> f32_exp x" "f32_exp x \<le> 104"
  using f32_dn_le [of 126 x] f32_up_le [of 127 x] by (auto simp: f32_exp_def)

text \<open>A normal value is at least 2 to the 23 times its quantum.\<close>

lemma f32_exp_lower:
  assumes "0 < x" "- 149 < f32_exp x"
  shows "2 powi (f32_exp x + 23) \<le> x"
proof (cases "1 \<le> x")
  case True
  then show ?thesis using f32_up_lower [of x 127] by (simp add: f32_exp_def)
next
  case False
  with assms have "f32_dn 126 x < 126" by (simp add: f32_exp_def)
  from f32_dn_lower [OF this] False show ?thesis
    by (simp add: f32_exp_def power_int_minus field_simps)
qed

text \<open>Below the largest exponent, a value is less than 2 to the 24 times its quantum.\<close>

lemma f32_exp_upper:
  assumes "0 < x" "f32_exp x < 104"
  shows "x < 2 powi (f32_exp x + 24)"
proof (cases "1 \<le> x")
  case True
  with assms have "f32_up 127 x < 127" by (simp add: f32_exp_def)
  from f32_up_upper [OF True this] True show ?thesis
    by (simp add: f32_exp_def power_int_add)
next
  case False
  with f32_dn_upper [of x 126] assms show ?thesis
    by (simp add: f32_exp_def power_int_diff field_simps)
qed

section \<open>Rounding is monotone\<close>

lemma powi_pos [simp]: "0 < (2 :: rat) powi e"
  by simp

lemma f32_round_pos_ge:
  assumes "2 powi f32_exp x * of_int k \<le> x"
  shows "2 powi f32_exp x * of_int k \<le> f32_round_pos x"
proof -
  have "of_int k \<le> x / 2 powi f32_exp x"
    using assms by (simp add: field_simps)
  then have "of_int k \<le> (of_int (rne (x / 2 powi f32_exp x)) :: rat)"
    using rne_ge by simp
  then show ?thesis by (simp add: f32_round_pos_def mult.commute)
qed

lemma f32_round_pos_le:
  assumes "x \<le> 2 powi f32_exp x * of_int k"
  shows "f32_round_pos x \<le> 2 powi f32_exp x * of_int k"
proof -
  have "x / 2 powi f32_exp x \<le> of_int k"
    using assms by (simp add: field_simps)
  then have "(of_int (rne (x / 2 powi f32_exp x)) :: rat) \<le> of_int k"
    using rne_le by simp
  then show ?thesis by (simp add: f32_round_pos_def mult.commute)
qed

lemma f32_round_pos_nonneg: "0 \<le> x \<Longrightarrow> 0 \<le> f32_round_pos x"
  using f32_round_pos_ge [of x 0] by simp

lemma f32_round_pos_mono:
  assumes "0 < x" "x \<le> y"
  shows "f32_round_pos x \<le> f32_round_pos y"
proof (cases "f32_exp x = f32_exp y")
  case True
  have "x / 2 powi f32_exp y \<le> y / 2 powi f32_exp y"
    using assms by (simp add: divide_right_mono)
  from rne_mono [OF this] show ?thesis
    by (simp add: f32_round_pos_def True)
next
  case False
  with f32_exp_mono [OF assms(2)] have lt: "f32_exp x < f32_exp y" by simp
  with f32_exp_bounds [of x] f32_exp_bounds [of y]
  have "f32_exp x < 104" "- 149 < f32_exp y" by linarith+
  with assms have up: "x < 2 powi (f32_exp x + 24)" and lo: "2 powi (f32_exp y + 23) \<le> y"
    by (auto intro: f32_exp_upper f32_exp_lower)
  from up have "f32_round_pos x \<le> 2 powi f32_exp x * of_int (2 ^ 24)"
    by (intro f32_round_pos_le) (simp add: power_int_add)
  also have "\<dots> = 2 powi (f32_exp x + 24)" by (simp add: power_int_add)
  also have "\<dots> \<le> 2 powi (f32_exp y + 23)"
    using lt by (intro power_int_increasing) simp_all
  also have "\<dots> = 2 powi f32_exp y * of_int (2 ^ 23)" by (simp add: power_int_add)
  also have "\<dots> \<le> f32_round_pos y"
    using lo by (intro f32_round_pos_ge) (simp add: power_int_add)
  finally show ?thesis .
qed

lemma f32_round_mono: "x \<le> y \<Longrightarrow> f32_round x \<le> f32_round y"
  using f32_round_pos_mono [of x y] f32_round_pos_mono [of "- y" "- x"]
    f32_round_pos_nonneg [of y] f32_round_pos_nonneg [of "- x"]
  by (auto simp: f32_round_def)

section \<open>Rounding is exact on representable values\<close>

lemma f32_round_pos_exact:
  assumes "f32_exp (of_int m * 2 powi e) \<le> e"
  shows "f32_round_pos (of_int m * 2 powi e) = of_int m * 2 powi e"
proof -
  let ?x = "of_int m * 2 powi e :: rat"
  let ?d = "nat (e - f32_exp ?x)"
  have "2 powi e = (2 :: rat) powi f32_exp ?x * 2 ^ ?d"
    using assms by (simp flip: power_int_of_nat power_int_add)
  then have "?x / 2 powi f32_exp ?x = of_int (m * 2 ^ ?d)" by (simp add: field_simps)
  then have "rne (?x / 2 powi f32_exp ?x) = m * 2 ^ ?d" by (simp only: rne_of_int)
  then have "f32_round_pos ?x = of_int m * (2 powi f32_exp ?x * 2 ^ ?d)"
    by (simp only: f32_round_pos_def of_int_mult of_int_power of_int_numeral mult_ac)
  then show ?thesis
    by (simp only: \<open>2 powi e = 2 powi f32_exp ?x * 2 ^ ?d\<close> [symmetric])
qed

lemma f32_exp_le_of_less:
  assumes "0 < x" "x < 2 powi (e + 24)" "- 149 \<le> e"
  shows "f32_exp x \<le> e"
proof (cases "f32_exp x = - 149")
  case False
  with f32_exp_bounds [of x] have "- 149 < f32_exp x" by simp
  from f32_exp_lower [OF assms(1) this] assms(2)
  have "(2 :: rat) powi (f32_exp x + 23) < 2 powi (e + 24)" by simp
  then have "\<not> e + 24 \<le> f32_exp x + 23"
    using power_int_increasing [of "e + 24" "f32_exp x + 23" "2 :: rat"] by linarith
  then show ?thesis by simp
qed (use assms in simp)

lemma f32_round_pos_small:
  assumes "0 < m" "m \<le> 2 ^ 24" "- 149 \<le> e"
  shows "f32_round_pos (of_int m * 2 powi e) = of_int m * 2 powi e"
proof (cases "m = 2 ^ 24")
  case False
  with assms have m: "m < 2 ^ 24" by simp
  then have "(of_int m :: rat) < of_int (2 ^ 24)" by (simp only: of_int_less_iff)
  then have "of_int m * 2 powi e < (2 :: rat) powi (e + 24)"
    by (simp add: power_int_add mult.commute)
  then show ?thesis using assms by (intro f32_round_pos_exact f32_exp_le_of_less) simp_all
next
  case True
  have eq: "of_int m * 2 powi e = (of_int (2 ^ 23) :: rat) * 2 powi (e + 1)"
    by (simp add: True power_int_add)
  have "(of_int (2 ^ 23) :: rat) * 2 powi (e + 1) < 2 powi ((e + 1) + 24)"
    by (simp add: power_int_add)
  then show ?thesis
    using assms unfolding eq by (intro f32_round_pos_exact f32_exp_le_of_less) simp_all
qed

lemma f32_round_nat: "n \<le> 2 ^ 24 \<Longrightarrow> f32_round (of_nat n) = of_nat n"
  using f32_round_pos_small [of "int n" 0] by (cases "n = 0") (auto simp: f32_round_def)

lemma f32_round_zero [simp]: "f32_round 0 = 0"
  by (simp add: f32_round_def)

lemma f32_round_nonneg: "0 \<le> x \<Longrightarrow> 0 \<le> f32_round x"
  using f32_round_mono [of 0 x] by simp

lemma f32_round_pos_pos_exp:
  assumes "0 < x" "f32_round_pos x \<noteq> 0"
  shows "f32_round_pos (f32_round_pos x) = f32_round_pos x"
proof -
  let ?n = "rne (x / 2 powi f32_exp x)" and ?e = "f32_exp x"
  have pos: "0 < ?n"
    using assms f32_round_pos_nonneg [of x] rne_ge [of 0 "x / 2 powi ?e"]
    by (cases "?n = 0") (auto simp: f32_round_pos_def)
  show ?thesis
  proof (cases "?e = 104")
    case True
    then have "f32_exp (of_int ?n * 2 powi ?e) \<le> ?e"
      using f32_exp_bounds(2) by simp
    from f32_round_pos_exact [OF this] show ?thesis by (simp add: f32_round_pos_def)
  next
    case False
    with f32_exp_bounds [of x] have "?e < 104" by simp
    from f32_exp_upper [OF assms(1) this]
    have "x / 2 powi ?e \<le> of_int (2 ^ 24)" by (simp add: power_int_add field_simps)
    from rne_le [OF this] pos f32_exp_bounds(1) [of x]
    have "f32_round_pos (of_int ?n * 2 powi ?e) = of_int ?n * 2 powi ?e"
      by (intro f32_round_pos_small) simp_all
    then show ?thesis by (simp add: f32_round_pos_def)
  qed
qed

lemma f32_round_idem [simp]: "f32_round (f32_round x) = f32_round x"
  using f32_round_pos_pos_exp [of x] f32_round_pos_pos_exp [of "- x"]
    f32_round_pos_nonneg [of x] f32_round_pos_nonneg [of "- x"]
  by (auto simp: f32_round_def)

lemma is_f32_round [simp]: "is_f32 (f32_round x)"
  by (simp add: is_f32_def)

lemma is_f32_ops [simp]:
  "is_f32 (f32_add x y)" "is_f32 (f32_sub x y)" "is_f32 (f32_mul x y)" "is_f32 (f32_div x y)"
  "is_f32 (f32_of_nat n)" "is_f32 0"
  by (simp_all add: f32_add_def f32_sub_def f32_mul_def f32_div_def f32_of_nat_def)
    (simp add: is_f32_def)

lemma is_f32_min: "is_f32 x \<Longrightarrow> is_f32 y \<Longrightarrow> is_f32 (min x y)"
  by (simp add: min_def)

lemma f32_sub_le: "is_f32 x \<Longrightarrow> 0 \<le> y \<Longrightarrow> f32_sub x y \<le> x"
  using f32_round_mono [of "x - y" x] by (simp add: f32_sub_def is_f32_def)

lemma f32_sub_nonneg: "y \<le> x \<Longrightarrow> 0 \<le> f32_sub x y"
  by (simp add: f32_sub_def f32_round_nonneg)

lemma f32_of_nat_mono: "m \<le> n \<Longrightarrow> f32_of_nat m \<le> f32_of_nat n"
  by (simp add: f32_of_nat_def f32_round_mono)

lemma f32_of_nat_nonneg [simp]: "0 \<le> f32_of_nat n"
  by (simp add: f32_of_nat_def f32_round_nonneg)

lemma f32_of_nat_exact: "n \<le> 2 ^ 24 \<Longrightarrow> f32_of_nat n = of_nat n"
  by (simp add: f32_of_nat_def f32_round_nat)

lemma f32_mul_nonneg: "0 \<le> x \<Longrightarrow> 0 \<le> y \<Longrightarrow> 0 \<le> f32_mul x y"
  by (simp add: f32_mul_def f32_round_nonneg)

lemma f32_add_nonneg: "0 \<le> x \<Longrightarrow> 0 \<le> y \<Longrightarrow> 0 \<le> f32_add x y"
  by (simp add: f32_add_def f32_round_nonneg)

lemma f32_add_ge: "is_f32 x \<Longrightarrow> 0 \<le> y \<Longrightarrow> x \<le> f32_add x y"
  using f32_round_mono [of x "x + y"] by (simp add: f32_add_def is_f32_def)

lemma f32_div_nonneg: "0 \<le> x \<Longrightarrow> 0 \<le> y \<Longrightarrow> 0 \<le> f32_div x y"
  by (simp add: f32_div_def f32_round_nonneg)

end
