(* ===== verification/Memory.thy ===== *)
theory Memory
  imports Model F32
begin

text \<open>
  \<^verbatim>\<open>src/src/memory.rs\<close>: the dirty-page tracker of a memory region, the classification of its
  pages by temperature, and the snapshot manager (dirty-page snapshots, the memory manifest,
  prefetching and the page indexes).

  \<^verbatim>\<open>usize\<close> counts are \<open>nat\<close>; \<^verbatim>\<open>u64\<close> addresses are 64-bit words with the wrapping arithmetic
  of a release build; access counters are \<open>nat\<close> with the saturation and the wrapping of
  \<^verbatim>\<open>u32\<close> written out.  The LZ4 and Zstandard codecs and SHA-256 are external crates, hence
  parameters (\<open>codec\<close>, \<open>sha\<close>).  A \<^verbatim>\<open>HashSet<usize>\<close> of pages is the list of its elements.
\<close>

definition PAGE_SIZE :: nat where "PAGE_SIZE = 4096"

datatype compression_algorithm = CompNone | LZ4 | Zstd

record memory_page =
  page_hash :: string
  page_data :: bytes
  page_compression :: compression_algorithm
  page_original_size :: nat

datatype memory_error =
    CompressionError string
  | DecompressionError string
  | MemIoError string
  | UserfaultfdError string
  | MemNotFound string
  | InvalidPage string

text \<open>The two external codecs, each fallible with the text of its error.\<close>

record codec =
  lz4_compress :: "bytes \<Rightarrow> (string, bytes) result"
  lz4_decompress :: "bytes \<Rightarrow> (string, bytes) result"
  zstd_encode :: "bytes \<Rightarrow> (string, bytes) result"
  zstd_decode :: "bytes \<Rightarrow> (string, bytes) result"

fun compress :: "codec \<Rightarrow> compression_algorithm \<Rightarrow> bytes \<Rightarrow> (memory_error, bytes) result" where
  "compress cd CompNone data = Ok data"
| "compress cd LZ4 data =
     map_err (\<lambda>e. CompressionError (''LZ4 failed: '' @ e)) (lz4_compress cd data)"
| "compress cd Zstd data =
     map_err (\<lambda>e. CompressionError (''Zstd failed: '' @ e)) (zstd_encode cd data)"

fun decompress :: "codec \<Rightarrow> compression_algorithm \<Rightarrow> bytes \<Rightarrow> (memory_error, bytes) result" where
  "decompress cd CompNone data = Ok data"
| "decompress cd LZ4 data =
     map_err (\<lambda>e. DecompressionError (''LZ4 failed: '' @ e)) (lz4_decompress cd data)"
| "decompress cd Zstd data =
     map_err (\<lambda>e. DecompressionError (''Zstd failed: '' @ e)) (zstd_decode cd data)"

text \<open>The documented contract of the codecs: what was compressed decompresses to itself.\<close>

definition codec_ok :: "codec \<Rightarrow> bool" where
  "codec_ok cd \<longleftrightarrow>
     (\<forall>d c. lz4_compress cd d = Inr c \<longrightarrow> lz4_decompress cd c = Inr d) \<and>
     (\<forall>d c. zstd_encode cd d = Inr c \<longrightarrow> zstd_decode cd c = Inr d)"

section \<open>The dirty-page tracker\<close>

record dirty_page_tracker =
  base_addr :: u64
  total_size :: nat
  dirty_bitmap :: "bool list"
  access_counts :: "nat list"

definition tracker_new :: "u64 \<Rightarrow> nat \<Rightarrow> dirty_page_tracker" where
  "tracker_new base sz =
     (let num_pages = sz div PAGE_SIZE
      in \<lparr>base_addr = base, total_size = sz, dirty_bitmap = replicate num_pages False,
          access_counts = replicate num_pages 0\<rparr>)"

definition mark_dirty :: "nat \<Rightarrow> dirty_page_tracker \<Rightarrow> dirty_page_tracker" where
  "mark_dirty off t =
     (if off < length (dirty_bitmap t) then t\<lparr>dirty_bitmap := (dirty_bitmap t)[off := True]\<rparr> else t)"

definition record_access :: "nat \<Rightarrow> dirty_page_tracker \<Rightarrow> dirty_page_tracker" where
  "record_access off t =
     (if off < length (access_counts t)
      then t\<lparr>access_counts :=
             (access_counts t)[off := min (access_counts t ! off + 1) (2 ^ 32 - 1)]\<rparr>
      else t)"

definition get_dirty_pages :: "dirty_page_tracker \<Rightarrow> nat list" where
  "get_dirty_pages t = map fst (filter snd (enumerate 0 (dirty_bitmap t)))"

definition clear_dirty :: "dirty_page_tracker \<Rightarrow> dirty_page_tracker" where
  "clear_dirty t = t\<lparr>dirty_bitmap := map (\<lambda>_. False) (dirty_bitmap t)\<rparr>"

definition page_address :: "dirty_page_tracker \<Rightarrow> nat \<Rightarrow> u64" where
  "page_address t off = base_addr t + of_nat (off * PAGE_SIZE)"

record temperature_map =
  hot_pages :: "nat list"
  warm_pages :: "nat list"
  cold_pages :: "nat list"

text \<open>\<^verbatim>\<open>sum::<u32>()\<close> wraps at 32 bits in a release build.\<close>

definition avg_access :: "dirty_page_tracker \<Rightarrow> f32" where
  "avg_access t =
     (let num_pages = length (dirty_bitmap t)
      in if num_pages > 0
         then f32_div (f32_of_nat (sum_list (access_counts t) mod 2 ^ 32)) (f32_of_nat num_pages)
         else 0)"

definition hot_threshold :: "dirty_page_tracker \<Rightarrow> nat" where
  "hot_threshold t = f32_to_u32 (f32_mul (avg_access t) 2)"

definition warm_threshold :: "dirty_page_tracker \<Rightarrow> nat" where
  "warm_threshold t = f32_to_u32 (f32_mul (avg_access t) (1 / 2))"

fun classify_pages :: "nat \<Rightarrow> nat \<Rightarrow> (nat \<times> nat) list \<Rightarrow> temperature_map \<Rightarrow> temperature_map" where
  "classify_pages ht wt [] m = m"
| "classify_pages ht wt ((idx, cnt) # cs) m =
     classify_pages ht wt cs
       (if cnt \<ge> ht \<and> cnt > 0 then m\<lparr>hot_pages := hot_pages m @ [idx]\<rparr>
        else if cnt \<ge> wt then m\<lparr>warm_pages := warm_pages m @ [idx]\<rparr>
        else m\<lparr>cold_pages := cold_pages m @ [idx]\<rparr>)"

definition classify_temperature :: "dirty_page_tracker \<Rightarrow> temperature_map" where
  "classify_temperature t =
     classify_pages (hot_threshold t) (warm_threshold t) (enumerate 0 (access_counts t))
       \<lparr>hot_pages = [], warm_pages = [], cold_pages = []\<rparr>"

section \<open>The snapshot manager\<close>

record snapshot_manager =
  mgr_regions :: "(string, dirty_page_tracker) hmap"
  mgr_cache :: "(string, memory_page) hmap"
  mgr_hot :: compression_algorithm
  mgr_warm :: compression_algorithm
  mgr_cold :: compression_algorithm

definition manager_new :: snapshot_manager where
  "manager_new = \<lparr>mgr_regions = [], mgr_cache = [], mgr_hot = LZ4, mgr_warm = LZ4, mgr_cold = Zstd\<rparr>"

definition register_region :: "string \<Rightarrow> u64 \<Rightarrow> nat \<Rightarrow> snapshot_manager \<Rightarrow> snapshot_manager" where
  "register_region rid base sz m =
     m\<lparr>mgr_regions := hm_insert rid (tracker_new base sz) (mgr_regions m)\<rparr>"

definition mark_page_dirty :: "string \<Rightarrow> nat \<Rightarrow> snapshot_manager \<Rightarrow> snapshot_manager" where
  "mark_page_dirty rid off m = m\<lparr>mgr_regions := hm_modify rid (mark_dirty off) (mgr_regions m)\<rparr>"

definition record_page_access :: "string \<Rightarrow> nat \<Rightarrow> snapshot_manager \<Rightarrow> snapshot_manager" where
  "record_page_access rid off m =
     m\<lparr>mgr_regions := hm_modify rid (record_access off) (mgr_regions m)\<rparr>"

definition page_temp :: "temperature_map \<Rightarrow> nat \<Rightarrow> memory_temperature" where
  "page_temp tm off =
     (if off \<in> set (hot_pages tm) then Hot else if off \<in> set (warm_pages tm) then Warm else Cold)"

definition page_algorithm :: "snapshot_manager \<Rightarrow> temperature_map \<Rightarrow> nat \<Rightarrow> compression_algorithm" where
  "page_algorithm m tm off =
     (if off \<in> set (hot_pages tm) then mgr_hot m
      else if off \<in> set (warm_pages tm) then mgr_warm m else mgr_cold m)"

definition page_slice :: "bytes \<Rightarrow> nat \<Rightarrow> bytes" where
  "page_slice mem off = take PAGE_SIZE (drop (off * PAGE_SIZE) mem)"

text \<open>
  The loop of \<^verbatim>\<open>snapshot_dirty\<close> over the dirty pages.  A page that reaches past the memory is
  skipped; a failing codec ends the loop, with the pages cached so far left in the cache.
\<close>

fun snapshot_loop :: "codec \<Rightarrow> (bytes \<Rightarrow> string) \<Rightarrow> temperature_map \<Rightarrow> bytes \<Rightarrow> nat list \<Rightarrow>
    memory_page list \<Rightarrow> snapshot_manager \<Rightarrow>
    snapshot_manager \<times> (memory_error, memory_page list) result" where
  "snapshot_loop cd sha tm mem [] pages m = (m, Ok pages)"
| "snapshot_loop cd sha tm mem (off # offs) pages m =
     (if off * PAGE_SIZE + PAGE_SIZE > length mem
      then snapshot_loop cd sha tm mem offs pages m
      else
        let alg = page_algorithm m tm off in
        case compress cd alg (page_slice mem off) of
          Inl e \<Rightarrow> (m, Err e)
        | Inr c \<Rightarrow>
            let h = sha c;
                p = \<lparr>page_hash = h, page_data = c, page_compression = alg,
                     page_original_size = PAGE_SIZE\<rparr>
            in snapshot_loop cd sha tm mem offs (pages @ [p])
                 (m\<lparr>mgr_cache := hm_insert h p (mgr_cache m)\<rparr>))"

definition snapshot_dirty :: "codec \<Rightarrow> (bytes \<Rightarrow> string) \<Rightarrow> string \<Rightarrow> bytes \<Rightarrow> snapshot_manager \<Rightarrow>
    snapshot_manager \<times> (memory_error, memory_page list) result" where
  "snapshot_dirty cd sha rid mem m =
     (case hm_get (mgr_regions m) rid of
        None \<Rightarrow> (m, Err (MemNotFound (''Region '' @ rid @ '' not found'')))
      | Some t \<Rightarrow>
          (case snapshot_loop cd sha (classify_temperature t) mem (get_dirty_pages t) [] m of
             (m', Inl e) \<Rightarrow> (m', Err e)
           | (m', Inr ps) \<Rightarrow>
               (m'\<lparr>mgr_regions := hm_modify rid clear_dirty (mgr_regions m')\<rparr>, Ok ps)))"

definition mem_get_page :: "string \<Rightarrow> snapshot_manager \<Rightarrow> memory_page option" where
  "mem_get_page h m = hm_get (mgr_cache m) h"

definition create_region_entry ::
  "dirty_page_tracker \<Rightarrow> string \<Rightarrow> nat \<Rightarrow> u64 \<Rightarrow> memory_temperature \<Rightarrow> memory_region" where
  "create_region_entry t rid page_start sz temp =
     (let base = base_addr t + of_nat (page_start * PAGE_SIZE)
      in \<lparr>region_id = rid @ ''-'' @ hex_str (unat base), region_base = base, region_size = sz,
          region_flags = \<lparr>flag_read = True, flag_write = True, flag_execute = False\<rparr>,
          region_temperature = temp\<rparr>)"

text \<open>
  The loop of \<^verbatim>\<open>generate_manifest\<close>: \<open>cur\<close>, \<open>start\<close> and \<open>sz\<close> are the run of pages being
  grouped.  When the pages are exhausted the last run is pushed.
\<close>

fun manifest_loop :: "(nat \<Rightarrow> u64 \<Rightarrow> memory_temperature \<Rightarrow> memory_region) \<Rightarrow>
    (nat \<Rightarrow> memory_temperature) \<Rightarrow> nat list \<Rightarrow> memory_temperature option \<Rightarrow> nat \<Rightarrow> u64 \<Rightarrow>
    memory_region list \<Rightarrow> memory_region list" where
  "manifest_loop entry temp [] cur start sz acc =
     (case cur of Some c \<Rightarrow> if sz > 0 then acc @ [entry start sz c] else acc | None \<Rightarrow> acc)"
| "manifest_loop entry temp (off # offs) cur start sz acc =
     (if cur = Some (temp off)
      then manifest_loop entry temp offs cur start (sz + of_nat PAGE_SIZE) acc
      else manifest_loop entry temp offs (Some (temp off)) off (of_nat PAGE_SIZE)
             (case cur of Some c \<Rightarrow> if sz > 0 then acc @ [entry start sz c] else acc | None \<Rightarrow> acc))"

definition generate_manifest :: "string \<Rightarrow> snapshot_manager \<Rightarrow> memory_region list option" where
  "generate_manifest rid m =
     (case hm_get (mgr_regions m) rid of
        None \<Rightarrow> None
      | Some t \<Rightarrow>
          Some (manifest_loop (create_region_entry t rid) (page_temp (classify_temperature t))
                  [0..<length (dirty_bitmap t)] None 0 0 []))"

text \<open>\<^verbatim>\<open>build_reverse_index\<close> maps every cached hash to itself.\<close>

definition build_reverse_index :: "(string, memory_page) hmap \<Rightarrow> (string, string) hmap" where
  "build_reverse_index cache = fold (\<lambda>(h, p). hm_insert h h) cache []"

definition prefetch_hot_pages :: "string \<Rightarrow> snapshot_manager \<Rightarrow> (memory_error, memory_page list) result" where
  "prefetch_hot_pages rid m =
     (case hm_get (mgr_regions m) rid of
        None \<Rightarrow> Err (MemNotFound (''Region '' @ rid @ '' not found''))
      | Some t \<Rightarrow>
          (let index = build_reverse_index (mgr_cache m) in
           Ok (concat (map (\<lambda>off.
             (case hm_get index (rid @ ''-'' @ dec_str off) of
                None \<Rightarrow> []
              | Some h \<Rightarrow> (case hm_get (mgr_cache m) h of None \<Rightarrow> [] | Some p \<Rightarrow> [p])))
             (hot_pages (classify_temperature t))))))"

text \<open>
  The two indexes over a manifest.  \<^verbatim>\<open>build_page_offset_index\<close> divides by its page size: with
  page size 0 it panics, here \<open>None\<close>.
\<close>

definition region_digest :: "(bytes \<Rightarrow> string) \<Rightarrow> memory_region \<Rightarrow> string" where
  "region_digest sha r =
     sha (map of_char (region_id r) @ be64 (region_base r) @ be64 (region_size r))"

definition build_region_index ::
  "(bytes \<Rightarrow> string) \<Rightarrow> memory_region list \<Rightarrow> (string, string) hmap" where
  "build_region_index sha rs = fold (\<lambda>r. hm_insert (region_id r) (region_digest sha r)) rs []"

definition index_region_pages ::
  "nat \<Rightarrow> memory_region \<Rightarrow> (u64, string) hmap \<Rightarrow> (u64, string) hmap" where
  "index_region_pages page_size r ix =
     fold (\<lambda>k. hm_insert (region_base r + of_nat (k * page_size)) (region_id r @ ''-'' @ dec_str k))
       [0..<unat (region_size r + of_nat page_size - 1) div page_size] ix"

definition build_page_offset_index ::
  "memory_region list \<Rightarrow> nat \<Rightarrow> (u64, string) hmap option" where
  "build_page_offset_index rs page_size =
     (if page_size = 0 \<and> rs \<noteq> [] then None else Some (fold (index_region_pages page_size) rs []))"

section \<open>The tracker\<close>

lemmas tracker_defs = tracker_new_def mark_dirty_def record_access_def clear_dirty_def

definition tracker_ok :: "dirty_page_tracker \<Rightarrow> bool" where
  "tracker_ok t \<longleftrightarrow>
     length (dirty_bitmap t) = total_size t div PAGE_SIZE \<and>
     length (access_counts t) = length (dirty_bitmap t) \<and>
     (\<forall>c\<in>set (access_counts t). c < 2 ^ 32)"

lemma tracker_ok_new: "tracker_ok (tracker_new base sz)"
  by (auto simp: tracker_ok_def tracker_new_def Let_def)

lemma tracker_ok_mark: "tracker_ok t \<Longrightarrow> tracker_ok (mark_dirty off t)"
  by (simp add: tracker_ok_def mark_dirty_def)

lemma tracker_ok_access: "tracker_ok t \<Longrightarrow> tracker_ok (record_access off t)"
  by (auto simp: tracker_ok_def record_access_def dest!: set_update_subset_insert [THEN subsetD])

lemma tracker_ok_clear: "tracker_ok t \<Longrightarrow> tracker_ok (clear_dirty t)"
  by (simp add: tracker_ok_def clear_dirty_def)

lemmas tracker_ok_steps = tracker_ok_new tracker_ok_mark tracker_ok_access tracker_ok_clear

lemma enumerate_filter_snd:
  "map fst (filter (P \<circ> snd) (enumerate k xs)) = filter (\<lambda>i. P (xs ! (i - k))) [k..<k + length xs]"
proof (induction xs arbitrary: k)
  case (Cons x xs)
  have upt: "[k..<k + length (x # xs)] = k # [Suc k..<Suc k + length xs]"
    by (simp add: upt_conv_Cons del: upt_Suc)
  have "filter (\<lambda>i. P ((x # xs) ! (i - k))) [Suc k..<Suc k + length xs]
      = filter (\<lambda>i. P (xs ! (i - Suc k))) [Suc k..<Suc k + length xs]"
    by (rule filter_cong) (auto simp: nth_Cons' Suc_diff_le)
  then show ?case unfolding upt using Cons.IH [of "Suc k"] by (simp del: upt_Suc)
qed simp

lemma get_dirty_pages_filter:
  "get_dirty_pages t = filter (\<lambda>i. dirty_bitmap t ! i) [0..<length (dirty_bitmap t)]"
  using enumerate_filter_snd [of "\<lambda>b. b" 0 "dirty_bitmap t"]
  by (simp add: get_dirty_pages_def comp_def)

lemma get_dirty_pages_iff:
  "off \<in> set (get_dirty_pages t) \<longleftrightarrow> off < length (dirty_bitmap t) \<and> dirty_bitmap t ! off"
  by (auto simp: get_dirty_pages_filter)

lemma get_dirty_pages_mark:
  "set (get_dirty_pages (mark_dirty off t)) =
     (if off < length (dirty_bitmap t) then insert off (set (get_dirty_pages t))
      else set (get_dirty_pages t))"
  by (auto simp: get_dirty_pages_filter mark_dirty_def nth_list_update split: if_splits)

lemma get_dirty_pages_clear [simp]: "get_dirty_pages (clear_dirty t) = []"
  by (simp add: get_dirty_pages_filter clear_dirty_def)

section \<open>Temperatures\<close>

lemma classify_pages_eq:
  "classify_pages ht wt cs m =
     \<lparr>hot_pages = hot_pages m @ map fst (filter (\<lambda>(i, c). c \<ge> ht \<and> c > 0) cs),
      warm_pages = warm_pages m @ map fst (filter (\<lambda>(i, c). \<not> (c \<ge> ht \<and> c > 0) \<and> c \<ge> wt) cs),
      cold_pages = cold_pages m @ map fst (filter (\<lambda>(i, c). \<not> (c \<ge> ht \<and> c > 0) \<and> \<not> c \<ge> wt) cs)\<rparr>"
  by (induction ht wt cs m rule: classify_pages.induct) auto

lemma classify_temperature_eq:
  fixes t
  defines "n \<equiv> length (access_counts t)" and "c \<equiv> (!) (access_counts t)"
    and "ht \<equiv> hot_threshold t" and "wt \<equiv> warm_threshold t"
  shows "classify_temperature t =
    \<lparr>hot_pages = filter (\<lambda>i. c i \<ge> ht \<and> c i > 0) [0..<n],
     warm_pages = filter (\<lambda>i. \<not> (c i \<ge> ht \<and> c i > 0) \<and> c i \<ge> wt) [0..<n],
     cold_pages = filter (\<lambda>i. \<not> (c i \<ge> ht \<and> c i > 0) \<and> \<not> c i \<ge> wt) [0..<n]\<rparr>"
proof -
  have *: "map fst (filter (\<lambda>(i, x). P x) (enumerate 0 (access_counts t))) =
      filter (\<lambda>i. P (c i)) [0..<n]" for P
    using enumerate_filter_snd [of P 0 "access_counts t"]
    by (simp add: comp_def case_prod_beta' n_def c_def)
  show ?thesis
    unfolding classify_temperature_def classify_pages_eq
    by (simp only: * ht_def wt_def append_Nil temperature_map.simps)
qed

lemma page_temp_Hot_iff: "page_temp (classify_temperature t) off = Hot \<longleftrightarrow>
    off < length (access_counts t) \<and> access_counts t ! off \<ge> hot_threshold t \<and>
    access_counts t ! off > 0"
  by (auto simp: page_temp_def classify_temperature_eq)

lemma avg_access_zero: "sum_list (access_counts t) = 0 \<Longrightarrow> avg_access t = 0"
  by (simp add: avg_access_def Let_def f32_of_nat_def f32_div_def del: sum_list_eq_0_iff)

section \<open>Dirty-page snapshots\<close>

text \<open>Content addressing: every cached page is stored under the hash of its data.\<close>

definition cache_ok :: "(bytes \<Rightarrow> string) \<Rightarrow> snapshot_manager \<Rightarrow> bool" where
  "cache_ok sha m \<longleftrightarrow>
     (\<forall>h p. hm_get (mgr_cache m) h = Some p \<longrightarrow> page_hash p = h \<and> sha (page_data p) = h)"

definition page_in_range :: "bytes \<Rightarrow> nat \<Rightarrow> bool" where
  "page_in_range mem off \<longleftrightarrow> off * PAGE_SIZE + PAGE_SIZE \<le> length mem"

lemma decompress_compress:
  "codec_ok cd \<Longrightarrow> compress cd alg d = Inr c \<Longrightarrow> decompress cd alg c = Inr d"
  by (cases alg) (auto simp: codec_ok_def map_err_def split: sum.splits)

lemma snapshot_loop_regions:
  "snapshot_loop cd sha tm mem offs ps m = (m', r) \<Longrightarrow> mgr_regions m' = mgr_regions m"
  by (induction cd sha tm mem offs ps m rule: snapshot_loop.induct)
    (auto simp: Let_def split: if_splits sum.splits)

lemma cache_ok_insert: "cache_ok sha m \<Longrightarrow> page_hash p = h \<Longrightarrow> sha (page_data p) = h \<Longrightarrow>
    cache_ok sha (m\<lparr>mgr_cache := hm_insert h p (mgr_cache m)\<rparr>)"
  by (simp add: cache_ok_def)

lemma snapshot_loop_cache_ok:
  "snapshot_loop cd sha tm mem offs ps m = (m', r) \<Longrightarrow> cache_ok sha m \<Longrightarrow> cache_ok sha m'"
  by (induction cd sha tm mem offs ps m rule: snapshot_loop.induct)
    (auto simp: Let_def cache_ok_insert split: if_splits sum.splits)

lemma snapshot_loop_cache_mono:
  "snapshot_loop cd sha tm mem offs ps m = (m', r) \<Longrightarrow> hm_get (mgr_cache m) h \<noteq> None \<Longrightarrow>
     hm_get (mgr_cache m') h \<noteq> None"
  by (induction cd sha tm mem offs ps m rule: snapshot_loop.induct)
    (auto simp: Let_def split: if_splits sum.splits)

lemma snapshot_loop_pages:
  assumes "snapshot_loop cd sha tm mem offs ps m = (m', Inr qs)" "codec_ok cd"
  shows "\<exists>new. qs = ps @ new \<and>
    map (\<lambda>p. decompress cd (page_compression p) (page_data p)) new =
      map (\<lambda>off. Ok (page_slice mem off)) (filter (page_in_range mem) offs) \<and>
    map page_compression new = map (page_algorithm m tm) (filter (page_in_range mem) offs) \<and>
    (\<forall>p\<in>set new. page_hash p = sha (page_data p) \<and> page_original_size p = PAGE_SIZE \<and>
       hm_get (mgr_cache m') (page_hash p) \<noteq> None)"
  using assms
proof (induction cd sha tm mem offs ps m rule: snapshot_loop.induct)
  case (2 cd sha tm mem off offs pages m)
  show ?case
  proof (cases "off * PAGE_SIZE + PAGE_SIZE > length mem")
    case True
    with 2 show ?thesis by (simp add: page_in_range_def)
  next
    case False
    let ?alg = "page_algorithm m tm off"
    from 2(3) False obtain c where c: "compress cd ?alg (page_slice mem off) = Inr c"
      by (auto simp: Let_def split: sum.splits)
    let ?p = "\<lparr>page_hash = sha c, page_data = c, page_compression = ?alg,
                page_original_size = PAGE_SIZE\<rparr>"
    let ?m = "m\<lparr>mgr_cache := hm_insert (sha c) ?p (mgr_cache m)\<rparr>"
    have rec: "snapshot_loop cd sha tm mem offs (pages @ [?p]) ?m = (m', Inr qs)"
      using 2(3) False c by (simp add: Let_def)
    have range: "page_in_range mem off" using False by (simp add: page_in_range_def)
    have alg: "page_algorithm ?m tm = page_algorithm m tm"
      by (rule ext) (simp add: page_algorithm_def)
    from snapshot_loop_cache_mono [OF rec] have "hm_get (mgr_cache m') (sha c) \<noteq> None" by simp
    moreover from 2(2) [OF False refl c refl refl rec 2(4)] obtain new where
      "qs = (pages @ [?p]) @ new"
      "map (\<lambda>p. decompress cd (page_compression p) (page_data p)) new =
        map (\<lambda>off. Ok (page_slice mem off)) (filter (page_in_range mem) offs)"
      "map page_compression new = map (page_algorithm m tm) (filter (page_in_range mem) offs)"
      "\<forall>p\<in>set new. page_hash p = sha (page_data p) \<and> page_original_size p = PAGE_SIZE \<and>
         hm_get (mgr_cache m') (page_hash p) \<noteq> None"
      unfolding alg by blast
    ultimately show ?thesis
      using range decompress_compress [OF 2(4) c] by (intro exI [of _ "?p # new"]) auto
  qed
qed simp

section \<open>The manifest\<close>

text \<open>
  The specification of a manifest: its regions tile the memory from page \<open>pos\<close> on without a
  gap, and \<open>expand\<close> spells out the temperature of each page.
\<close>

fun tiles :: "u64 \<Rightarrow> nat \<Rightarrow> memory_region list \<Rightarrow> bool" where
  "tiles base pos [] \<longleftrightarrow> True"
| "tiles base pos (r # rs) \<longleftrightarrow>
     region_base r = base + of_nat (pos * PAGE_SIZE) \<and> 0 < region_size r \<and>
     PAGE_SIZE dvd unat (region_size r) \<and>
     tiles base (pos + unat (region_size r) div PAGE_SIZE) rs"

definition expand :: "memory_region list \<Rightarrow> memory_temperature list" where
  "expand rs =
     concat (map (\<lambda>r. replicate (unat (region_size r) div PAGE_SIZE) (region_temperature r)) rs)"

lemma expand_simps [simp]: "expand [] = []"
  "expand (r # rs) =
     replicate (unat (region_size r) div PAGE_SIZE) (region_temperature r) @ expand rs"
  by (simp_all add: expand_def)

lemma region_entry_simps [simp]:
  "region_base (create_region_entry t rid start sz T) = base_addr t + of_nat (start * PAGE_SIZE)"
  "region_size (create_region_entry t rid start sz T) = sz"
  "region_temperature (create_region_entry t rid start sz T) = T"
  by (simp_all add: create_region_entry_def Let_def)

lemma PAGE_SIZE_pos [simp]: "0 < PAGE_SIZE" "PAGE_SIZE \<noteq> 0"
  by (simp_all add: PAGE_SIZE_def)

lemma unat_page_size [simp]: "unat (of_nat PAGE_SIZE :: u64) = PAGE_SIZE"
  by (simp add: PAGE_SIZE_def)

lemma unat_add_page:
  assumes "unat sz = j * PAGE_SIZE" "Suc j * PAGE_SIZE < 2 ^ 64"
  shows "unat (sz + of_nat PAGE_SIZE :: u64) = Suc j * PAGE_SIZE"
  using assms by (simp add: unat_word_ariths)

lemma manifest_loop_runs:
  assumes "n * PAGE_SIZE < 2 ^ 64" "k \<le> n" "start < k" "unat sz = (k - start) * PAGE_SIZE"
  shows "\<exists>rs. manifest_loop (create_region_entry t rid) temp [k..<n] (Some T) start sz acc = acc @ rs \<and>
    tiles (base_addr t) start rs \<and> expand rs = replicate (k - start) T @ map temp [k..<n] \<and>
    distinct_adj (map region_temperature rs) \<and> rs \<noteq> [] \<and> region_temperature (hd rs) = T"
  using assms(2-)
proof (induction "n - k" arbitrary: k start sz T acc)
  case 0
  let ?r = "create_region_entry t rid start sz T"
  from 0 have "k = n" and "sz > 0" by (simp_all add: word_gt_0 unat_eq_zero [symmetric])
  then show ?case using 0 by (intro exI [of _ "[?r]"]) simp
next
  case (Suc d)
  then have k: "k < n" and d: "d = n - Suc k" by simp_all
  have upt: "[k..<n] = k # [Suc k..<n]" using k by (simp add: upt_conv_Cons)
  have "Suc (k - start) * PAGE_SIZE \<le> n * PAGE_SIZE"
    using k Suc.prems by (intro mult_le_mono1) simp
  with assms(1) have small: "Suc (k - start) * PAGE_SIZE < 2 ^ 64" by linarith
  show ?case
  proof (cases "temp k = T")
    case True
    have "unat (sz + of_nat PAGE_SIZE) = (Suc k - start) * PAGE_SIZE"
      using unat_add_page [OF Suc.prems(3) small] Suc.prems by (simp add: Suc_diff_le)
    from Suc.hyps(1) [OF d _ _ this, of T acc] k Suc.prems True show ?thesis
      by (auto simp: upt Suc_diff_le replicate_append_same [symmetric] simp del: upt_Suc)
  next
    case False
    let ?r = "create_region_entry t rid start sz T"
    have pos: "sz > 0" using Suc.prems by (simp add: word_gt_0 unat_eq_zero [symmetric])
    from Suc.hyps(1) [OF d _ _, of k "of_nat PAGE_SIZE" "temp k" "acc @ [?r]"] k
    obtain rs where rs: "manifest_loop (create_region_entry t rid) temp [Suc k..<n] (Some (temp k)) k
        (of_nat PAGE_SIZE) (acc @ [?r]) = (acc @ [?r]) @ rs"
      "tiles (base_addr t) k rs" "expand rs = temp k # map temp [Suc k..<n]"
      "distinct_adj (map region_temperature rs)" "rs \<noteq> []" "region_temperature (hd rs) = temp k"
      by auto
    then show ?thesis
      using False pos Suc.prems
      by (intro exI [of _ "?r # rs"]) (auto simp: upt neq_Nil_conv simp del: upt_Suc)
  qed
qed

lemma manifest_of_tracker:
  assumes "n * PAGE_SIZE < 2 ^ 64"
  shows "\<exists>rs. manifest_loop (create_region_entry t rid) temp [0..<n] None 0 0 [] = rs \<and>
    tiles (base_addr t) 0 rs \<and> expand rs = map temp [0..<n] \<and>
    distinct_adj (map region_temperature rs)"
proof (cases "n = 0")
  case False
  then have upt: "[0..<n] = 0 # [Suc 0..<n]" by (simp add: upt_conv_Cons)
  from manifest_loop_runs [OF assms, of 1 0 "of_nat PAGE_SIZE" t rid temp "temp 0" "[]"] False
  show ?thesis by (auto simp: upt simp del: upt_Suc)
qed simp

section \<open>Prefetching\<close>

lemma hm_get_reverse_index:
  "hm_get (build_reverse_index cache) k =
     (if k \<in> fst ` set cache then Some k else None)"
proof -
  have "hm_get (fold (\<lambda>(h, p). hm_insert h h) cache m) k =
      (if k \<in> fst ` set cache then Some k else hm_get m k)" for m :: "(string, string) hmap"
    by (induction cache arbitrary: m) auto
  then show ?thesis by (simp add: build_reverse_index_def)
qed

section \<open>Properties\<close>

lemma warm_of_unused:
  assumes "sum_list (access_counts t) = 0"
  shows "warm_pages (classify_temperature t) = [0..<length (access_counts t)]"
proof -
  from assms have "i < length (access_counts t) \<Longrightarrow> access_counts t ! i = 0" for i
    by (simp add: sum_list_eq_0_iff)
  moreover have "warm_threshold t = 0"
    using avg_access_zero [OF assms] by (simp add: warm_threshold_def f32_mul_def f32_to_u32_def)
  ultimately show ?thesis by (simp add: classify_temperature_eq)
qed

text \<open>Every page of a region falls in exactly one temperature tier (the tiers are disjoint,
  duplicate free and together hold all pages); the hot tier is the accessed pages whose count
  reaches twice the average; in a newly registered region every page is warm.\<close>

theorem temperature_partition:
  "mset (hot_pages (classify_temperature t) @ warm_pages (classify_temperature t)
      @ cold_pages (classify_temperature t)) = mset [0..<length (access_counts t)] \<and>
   set (hot_pages (classify_temperature t)) =
     {i. i < length (access_counts t) \<and> hot_threshold t \<le> access_counts t ! i \<and>
         0 < access_counts t ! i} \<and>
   warm_pages (classify_temperature (tracker_new base sz)) = [0..<sz div PAGE_SIZE]"
proof -
  have "sum_list (access_counts (tracker_new base sz)) = 0"
    by (simp add: tracker_new_def Let_def)
  from warm_of_unused [OF this]
  have warm: "warm_pages (classify_temperature (tracker_new base sz)) = [0..<sz div PAGE_SIZE]"
    by (simp add: tracker_new_def Let_def)
  have all: "mset (hot_pages (classify_temperature t) @ warm_pages (classify_temperature t)
      @ cold_pages (classify_temperature t)) = mset [0..<length (access_counts t)]"
    by (simp only: classify_temperature_eq temperature_map.simps mset_append mset_filter3
        flip: add.assoc)
  from warm show ?thesis unfolding all by (auto simp: classify_temperature_eq)
qed

lemma snapshot_dirty_result:
  assumes "hm_get (mgr_regions m) rid = Some t" and "codec_ok cd" and "cache_ok sha m"
    and "snapshot_dirty cd sha rid mem m = (m', Inr ps)"
  shows "map (\<lambda>p. decompress cd (page_compression p) (page_data p)) ps =
      map (\<lambda>off. Ok (page_slice mem off)) (filter (page_in_range mem) (get_dirty_pages t)) \<and>
    (\<forall>p\<in>set ps. page_hash p = sha (page_data p) \<and>
       (\<exists>q. mem_get_page (page_hash p) m' = Some q \<and> sha (page_data q) = page_hash p)) \<and>
    hm_get (mgr_regions m') rid = Some (clear_dirty t) \<and> cache_ok sha m'"
proof -
  from assms(1,4) obtain m1 where loop: "snapshot_loop cd sha (classify_temperature t) mem
      (get_dirty_pages t) [] m = (m1, Inr ps)"
    and m': "m' = m1\<lparr>mgr_regions := hm_modify rid clear_dirty (mgr_regions m1)\<rparr>"
    by (auto simp: snapshot_dirty_def split: prod.splits sum.splits)
  note reg = snapshot_loop_regions [OF loop]
  have ok: "cache_ok sha m'"
    using snapshot_loop_cache_ok [OF loop assms(3)] by (simp add: m' cache_ok_def)
  from snapshot_loop_pages [OF loop assms(2)]
  have pages: "map (\<lambda>p. decompress cd (page_compression p) (page_data p)) ps =
      map (\<lambda>off. Ok (page_slice mem off)) (filter (page_in_range mem) (get_dirty_pages t))"
    and hash: "\<forall>p\<in>set ps. page_hash p = sha (page_data p) \<and> mem_get_page (page_hash p) m' \<noteq> None"
    by (auto simp: m' mem_get_page_def)
  with ok reg assms(1) show ?thesis by (force simp: m' mem_get_page_def cache_ok_def)
qed

text \<open>C5. A successful snapshot of a region returns one page per dirty page that lies within the
  memory, in ascending order; each decompresses to that page's bytes, is labelled with the hash
  of its data and can be fetched from the cache under it; afterwards no page is dirty and the
  cache is still content-addressed.\<close>

theorem snapshot_dirty_pages:
  assumes "hm_get (mgr_regions m) rid = Some t" and "codec_ok cd" and "cache_ok sha m"
    and "snapshot_dirty cd sha rid mem m = (m', Inr ps)"
  shows "map (\<lambda>p. decompress cd (page_compression p) (page_data p)) ps =
      map (\<lambda>off. Ok (page_slice mem off)) (filter (page_in_range mem) (get_dirty_pages t)) \<and>
    (\<forall>p\<in>set ps. page_hash p = sha (page_data p) \<and>
       (\<exists>q. mem_get_page (page_hash p) m' = Some q \<and> sha (page_data q) = page_hash p)) \<and>
    hm_get (mgr_regions m') rid = Some (clear_dirty t) \<and> cache_ok sha m'"
  by (rule snapshot_dirty_result [OF assms])

text \<open>A concrete run: identity codecs, one region of one page, marked dirty.\<close>

definition demo_codec :: codec where
  "demo_codec = \<lparr>lz4_compress = Inr, lz4_decompress = Inr, zstd_encode = Inr, zstd_decode = Inr\<rparr>"

definition demo_manager :: snapshot_manager where
  "demo_manager = mark_page_dirty ''r'' 0 (register_region ''r'' 0 4096 manager_new)"

lemma demo_codec_compress [simp]: "compress demo_codec alg d = Inr d"
  by (cases alg) (simp_all add: demo_codec_def map_err_def)

lemma demo_codec_ok: "codec_ok demo_codec"
  by (simp add: codec_ok_def demo_codec_def)

lemma demo_manager_region:
  "hm_get (mgr_regions demo_manager) ''r'' = Some (mark_dirty 0 (tracker_new 0 4096))"
  by (simp add: demo_manager_def mark_page_dirty_def register_region_def)

lemma demo_manager_cache [simp]: "mgr_cache demo_manager = []"
  by (simp add: demo_manager_def mark_page_dirty_def register_region_def manager_new_def)

lemma demo_manager_cache_ok: "cache_ok sha demo_manager"
  by (simp add: cache_ok_def)

lemma demo_dirty_pages: "get_dirty_pages (mark_dirty 0 (tracker_new 0 4096)) = [0]"
  by (simp add: get_dirty_pages_def mark_dirty_def tracker_new_def PAGE_SIZE_def Let_def)

theorem snapshot_dirty_pages_witness:
  "\<exists>m' ps. snapshot_dirty demo_codec (\<lambda>d. ''h'') ''r'' (replicate 4096 7) demo_manager = (m', Inr ps) \<and>
     map (\<lambda>p. decompress demo_codec (page_compression p) (page_data p)) ps = [Ok (replicate 4096 7)]"
proof -
  obtain m' ps where run:
    "snapshot_dirty demo_codec (\<lambda>d. ''h'') ''r'' (replicate 4096 7) demo_manager = (m', Inr ps)"
    by (simp add: snapshot_dirty_def demo_manager_region demo_dirty_pages Let_def PAGE_SIZE_def)
  from snapshot_dirty_pages [OF demo_manager_region demo_codec_ok demo_manager_cache_ok run] run
  show ?thesis
    by (simp add: demo_dirty_pages page_in_range_def page_slice_def PAGE_SIZE_def)
qed

text \<open>When a codec fails during a snapshot, no region changes: every dirty page is still dirty
  (the pages compressed before the failure stay in the cache, which remains content-addressed).
  A snapshot of an unknown region fails and changes nothing.\<close>

theorem snapshot_dirty_error:
  "snapshot_dirty cd sha rid mem m = (m', Inl e) \<Longrightarrow> cache_ok sha m \<Longrightarrow>
     mgr_regions m' = mgr_regions m \<and> cache_ok sha m' \<and>
     (hm_get (mgr_regions m) rid = None \<longrightarrow>
        m' = m \<and> e = MemNotFound (''Region '' @ rid @ '' not found''))"
  by (auto simp: snapshot_dirty_def snapshot_loop_regions snapshot_loop_cache_ok
      split: option.splits prod.splits sum.splits dest: snapshot_loop_regions)

theorem snapshot_dirty_error_witness:
  "\<exists>m' e. snapshot_dirty (demo_codec\<lparr>lz4_compress := \<lambda>d. Inl ''full'', zstd_encode := \<lambda>d. Inl ''full''\<rparr>)
     (\<lambda>d. ''h'') ''r'' (replicate 4096 7) (demo_manager\<lparr>mgr_cold := LZ4\<rparr>) = (m', Inl e) \<and>
     mgr_regions m' = mgr_regions demo_manager"
  (is "\<exists>m' e. ?run = (m', Inl e) \<and> _")
proof -
  have "page_algorithm (demo_manager\<lparr>mgr_cold := LZ4\<rparr>) tm off = LZ4" for tm off
    by (simp add: page_algorithm_def demo_manager_def mark_page_dirty_def register_region_def
        manager_new_def)
  then obtain m' e where run: "?run = (m', Inl e)"
    by (simp add: snapshot_dirty_def demo_manager_region demo_dirty_pages Let_def PAGE_SIZE_def
        map_err_def)
  have "cache_ok (\<lambda>d. ''h'') (demo_manager\<lparr>mgr_cold := LZ4\<rparr>)"
    by (simp add: cache_ok_def)
  from snapshot_dirty_error [OF run this] run show ?thesis by simp
qed

text \<open>The memory manifest of a region describes it exactly: its entries tile the address range
  from the base address on without gap or overlap, adjacent entries differ in temperature, and
  expanding them gives the temperature of every page.\<close>

theorem manifest_describes_region:
  assumes "hm_get (mgr_regions m) rid = Some t"
    and "length (dirty_bitmap t) * PAGE_SIZE < 2 ^ 64"
  shows "\<exists>mf. generate_manifest rid m = Some mf \<and> tiles (base_addr t) 0 mf \<and>
    expand mf = map (page_temp (classify_temperature t)) [0..<length (dirty_bitmap t)] \<and>
    distinct_adj (map region_temperature mf)"
  using manifest_of_tracker [OF assms(2)] assms(1) by (auto simp: generate_manifest_def)

theorem manifest_describes_region_witness:
  "\<exists>mf. generate_manifest ''r'' demo_manager = Some mf \<and> expand mf = [Warm]"
proof -
  have "page_temp (classify_temperature (mark_dirty 0 (tracker_new 0 4096))) 0 = Warm"
    by (simp add: page_temp_def classify_temperature_eq warm_threshold_def hot_threshold_def
        avg_access_def tracker_defs PAGE_SIZE_def f32_of_nat_def f32_div_def f32_mul_def
        f32_to_u32_def Let_def)
  with manifest_describes_region [OF demo_manager_region] show ?thesis
    by (force simp: mark_dirty_def tracker_new_def PAGE_SIZE_def Let_def)
qed

text \<open>Prefetching never finds a page: the index maps hashes to themselves but is asked for keys of
  the form region-offset, so as long as no digest contains a hyphen, which no hexadecimal digest
  does, the hot pages of every known region prefetch to nothing.\<close>

theorem prefetch_finds_nothing:
  assumes "cache_ok sha m" and "\<And>d. CHR ''-'' \<notin> set (sha d)"
    and "hm_get (mgr_regions m) rid = Some t"
  shows "prefetch_hot_pages rid m = Ok []"
proof -
  have "rid @ ''-'' @ dec_str off \<notin> fst ` set (mgr_cache m)" for off
  proof
    assume "rid @ ''-'' @ dec_str off \<in> fst ` set (mgr_cache m)"
    then obtain p where "hm_get (mgr_cache m) (rid @ ''-'' @ dec_str off) = Some p"
      using hm_get_None_iff [of "mgr_cache m"] by (metis not_None_eq)
    with assms(1) have "sha (page_data p) = rid @ ''-'' @ dec_str off"
      by (auto simp: cache_ok_def)
    with assms(2) [of "page_data p"] show False by simp
  qed
  then show ?thesis
    using assms(3) by (simp add: prefetch_hot_pages_def hm_get_reverse_index Let_def)
qed

text \<open>A region of two pages whose first page, accessed four times, is hot and is in the cache.\<close>

definition demo_hot :: snapshot_manager where
  "demo_hot = manager_new\<lparr>
     mgr_regions := [(''r'', (tracker_new 0 8192)\<lparr>access_counts := [4, 0]\<rparr>)],
     mgr_cache := [(''h'', \<lparr>page_hash = ''h'', page_data = [1], page_compression = LZ4,
                            page_original_size = 4096\<rparr>)]\<rparr>"

theorem prefetch_finds_nothing_witness:
  "prefetch_hot_pages ''r'' demo_hot = Ok [] \<and>
   hot_pages (classify_temperature ((tracker_new 0 8192)\<lparr>access_counts := [4, 0]\<rparr>)) = [0]"
proof -
  have cached: "cache_ok (\<lambda>d. ''h'') demo_hot"
    by (simp add: cache_ok_def demo_hot_def hm_get_def)
  have region: "hm_get (mgr_regions demo_hot) ''r'' =
      Some ((tracker_new 0 8192)\<lparr>access_counts := [4, 0]\<rparr>)"
    by (simp add: demo_hot_def hm_get_def)
  have "prefetch_hot_pages ''r'' demo_hot = Ok []"
    by (rule prefetch_finds_nothing [OF cached _ region]) simp
  moreover have "hot_threshold ((tracker_new 0 8192)\<lparr>access_counts := [4, 0]\<rparr>) = 4"
    using f32_round_nat [of 4] f32_round_nat [of 2]
    by (simp add: hot_threshold_def avg_access_def tracker_new_def PAGE_SIZE_def f32_of_nat_def
        f32_div_def f32_mul_def f32_to_u32_def Let_def)
  ultimately show ?thesis by (simp add: classify_temperature_eq upt_rec [of 0] upt_rec [of 1])
qed

end
