(* ===== verification/Qssp.thy ===== *)
theory Qssp
  imports Memory
begin

text \<open>
  \<^verbatim>\<open>src/src/quic_transport.rs\<close>: the QUIC State Streaming Protocol.  Modelled: the wire format of
  headers and messages, reading a message from a stream, the page message, the sender (each
  call opens one unidirectional stream and writes its messages to it) and the receiver (one
  handler per accepted stream).

  A receive stream is the sequence of chunks in which the transport delivers its bytes, ended
  by the end of the stream or by a broken connection; \<open>recv_read n\<close> is one read into a buffer
  of \<open>n\<close> bytes.  The JSON encodings (serde_json) are parameters.  The connection is a flag: when
  it is broken, opening or writing a stream fails with its error.  Not modelled: TLS and
  endpoint setup, and the handshake, which the source never sends.
\<close>

definition QSSP_MAGIC :: u32 where "QSSP_MAGIC = 0x51535350"
definition QSSP_VERSION :: u8 where "QSSP_VERSION = 1"

datatype message_type =
    MtHandshakeRequest | MtHandshakeResponse | MtCpuState | MtMemoryPage | MtMemoryManifest
  | MtEventLog | MtPageRequest | MtPageNotFound | MtTransferComplete | MtTransferError | MtKeepAlive

datatype qssp_error =
    QIoError string
  | QConnectionError string
  | QSerializationError string
  | QDeserializationError string
  | InvalidMagic u32
  | UnsupportedVersion u8
  | InvalidMessageType u8
  | IncompleteHeader
  | IncompletePayload

primrec message_type_code :: "message_type \<Rightarrow> u8" where
  "message_type_code MtHandshakeRequest = 0"
| "message_type_code MtHandshakeResponse = 1"
| "message_type_code MtCpuState = 2"
| "message_type_code MtMemoryPage = 3"
| "message_type_code MtMemoryManifest = 4"
| "message_type_code MtEventLog = 5"
| "message_type_code MtPageRequest = 6"
| "message_type_code MtPageNotFound = 7"
| "message_type_code MtTransferComplete = 8"
| "message_type_code MtTransferError = 9"
| "message_type_code MtKeepAlive = 10"

definition message_type_of :: "u8 \<Rightarrow> (qssp_error, message_type) result" where
  "message_type_of v =
     (if v = 0 then Ok MtHandshakeRequest
      else if v = 1 then Ok MtHandshakeResponse
      else if v = 2 then Ok MtCpuState
      else if v = 3 then Ok MtMemoryPage
      else if v = 4 then Ok MtMemoryManifest
      else if v = 5 then Ok MtEventLog
      else if v = 6 then Ok MtPageRequest
      else if v = 7 then Ok MtPageNotFound
      else if v = 8 then Ok MtTransferComplete
      else if v = 9 then Ok MtTransferError
      else if v = 10 then Ok MtKeepAlive
      else Err (InvalidMessageType v))"

section \<open>Headers\<close>

record message_header =
  hdr_magic :: u32
  hdr_version :: u8
  hdr_type :: message_type
  hdr_length :: u32

definition header_new :: "message_type \<Rightarrow> u32 \<Rightarrow> message_header" where
  "header_new ty len =
     \<lparr>hdr_magic = QSSP_MAGIC, hdr_version = QSSP_VERSION, hdr_type = ty, hdr_length = len\<rparr>"

definition header_serialize :: "message_header \<Rightarrow> bytes" where
  "header_serialize h =
     be32 (hdr_magic h) @ [hdr_version h] @ [message_type_code (hdr_type h)] @ be32 (hdr_length h)"

text \<open>
  Parsing advances the buffer; the first component is what is left in it, also when the
  header is refused part of the way through.
\<close>

definition get_u32 :: "bytes \<Rightarrow> u32 \<times> bytes" where
  "get_u32 buf = (from_be32 (buf ! 0) (buf ! 1) (buf ! 2) (buf ! 3), drop 4 buf)"

definition get_u8 :: "bytes \<Rightarrow> u8 \<times> bytes" where
  "get_u8 buf = (buf ! 0, drop 1 buf)"

definition header_deserialize :: "bytes \<Rightarrow> bytes \<times> (qssp_error, message_header option) result" where
  "header_deserialize buf =
     (if length buf < 10 then (buf, Ok None)
      else let (magic, buf) = get_u32 buf in
        if magic \<noteq> QSSP_MAGIC then (buf, Err (InvalidMagic magic))
        else let (version, buf) = get_u8 buf in
          if version \<noteq> QSSP_VERSION then (buf, Err (UnsupportedVersion version))
          else let (ty, buf) = get_u8 buf in
            (case message_type_of ty of
               Inl e \<Rightarrow> (buf, Err e)
             | Inr mt \<Rightarrow>
                 let (len, buf) = get_u32 buf in
                 (buf, Ok (Some \<lparr>hdr_magic = magic, hdr_version = version, hdr_type = mt,
                                 hdr_length = len\<rparr>))))"

section \<open>Messages and streams\<close>

record message =
  msg_header :: message_header
  msg_payload :: bytes

definition message_new :: "message_type \<Rightarrow> bytes \<Rightarrow> message" where
  "message_new ty payload =
     \<lparr>msg_header = header_new ty (of_nat (length payload)), msg_payload = payload\<rparr>"

definition message_serialize :: "message \<Rightarrow> bytes" where
  "message_serialize m = header_serialize (msg_header m) @ msg_payload m"

datatype recv_item = Chunk bytes | Broken string

fun recv_read :: "nat \<Rightarrow> recv_item list \<Rightarrow> recv_item list \<times> (string, bytes option) result" where
  "recv_read n [] = ([], Ok None)"
| "recv_read n (Broken e # s) = (Broken e # s, Err e)"
| "recv_read n (Chunk c # s) =
     (if c = [] then recv_read n s
      else if length c \<le> n then (s, Ok (Some c))
      else (Chunk (drop n c) # s, Ok (Some (take n c))))"

lemma recv_read_Some: "recv_read n s = (s', Inr (Some c)) \<Longrightarrow> 0 < n \<Longrightarrow> 0 < length c \<and> length c \<le> n"
  by (induction n s rule: recv_read.induct) (auto split: if_splits)

text \<open>The payload loop of \<^verbatim>\<open>read_from_stream\<close>: read until \<open>len\<close> bytes are there.\<close>

function read_payload :: "nat \<Rightarrow> bytes \<Rightarrow> recv_item list \<Rightarrow>
    recv_item list \<times> (qssp_error, bytes) result" where
  "read_payload len payload s =
     (if length payload < len then
        (case recv_read (len - length payload) s of
           (s', Inl e) \<Rightarrow> (s', Err (QConnectionError e))
         | (s', Inr None) \<Rightarrow> (s', Err IncompletePayload)
         | (s', Inr (Some c)) \<Rightarrow> read_payload len (payload @ c) s')
      else (s, Ok payload))"
  by pat_completeness auto
termination
proof (relation "measure (\<lambda>(len, payload, s). len - length payload)", goal_cases)
  case (2 len payload s s' r v c)
  then show ?case using recv_read_Some [of "len - length payload" s s' c] by (cases c) auto
qed simp

declare read_payload.simps [simp del]

definition read_from_stream :: "recv_item list \<Rightarrow> recv_item list \<times> (qssp_error, message) result" where
  "read_from_stream s =
     (case recv_read 10 s of
        (s', Inl e) \<Rightarrow> (s', Err (QIoError e))
      | (s', Inr r) \<Rightarrow>
          (case snd (header_deserialize (case r of None \<Rightarrow> [] | Some c \<Rightarrow> c)) of
             Inl e \<Rightarrow> (s', Err e)
           | Inr None \<Rightarrow> (s', Err IncompleteHeader)
           | Inr (Some h) \<Rightarrow>
               (case read_payload (unat (hdr_length h)) [] s' of
                  (s'', Inl e) \<Rightarrow> (s'', Err e)
                | (s'', Inr p) \<Rightarrow> (s'', Ok \<lparr>msg_header = h, msg_payload = p\<rparr>))))"

section \<open>Page messages\<close>

record memory_page_message =
  pm_region_id :: string
  pm_page_offset :: u64
  pm_page_hash :: string
  pm_compression :: u8
  pm_original_size :: u32
  pm_data :: bytes

primrec compression_code :: "compression_algorithm \<Rightarrow> u8" where
  "compression_code CompNone = 0"
| "compression_code LZ4 = 1"
| "compression_code Zstd = 2"

definition compression_of :: "u8 \<Rightarrow> compression_algorithm" where
  "compression_of v =
     (if v = 0 then CompNone else if v = 1 then LZ4 else if v = 2 then Zstd else CompNone)"

definition from_page :: "memory_page \<Rightarrow> string \<Rightarrow> u64 \<Rightarrow> memory_page_message" where
  "from_page p rid off =
     \<lparr>pm_region_id = rid, pm_page_offset = off, pm_page_hash = page_hash p,
      pm_compression = compression_code (page_compression p),
      pm_original_size = of_nat (page_original_size p), pm_data = page_data p\<rparr>"

definition to_page :: "memory_page_message \<Rightarrow> memory_page" where
  "to_page pm =
     \<lparr>page_hash = pm_page_hash pm, page_data = pm_data pm,
      page_compression = compression_of (pm_compression pm),
      page_original_size = unat (pm_original_size pm)\<rparr>"

section \<open>Statistics\<close>

record transfer_stats =
  ts_total_bytes :: nat
  ts_total_pages :: nat
  ts_hot_pages :: nat
  ts_warm_pages :: nat
  ts_cold_pages :: nat
  ts_start_time :: "int option"
  ts_end_time :: "int option"

definition stats_default :: transfer_stats where
  "stats_default = \<lparr>ts_total_bytes = 0, ts_total_pages = 0, ts_hot_pages = 0, ts_warm_pages = 0,
     ts_cold_pages = 0, ts_start_time = None, ts_end_time = None\<rparr>"

definition duration_ms :: "int \<Rightarrow> transfer_stats \<Rightarrow> int option" where
  "duration_ms now st =
     (case (ts_start_time st, ts_end_time st) of
        (Some start, Some end_t) \<Rightarrow> Some (max 0 (end_t - start) div 1000000)
      | (Some start, None) \<Rightarrow> Some (max 0 (now - start) div 1000000)
      | _ \<Rightarrow> None)"

section \<open>The sender\<close>

text \<open>The JSON encodings the protocol uses, for CPU states, page messages and manifests.\<close>

record 'j json_codec =
  ser_cpu :: "'j cpu_state \<Rightarrow> (string, bytes) result"
  de_cpu :: "bytes \<Rightarrow> (string, 'j cpu_state) result"
  ser_page :: "memory_page_message \<Rightarrow> (string, bytes) result"
  de_page :: "bytes \<Rightarrow> (string, memory_page_message) result"
  ser_manifest :: "memory_region list \<Rightarrow> (string, bytes) result"
  de_manifest :: "bytes \<Rightarrow> (string, memory_region list) result"

record uni_stream =
  us_priority :: int
  us_written :: bytes
  us_finished :: bool

record qssp_sender =
  snd_broken :: "string option"
  snd_streams :: "uni_stream list"
  snd_stats :: transfer_stats

definition sender_new :: qssp_sender where
  "sender_new = \<lparr>snd_broken = None, snd_streams = [], snd_stats = stats_default\<rparr>"

definition add_stream :: "uni_stream \<Rightarrow> qssp_sender \<Rightarrow> qssp_sender" where
  "add_stream us s = s\<lparr>snd_streams := snd_streams s @ [us]\<rparr>"

text \<open>
  The calls that send one message: open a stream, set its priority, encode, write, finish.
  When the encoding fails the stream has been opened but is dropped unfinished.
\<close>

definition send_message :: "int \<Rightarrow> message_type \<Rightarrow> (qssp_error, bytes) result \<Rightarrow> qssp_sender \<Rightarrow>
    qssp_sender \<times> (qssp_error, unit) result" where
  "send_message prio ty encoded s =
     (case snd_broken s of
        Some e \<Rightarrow> (s, Err (QConnectionError e))
      | None \<Rightarrow>
          (case encoded of
             Inl e \<Rightarrow> (add_stream \<lparr>us_priority = prio, us_written = [], us_finished = False\<rparr> s, Err e)
           | Inr payload \<Rightarrow>
               (add_stream \<lparr>us_priority = prio, us_written = message_serialize (message_new ty payload),
                            us_finished = True\<rparr> s, Ok ())))"

definition send_cpu_state ::
  "'j json_codec \<Rightarrow> 'j cpu_state \<Rightarrow> qssp_sender \<Rightarrow> qssp_sender \<times> (qssp_error, unit) result" where
  "send_cpu_state js cpu s =
     send_message 1 MtCpuState
       (map_err (\<lambda>e. QSerializationError (''CPU state: '' @ e)) (ser_cpu js cpu)) s"

definition send_manifest ::
  "'j json_codec \<Rightarrow> memory_region list \<Rightarrow> qssp_sender \<Rightarrow> qssp_sender \<times> (qssp_error, unit) result" where
  "send_manifest js mf s =
     send_message 2 MtMemoryManifest
       (map_err (\<lambda>e. QSerializationError (''Manifest: '' @ e)) (ser_manifest js mf)) s"

text \<open>\<^verbatim>\<open>send_transfer_complete\<close>: the end time is recorded once the message is out.\<close>

definition send_transfer_complete ::
  "int \<Rightarrow> qssp_sender \<Rightarrow> qssp_sender \<times> (qssp_error, unit) result" where
  "send_transfer_complete now s =
     (case send_message 0 MtTransferComplete (Ok []) s of
        (s', Inl e) \<Rightarrow> (s', Err e)
      | (s', Inr u) \<Rightarrow> (s'\<lparr>snd_stats := (snd_stats s')\<lparr>ts_end_time := Some now\<rparr>\<rparr>, Ok ()))"

definition count_page :: "bool \<Rightarrow> memory_page \<Rightarrow> transfer_stats \<Rightarrow> transfer_stats" where
  "count_page is_hot p st =
     (let st = st\<lparr>ts_total_bytes := ts_total_bytes st + length (page_data p),
                  ts_total_pages := ts_total_pages st + 1\<rparr>
      in if is_hot then st\<lparr>ts_hot_pages := ts_hot_pages st + 1\<rparr>
         else st\<lparr>ts_warm_pages := ts_warm_pages st + 1\<rparr>)"

text \<open>
  The loop of \<^verbatim>\<open>send_memory_pages\<close>: all messages of one call go to one stream.  The result
  is what has been written, the statistics and whether an encoding failed.
\<close>

fun send_pages_loop :: "'j json_codec \<Rightarrow> string \<Rightarrow> u64 \<Rightarrow> bool \<Rightarrow> memory_page list \<Rightarrow>
    bytes \<Rightarrow> transfer_stats \<Rightarrow> bytes \<times> transfer_stats \<times> (qssp_error, unit) result" where
  "send_pages_loop js rid off is_hot [] out st = (out, st, Ok ())"
| "send_pages_loop js rid off is_hot (p # ps) out st =
     (case map_err (\<lambda>e. QSerializationError (''Page: '' @ e)) (ser_page js (from_page p rid off)) of
        Inl e \<Rightarrow> (out, st, Err e)
      | Inr payload \<Rightarrow>
          send_pages_loop js rid (off + 1) is_hot ps
            (out @ message_serialize (message_new MtMemoryPage payload)) (count_page is_hot p st))"

definition send_memory_pages :: "'j json_codec \<Rightarrow> int \<Rightarrow> memory_page list \<Rightarrow> string \<Rightarrow> u64 \<Rightarrow> bool \<Rightarrow>
    qssp_sender \<Rightarrow> qssp_sender \<times> (qssp_error, unit) result" where
  "send_memory_pages js now pages rid base_offset is_hot s =
     (case snd_broken s of
        Some e \<Rightarrow> (s, Err (QConnectionError e))
      | None \<Rightarrow>
          (let st0 = (snd_stats s)\<lparr>ts_start_time :=
                        Some (case ts_start_time (snd_stats s) of None \<Rightarrow> now | Some t \<Rightarrow> t)\<rparr>;
               prio = (if is_hot then 2 else 3)
           in case send_pages_loop js rid base_offset is_hot pages [] st0 of
                (out, st, Inl e) \<Rightarrow>
                  (add_stream \<lparr>us_priority = prio, us_written = out, us_finished = False\<rparr>
                     (s\<lparr>snd_stats := st\<rparr>), Err e)
              | (out, st, Inr u) \<Rightarrow>
                  (add_stream \<lparr>us_priority = prio, us_written = out, us_finished = True\<rparr>
                     (s\<lparr>snd_stats := st\<rparr>), Ok ())))"

section \<open>The receiver\<close>

record 'j qssp_receiver =
  rcv_cpu :: "'j cpu_state option"
  rcv_pages :: "memory_page list"
  rcv_manifest :: "memory_region list option"
  rcv_stats :: transfer_stats

definition receiver_new :: "'j qssp_receiver" where
  "receiver_new = \<lparr>rcv_cpu = None, rcv_pages = [], rcv_manifest = None, rcv_stats = stats_default\<rparr>"

definition handle_message :: "'j json_codec \<Rightarrow> int \<Rightarrow> message \<Rightarrow> 'j qssp_receiver \<Rightarrow>
    'j qssp_receiver \<times> (qssp_error, unit) result" where
  "handle_message js now m r =
     (case hdr_type (msg_header m) of
        MtCpuState \<Rightarrow>
          (case de_cpu js (msg_payload m) of
             Inl e \<Rightarrow> (r, Err (QDeserializationError (''CPU state: '' @ e)))
           | Inr cpu \<Rightarrow> (r\<lparr>rcv_cpu := Some cpu\<rparr>, Ok ()))
      | MtMemoryPage \<Rightarrow>
          (case de_page js (msg_payload m) of
             Inl e \<Rightarrow> (r, Err (QDeserializationError (''Page: '' @ e)))
           | Inr pm \<Rightarrow>
               (r\<lparr>rcv_pages := rcv_pages r @ [to_page pm],
                  rcv_stats := (rcv_stats r)\<lparr>
                    ts_total_bytes := ts_total_bytes (rcv_stats r) + length (msg_payload m),
                    ts_total_pages := ts_total_pages (rcv_stats r) + 1\<rparr>\<rparr>, Ok ()))
      | MtMemoryManifest \<Rightarrow>
          (case de_manifest js (msg_payload m) of
             Inl e \<Rightarrow> (r, Err (QDeserializationError (''Manifest: '' @ e)))
           | Inr mf \<Rightarrow> (r\<lparr>rcv_manifest := Some mf\<rparr>, Ok ()))
      | MtTransferComplete \<Rightarrow>
          (r\<lparr>rcv_stats := (rcv_stats r)\<lparr>ts_end_time := Some now\<rparr>\<rparr>, Ok ())
      | _ \<Rightarrow> (r, Ok ()))"

definition handle_stream :: "'j json_codec \<Rightarrow> int \<Rightarrow> recv_item list \<Rightarrow> 'j qssp_receiver \<Rightarrow>
    'j qssp_receiver \<times> (qssp_error, unit) result" where
  "handle_stream js now s r =
     (case read_from_stream s of
        (s', Inl e) \<Rightarrow> (r, Err e)
      | (s', Inr m) \<Rightarrow> handle_message js now m r)"

text \<open>
  \<^verbatim>\<open>start_receiving\<close>: every accepted stream is handled by its own task; an error of a handler
  is only logged.  The list is an order in which the handlers take effect.
\<close>

definition start_receiving :: "'j json_codec \<Rightarrow> int \<Rightarrow> recv_item list list \<Rightarrow> 'j qssp_receiver \<Rightarrow>
    'j qssp_receiver" where
  "start_receiving js now streams r =
     fold (\<lambda>s r. fst (handle_stream js now s r)) streams
       (r\<lparr>rcv_stats := (rcv_stats r)\<lparr>ts_start_time := Some now\<rparr>\<rparr>)"

section \<open>The wire format\<close>

lemma message_type_of_code [simp]: "message_type_of (message_type_code t) = Ok t"
  by (cases t) (simp_all add: message_type_of_def)

lemma message_type_of_Ok: "message_type_of v = Inr t \<Longrightarrow> message_type_code t = v"
  by (auto simp: message_type_of_def split: if_splits)

lemma message_type_of_unknown:
  "v \<notin> range message_type_code \<Longrightarrow> message_type_of v = Err (InvalidMessageType v)"
proof (cases "message_type_of v")
  case (Inl e)
  then show ?thesis by (auto simp: message_type_of_def split: if_splits)
next
  case (Inr t)
  assume "v \<notin> range message_type_code"
  with message_type_of_Ok [OF Inr] show ?thesis by blast
qed

lemma get_u32_be32 [simp]: "get_u32 (be32 w @ r) = (w, r)"
  by (simp add: get_u32_def be32_def)

lemma get_u32_Cons: "get_u32 (a # b # c # d # r) = (from_be32 a b c d, r)"
  by (simp add: get_u32_def)

lemma get_u8_Cons [simp]: "get_u8 (x # r) = (x, r)"
  by (simp add: get_u8_def)

lemma length_header [simp]: "length (header_serialize h) = 10"
  by (simp add: header_serialize_def)

lemma header_deserialize_serialize:
  assumes "hdr_magic h = QSSP_MAGIC" "hdr_version h = QSSP_VERSION"
  shows "header_deserialize (header_serialize h @ rest) = (rest, Ok (Some h))"
  using assms by (simp add: header_deserialize_def header_serialize_def)

lemma list_split10:
  "10 \<le> length buf \<Longrightarrow> \<exists>a b c d v t e f g h r. buf = a # b # c # d # v # t # e # f # g # h # r"
  by (simp add: numeral_eq_Suc Suc_le_length_iff) blast

lemma header_deserialize_Some:
  assumes "header_deserialize buf = (rest, Inr (Some h))"
  shows "buf = header_serialize h @ rest \<and> hdr_magic h = QSSP_MAGIC \<and> hdr_version h = QSSP_VERSION"
proof -
  from assms have "10 \<le> length buf" by (simp add: header_deserialize_def split: if_splits)
  from list_split10 [OF this] obtain a b c d v t e f g l r where buf: "buf = a # b # c # d # v # t # e # f # g # l # r"
    by (elim exE) (rule that)
  note eval = assms [unfolded buf header_deserialize_def, simplified get_u32_Cons get_u8_Cons Let_def,
    simplified]
  have magic: "from_be32 a b c d = QSSP_MAGIC"
    by (rule ccontr) (use eval in simp)
  have v: "v = QSSP_VERSION"
    by (rule ccontr) (use eval magic in simp)
  show ?thesis
  proof (cases "message_type_of t")
    case (Inl err)
    with eval magic v show ?thesis by simp
  next
    case (Inr mt)
    with eval magic v get_u32_Cons [of e f g l r] have "h = \<lparr>hdr_magic = QSSP_MAGIC, hdr_version = QSSP_VERSION, hdr_type = mt,
        hdr_length = from_be32 e f g l\<rparr>" "rest = r"
      by simp_all
    moreover have "be32 QSSP_MAGIC = [a, b, c, d]"
      by (simp only: be32_from_be32 flip: magic)
    ultimately show ?thesis
      using message_type_of_Ok [OF Inr] v by (simp add: header_serialize_def buf be32_from_be32)
  qed
qed

section \<open>Reading a message\<close>

abbreviation chunks :: "bytes list \<Rightarrow> recv_item list" where
  "chunks cs \<equiv> map Chunk cs"

lemma recv_read_chunks:
  "0 < n \<Longrightarrow> concat cs \<noteq> [] \<Longrightarrow> \<exists>c cs'. recv_read n (chunks cs) = (chunks cs', Inr (Some c)) \<and>
     0 < length c \<and> length c \<le> n \<and> concat cs = c @ concat cs'"
proof (induction cs)
  case (Cons c cs)
  show ?case
  proof (cases "c = []")
    case True
    with Cons show ?thesis by simp
  next
    case False
    show ?thesis
    proof (cases "length c \<le> n")
      case True
      with False show ?thesis by (intro exI [of _ c] exI [of _ cs]) simp
    next
      case long: False
      with False Cons.prems show ?thesis
        by (intro exI [of _ "take n c"] exI [of _ "drop n c # cs"]) simp
    qed
  qed
qed simp

lemma read_payload_chunks:
  assumes "length p \<le> len" "len - length p \<le> length (concat cs)"
  shows "\<exists>cs'. read_payload len p (chunks cs) =
      (chunks cs', Ok (p @ take (len - length p) (concat cs))) \<and>
    concat cs' = drop (len - length p) (concat cs)"
  using assms
proof (induction "len - length p" arbitrary: p cs rule: less_induct)
  case less
  show ?case
  proof (cases "length p < len")
    case False
    with less.prems show ?thesis by (subst read_payload.simps) auto
  next
    case True
    then have n: "0 < len - length p" by simp
    with less.prems have "concat cs \<noteq> []"
      by (cases "concat cs = []") (simp_all del: concat_eq_Nil_conv)
    from recv_read_chunks [OF n this] obtain c cs1 where
      r: "recv_read (len - length p) (chunks cs) = (chunks cs1, Inr (Some c))"
      and c: "0 < length c" "length c \<le> len - length p" and cat: "concat cs = c @ concat cs1"
      by blast
    have "len - length (p @ c) < len - length p"
      using c True unfolding length_append by linarith
    moreover have "length (p @ c) \<le> len" using c True unfolding length_append by linarith
    moreover have "len - length (p @ c) \<le> length (concat cs1)"
      using less.prems(2) unfolding cat length_append by linarith
    ultimately obtain cs' where
      "read_payload len (p @ c) (chunks cs1) =
        (chunks cs', Ok ((p @ c) @ take (len - length (p @ c)) (concat cs1)))"
      "concat cs' = drop (len - length (p @ c)) (concat cs1)"
      using less.hyps [of "p @ c" cs1] by blast
    with True r c cat show ?thesis by (subst read_payload.simps) auto
  qed
qed

lemma read_from_stream_message:
  assumes "10 \<le> length c" "c @ concat cs = message_serialize (message_new ty payload) @ rest"
    and "length payload < 2 ^ 32"
  shows "\<exists>cs'. read_from_stream (chunks (c # cs)) = (chunks cs', Ok (message_new ty payload)) \<and>
    concat cs' = rest"
proof -
  let ?h = "header_new ty (of_nat (length payload))"
  have "take 10 c = take 10 (c @ concat cs)" using assms(1) by simp
  also have "\<dots> = header_serialize ?h"
    by (simp add: assms(2) message_serialize_def message_new_def)
  finally have hd: "take 10 c = header_serialize ?h" .
  have len: "unat (hdr_length ?h) = length payload"
    using assms(3) by (simp add: header_new_def unat_of_nat)
  define cs1 where "cs1 = (if length c \<le> 10 then cs else drop 10 c # cs)"
  have "drop 10 c @ concat cs = drop 10 (c @ concat cs)" using assms(1) by simp
  also have "\<dots> = payload @ rest"
    by (simp add: assms(2) message_serialize_def message_new_def)
  finally have body: "concat cs1 = payload @ rest"
    using assms(1) by (auto simp: cs1_def)
  have read: "recv_read 10 (chunks (c # cs)) = (chunks cs1, Inr (Some (take 10 c)))"
    using assms(1) by (auto simp: cs1_def)
  have "header_deserialize (take 10 c) = ([], Ok (Some ?h))"
    using header_deserialize_serialize [of ?h "[]"] by (simp add: hd header_new_def)
  moreover from read_payload_chunks [of "[]" "length payload" cs1] obtain cs' where
    "read_payload (length payload) [] (chunks cs1) = (chunks cs', Ok payload)" "concat cs' = rest"
    by (auto simp: body)
  ultimately show ?thesis
    unfolding read_from_stream_def read by (intro exI [of _ cs']) (simp add: len message_new_def)
qed

section \<open>Pages and streams\<close>

lemma compression_of_code [simp]: "compression_of (compression_code a) = a"
  by (cases a) (simp_all add: compression_of_def)

lemma to_page_from_page:
  "page_original_size p < 2 ^ 32 \<Longrightarrow> to_page (from_page p rid off) = p"
  by (simp add: to_page_def from_page_def unat_of_nat)

lemma send_pages_loop_extends:
  "send_pages_loop js rid off hot ps out st = (out', st', r) \<Longrightarrow> \<exists>rest. out' = out @ rest"
  by (induction js rid off hot ps out st rule: send_pages_loop.induct)
    (fastforce split: sum.splits)+

lemma send_pages_loop_count:
  "send_pages_loop js rid off hot ps out st = (out', st', Inr u) \<Longrightarrow>
     ts_total_pages st' = ts_total_pages st + length ps \<and>
     ts_total_bytes st' = ts_total_bytes st + sum_list (map (length \<circ> page_data) ps)"
  by (induction js rid off hot ps out st rule: send_pages_loop.induct)
    (auto simp: count_page_def Let_def split: sum.splits if_splits)

lemma send_pages_loop_first:
  assumes "send_pages_loop js rid off hot (p # ps) out st = (out', st', Inr u)"
    and "ser_page js (from_page p rid off) = Inr b"
  shows "\<exists>rest. out' = out @ message_serialize (message_new MtMemoryPage b) @ rest"
  using send_pages_loop_extends [of js rid "off + 1" hot ps
      "out @ message_serialize (message_new MtMemoryPage b)" "count_page hot p st" out' st' "Inr u"] assms
  by (auto simp: map_err_def)

lemma handle_stream_message:
  assumes "10 \<le> length c" "c @ concat cs = message_serialize (message_new ty payload) @ rest"
    and "length payload < 2 ^ 32"
  shows "handle_stream js now (chunks (c # cs)) r = handle_message js now (message_new ty payload) r"
  using read_from_stream_message [OF assms] unfolding handle_stream_def by auto

section \<open>Properties\<close>

text \<open>The header format is unambiguous and checked: parsing a buffer yields a header exactly when
  the buffer starts with the ten bytes that header serialises to and the header has the protocol's
  magic number and version; the rest of the buffer is left unread.\<close>

theorem header_parse_iff:
  "header_deserialize buf = (rest, Ok (Some h)) \<longleftrightarrow>
     buf = header_serialize h @ rest \<and> hdr_magic h = QSSP_MAGIC \<and> hdr_version h = QSSP_VERSION"
  using header_deserialize_Some header_deserialize_serialize by blast

text \<open>C6. A message of less than 4 GiB is read back exactly, however the transport cuts the stream
  into chunks, as long as the first read delivers the whole header; what follows the message
  stays in the stream.\<close>

theorem message_roundtrip:
  assumes "length payload < 2 ^ 32" and "10 \<le> length c"
    and "c @ concat cs = message_serialize (message_new ty payload) @ rest"
  shows "\<exists>cs'. read_from_stream (chunks (c # cs)) = (chunks cs', Ok (message_new ty payload)) \<and>
    concat cs' = rest"
  by (rule read_from_stream_message [OF assms(2,3,1)])

theorem message_roundtrip_witness:
  "\<exists>cs'. read_from_stream (chunks [header_serialize (header_new MtEventLog 2) @ [7], [8, 9]]) =
     (chunks cs', Ok (message_new MtEventLog [7, 8])) \<and> concat cs' = [9]"
  by (rule message_roundtrip) (simp_all add: message_serialize_def message_new_def)

text \<open>The header is read with a single read: when the first chunk of a stream holds fewer than
  ten bytes, the message is refused as incomplete, whatever arrives after it.\<close>

theorem fragmented_header_refused:
  assumes "c \<noteq> []" and "length c < 10"
  shows "read_from_stream (Chunk c # s) = (s, Err IncompleteHeader)"
  using assms by (simp add: read_from_stream_def header_deserialize_def)

theorem fragmented_header_refused_witness:
  "read_from_stream [Chunk [0x51, 0x53], Chunk (drop 2 (message_serialize (message_new MtKeepAlive [])))]
     = ([Chunk (drop 2 (message_serialize (message_new MtKeepAlive [])))], Err IncompleteHeader)"
  by (rule fragmented_header_refused) simp_all

text \<open>Pages are lost in a batch: the sender writes all pages of one call to one stream and counts
  them all, but the receiver reads one message per stream, so whatever the chunks, exactly the
  first page of the batch arrives (intact) and the others are dropped silently.\<close>

theorem batch_delivers_first_page:
  assumes "send_memory_pages js now (p # ps) rid off hot s = (s', Ok ())"
    and "ser_page js (from_page p rid off) = Inr b" and "de_page js b = Inr (from_page p rid off)"
    and "length b < 2 ^ 32" and "page_original_size p < 2 ^ 32"
    and "c @ concat cs = us_written (last (snd_streams s'))" and "10 \<le> length c"
  shows "rcv_pages (fst (handle_stream js now' (chunks (c # cs)) r)) = rcv_pages r @ [p] \<and>
    ts_total_pages (snd_stats s') = ts_total_pages (snd_stats s) + Suc (length ps)"
proof -
  from assms(1) obtain out st0 st where
    loop: "send_pages_loop js rid off hot (p # ps) [] st0 = (out, st, Inr ())"
    and st0: "ts_total_pages st0 = ts_total_pages (snd_stats s)"
    and s': "snd_stats s' = st" "us_written (last (snd_streams s')) = out"
    by (auto simp: send_memory_pages_def add_stream_def Let_def
        simp del: send_pages_loop.simps split: option.splits prod.splits sum.splits)
  from send_pages_loop_first [OF loop assms(2)] obtain rest where
    out: "out = message_serialize (message_new MtMemoryPage b) @ rest" by auto
  have "handle_stream js now' (chunks (c # cs)) r =
      handle_message js now' (message_new MtMemoryPage b) r"
    using assms(6) by (intro handle_stream_message [OF assms(7) _ assms(4)]) (simp add: s' out)
  then show ?thesis
    using send_pages_loop_count [OF loop] assms(3,5) st0 s'
    by (simp add: handle_message_def message_new_def header_new_def to_page_from_page)
qed

definition demo_page :: memory_page where
  "demo_page = \<lparr>page_hash = ''h'', page_data = [1, 2], page_compression = LZ4,
     page_original_size = 4096\<rparr>"

definition demo_json :: "unit json_codec" where
  "demo_json = \<lparr>ser_cpu = \<lambda>_. Inr [9], de_cpu = \<lambda>_. Inr \<lparr>arch = ''x86_64'', registers = ()\<rparr>,
     ser_page = \<lambda>_. Inr [1], de_page = \<lambda>_. Inr (from_page demo_page ''r'' 5),
     ser_manifest = \<lambda>_. Inr [], de_manifest = \<lambda>_. Inr []\<rparr>"

theorem batch_delivers_first_page_witness:
  "\<exists>s'. send_memory_pages demo_json 0 [demo_page, demo_page, demo_page] ''r'' 5 True sender_new = (s', Ok ()) \<and>
     rcv_pages (fst (handle_stream demo_json 1 (chunks [us_written (last (snd_streams s'))]) receiver_new))
       = [demo_page] \<and>
     ts_total_pages (snd_stats s') = 3"
proof -
  obtain s' where run:
    "send_memory_pages demo_json 0 (demo_page # [demo_page, demo_page]) ''r'' 5 True sender_new = (s', Ok ())"
    by (simp add: send_memory_pages_def sender_new_def demo_json_def map_err_def)
  then have "10 \<le> length (us_written (last (snd_streams s')))"
    by (auto simp: send_memory_pages_def sender_new_def demo_json_def map_err_def add_stream_def
        message_serialize_def)
  from batch_delivers_first_page [OF run _ _ _ _ _ this, of "[1]" "[]" 1 receiver_new] run
  show ?thesis by (simp add: demo_json_def demo_page_def receiver_new_def sender_new_def stats_default_def)
qed

text \<open>Control data arrives: the CPU state and the manifest that the sender writes are what the
  receiver holds after handling their streams, in whatever chunks (with the header in the first
  one) the transport delivers them.\<close>

theorem control_data_delivered:
  assumes "snd_broken s = None"
    and "ser_cpu js cpu = Inr b" and "de_cpu js b = Inr cpu" and "length b < 2 ^ 32"
    and "ser_manifest js mf = Inr d" and "de_manifest js d = Inr mf" and "length d < 2 ^ 32"
    and "c @ concat cs = us_written (last (snd_streams (fst (send_cpu_state js cpu s))))"
    and "e @ concat es = us_written (last (snd_streams (fst (send_manifest js mf s))))"
    and "10 \<le> length c" and "10 \<le> length e"
  shows "rcv_cpu (start_receiving js now [chunks (c # cs), chunks (e # es)] r) = Some cpu \<and>
    rcv_manifest (start_receiving js now [chunks (c # cs), chunks (e # es)] r) = Some mf"
proof -
  have "handle_stream js now (chunks (c # cs)) r' = handle_message js now (message_new MtCpuState b) r'" for r'
    using assms(1,2,8) by (intro handle_stream_message [OF assms(10) _ assms(4), of _ _ "[]"])
      (simp add: send_cpu_state_def send_message_def add_stream_def map_err_def)
  moreover have "handle_stream js now (chunks (e # es)) r' =
      handle_message js now (message_new MtMemoryManifest d) r'" for r'
    using assms(1,5,9) by (intro handle_stream_message [OF assms(11) _ assms(7), of _ _ "[]"])
      (simp add: send_manifest_def send_message_def add_stream_def map_err_def)
  ultimately show ?thesis
    using assms(3,6)
    by (simp add: start_receiving_def handle_message_def message_new_def header_new_def)
qed

theorem control_data_delivered_witness:
  "rcv_cpu (start_receiving demo_json 3
     [chunks [message_serialize (message_new MtCpuState [9])],
      chunks [message_serialize (message_new MtMemoryManifest [])]] receiver_new)
   = Some \<lparr>arch = ''x86_64'', registers = ()\<rparr>"
  using control_data_delivered [of sender_new demo_json "\<lparr>arch = ''x86_64'', registers = ()\<rparr>" "[9]"
      "[]" "[]" "message_serialize (message_new MtCpuState [9])" "[]"
      "message_serialize (message_new MtMemoryManifest [])" "[]" 3 receiver_new]
  by (simp add: demo_json_def sender_new_def send_cpu_state_def send_manifest_def send_message_def
      add_stream_def map_err_def message_serialize_def)

end
