(* ===== verification/StateStore.thy ===== *)
theory StateStore
  imports Memory
begin

text \<open>
  \<^verbatim>\<open>src/src/state_store.rs\<close>: the content-addressed store of VM states.  The trait
  \<^verbatim>\<open>StorageBackendTrait\<close> is a table of operations (\<open>backend_ops\<close>) over a backend state of type
  \<open>'b\<close>; the in-memory, the file-system and the S3 backend are its instances, and the contract
  the store relies on is the locale \<open>storage_backend\<close>.

  Parameters: \<open>serde_json\<close> for states, SHA-256 and chrono's date arithmetic (\<open>store_env\<close>); the
  file system's faults (\<open>fs_fault\<close>, which may refuse any operation; a refused write leaves a
  torn file, as \<^verbatim>\<open>fs::write\<close> truncates first); the HTTP client of the S3 backend.  Keys are
  ASCII (the store only forms hexadecimal digests).  \<^verbatim>\<open>exists\<close> and the log lines play no role.
\<close>

datatype store_error =
    SsIoError string
  | SsSerializationError string
  | SsNotFound string
  | SsAlreadyExists string
  | SsCorrupted string
  | SsPanic

text \<open>\<open>SsPanic\<close> is the panic of chrono when a date leaves its range; it ends the call.\<close>

section \<open>Storage backends\<close>

record 'b backend_ops =
  be_put :: "string \<Rightarrow> bytes \<Rightarrow> 'b \<Rightarrow> 'b \<times> (store_error, unit) result"
  be_get :: "string \<Rightarrow> 'b \<Rightarrow> (store_error, bytes) result"
  be_delete :: "string \<Rightarrow> 'b \<Rightarrow> 'b \<times> (store_error, unit) result"
  be_exists :: "string \<Rightarrow> 'b \<Rightarrow> (store_error, bool) result"

type_synonym memory_backend = "(string, bytes) hmap"

definition mem_put ::
  "string \<Rightarrow> bytes \<Rightarrow> memory_backend \<Rightarrow> memory_backend \<times> (store_error, unit) result" where
  "mem_put key data b = (hm_insert key data b, Ok ())"

definition mem_get :: "string \<Rightarrow> memory_backend \<Rightarrow> (store_error, bytes) result" where
  "mem_get key b =
     (case hm_get b key of Some d \<Rightarrow> Ok d | None \<Rightarrow> Err (SsNotFound (''Key '' @ key @ '' not found'')))"

definition mem_delete ::
  "string \<Rightarrow> memory_backend \<Rightarrow> memory_backend \<times> (store_error, unit) result" where
  "mem_delete key b = (hm_remove key b, Ok ())"

definition mem_exists :: "string \<Rightarrow> memory_backend \<Rightarrow> (store_error, bool) result" where
  "mem_exists key b = Ok (hm_contains b key)"

definition memory_ops :: "memory_backend backend_ops" where
  "memory_ops = \<lparr>be_put = mem_put, be_get = mem_get, be_delete = mem_delete, be_exists = mem_exists\<rparr>"

datatype fs_op = FsCreateDir | FsWrite | FsRead | FsRemove

record local_backend =
  fs_base :: string
  fs_files :: "(string, bytes) hmap"
  fs_fault :: "fs_op \<Rightarrow> string \<Rightarrow> string option"
  fs_torn :: nat

text \<open>\<^verbatim>\<open>Path::join\<close>: an absolute component replaces the path.\<close>

definition path_join :: "string \<Rightarrow> string \<Rightarrow> string" where
  "path_join p c =
     (if c \<noteq> [] \<and> hd c = CHR ''/'' then c
      else if p = [] \<or> last p = CHR ''/'' then p @ c else p @ ''/'' @ c)"

definition key_dir :: "local_backend \<Rightarrow> string \<Rightarrow> string" where
  "key_dir b key = (if 2 \<le> length key then path_join (fs_base b) (take 2 key) else fs_base b)"

definition key_to_path :: "local_backend \<Rightarrow> string \<Rightarrow> string" where
  "key_to_path b key =
     (if 2 \<le> length key then path_join (path_join (fs_base b) (take 2 key)) key
      else path_join (fs_base b) key)"

definition no_such_file :: string where
  "no_such_file = ''No such file or directory (os error 2)''"

definition local_put ::
  "string \<Rightarrow> bytes \<Rightarrow> local_backend \<Rightarrow> local_backend \<times> (store_error, unit) result" where
  "local_put key data b =
     (case fs_fault b FsCreateDir (key_dir b key) of
        Some e \<Rightarrow> (b, Err (SsIoError (''Failed to create dir: '' @ e)))
      | None \<Rightarrow>
          let path = key_to_path b key in
          (case fs_fault b FsWrite path of
             Some e \<Rightarrow> (b\<lparr>fs_files := hm_insert path (take (fs_torn b) data) (fs_files b)\<rparr>,
                        Err (SsIoError (''Failed to write '' @ path @ '': '' @ e)))
           | None \<Rightarrow> (b\<lparr>fs_files := hm_insert path data (fs_files b)\<rparr>, Ok ())))"

definition local_get :: "string \<Rightarrow> local_backend \<Rightarrow> (store_error, bytes) result" where
  "local_get key b =
     (let path = key_to_path b key in
      case fs_fault b FsRead path of
        Some e \<Rightarrow> Err (SsIoError (''Failed to read '' @ path @ '': '' @ e))
      | None \<Rightarrow>
          (case hm_get (fs_files b) path of
             Some d \<Rightarrow> Ok d
           | None \<Rightarrow> Err (SsIoError (''Failed to read '' @ path @ '': '' @ no_such_file))))"

definition local_delete ::
  "string \<Rightarrow> local_backend \<Rightarrow> local_backend \<times> (store_error, unit) result" where
  "local_delete key b =
     (let path = key_to_path b key in
      case fs_fault b FsRemove path of
        Some e \<Rightarrow> (b, Err (SsIoError (''Failed to delete '' @ path @ '': '' @ e)))
      | None \<Rightarrow>
          if hm_contains (fs_files b) path
          then (b\<lparr>fs_files := hm_remove path (fs_files b)\<rparr>, Ok ())
          else (b, Err (SsIoError (''Failed to delete '' @ path @ '': '' @ no_such_file))))"

definition local_exists :: "string \<Rightarrow> local_backend \<Rightarrow> (store_error, bool) result" where
  "local_exists key b = Ok (hm_contains (fs_files b) (key_to_path b key))"

definition local_ops :: "local_backend backend_ops" where
  "local_ops =
     \<lparr>be_put = local_put, be_get = local_get, be_delete = local_delete, be_exists = local_exists\<rparr>"

text \<open>
  The S3 backend.  The HTTP exchange is a parameter: a method, a URL and a body give a new
  server state and a failure to send, an error status with its text, or a body that may fail
  to arrive.
\<close>

datatype http_method = HttpPut | HttpGet | HttpDelete | HttpHead
datatype http_reply = SendFailed string | ErrorStatus string | Success "(string, bytes) result"

record 's s3_backend =
  s3_base_url :: string
  s3_bucket :: string
  s3_server :: 's

definition key_to_url :: "'s s3_backend \<Rightarrow> string \<Rightarrow> string" where
  "key_to_url b key =
     (let shard = (if 2 \<le> length key then take 2 key else ''xx'') in
      if s3_base_url b \<noteq> [] \<and> last (s3_base_url b) = CHR ''/''
      then s3_base_url b @ s3_bucket b @ ''/'' @ shard @ ''/'' @ key
      else s3_base_url b @ ''/'' @ s3_bucket b @ ''/'' @ shard @ ''/'' @ key)"

definition s3_put :: "(http_method \<Rightarrow> string \<Rightarrow> bytes \<Rightarrow> 's \<Rightarrow> 's \<times> http_reply) \<Rightarrow>
    string \<Rightarrow> bytes \<Rightarrow> 's s3_backend \<Rightarrow> 's s3_backend \<times> (store_error, unit) result" where
  "s3_put http key data b =
     (case http HttpPut (key_to_url b key) data (s3_server b) of
        (srv, SendFailed e) \<Rightarrow> (b\<lparr>s3_server := srv\<rparr>, Err (SsIoError (''S3 PUT failed: '' @ e)))
      | (srv, ErrorStatus e) \<Rightarrow> (b\<lparr>s3_server := srv\<rparr>, Err (SsIoError (''S3 PUT error: '' @ e)))
      | (srv, Success _) \<Rightarrow> (b\<lparr>s3_server := srv\<rparr>, Ok ()))"

definition s3_get :: "(http_method \<Rightarrow> string \<Rightarrow> bytes \<Rightarrow> 's \<Rightarrow> 's \<times> http_reply) \<Rightarrow>
    string \<Rightarrow> 's s3_backend \<Rightarrow> (store_error, bytes) result" where
  "s3_get http key b =
     (case snd (http HttpGet (key_to_url b key) [] (s3_server b)) of
        SendFailed e \<Rightarrow> Err (SsIoError (''S3 GET failed: '' @ e))
      | ErrorStatus e \<Rightarrow> Err (SsNotFound (''S3 object not found: '' @ e))
      | Success (Inl e) \<Rightarrow> Err (SsIoError (''S3 GET read failed: '' @ e))
      | Success (Inr d) \<Rightarrow> Ok d)"

definition s3_delete :: "(http_method \<Rightarrow> string \<Rightarrow> bytes \<Rightarrow> 's \<Rightarrow> 's \<times> http_reply) \<Rightarrow>
    string \<Rightarrow> 's s3_backend \<Rightarrow> 's s3_backend \<times> (store_error, unit) result" where
  "s3_delete http key b =
     (case http HttpDelete (key_to_url b key) [] (s3_server b) of
        (srv, SendFailed e) \<Rightarrow> (b\<lparr>s3_server := srv\<rparr>, Err (SsIoError (''S3 DELETE failed: '' @ e)))
      | (srv, ErrorStatus e) \<Rightarrow> (b\<lparr>s3_server := srv\<rparr>, Err (SsIoError (''S3 DELETE error: '' @ e)))
      | (srv, Success _) \<Rightarrow> (b\<lparr>s3_server := srv\<rparr>, Ok ()))"

definition s3_exists :: "(http_method \<Rightarrow> string \<Rightarrow> bytes \<Rightarrow> 's \<Rightarrow> 's \<times> http_reply) \<Rightarrow>
    string \<Rightarrow> 's s3_backend \<Rightarrow> (store_error, bool) result" where
  "s3_exists http key b =
     (case snd (http HttpHead (key_to_url b key) [] (s3_server b)) of
        SendFailed e \<Rightarrow> Err (SsIoError (''S3 HEAD failed: '' @ e))
      | ErrorStatus e \<Rightarrow> Ok False
      | Success _ \<Rightarrow> Ok True)"

section \<open>The store\<close>

record stored_state =
  ss_id :: state_id
  ss_hash :: string
  ss_refs :: nat
  ss_created :: datetime
  ss_expires :: "datetime option"
  ss_size :: nat
  ss_meta :: state_metadata

record 'j store_env =
  env_ser :: "'j state \<Rightarrow> (string, bytes) result"
  env_de :: "bytes \<Rightarrow> (string, 'j state) result"
  env_sha :: "bytes \<Rightarrow> string"
  env_add_seconds :: "datetime \<Rightarrow> int \<Rightarrow> datetime option"

record 'b state_store =
  store_cache_limit :: nat
  store_index :: "(state_id, stored_state) hmap"
  store_cache :: "(string, bytes) hmap"
  store_backend :: 'b

definition store_new :: "nat \<Rightarrow> 'b \<Rightarrow> 'b state_store" where
  "store_new limit b =
     \<lparr>store_cache_limit = limit, store_index = [], store_cache = [], store_backend = b\<rparr>"

definition cache_content :: "string \<Rightarrow> bytes \<Rightarrow> 'b state_store \<Rightarrow> 'b state_store" where
  "cache_content h d st =
     (if hm_len (store_cache st) < store_cache_limit st
      then st\<lparr>store_cache := hm_insert h d (store_cache st)\<rparr> else st)"

text \<open>\<^verbatim>\<open>ttl as i64\<close> reinterprets the 64 bits as signed.  \<open>t1\<close> and \<open>t2\<close> are the clock's two readings.\<close>

definition store_state :: "'b backend_ops \<Rightarrow> 'j store_env \<Rightarrow> datetime \<Rightarrow> datetime \<Rightarrow> 'j state \<Rightarrow>
    'b state_store \<Rightarrow> 'b state_store \<times> (store_error, stored_state) result" where
  "store_state ops env t1 t2 s st =
     (case env_ser env s of
        Inl e \<Rightarrow> (st, Err (SsSerializationError (''Failed to serialize: '' @ e)))
      | Inr d \<Rightarrow>
          let h = env_sha env d in
          (case be_put ops h d (store_backend st) of
             (b, Inl e) \<Rightarrow> (st\<lparr>store_backend := b\<rparr>, Err e)
           | (b, Inr u) \<Rightarrow>
               let st = st\<lparr>store_backend := b\<rparr>;
                   stored = (\<lambda>ex. \<lparr>ss_id = st_id s, ss_hash = h, ss_refs = 1, ss_created = t2,
                     ss_expires = ex, ss_size = length d, ss_meta = st_metadata s\<rparr>);
                   finish = (\<lambda>ex. (cache_content h d
                     (st\<lparr>store_index := hm_insert (st_id s) (stored ex) (store_index st)\<rparr>),
                     Ok (stored ex)))
               in (case meta_ttl_seconds (st_metadata s) of
                     None \<Rightarrow> finish None
                   | Some ttl \<Rightarrow>
                       (case env_add_seconds env t1 (sint ttl) of
                          None \<Rightarrow> (st, Err SsPanic)
                        | Some ex \<Rightarrow> finish (Some ex)))))"

text \<open>The lookup in the cache, else in the backend (caching what it returned).\<close>

definition fetch_content :: "'b backend_ops \<Rightarrow> string \<Rightarrow> 'b state_store \<Rightarrow>
    'b state_store \<times> (store_error, bytes) result" where
  "fetch_content ops h st =
     (case hm_get (store_cache st) h of
        Some c \<Rightarrow> (st, Ok c)
      | None \<Rightarrow>
          (case be_get ops h (store_backend st) of
             Inl e \<Rightarrow> (st, Err e)
           | Inr c \<Rightarrow> (cache_content h c st, Ok c)))"

definition state_not_found :: "state_id \<Rightarrow> store_error" where
  "state_not_found i = SsNotFound (''State '' @ sid_str i @ '' not found'')"

definition get_state :: "'b backend_ops \<Rightarrow> 'j store_env \<Rightarrow> state_id \<Rightarrow> 'b state_store \<Rightarrow>
    'b state_store \<times> (store_error, 'j state) result" where
  "get_state ops env i st =
     (case hm_get (store_index st) i of
        None \<Rightarrow> (st, Err (state_not_found i))
      | Some stored \<Rightarrow>
          (case fetch_content ops (ss_hash stored) st of
             (st', Inl e) \<Rightarrow> (st', Err e)
           | (st', Inr c) \<Rightarrow>
               (st', map_err (\<lambda>e. SsSerializationError (''Failed to deserialize: '' @ e))
                       (env_de env c))))"

definition delete_state :: "'b backend_ops \<Rightarrow> state_id \<Rightarrow> 'b state_store \<Rightarrow>
    'b state_store \<times> (store_error, unit) result" where
  "delete_state ops i st =
     (case hm_get (store_index st) i of
        None \<Rightarrow> (st, Ok ())
      | Some stored \<Rightarrow>
          let st = st\<lparr>store_index := hm_remove i (store_index st)\<rparr> in
          if ss_refs stored \<le> 1 then
            (case be_delete ops (ss_hash stored) (store_backend st) of
               (b, Inl e) \<Rightarrow> (st\<lparr>store_backend := b\<rparr>, Err e)
             | (b, Inr u) \<Rightarrow>
                 (st\<lparr>store_backend := b,
                     store_cache := hm_remove (ss_hash stored) (store_cache st)\<rparr>, Ok ()))
          else (st\<lparr>store_index :=
                   hm_insert i (stored\<lparr>ss_refs := ss_refs stored - 1\<rparr>) (store_index st)\<rparr>, Ok ()))"

definition has_state :: "state_id \<Rightarrow> 'b state_store \<Rightarrow> bool" where
  "has_state i st = hm_contains (store_index st) i"

definition list_states :: "'b state_store \<Rightarrow> stored_state list" where
  "list_states st = hm_values (store_index st)"

text \<open>\<^verbatim>\<open>ref_count += 1\<close> wraps at the width of \<^verbatim>\<open>usize\<close> in a release build.\<close>

definition increment_ref ::
  "state_id \<Rightarrow> 'b state_store \<Rightarrow> 'b state_store \<times> (store_error, unit) result" where
  "increment_ref i st =
     (if hm_contains (store_index st) i
      then (st\<lparr>store_index := hm_modify i (\<lambda>s. s\<lparr>ss_refs := (ss_refs s + 1) mod 2 ^ 64\<rparr>)
              (store_index st)\<rparr>, Ok ())
      else (st, Err (state_not_found i)))"

definition decrement_ref ::
  "state_id \<Rightarrow> 'b state_store \<Rightarrow> 'b state_store \<times> (store_error, unit) result" where
  "decrement_ref i st =
     (if hm_contains (store_index st) i
      then (st\<lparr>store_index :=
              hm_modify i (\<lambda>s. if ss_refs s > 0 then s\<lparr>ss_refs := ss_refs s - 1\<rparr> else s)
                (store_index st)\<rparr>, Ok ())
      else (st, Err (state_not_found i)))"

definition store_page :: "'b backend_ops \<Rightarrow> memory_page \<Rightarrow> 'b state_store \<Rightarrow>
    'b state_store \<times> (store_error, string) result" where
  "store_page ops p st =
     (case be_put ops (page_hash p) (page_data p) (store_backend st) of
        (b, Inl e) \<Rightarrow> (st\<lparr>store_backend := b\<rparr>, Err e)
      | (b, Inr u) \<Rightarrow>
          (cache_content (page_hash p) (page_data p) (st\<lparr>store_backend := b\<rparr>), Ok (page_hash p)))"

definition get_page :: "'b backend_ops \<Rightarrow> string \<Rightarrow> 'b state_store \<Rightarrow>
    'b state_store \<times> (store_error, bytes) result" where
  "get_page ops h st = fetch_content ops h st"

section \<open>Garbage collection\<close>

text \<open>
  One tick of the collector scans the index under a read lock, then takes the write lock once
  per collected id.  Other calls may run in between, hence the two separate operations.
\<close>

definition gc_expired :: "datetime \<Rightarrow> stored_state \<Rightarrow> bool" where
  "gc_expired now s =
     (case ss_expires s of None \<Rightarrow> False | Some ex \<Rightarrow> now > ex \<and> ss_refs s = 0)"

definition gc_scan :: "datetime \<Rightarrow> 'b state_store \<Rightarrow> state_id list" where
  "gc_scan now st = map fst (filter (\<lambda>(i, s). gc_expired now s) (store_index st))"

definition gc_delete :: "'b backend_ops \<Rightarrow> state_id \<Rightarrow> 'b state_store \<Rightarrow> 'b state_store" where
  "gc_delete ops i st =
     (case hm_get (store_index st) i of
        None \<Rightarrow> st
      | Some stored \<Rightarrow>
          st\<lparr>store_index := hm_remove i (store_index st),
             store_backend := fst (be_delete ops (ss_hash stored) (store_backend st))\<rparr>)"

definition gc_tick :: "'b backend_ops \<Rightarrow> datetime \<Rightarrow> 'b state_store \<Rightarrow> 'b state_store" where
  "gc_tick ops now st = fold (gc_delete ops) (gc_scan now st) st"

section \<open>Runs of the store\<close>

datatype 'j store_op =
    OpStore datetime datetime "'j state"
  | OpGet state_id
  | OpDelete state_id
  | OpIncrement state_id
  | OpDecrement state_id
  | OpStorePage memory_page
  | OpGetPage string
  | OpGcDelete state_id

fun store_step :: "'b backend_ops \<Rightarrow> 'j store_env \<Rightarrow> 'j store_op \<Rightarrow> 'b state_store \<Rightarrow> 'b state_store" where
  "store_step ops env (OpStore t1 t2 s) st = fst (store_state ops env t1 t2 s st)"
| "store_step ops env (OpGet i) st = fst (get_state ops env i st)"
| "store_step ops env (OpDelete i) st = fst (delete_state ops i st)"
| "store_step ops env (OpIncrement i) st = fst (increment_ref i st)"
| "store_step ops env (OpDecrement i) st = fst (decrement_ref i st)"
| "store_step ops env (OpStorePage p) st = fst (store_page ops p st)"
| "store_step ops env (OpGetPage h) st = fst (get_page ops h st)"
| "store_step ops env (OpGcDelete i) st = gc_delete ops i st"

text \<open>
  The operations that may take the state \<open>i\<close> away or replace it, and the pages whose hash is
  the digest of their data (as \<open>snapshot_dirty\<close> makes them).
\<close>

fun touches :: "state_id \<Rightarrow> 'j store_op \<Rightarrow> bool" where
  "touches i (OpStore t1 t2 s) \<longleftrightarrow> st_id s = i"
| "touches i (OpDelete j) \<longleftrightarrow> j = i"
| "touches i (OpGcDelete j) \<longleftrightarrow> j = i"
| "touches i _ \<longleftrightarrow> False"

fun op_addressed :: "(bytes \<Rightarrow> string) \<Rightarrow> (string \<Rightarrow> bool) \<Rightarrow> 'j store_op \<Rightarrow> bool" where
  "op_addressed sha key_ok (OpStorePage p) \<longleftrightarrow> sha (page_data p) = page_hash p"
| "op_addressed sha key_ok (OpGetPage h) \<longleftrightarrow> key_ok h"
| "op_addressed sha key_ok _ \<longleftrightarrow> True"

definition env_ok :: "'j store_env \<Rightarrow> (string \<Rightarrow> bool) \<Rightarrow> bool" where
  "env_ok env key_ok \<longleftrightarrow>
     (\<forall>s d. env_ser env s = Inr d \<longrightarrow> env_de env d = Inr s) \<and> (\<forall>d. key_ok (env_sha env d))"

definition index_ok :: "'j store_env \<Rightarrow> 'b state_store \<Rightarrow> bool" where
  "index_ok env st \<longleftrightarrow> hm_ok (store_index st) \<and>
     (\<forall>i e. hm_get (store_index st) i = Some e \<longrightarrow>
        (\<exists>s d. env_ser env s = Inr d \<and> st_id s = i \<and> ss_hash e = env_sha env d))"

definition cache_addressed :: "'j store_env \<Rightarrow> 'b state_store \<Rightarrow> bool" where
  "cache_addressed env st \<longleftrightarrow>
     (\<forall>h d. hm_get (store_cache st) h = Some d \<longrightarrow> env_sha env d = h)"

definition backend_addressed ::
  "'j store_env \<Rightarrow> (string \<Rightarrow> bool) \<Rightarrow> ('b \<Rightarrow> string \<Rightarrow> bytes option) \<Rightarrow> 'b \<Rightarrow> bool" where
  "backend_addressed env key_ok contents b \<longleftrightarrow>
     (\<forall>h d. key_ok h \<longrightarrow> contents b h = Some d \<longrightarrow> env_sha env d = h)"

lemma cache_content_fields [simp]:
  "store_index (cache_content h d st) = store_index st"
  "store_backend (cache_content h d st) = store_backend st"
  by (simp_all add: cache_content_def)

lemma cache_addressed_content:
  "cache_addressed env st \<Longrightarrow> env_sha env d = h \<Longrightarrow> cache_addressed env (cache_content h d st)"
  by (auto simp: cache_addressed_def cache_content_def)

lemma index_ok_cong:
  "index_ok env st \<Longrightarrow> store_index st' = store_index st \<Longrightarrow> index_ok env st'"
  by (simp add: index_ok_def)

lemma cache_addressed_cong:
  "cache_addressed env st \<Longrightarrow> store_cache st' = store_cache st \<Longrightarrow> cache_addressed env st'"
  by (simp add: cache_addressed_def)

definition store_good :: "'j store_env \<Rightarrow> (string \<Rightarrow> bool) \<Rightarrow> ('b \<Rightarrow> bool) \<Rightarrow>
    ('b \<Rightarrow> string \<Rightarrow> bytes option) \<Rightarrow> 'b state_store \<Rightarrow> bool" where
  "store_good env key_ok binv contents st \<longleftrightarrow>
     index_ok env st \<and> cache_addressed env st \<and> binv (store_backend st) \<and>
     backend_addressed env key_ok contents (store_backend st)"

text \<open>The state with content \<open>d\<close> is stored under \<open>i\<close>.\<close>

definition holds_state :: "'j store_env \<Rightarrow> ('b \<Rightarrow> string \<Rightarrow> bytes option) \<Rightarrow> state_id \<Rightarrow> bytes \<Rightarrow>
    'b state_store \<Rightarrow> bool" where
  "holds_state env contents i d st \<longleftrightarrow>
     map_option ss_hash (hm_get (store_index st) i) = Some (env_sha env d) \<and>
     contents (store_backend st) (env_sha env d) = Some d"

lemma index_ok_insert:
  "index_ok env st \<Longrightarrow> env_ser env s = Inr d \<Longrightarrow> st_id s = i \<Longrightarrow> ss_hash e = env_sha env d \<Longrightarrow>
     store_index st' = hm_insert i e (store_index st) \<Longrightarrow> index_ok env st'"
  by (auto simp: index_ok_def)

lemma index_ok_remove:
  "index_ok env st \<Longrightarrow> store_index st' = hm_remove i (store_index st) \<Longrightarrow> index_ok env st'"
  by (auto simp: index_ok_def)

lemma index_ok_modify:
  "index_ok env st \<Longrightarrow> store_index st' = hm_modify i f (store_index st) \<Longrightarrow>
     (\<And>e. ss_hash (f e) = ss_hash e) \<Longrightarrow> index_ok env st'"
  by (auto simp: index_ok_def)

lemma holds_modify:
  "holds_state env contents i d st \<Longrightarrow> (\<And>e. ss_hash (f e) = ss_hash e) \<Longrightarrow>
     holds_state env contents i d (st\<lparr>store_index := hm_modify j f (store_index st)\<rparr>)"
  by (auto simp: holds_state_def)

lemma index_ok_key: "index_ok env st \<Longrightarrow> hm_get (store_index st) i = Some e \<Longrightarrow> env_ok env key_ok \<Longrightarrow>
    key_ok (ss_hash e)"
  by (force simp: index_ok_def env_ok_def)

lemma store_state_shape:
  assumes "env_ser env s = Inr d" "be_put ops (env_sha env d) d (store_backend st) = (b, r)"
    and "st' = fst (store_state ops env t1 t2 s st)"
  shows "store_backend st' = b \<and>
    (store_index st' = store_index st \<and> store_cache st' = store_cache st \<or>
     (\<exists>e. ss_hash e = env_sha env d \<and> r = Inr () \<and>
       store_index st' = hm_insert (st_id s) e (store_index st) \<and>
       store_cache st' \<in> {store_cache st, hm_insert (env_sha env d) d (store_cache st)}))"
proof (cases r)
  case (Inr u)
  let ?h = "env_sha env d"
  show ?thesis
  proof (cases "meta_ttl_seconds (st_metadata s)")
    case None
    then show ?thesis
      using assms Inr by (simp add: store_state_def Let_def cache_content_def)
        (metis stored_state.select_convs(2))
  next
    case (Some ttl)
    then show ?thesis
      using assms Inr by (cases "env_add_seconds env t1 (sint ttl)")
        (simp_all add: store_state_def Let_def cache_content_def,
          metis stored_state.select_convs(2))
  qed
qed (use assms in \<open>simp add: store_state_def\<close>)

lemma delete_state_shape:
  assumes "hm_get (store_index st) i = Some e"
    and "be_delete ops (ss_hash e) (store_backend st) = (b, r)"
    and "st' = fst (delete_state ops i st)"
  shows "store_backend st' = (if ss_refs e \<le> 1 then b else store_backend st) \<and>
    store_index st' = (if ss_refs e \<le> 1 then hm_remove i (store_index st)
      else hm_insert i (e\<lparr>ss_refs := ss_refs e - 1\<rparr>) (hm_remove i (store_index st))) \<and>
    store_cache st' \<in> {store_cache st, hm_remove (ss_hash e) (store_cache st)}"
  using assms by (cases r) (simp_all add: delete_state_def Let_def)

lemma index_ok_reinsert:
  "index_ok env st \<Longrightarrow> hm_get (store_index st) i = Some e \<Longrightarrow> ss_hash e' = ss_hash e \<Longrightarrow>
     store_index st' = hm_insert i e' (hm_remove i (store_index st)) \<Longrightarrow> index_ok env st'"
  by (auto simp: index_ok_def)

lemma cache_addressed_insert:
  "cache_addressed env st \<Longrightarrow> env_sha env d = h \<Longrightarrow>
     store_cache st' \<in> {store_cache st, hm_insert h d (store_cache st)} \<Longrightarrow> cache_addressed env st'"
  by (auto simp: cache_addressed_def split: if_splits)

lemma cache_addressed_remove:
  "cache_addressed env st \<Longrightarrow> store_cache st' \<in> {store_cache st, hm_remove h (store_cache st)} \<Longrightarrow>
     cache_addressed env st'"
  by (auto simp: cache_addressed_def split: if_splits)

lemma store_state_unserializable: "env_ser env s = Inl e \<Longrightarrow> fst (store_state ops env t1 t2 s st) = st"
  by (simp add: store_state_def)

lemma delete_state_missing: "hm_get (store_index st) i = None \<Longrightarrow> delete_state ops i st = (st, Ok ())"
  by (simp add: delete_state_def)

lemma store_state_backend:
  "env_ser env s = Inr d \<Longrightarrow>
     store_backend (fst (store_state ops env t1 t2 s st)) = fst (be_put ops (env_sha env d) d (store_backend st))"
  using store_state_shape [OF _ prod.collapse [symmetric] refl, where st = st and env = env and s = s and ops = ops and ?t1.0 = t1 and ?t2.0 = t2] by blast

lemma store_state_index:
  "env_ser env s = Inr d \<Longrightarrow> store_index (fst (store_state ops env t1 t2 s st)) = store_index st \<or>
     (\<exists>e. store_index (fst (store_state ops env t1 t2 s st)) = hm_insert (st_id s) e (store_index st))"
  using store_state_shape [OF _ prod.collapse [symmetric] refl, where st = st and env = env and s = s and ops = ops and ?t1.0 = t1 and ?t2.0 = t2] by blast

lemma fetch_backend [simp]:
  "store_backend (fst (fetch_content ops h st)) = store_backend st"
  "store_index (fst (fetch_content ops h st)) = store_index st"
  by (simp_all add: fetch_content_def split: option.splits sum.splits)

lemma get_state_backend [simp]:
  "store_backend (fst (get_state ops env i st)) = store_backend st"
  "store_index (fst (get_state ops env i st)) = store_index st"
  by (auto simp: get_state_def case_prod_beta split: option.splits sum.splits)

text \<open>The hash under which a state is entered changes only by the operations that touch it.\<close>

lemma step_index_other:
  assumes "\<not> touches i op"
  shows "map_option ss_hash (hm_get (store_index (store_step ops env op st)) i)
    = map_option ss_hash (hm_get (store_index st) i)"
proof (cases op)
  case (OpStore t1 t2 s)
  then show ?thesis
    using assms store_state_index [of env s _ ops t1 t2 st]
    by (cases "env_ser env s") (auto simp: store_state_unserializable)
next
  case (OpDelete j)
  then show ?thesis
    using assms delete_state_shape [OF _ prod.collapse [symmetric] refl, where st = st and i = j and ops = ops]
    by (cases "hm_get (store_index st) j") (auto simp: delete_state_missing)
next
  case (OpStorePage p)
  then show ?thesis by (simp add: store_page_def split: prod.splits sum.splits)
qed (use assms in \<open>auto simp: increment_ref_def decrement_ref_def get_page_def gc_delete_def
       option.map_comp comp_def if_distrib [of ss_hash] cong: if_cong split: option.splits\<close>)

subsection \<open>The contract of a backend\<close>

text \<open>
  \<open>contents b k\<close> is the object under the key \<open>k\<close>.  A write that fails changes nothing, a
  deletion changes at most its own key, and a read fails only when the object is missing or
  the backend is \<open>unreadable\<close>.
\<close>

locale storage_backend =
  fixes ops :: "'b backend_ops"
    and binv :: "'b \<Rightarrow> bool"
    and contents :: "'b \<Rightarrow> string \<Rightarrow> bytes option"
    and key_ok :: "string \<Rightarrow> bool"
    and unreadable :: "'b \<Rightarrow> bool"
  assumes put_law: "binv b \<Longrightarrow> key_ok k \<Longrightarrow> be_put ops k d b = (b', r) \<Longrightarrow>
      binv b' \<and> unreadable b' = unreadable b \<and>
      contents b' k = (case r of Inl e \<Rightarrow> contents b k | Inr u \<Rightarrow> Some d) \<and>
      (\<forall>k'. key_ok k' \<longrightarrow> k' \<noteq> k \<longrightarrow> contents b' k' = contents b k')"
    and get_law: "binv b \<Longrightarrow> key_ok k \<Longrightarrow>
      (case be_get ops k b of
         Inl e \<Rightarrow> contents b k = None \<or> unreadable b
       | Inr d \<Rightarrow> contents b k = Some d)"
    and delete_law: "binv b \<Longrightarrow> key_ok k \<Longrightarrow> be_delete ops k b = (b', r) \<Longrightarrow>
      binv b' \<and> unreadable b' = unreadable b \<and>
      contents b' k \<in> {None, contents b k} \<and>
      (\<forall>k'. key_ok k' \<longrightarrow> k' \<noteq> k \<longrightarrow> contents b' k' = contents b k')"
begin

lemma put_addressed:
  assumes "binv b" "key_ok k" "be_put ops k d b = (b', r)" "env_sha env d = k"
    and "backend_addressed env key_ok contents b"
  shows "binv b' \<and> backend_addressed env key_ok contents b' \<and> unreadable b' = unreadable b"
  unfolding backend_addressed_def
proof (intro conjI allI impI)
  fix h d' assume h: "key_ok h" and c: "contents b' h = Some d'"
  show "env_sha env d' = h"
    using put_law [OF assms(1,2,3)] assms(4,5) h c
    by (cases "h = k"; cases r) (auto simp: backend_addressed_def)
qed (use put_law [OF assms(1,2,3)] in auto)

lemma put_keeps:
  assumes "binv b" "key_ok k" "be_put ops k d b = (b', r)"
    and "contents b k' = Some d'" "key_ok k'" "k = k' \<Longrightarrow> d = d'"
  shows "contents b' k' = Some d'"
  using put_law [OF assms(1,2,3)] assms(4,5,6) by (cases "k' = k"; cases r) auto

lemma delete_addressed:
  assumes "binv b" "key_ok k" "be_delete ops k b = (b', r)"
    and "backend_addressed env key_ok contents b"
  shows "binv b' \<and> backend_addressed env key_ok contents b' \<and> unreadable b' = unreadable b"
  unfolding backend_addressed_def
proof (intro conjI allI impI)
  fix h d' assume h: "key_ok h" and c: "contents b' h = Some d'"
  then show "env_sha env d' = h"
    using delete_law [OF assms(1,2,3)] assms(4)
    by (cases "h = k") (auto simp: backend_addressed_def)
qed (use delete_law [OF assms(1,2,3)] in auto)

lemma delete_keeps:
  assumes "binv b" "key_ok k" "be_delete ops k b = (b', r)" "k' \<noteq> k" "key_ok k'"
  shows "contents b' k' = contents b k'"
  using delete_law [OF assms(1,2,3)] assms(4,5) by auto

lemma get_addressed:
  assumes "binv b" "key_ok k" "be_get ops k b = Inr d" "backend_addressed env key_ok contents b"
  shows "env_sha env d = k"
  using get_law [OF assms(1,2)] assms(2,3,4) by (auto simp: backend_addressed_def)

lemma fetch_good:
  assumes g: "store_good env key_ok binv contents st" and k: "key_ok h"
    and f: "fetch_content ops h st = (st', r)"
  shows "store_good env key_ok binv contents st' \<and> store_backend st' = store_backend st \<and>
    store_index st' = store_index st \<and>
    (case r of Inr d \<Rightarrow> env_sha env d = h
     | Inl e \<Rightarrow> contents (store_backend st) h = None \<or> unreadable (store_backend st))"
proof (cases "hm_get (store_cache st) h")
  case None
  show ?thesis
  proof (cases "be_get ops h (store_backend st)")
    case (Inl e)
    have "contents (store_backend st) h = None \<or> unreadable (store_backend st)"
      using get_law [of "store_backend st" h] g k Inl by (simp add: store_good_def)
    then show ?thesis
      using None f g by (clarsimp simp: fetch_content_def Inl)
  next
    case (Inr d)
    have "env_sha env d = h"
      using get_addressed [OF _ k Inr, of env] g by (simp add: store_good_def)
    moreover have "st' = cache_content h d st" "r = Inr d"
      using None Inr f by (simp_all add: fetch_content_def)
    ultimately show ?thesis
      using g by (auto simp: store_good_def intro: cache_addressed_content index_ok_cong)
  qed
next
  case (Some c)
  then show ?thesis
    using f g by (auto simp: fetch_content_def store_good_def cache_addressed_def)
qed

lemma store_state_good:
  assumes g: "store_good env key_ok binv contents st" and env: "env_ok env key_ok"
  shows "store_good env key_ok binv contents (fst (store_state ops env t1 t2 s st)) \<and>
    unreadable (store_backend (fst (store_state ops env t1 t2 s st))) = unreadable (store_backend st)"
proof (cases "env_ser env s")
  case (Inr d)
  obtain b r where p: "be_put ops (env_sha env d) d (store_backend st) = (b, r)"
    by fastforce
  have b: "binv b \<and> backend_addressed env key_ok contents b
      \<and> unreadable b = unreadable (store_backend st)"
    by (rule put_addressed [OF _ _ p]) (use g env in \<open>auto simp: store_good_def env_ok_def\<close>)
  define st' where "st' = fst (store_state ops env t1 t2 s st)"
  note shape = store_state_shape [OF Inr p st'_def]
  have "index_ok env st'" and "cache_addressed env st'"
    using shape g Inr
    by (auto simp: store_good_def intro: index_ok_cong index_ok_insert cache_addressed_insert
        cache_addressed_cong)
  then show ?thesis using shape b by (auto simp: store_good_def simp flip: st'_def)
qed (use g in \<open>simp add: store_state_def\<close>)

lemma delete_good:
  assumes g: "store_good env key_ok binv contents st" and env: "env_ok env key_ok"
    and e: "hm_get (store_index st) i = Some e"
    and d: "be_delete ops (ss_hash e) (store_backend st) = (b, r)"
  shows "binv b \<and> backend_addressed env key_ok contents b \<and> unreadable b = unreadable (store_backend st)"
  by (rule delete_addressed [OF _ _ d])
    (use g env e in \<open>auto simp: store_good_def dest: index_ok_key\<close>)

lemma step_good:
  assumes g: "store_good env key_ok binv contents st" and env: "env_ok env key_ok"
    and a: "op_addressed (env_sha env) key_ok op"
  shows "store_good env key_ok binv contents (store_step ops env op st) \<and>
    unreadable (store_backend (store_step ops env op st)) = unreadable (store_backend st)"
proof (cases op)
  case (OpStore t1 t2 s)
  then show ?thesis using store_state_good [OF g env] by simp
next
  case (OpGet i)
  show ?thesis
  proof (cases "hm_get (store_index st) i")
    case (Some e)
    then have "key_ok (ss_hash e)" using g env by (auto simp: store_good_def dest: index_ok_key)
    moreover obtain st' r where "fetch_content ops (ss_hash e) st = (st', r)" by fastforce
    ultimately show ?thesis
      using fetch_good [OF g, of "ss_hash e" st' r] OpGet Some
      by (cases r) (simp_all add: get_state_def)
  qed (use OpGet g in \<open>simp add: get_state_def\<close>)
next
  case (OpDelete i)
  show ?thesis
  proof (cases "hm_get (store_index st) i")
    case (Some e)
    obtain b r where d: "be_delete ops (ss_hash e) (store_backend st) = (b, r)" by fastforce
    define st' where "st' = fst (delete_state ops i st)"
    note shape = delete_state_shape [OF Some d st'_def]
    have "index_ok env st" using g by (simp add: store_good_def)
    then have "index_ok env st'"
      using shape index_ok_remove [of env st st' i]
        index_ok_reinsert [of env st i e "e\<lparr>ss_refs := ss_refs e - 1\<rparr>" st'] Some
      by (cases "ss_refs e \<le> 1") simp_all
    moreover have "cache_addressed env st'"
      using shape g cache_addressed_remove [of env st st' "ss_hash e"]
      by (simp add: store_good_def)
    ultimately show ?thesis
      using shape delete_good [OF g env Some d] g OpDelete
      by (auto simp: store_good_def simp flip: st'_def)
  qed (use OpDelete g in \<open>simp add: delete_state_def\<close>)
next
  case (OpIncrement i)
  then show ?thesis
    using g by (auto simp: increment_ref_def store_good_def intro: cache_addressed_cong
        intro!: index_ok_modify [of env st _ i])
next
  case (OpDecrement i)
  then show ?thesis
    using g by (auto simp: decrement_ref_def store_good_def intro: cache_addressed_cong
        intro!: index_ok_modify [of env st _ i])
next
  case (OpStorePage p)
  obtain b r where q: "be_put ops (page_hash p) (page_data p) (store_backend st) = (b, r)"
    by fastforce
  have h: "env_sha env (page_data p) = page_hash p" using a OpStorePage by simp
  then have "key_ok (page_hash p)" using env by (metis env_ok_def)
  then have "binv b \<and> backend_addressed env key_ok contents b
      \<and> unreadable b = unreadable (store_backend st)"
    using put_addressed [OF _ _ q h] g by (simp add: store_good_def)
  then show ?thesis
    using OpStorePage q g h
    by (auto simp: store_page_def store_good_def split: sum.splits intro: index_ok_cong
        cache_addressed_cong intro!: cache_addressed_content)
next
  case (OpGetPage h)
  obtain st' r where "fetch_content ops h st = (st', r)" by fastforce
  then show ?thesis
    using fetch_good [OF g, of h st' r] a OpGetPage by (simp add: get_page_def)
next
  case (OpGcDelete i)
  show ?thesis
  proof (cases "hm_get (store_index st) i")
    case (Some e)
    obtain b r where d: "be_delete ops (ss_hash e) (store_backend st) = (b, r)" by fastforce
    show ?thesis
      using delete_good [OF g env Some d] OpGcDelete Some d g
      by (auto simp: gc_delete_def store_good_def intro: index_ok_remove cache_addressed_cong)
  qed (use OpGcDelete g in \<open>simp add: gc_delete_def\<close>)
qed

lemma index_entry_other:
  assumes g: "store_good env key_ok binv contents st" and env: "env_ok env key_ok"
    and s: "env_ser env s = Inr d" "st_id s = i" "\<And>d'. env_sha env d' = env_sha env d \<Longrightarrow> d' = d"
    and e: "hm_get (store_index st) j = Some e" "j \<noteq> i"
  shows "env_sha env d \<noteq> ss_hash e"
proof
  assume h: "env_sha env d = ss_hash e"
  obtain s' d' where s': "env_ser env s' = Inr d'" "st_id s' = j"
    and h': "ss_hash e = env_sha env d'"
    using g e(1) unfolding store_good_def index_ok_def by blast
  then have "d' = d" using h s(3) by simp
  then have "s' = s" using s(1) s' env by (metis env_ok_def sum.inject(2))
  then show False using s'(2) s(2) e(2) by simp
qed

text \<open>
  The content \<open>d\<close> stays in the backend unless an operation deletes a state that has the digest
  of \<open>d\<close>.
\<close>

lemma step_keeps_content:
  assumes g: "store_good env key_ok binv contents st" and env: "env_ok env key_ok"
    and a: "op_addressed (env_sha env) key_ok op"
    and s: "\<And>d'. env_sha env d' = env_sha env d \<Longrightarrow> d' = d"
    and n: "\<And>j e. op \<in> {OpDelete j, OpGcDelete j} \<Longrightarrow> hm_get (store_index st) j = Some e \<Longrightarrow>
      env_sha env d \<noteq> ss_hash e"
    and c: "contents (store_backend st) (env_sha env d) = Some d"
  shows "contents (store_backend (store_step ops env op st)) (env_sha env d) = Some d"
proof -
  have inv: "binv (store_backend st)" using g by (simp add: store_good_def)
  have key: "key_ok (env_sha env x)" for x using env by (simp add: env_ok_def)
  have put: "contents (fst (be_put ops (env_sha env x) x (store_backend st))) (env_sha env d) = Some d" for x
    by (rule put_keeps [OF inv key prod.collapse [symmetric] c key]) (use s in blast)
  have delete: "contents (fst (be_delete ops (ss_hash e) (store_backend st))) (env_sha env d) = Some d"
    if "op \<in> {OpDelete j, OpGcDelete j}" "hm_get (store_index st) j = Some e" for j e
  proof -
    have "key_ok (ss_hash e)" using g env that(2) by (auto simp: store_good_def dest: index_ok_key)
    then show ?thesis
      using delete_keeps [OF inv _ prod.collapse [symmetric] n [OF that] key] c by simp
  qed
  show ?thesis
  proof (cases op)
    case (OpStore t1 t2 s')
    then show ?thesis
      using c put by (cases "env_ser env s'") (simp_all add: store_state_unserializable store_state_backend)
  next
    case (OpGet j)
    then show ?thesis using c by (simp add: get_state_backend)
  next
    case (OpDelete j)
    then show ?thesis
      using c delete delete_state_shape [OF _ prod.collapse [symmetric] refl, where st = st and i = j and ops = ops]
      by (cases "hm_get (store_index st) j") (auto simp: delete_state_missing)
  next
    case (OpStorePage p)
    then show ?thesis
      using c put [of "page_data p"] a
      by (auto simp: store_page_def split: prod.splits sum.splits)
  qed (use c delete in \<open>auto simp: increment_ref_def decrement_ref_def get_page_def fetch_backend
         gc_delete_def split: option.splits\<close>)
qed

lemma step_holds:
  assumes g: "store_good env key_ok binv contents st" and env: "env_ok env key_ok"
    and a: "op_addressed (env_sha env) key_ok op" and t: "\<not> touches i op"
    and s: "env_ser env s = Inr d" "st_id s = i" "\<And>d'. env_sha env d' = env_sha env d \<Longrightarrow> d' = d"
    and h: "holds_state env contents i d st"
  shows "holds_state env contents i d (store_step ops env op st)"
  unfolding holds_state_def
proof
  show "contents (store_backend (store_step ops env op st)) (env_sha env d) = Some d"
    by (rule step_keeps_content [OF g env a s(3) index_entry_other [OF g env s]])
      (use h t in \<open>auto simp: holds_state_def\<close>)
qed (use h t in \<open>simp add: holds_state_def step_index_other\<close>)

text \<open>A page, unlike a state, stays whatever is deleted.\<close>

lemma step_keeps_page:
  assumes "store_good env key_ok binv contents st" "env_ok env key_ok"
    and "op_addressed (env_sha env) key_ok op"
    and "\<And>d'. env_sha env d' = env_sha env d \<Longrightarrow> d' = d" "\<And>s. env_ser env s \<noteq> Inr d"
    and "contents (store_backend st) (env_sha env d) = Some d"
  shows "contents (store_backend (store_step ops env op st)) (env_sha env d) = Some d"
proof (rule step_keeps_content [OF assms(1-4) _ assms(6)])
  fix j e assume "hm_get (store_index st) j = Some e"
  then show "env_sha env d \<noteq> ss_hash e"
    using assms(1,4,5) unfolding store_good_def index_ok_def by metis
qed

lemma run_good:
  assumes "store_good env key_ok binv contents st" "env_ok env key_ok"
    and "list_all (op_addressed (env_sha env) key_ok) os"
  shows "store_good env key_ok binv contents (fold (store_step ops env) os st) \<and>
    unreadable (store_backend (fold (store_step ops env) os st)) = unreadable (store_backend st)"
  using assms(1,3)
proof (induction os arbitrary: st)
  case (Cons op os)
  then show ?case using step_good [OF Cons.prems(1) assms(2)] by simp
qed simp

lemma run_holds:
  assumes "store_good env key_ok binv contents st" "env_ok env key_ok"
    and "list_all (op_addressed (env_sha env) key_ok) os" "list_all (\<lambda>op. \<not> touches i op) os"
    and "env_ser env s = Inr d" "st_id s = i" "\<And>d'. env_sha env d' = env_sha env d \<Longrightarrow> d' = d"
    and "holds_state env contents i d st"
  shows "holds_state env contents i d (fold (store_step ops env) os st)"
  using assms(1,3,4,8)
proof (induction os arbitrary: st)
  case (Cons op os)
  then show ?case
    using step_good [OF Cons.prems(1) assms(2), of op]
      step_holds [OF Cons.prems(1) assms(2) _ _ assms(5,6,7), of op] by simp
qed simp

text \<open>A stored state is there once \<open>store_state\<close> has returned.\<close>

lemma store_state_holds:
  assumes g: "store_good env key_ok binv contents st" and env: "env_ok env key_ok"
    and d: "env_ser env s = Inr d" and r: "store_state ops env t1 t2 s st = (st', Inr e)"
  shows "holds_state env contents (st_id s) d st'"
proof -
  obtain b pr where p: "be_put ops (env_sha env d) d (store_backend st) = (b, pr)" by fastforce
  then have pr: "pr = Inr ()" using r d by (cases pr) (auto simp: store_state_def)
  have "contents b (env_sha env d) = Some d"
    using put_law [OF _ _ p] g env pr by (simp add: store_good_def env_ok_def)
  then show ?thesis
    using r d p pr by (auto simp: store_state_def holds_state_def Let_def split: option.splits)
qed

lemma get_state_holds:
  assumes g: "store_good env key_ok binv contents st" and env: "env_ok env key_ok"
    and s: "env_ser env s = Inr d" "\<And>d'. env_sha env d' = env_sha env d \<Longrightarrow> d' = d"
    and h: "holds_state env contents i d st"
  shows "snd (get_state ops env i st) = Ok s \<or>
    (\<exists>e. snd (get_state ops env i st) = Err e) \<and> unreadable (store_backend st)"
proof -
  obtain e where e: "hm_get (store_index st) i = Some e" "ss_hash e = env_sha env d"
    using h by (auto simp: holds_state_def)
  obtain st' r where f: "fetch_content ops (env_sha env d) st = (st', r)" by fastforce
  have de: "env_de env d = Inr s" using env s(1) by (simp add: env_ok_def)
  have "key_ok (env_sha env d)" using env by (simp add: env_ok_def)
  note fetch = fetch_good [OF g this f]
  show ?thesis
  proof (cases r)
    case (Inl x)
    then show ?thesis using fetch e f h by (simp add: get_state_def holds_state_def)
  next
    case (Inr c)
    then have "c = d" using fetch s(2) by simp
    then show ?thesis using Inr e f de by (simp add: get_state_def map_err_def)
  qed
qed

text \<open>Storing a state, running on, and fetching it.\<close>

lemma stored_then_fetched:
  assumes g: "store_good env key_ok binv contents st0" and env: "env_ok env key_ok"
    and os: "list_all (op_addressed (env_sha env) key_ok) os" "list_all (\<lambda>op. \<not> touches (st_id s) op) os"
    and s: "env_ser env s = Inr d" "\<And>d'. env_sha env d' = env_sha env d \<Longrightarrow> d' = d"
    and st: "store_state ops env t1 t2 s st0 = (st, Inr e)"
    and r: "get_state ops env (st_id s) (fold (store_step ops env) os st) = (st', r)"
  shows "r = Ok s \<or> (\<exists>msg. r = Err msg) \<and> unreadable (store_backend st0)"
proof -
  have g1: "store_good env key_ok binv contents st"
    and u1: "unreadable (store_backend st) = unreadable (store_backend st0)"
    using store_state_good [OF g env, of t1 t2 s] st by simp_all
  note g2 = run_good [OF g1 env os(1)]
  have "holds_state env contents (st_id s) d (fold (store_step ops env) os st)"
    by (rule run_holds [OF g1 env os s(1) refl s(2) store_state_holds [OF g env s(1) st]])
  from get_state_holds [OF conjunct1 [OF g2] env s this] g2 u1 r show ?thesis by simp
qed

lemma run_keeps_page:
  assumes "store_good env key_ok binv contents st" "env_ok env key_ok"
    and "list_all (op_addressed (env_sha env) key_ok) os"
    and "\<And>d'. env_sha env d' = env_sha env d \<Longrightarrow> d' = d" "\<And>s. env_ser env s \<noteq> Inr d"
    and "contents (store_backend st) (env_sha env d) = Some d"
  shows "contents (store_backend (fold (store_step ops env) os st)) (env_sha env d) = Some d"
  using assms(1,3,6)
proof (induction os arbitrary: st)
  case (Cons op os)
  then show ?case
    using step_good [OF Cons.prems(1) assms(2), of op]
      step_keeps_page [OF Cons.prems(1) assms(2) _ assms(4,5), of op] by simp
qed simp

lemma store_page_holds:
  assumes g: "store_good env key_ok binv contents st" and env: "env_ok env key_ok"
    and h: "env_sha env (page_data p) = page_hash p" and r: "store_page ops p st = (st', Inr k)"
  shows "k = page_hash p \<and> contents (store_backend st') k = Some (page_data p)"
proof -
  obtain b pr where q: "be_put ops (page_hash p) (page_data p) (store_backend st) = (b, pr)"
    by fastforce
  have "key_ok (page_hash p)" using env h by (metis env_ok_def)
  then show ?thesis
    using put_law [OF _ _ q] g r q by (cases pr) (auto simp: store_page_def store_good_def)
qed

lemma get_page_holds:
  assumes g: "store_good env key_ok binv contents st" and env: "env_ok env key_ok"
    and s: "\<And>d'. env_sha env d' = env_sha env d \<Longrightarrow> d' = d"
    and c: "contents (store_backend st) (env_sha env d) = Some d"
    and r: "get_page ops (env_sha env d) st = (st', r)"
  shows "r = Ok d \<or> (\<exists>e. r = Err e) \<and> unreadable (store_backend st)"
proof -
  have "key_ok (env_sha env d)" using env by (simp add: env_ok_def)
  from fetch_good [OF g this r [unfolded get_page_def]] show ?thesis
    using c s by (cases r) auto
qed

end

subsection \<open>The backends keep the contract\<close>

definition hex_key :: "string \<Rightarrow> bool" where
  "hex_key k \<longleftrightarrow> set k \<subseteq> set ''0123456789abcdef''"

definition local_inv :: "local_backend \<Rightarrow> bool" where
  "local_inv b \<longleftrightarrow> (\<forall>p. fs_fault b FsWrite p = None)"

definition local_contents :: "local_backend \<Rightarrow> string \<Rightarrow> bytes option" where
  "local_contents b k = hm_get (fs_files b) (key_to_path b k)"

definition fs_unreadable :: "local_backend \<Rightarrow> bool" where
  "fs_unreadable b \<longleftrightarrow> (\<exists>p. fs_fault b FsRead p \<noteq> None)"

definition with_slash :: "string \<Rightarrow> string" where
  "with_slash p = (if p = [] \<or> last p = CHR ''/'' then p else p @ ''/'')"

lemma path_join_hex: "CHR ''/'' \<notin> set c \<Longrightarrow> path_join p c = with_slash p @ c"
  by (cases c) (auto simp: path_join_def with_slash_def)

lemma hex_key_slash: "hex_key k \<Longrightarrow> CHR ''/'' \<notin> set k"
  by (auto simp: hex_key_def)

lemma key_to_path_hex:
  assumes "hex_key k"
  shows "key_to_path b k =
    with_slash (fs_base b) @ (if 2 \<le> length k then take 2 k @ ''/'' @ k else k)"
proof (cases "2 \<le> length k")
  case True
  have n: "CHR ''/'' \<notin> set (take 2 k)" using hex_key_slash [OF assms] by (meson in_set_takeD)
  moreover have "take 2 k \<noteq> []" using True by auto
  moreover have "last (take 2 k) \<noteq> CHR ''/''"
    using n calculation(2) last_in_set by metis
  ultimately have "with_slash (with_slash (fs_base b) @ take 2 k)
      = with_slash (fs_base b) @ take 2 k @ ''/''"
    by (simp add: with_slash_def)
  then show ?thesis
    using True n hex_key_slash [OF assms] by (simp add: key_to_path_def path_join_hex)
qed (use hex_key_slash [OF assms] in \<open>simp add: key_to_path_def path_join_hex\<close>)

lemma key_to_path_inj:
  assumes "hex_key k" "hex_key k'" "key_to_path b k = key_to_path b k'"
  shows "k = k'"
proof -
  have eq: "(if 2 \<le> length k then take 2 k @ ''/'' @ k else k) =
      (if 2 \<le> length k' then take 2 k' @ ''/'' @ k' else k')"
    using assms by (simp add: key_to_path_hex)
  show ?thesis
  proof (cases "2 \<le> length k \<longleftrightarrow> 2 \<le> length k'")
    case True
    then show ?thesis using eq by (auto split: if_splits)
  next
    case False
    then have "CHR ''/'' \<in> set k \<or> CHR ''/'' \<in> set k'"
      using arg_cong [OF eq, of set] by (auto split: if_splits)
    then show ?thesis using hex_key_slash assms by blast
  qed
qed

lemma key_to_path_files [simp]: "key_to_path (b\<lparr>fs_files := f\<rparr>) k = key_to_path b k"
  by (simp add: key_to_path_def)

lemma fs_unreadable_files [simp]: "fs_unreadable (b\<lparr>fs_files := f\<rparr>) = fs_unreadable b"
  by (simp add: fs_unreadable_def)

lemma local_inv_files [simp]: "local_inv (b\<lparr>fs_files := f\<rparr>) = local_inv b"
  by (simp add: local_inv_def)

lemma local_put_ok:
  assumes "local_inv b" "hex_key k" "local_put k d b = (b', r)"
  shows "local_inv b' \<and> fs_unreadable b' = fs_unreadable b \<and>
    local_contents b' k = (case r of Inl e \<Rightarrow> local_contents b k | Inr u \<Rightarrow> Some d) \<and>
    (\<forall>k'. hex_key k' \<longrightarrow> k' \<noteq> k \<longrightarrow> local_contents b' k' = local_contents b k')"
  using assms key_to_path_inj [of _ k b] assms(1) [unfolded local_inv_def]
  by (auto simp: local_put_def local_contents_def Let_def split: option.splits)

lemma local_delete_ok:
  assumes "local_inv b" "hex_key k" "local_delete k b = (b', r)"
  shows "local_inv b' \<and> fs_unreadable b' = fs_unreadable b \<and>
    local_contents b' k \<in> {None, local_contents b k} \<and>
    (\<forall>k'. hex_key k' \<longrightarrow> k' \<noteq> k \<longrightarrow> local_contents b' k' = local_contents b k')"
  using assms key_to_path_inj [of _ k b]
  by (auto simp: local_delete_def local_contents_def Let_def split: option.splits if_splits)

interpretation localfs: storage_backend local_ops local_inv local_contents hex_key fs_unreadable
proof (unfold_locales, goal_cases)
  case (1 b k d b' r)
  then show ?case using local_put_ok [of b k d b' r] by (simp add: local_ops_def)
next
  case (2 b k)
  then show ?case
    by (auto simp: local_ops_def local_get_def local_contents_def fs_unreadable_def Let_def
        split: option.splits)
next
  case (3 b k b' r)
  then show ?case using local_delete_ok [of b k b' r] by (simp add: local_ops_def)
qed

interpretation memory: storage_backend memory_ops "\<lambda>_. True" hm_get "\<lambda>_. True" "\<lambda>_. False"
  by unfold_locales
    (auto simp: memory_ops_def mem_put_def mem_get_def mem_delete_def split: option.splits)

lemma store_new_good:
  assumes "binv b" "\<And>k. contents b k = None"
  shows "store_good env key_ok binv contents (store_new limit b)"
  using assms by (simp add: store_good_def store_new_def index_ok_def cache_addressed_def
      backend_addressed_def)

section \<open>What the store promises\<close>


definition demo_state :: "string \<Rightarrow> unit state" where
  "demo_state i = state_new i ''ui'' () \<lparr>vcpus = 1, memory_mb = 64, kernel_image = [], rootfs_image = []\<rparr>
     \<lparr>meta_label = ''demo'', meta_created_at = 0, meta_ttl_seconds = Some 60\<rparr>"

definition demo_env :: "unit store_env" where
  "demo_env =
     \<lparr>env_ser = (\<lambda>s. if s = demo_state ''a'' then Ok [1]
                   else if s = demo_state ''b'' then Ok [2] else Err ''unsupported''),
      env_de = (\<lambda>d. Ok (if d = [1] then demo_state ''a'' else demo_state ''b'')),
      env_sha = (\<lambda>d. if d = [1] then ''a1'' else ''b2''),
      env_add_seconds = (\<lambda>t n. Some (t + n * 1000000000))\<rparr>"

definition demo_fs :: local_backend where
  "demo_fs = \<lparr>fs_base = ''/data'', fs_files = [], fs_fault = (\<lambda>_ _. None), fs_torn = 0\<rparr>"

lemma demo_states_differ [simp]: "demo_state ''b'' \<noteq> demo_state ''a''" "st_id (demo_state i) = StateId i"
  by (simp_all add: demo_state_def state_new_def)


lemma gc_delete_index: "store_index (gc_delete ops i st) = hm_remove i (store_index st)"
  by (simp add: gc_delete_def hm_remove_id split: option.splits)

lemma fold_gc_index: "store_index (fold (gc_delete ops) is st) = fold hm_remove is (store_index st)"
  by (induction "is" arbitrary: st) (simp_all add: gc_delete_index)

lemma fold_hm_remove: "fold hm_remove ks m = filter (\<lambda>(k, v). k \<notin> set ks) m"
  by (induction ks arbitrary: m) (auto simp: hm_remove_def intro: filter_cong)

lemma hm_ok_same_key: "hm_ok m \<Longrightarrow> (k, v) \<in> set m \<Longrightarrow> (k, v') \<in> set m \<Longrightarrow> v = v'"
  by (metis hm_get_iff option.inject)

text \<open>C7. An undisturbed tick of the garbage collector removes exactly the states that are
  expired and have no reference: every other entry stays, in its place and unchanged.  (A state
  is stored with one reference, so its time to live alone never removes it.)\<close>

theorem gc_tick_exact:
  assumes "hm_ok (store_index st)"
  shows "store_index (gc_tick ops now st) =
    filter (\<lambda>(i, s). \<not> (\<exists>ex. ss_expires s = Some ex \<and> ex < now \<and> ss_refs s = 0)) (store_index st)"
  unfolding gc_tick_def fold_gc_index fold_hm_remove
  by (rule filter_cong)
    (auto simp: gc_scan_def gc_expired_def image_iff split: option.splits
      dest: hm_ok_same_key [OF assms])

definition demo_entry :: "nat \<Rightarrow> stored_state" where
  "demo_entry n = \<lparr>ss_id = StateId ''a'', ss_hash = ''a1'', ss_refs = n, ss_created = 0,
     ss_expires = Some 10, ss_size = 1,
     ss_meta = \<lparr>meta_label = [], meta_created_at = 0, meta_ttl_seconds = None\<rparr>\<rparr>"

definition demo_store :: "memory_backend state_store" where
  "demo_store = \<lparr>store_cache_limit = 4,
     store_index = [(StateId ''a'', demo_entry 0), (StateId ''b'', demo_entry 1)],
     store_cache = [], store_backend = [(''a1'', [1])]\<rparr>"

lemma gc_tick_exact_witness:
  "store_index (gc_tick memory_ops 11 demo_store) = [(StateId ''b'', demo_entry 1)]"
  using gc_tick_exact [of demo_store memory_ops 11]
  by (simp add: demo_store_def demo_entry_def hm_ok_def)

text \<open>The collector races with its users: a reference taken between its scan and its
  deletion does not save the state.  The increment succeeds, the entry then has one reference,
  and the pending deletion still removes it.\<close>

theorem gc_race_drops_reference:
  assumes "hm_ok (store_index st)" "i \<in> set (gc_scan now st)"
    and "increment_ref i st = (st', r)"
  shows "r = Ok () \<and> (\<exists>s. hm_get (store_index st') i = Some s \<and> ss_refs s = 1) \<and>
    \<not> has_state i (gc_delete ops i st')"
proof -
  obtain s where s: "(i, s) \<in> set (store_index st)" "gc_expired now s"
    using assms(2) by (auto simp: gc_scan_def)
  then have g: "hm_get (store_index st) i = Some s" using assms(1) by (simp add: hm_get_iff)
  have "ss_refs s = 0" using s(2) by (auto simp: gc_expired_def split: option.splits)
  then show ?thesis
    using g assms(3)
    by (auto simp: increment_ref_def has_state_def hm_contains_def gc_delete_index)
qed

lemma gc_race_drops_reference_witness:
  "snd (increment_ref (StateId ''a'') demo_store) = Ok () \<and>
   \<not> has_state (StateId ''a'') (gc_delete memory_ops (StateId ''a'')
       (fst (increment_ref (StateId ''a'') demo_store)))"
  using gc_race_drops_reference [of demo_store "StateId ''a''" 11
      "fst (increment_ref (StateId ''a'') demo_store)"
      "snd (increment_ref (StateId ''a'') demo_store)" memory_ops]
  by (simp add: demo_store_def demo_entry_def hm_ok_def gc_scan_def gc_expired_def)

end
