(* ===== verification/PageFault.thy ===== *)
theory PageFault
  imports StateStore
begin

text \<open>
  \<^verbatim>\<open>src/src/page_fault_handler.rs\<close>: where the handler takes the content of a faulting page from
  (the page cache, then the state store, else zeroes).  \<open>lookup\<close> is \<^verbatim>\<open>StateStore::get_page\<close>; the
  locale \<open>page_source\<close> states what the handler needs of it, and the store over each of its
  backends provides it.  The reading of events and the \<^verbatim>\<open>ioctl\<close>s of userfaultfd are not modelled:
  an event is an address, the answer what is to be done with the page.
\<close>

section \<open>Looking a page up\<close>

text \<open>\<^verbatim>\<open>region.base_addr + region.size\<close> wraps, as in a release build.\<close>

definition covers :: "u64 \<Rightarrow> memory_region \<Rightarrow> bool" where
  "covers a r \<longleftrightarrow> a \<ge> region_base r \<and> a < region_base r + region_size r"

definition page_align :: "nat \<Rightarrow> u64 \<Rightarrow> u64" where
  "page_align page_size a = a AND NOT (of_nat page_size - 1)"

definition first_of_size :: "nat \<Rightarrow> memory_page list \<Rightarrow> bytes option" where
  "first_of_size page_size ps =
     map_option page_data (List.find (\<lambda>p. length (page_data p) = page_size) ps)"

fun cached_in_regions :: "nat \<Rightarrow> u64 \<Rightarrow> memory_page list \<Rightarrow> memory_region list \<Rightarrow> bytes option" where
  "cached_in_regions page_size a ps [] = None"
| "cached_in_regions page_size a ps (r # rs) =
     (if covers a r
      then (case first_of_size page_size ps of
              Some d \<Rightarrow> Some d
            | None \<Rightarrow> cached_in_regions page_size a ps rs)
      else cached_in_regions page_size a ps rs)"

definition page_name :: "u64 \<Rightarrow> memory_region \<Rightarrow> bytes" where
  "page_name a r = str_bytes (region_id r) @ be64 (a - region_base r)"

fun stored_in_regions :: "(string \<Rightarrow> 's \<Rightarrow> 's \<times> ('e, bytes) result) \<Rightarrow> (bytes \<Rightarrow> string) \<Rightarrow>
    u64 \<Rightarrow> memory_region list \<Rightarrow> 's \<Rightarrow> 's \<times> bytes option" where
  "stored_in_regions lookup sha a [] st = (st, None)"
| "stored_in_regions lookup sha a (r # rs) st =
     (if covers a r
      then (case lookup (sha (page_name a r)) st of
              (st', Inr d) \<Rightarrow> (st', Some d)
            | (st', Inl e) \<Rightarrow> stored_in_regions lookup sha a rs st')
      else stored_in_regions lookup sha a rs st)"

definition fetch_page_from_store :: "(string \<Rightarrow> 's \<Rightarrow> 's \<times> ('e, bytes) result) \<Rightarrow>
    (bytes \<Rightarrow> string) \<Rightarrow> (string, memory_page) hmap \<Rightarrow> u64 \<Rightarrow> nat \<Rightarrow> memory_region list option \<Rightarrow>
    's \<Rightarrow> 's \<times> bytes option" where
  "fetch_page_from_store lookup sha cache addr page_size manifest st =
     (let a = page_align page_size addr;
          cached = (case manifest of
                      Some rs \<Rightarrow> cached_in_regions page_size a (hm_values cache) rs
                    | None \<Rightarrow> first_of_size page_size (hm_values cache))
      in case cached of
           Some d \<Rightarrow> (st, Some d)
         | None \<Rightarrow> (case manifest of
                      Some rs \<Rightarrow> stored_in_regions lookup sha a rs st
                    | None \<Rightarrow> (st, None)))"

text \<open>What the handler's thread does with a fault: copy the page found, or fill with zeroes.\<close>

datatype fault_action = CopyPage u64 bytes | ZeroFill u64

definition handle_fault :: "(string \<Rightarrow> 's \<Rightarrow> 's \<times> ('e, bytes) result) \<Rightarrow>
    (bytes \<Rightarrow> string) \<Rightarrow> (string, memory_page) hmap \<Rightarrow> u64 \<Rightarrow> nat \<Rightarrow> memory_region list option \<Rightarrow>
    's \<Rightarrow> 's \<times> fault_action" where
  "handle_fault lookup sha cache addr page_size manifest st =
     (case fetch_page_from_store lookup sha cache addr page_size manifest st of
        (st', Some d) \<Rightarrow> (st', CopyPage (page_align page_size addr) d)
      | (st', None) \<Rightarrow> (st', ZeroFill (page_align page_size addr)))"

section \<open>The source of pages\<close>

text \<open>
  A source that addresses its pages by content: whatever a lookup returns has the digest that
  was looked up, and a lookup leaves the source good.
\<close>

locale page_source =
  fixes lookup :: "string \<Rightarrow> 's \<Rightarrow> 's \<times> ('e, bytes) result"
    and good :: "'s \<Rightarrow> bool"
    and sha :: "bytes \<Rightarrow> string"
  assumes lookup_good: "good st \<Longrightarrow> good (fst (lookup (sha x) st))"
    and lookup_addressed: "good st \<Longrightarrow> snd (lookup (sha x) st) = Inr d \<Longrightarrow> sha d = sha x"
begin

lemma stored_in_regions_good:
  "good st \<Longrightarrow> good (fst (stored_in_regions lookup sha a rs st))"
proof (induction rs arbitrary: st)
  case (Cons r rs)
  then show ?case
    using lookup_good [of st "page_name a r"]
    by (auto simp: case_prod_beta split: sum.splits)
qed simp

lemma stored_in_regions_named:
  "good st \<Longrightarrow> snd (stored_in_regions lookup sha a rs st) = Some d \<Longrightarrow>
     \<exists>r\<in>set rs. covers a r \<and> sha d = sha (page_name a r)"
proof (induction rs arbitrary: st)
  case (Cons r rs)
  show ?case
  proof (cases "covers a r")
    case True
    obtain st' x where l: "lookup (sha (page_name a r)) st = (st', x)" by fastforce
    then show ?thesis
      using Cons True lookup_good [OF Cons.prems(1), of "page_name a r"]
        lookup_addressed [OF Cons.prems(1), of "page_name a r"]
      by (cases x) auto
  qed (use Cons in simp)
qed simp

text \<open>So what comes from the store is the name of the page, unless another content has its digest.\<close>

lemma fetched_is_name:
  assumes "good st" "snd (fetch_page_from_store lookup sha cache addr n (Some rs) st) = Some d"
    and "\<forall>p\<in>set (hm_values cache). length (page_data p) \<noteq> n"
    and "\<And>r x. r \<in> set rs \<Longrightarrow> sha x = sha (page_name (page_align n addr) r) \<Longrightarrow>
      x = page_name (page_align n addr) r"
  shows "\<exists>r\<in>set rs. d = page_name (page_align n addr) r"
proof -
  have none: "first_of_size n (hm_values cache) = None"
    using assms(3) by (auto simp: first_of_size_def find_None_iff)
  have "cached_in_regions n a (hm_values cache) rs = None" for a
    by (induction rs) (simp_all add: none)
  then have "snd (stored_in_regions lookup sha (page_align n addr) rs st) = Some d"
    using assms(2) by (simp add: fetch_page_from_store_def)
  then show ?thesis using stored_in_regions_named [OF assms(1)] assms(4) by blast
qed

end

text \<open>The state store is such a source, over the file system and over memory.\<close>

interpretation local_pages: page_source "get_page local_ops"
    "\<lambda>st. store_good env hex_key local_inv local_contents st \<and> env_ok env hex_key" "env_sha env"
  for env :: "'j store_env"
proof unfold_locales
  fix st x
  assume g: "store_good env hex_key local_inv local_contents st \<and> env_ok env hex_key"
  note f = localfs.fetch_good [OF conjunct1 [OF g] _ prod.collapse [symmetric], of "env_sha env x"]
  show "store_good env hex_key local_inv local_contents (fst (get_page local_ops (env_sha env x) st)) \<and>
      env_ok env hex_key"
    using f g by (simp add: get_page_def env_ok_def)
  show "env_sha env d = env_sha env x" if "snd (get_page local_ops (env_sha env x) st) = Inr d" for d
    using f g that by (simp add: get_page_def env_ok_def)
qed

interpretation memory_pages: page_source "get_page memory_ops"
    "\<lambda>st. store_good env (\<lambda>_. True) (\<lambda>_. True) hm_get st \<and> env_ok env (\<lambda>_. True)" "env_sha env"
  for env :: "'j store_env"
proof unfold_locales
  fix st x
  assume g: "store_good env (\<lambda>_. True) (\<lambda>_. True) hm_get st \<and> env_ok env (\<lambda>_. True)"
  note f = memory.fetch_good [OF conjunct1 [OF g] _ prod.collapse [symmetric], of "env_sha env x"]
  show "store_good env (\<lambda>_. True) (\<lambda>_. True) hm_get (fst (get_page memory_ops (env_sha env x) st)) \<and>
      env_ok env (\<lambda>_. True)"
    using f g by (simp add: get_page_def env_ok_def)
  show "env_sha env d = env_sha env x" if "snd (get_page memory_ops (env_sha env x) st) = Inr d" for d
    using f g that by (simp add: get_page_def env_ok_def)
qed

section \<open>What faults are answered with\<close>

lemma first_of_size_Some:
  "p \<in> set ps \<Longrightarrow> length (page_data p) = n \<Longrightarrow>
     first_of_size n ps = Some (page_data (hd (filter (\<lambda>p. length (page_data p) = n) ps)))"
  by (induction ps) (auto simp: first_of_size_def)

lemma cached_in_regions_first:
  "r \<in> set rs \<Longrightarrow> covers a r \<Longrightarrow> first_of_size n ps = Some d \<Longrightarrow> cached_in_regions n a ps rs = Some d"
  by (induction rs) auto

text \<open>Every fault in a known region is answered with the same page: whichever address faults,
  the handler copies the first page in the cache that has the size of a page, because the
  search of the cache never looks at which page it has found.\<close>

theorem fault_serves_first_cached_page:
  assumes "r \<in> set rs" "covers (page_align n addr) r"
    and "p \<in> set (hm_values cache)" "length (page_data p) = n"
  shows "handle_fault lookup sha cache addr n (Some rs) st =
    (st, CopyPage (page_align n addr)
      (page_data (hd (filter (\<lambda>p. length (page_data p) = n) (hm_values cache)))))"
  using cached_in_regions_first [OF assms(1,2) first_of_size_Some [OF assms(3,4)]]
  by (simp add: handle_fault_def fetch_page_from_store_def)

definition demo_region :: memory_region where
  "demo_region = \<lparr>region_id = ''r'', region_base = 0x1000, region_size = 0x2000,
     region_flags = \<lparr>flag_read = True, flag_write = True, flag_execute = False\<rparr>,
     region_temperature = Hot\<rparr>"

definition demo_cache :: "(string, memory_page) hmap" where
  "demo_cache = [(''h'', \<lparr>page_hash = ''h'', page_data = replicate 4096 7,
     page_compression = CompNone, page_original_size = 4096\<rparr>)]"

lemma fault_serves_first_cached_page_witness:
  "handle_fault (get_page memory_ops) (\<lambda>d. ''h'') demo_cache 0x1234 4096 (Some [demo_region])
      (store_new 4 []) =
     (store_new 4 [], CopyPage 0x1000 (replicate 4096 7)) \<and>
   handle_fault (get_page memory_ops) (\<lambda>d. ''h'') demo_cache 0x2345 4096 (Some [demo_region])
      (store_new 4 []) =
     (store_new 4 [], CopyPage 0x2000 (replicate 4096 7))"
  using fault_serves_first_cached_page [of demo_region "[demo_region]" 4096 "0x1234" "snd (hd demo_cache)"
      demo_cache "get_page memory_ops" "\<lambda>d. ''h''" "store_new 4 []"]
    fault_serves_first_cached_page [of demo_region "[demo_region]" 4096 "0x2345" "snd (hd demo_cache)"
      demo_cache "get_page memory_ops" "\<lambda>d. ''h''" "store_new 4 []"]
  by (simp add: demo_region_def demo_cache_def covers_def page_align_def hm_values_def)

text \<open>The pages in the store are never found: over the file system, after any run of the
  store, whatever pages it holds, a fault that the cache cannot answer is filled with zeroes or
  (if somebody has stored those very bytes) with the name of the page, because the page is looked
  up under the digest of its region and offset while it is stored under the digest of its
  content.  No other content is assumed to have the digest of such a name.\<close>

theorem fault_never_finds_stored_page:
  assumes "local_inv b" "fs_files b = []" "env_ok env hex_key"
    and "list_all (op_addressed (env_sha env) hex_key) os"
    and "\<forall>p\<in>set (hm_values cache). length (page_data p) \<noteq> n"
    and "\<And>r x. r \<in> set rs \<Longrightarrow> env_sha env x = env_sha env (page_name (page_align n addr) r) \<Longrightarrow>
      x = page_name (page_align n addr) r"
  shows "snd (handle_fault (get_page local_ops) (env_sha env) cache addr n (Some rs)
      (fold (store_step local_ops env) os (store_new limit b)))
    \<in> insert (ZeroFill (page_align n addr))
        ((\<lambda>r. CopyPage (page_align n addr) (page_name (page_align n addr) r)) ` set rs)"
proof -
  let ?st = "fold (store_step local_ops env) os (store_new limit b)"
  have "store_good env hex_key local_inv local_contents (store_new limit b)"
    using assms(1,2) by (intro store_new_good) (auto simp: local_contents_def)
  then have g: "store_good env hex_key local_inv local_contents ?st \<and> env_ok env hex_key"
    using localfs.run_good [OF _ assms(3,4)] assms(3) by simp
  show ?thesis
  proof (cases "snd (fetch_page_from_store (get_page local_ops) (env_sha env) cache addr n (Some rs) ?st)")
    case (Some d)
    then show ?thesis
      using local_pages.fetched_is_name [OF g Some assms(5,6)]
      by (auto simp: handle_fault_def case_prod_beta)
  qed (simp add: handle_fault_def case_prod_beta)
qed

definition demo_fault_env :: "unit store_env" where
  "demo_fault_env = demo_env\<lparr>env_sha :=
     (\<lambda>d. if d = [1] then ''a1'' else if d = page_name 0x1000 demo_region then ''c3'' else ''b2'')\<rparr>"

lemma demo_fault_env_ok: "env_ok demo_fault_env hex_key"
  by (simp add: env_ok_def demo_fault_env_def demo_env_def hex_key_def split: if_splits)

lemma fault_never_finds_stored_page_witness:
  "snd (handle_fault (get_page local_ops) (env_sha demo_fault_env) [] 0x1234 4096 (Some [demo_region])
     (fold (store_step local_ops demo_fault_env) [OpStore 0 0 (demo_state ''a'')] (store_new 4 demo_fs)))
     \<in> {ZeroFill 0x1000, CopyPage 0x1000 (page_name 0x1000 demo_region)}"
proof -
  have al: "page_align 4096 0x1234 = 0x1000" by (simp add: page_align_def)
  have n: "page_name 0x1000 demo_region \<noteq> [1]"
    by (rule notI) (drule arg_cong [of _ _ length], simp add: page_name_def demo_region_def)
  have fs: "local_inv demo_fs" "fs_files demo_fs = []" by (simp_all add: local_inv_def demo_fs_def)
  have sha: "x = page_name (page_align 4096 0x1234) r"
    if "r \<in> set [demo_region]"
      "env_sha demo_fault_env x = env_sha demo_fault_env (page_name (page_align 4096 0x1234) r)" for x r
    using that n unfolding al by (simp add: demo_fault_env_def split: if_splits)
  have "snd (handle_fault (get_page local_ops) (env_sha demo_fault_env) [] 0x1234 4096 (Some [demo_region])
     (fold (store_step local_ops demo_fault_env) [OpStore 0 0 (demo_state ''a'')] (store_new 4 demo_fs)))
     \<in> insert (ZeroFill 0x1000) ((\<lambda>r. CopyPage 0x1000 (page_name 0x1000 r)) ` set [demo_region])"
  proof (rule fault_never_finds_stored_page [OF fs demo_fault_env_ok _ _ sha, unfolded al])
    show "\<forall>p\<in>set (hm_values []). length (page_data p) \<noteq> 4096" by (simp add: hm_values_def)
  qed simp_all
  then show ?thesis by (simp only: list.set image_insert image_empty)
qed

end
