(* ===== verification/StateDiff.thy ===== *)
theory StateDiff
  imports StateStore
begin

text \<open>
  \<^verbatim>\<open>src/src/state_diff.rs\<close>: the difference of two states, its application to the source state,
  the merging of differences and the accounting of an incremental transfer.  Parameters
  (\<open>diff_env\<close>): the JSON of CPU states and descriptors, and SHA-256.
\<close>

section \<open>Deltas\<close>

record state_delta =
  dl_from :: state_id
  dl_to :: state_id
  dl_added :: "memory_region list"
  dl_removed :: "memory_region list"
  dl_modified :: "memory_region list"
  dl_added_pages :: "(string, bytes) hmap"
  dl_removed_pages :: "string list"
  dl_cpu :: bool
  dl_fd :: bool
  dl_socket :: bool
  dl_size :: nat

definition delta_new :: "state_id \<Rightarrow> state_id \<Rightarrow> state_delta" where
  "delta_new a b =
     \<lparr>dl_from = a, dl_to = b, dl_added = [], dl_removed = [], dl_modified = [],
      dl_added_pages = [], dl_removed_pages = [], dl_cpu = False, dl_fd = False,
      dl_socket = False, dl_size = 0\<rparr>"

definition transfer_size :: "state_delta \<Rightarrow> nat" where
  "transfer_size d = sum_list (map length (hm_values (dl_added_pages d)))"

definition delta_is_empty :: "state_delta \<Rightarrow> bool" where
  "delta_is_empty d \<longleftrightarrow> \<not> dl_cpu d \<and> \<not> dl_fd d \<and> \<not> dl_socket d \<and> dl_added d = [] \<and>
     dl_removed d = [] \<and> dl_modified d = [] \<and> dl_added_pages d = []"

definition compression_ratio :: "state_delta \<Rightarrow> nat \<Rightarrow> f32" where
  "compression_ratio d original =
     (if original = 0 then 1
      else f32_sub 1 (f32_div (f32_of_nat (transfer_size d)) (f32_of_nat original)))"

section \<open>Computing a delta\<close>

record differ =
  df_page_level :: bool
  df_min_size :: nat

definition differ_new :: differ where
  "differ_new = \<lparr>df_page_level = True, df_min_size = PAGE_SIZE\<rparr>"

record 'j diff_env =
  json_cpu :: "'j cpu_state \<Rightarrow> (string, bytes) result"
  json_fd :: "fd_descriptor \<Rightarrow> (string, bytes) result"
  json_socket :: "socket_descriptor \<Rightarrow> (string, bytes) result"
  diff_sha :: "bytes \<Rightarrow> string"

text \<open>\<^verbatim>\<open>hash_state\<close>: an item that does not serialize hashes as the empty string does.\<close>

definition hash_item :: "(bytes \<Rightarrow> string) \<Rightarrow> ('a \<Rightarrow> (string, bytes) result) \<Rightarrow> 'a \<Rightarrow> string" where
  "hash_item sha json x = sha (case json x of Inl e \<Rightarrow> [] | Inr b \<Rightarrow> b)"

definition cpu_differs :: "'j diff_env \<Rightarrow> 'j cpu_state \<Rightarrow> 'j cpu_state \<Rightarrow> bool" where
  "cpu_differs env a b \<longleftrightarrow>
     hash_item (diff_sha env) (json_cpu env) a \<noteq> hash_item (diff_sha env) (json_cpu env) b"

definition tables_differ :: "('a \<Rightarrow> string) \<Rightarrow> 'a list \<Rightarrow> 'a list \<Rightarrow> bool" where
  "tables_differ h as bs \<longleftrightarrow>
     (if length as \<noteq> length bs then True else list_ex (\<lambda>(a, b). h a \<noteq> h b) (zip as bs))"

definition fds_differ :: "'j diff_env \<Rightarrow> fd_descriptor list \<Rightarrow> fd_descriptor list \<Rightarrow> bool" where
  "fds_differ env = tables_differ (hash_item (diff_sha env) (json_fd env))"

definition sockets_differ :: "'j diff_env \<Rightarrow> socket_descriptor list \<Rightarrow> socket_descriptor list \<Rightarrow> bool" where
  "sockets_differ env = tables_differ (hash_item (diff_sha env) (json_socket env))"

text \<open>The hash maps that the manifests are collected into; a later region replaces an earlier
  one with the same id.\<close>

definition region_map :: "memory_region list \<Rightarrow> (string, memory_region) hmap" where
  "region_map rs = fold (\<lambda>r. hm_insert (region_id r) r) rs []"

definition region_code :: "memory_region \<Rightarrow> bytes" where
  "region_code r = str_bytes (region_id r) @ be64 (region_base r) @ be64 (region_size r)"

definition build_page_hash_map :: "(bytes \<Rightarrow> string) \<Rightarrow> memory_region list \<Rightarrow> (string, bytes) hmap" where
  "build_page_hash_map sha rs = fold (\<lambda>r. hm_insert (sha (region_code r)) []) rs []"

fun build_page_hash_map_with_data :: "(string \<Rightarrow> 's \<Rightarrow> 's \<times> ('e, bytes) result) \<Rightarrow> (bytes \<Rightarrow> string) \<Rightarrow>
    memory_region list \<Rightarrow> (string, bytes) hmap \<Rightarrow> 's \<Rightarrow> 's \<times> (string, bytes) hmap" where
  "build_page_hash_map_with_data lookup sha [] pages st = (st, pages)"
| "build_page_hash_map_with_data lookup sha (r # rs) pages st =
     (let h = sha (region_code r) in
      case lookup h st of
        (st', Inr d) \<Rightarrow> build_page_hash_map_with_data lookup sha rs (hm_insert h d pages) st'
      | (st', Inl e) \<Rightarrow> build_page_hash_map_with_data lookup sha rs (hm_insert h [] pages) st')"

definition diff_modified_regions :: "(bytes \<Rightarrow> string) \<Rightarrow> memory_region list \<Rightarrow> memory_region list \<Rightarrow>
    (string, memory_region) hmap \<Rightarrow> (string, memory_region) hmap \<Rightarrow> state_delta \<Rightarrow> state_delta" where
  "diff_modified_regions sha from to from_map to_map d =
     (let from_pages = build_page_hash_map sha from;
          to_pages = build_page_hash_map sha to;
          added = filter (\<lambda>(h, x). \<not> hm_contains from_pages h) to_pages;
          removed = filter (\<lambda>h. \<not> hm_contains to_pages h) (hm_keys from_pages);
          changed = filter (\<lambda>h. \<not> hm_contains from_pages h) (hm_keys to_pages);
          common = map snd (filter (\<lambda>(i, r). hm_contains from_map i) to_map)
      in d\<lparr>dl_added_pages := fold (\<lambda>(h, x). hm_insert h x) added (dl_added_pages d),
           dl_removed_pages := dl_removed_pages d @ removed,
           dl_modified := (if changed \<noteq> [] then dl_modified d @ common else dl_modified d)\<rparr>)"

definition compare_memory_regions :: "differ \<Rightarrow> (bytes \<Rightarrow> string) \<Rightarrow> memory_region list \<Rightarrow>
    memory_region list \<Rightarrow> state_delta \<Rightarrow> state_delta" where
  "compare_memory_regions df sha from to d =
     (let from_map = region_map from; to_map = region_map to;
          d = d\<lparr>dl_added := dl_added d @ map snd (filter (\<lambda>(i, r). \<not> hm_contains from_map i) to_map),
                dl_removed := dl_removed d @ map snd (filter (\<lambda>(i, r). \<not> hm_contains to_map i) from_map)\<rparr>
      in if df_page_level df then diff_modified_regions sha from to from_map to_map d
         else d\<lparr>dl_modified := dl_modified d @
                  List.map_filter (\<lambda>(i, r). hm_get to_map i) from_map\<rparr>)"

definition compute_delta :: "'j diff_env \<Rightarrow> differ \<Rightarrow> 'j state \<Rightarrow> 'j state \<Rightarrow> state_delta" where
  "compute_delta env df from to =
     (let d = (delta_new (st_id from) (st_id to))
            \<lparr>dl_cpu := cpu_differs env (st_cpu from) (st_cpu to),
             dl_fd := fds_differ env (st_fds from) (st_fds to),
             dl_socket := sockets_differ env (st_sockets from) (st_sockets to)\<rparr>;
          d = compare_memory_regions df (diff_sha env) (st_manifest from) (st_manifest to) d
      in d\<lparr>dl_size := transfer_size d\<rparr>)"

section \<open>Applying a delta\<close>

datatype patch_error =
    StateMismatch string string
  | InvalidDelta string
  | PatchSerializationError string

fun replace_first :: "memory_region \<Rightarrow> memory_region list \<Rightarrow> memory_region list" where
  "replace_first m [] = []"
| "replace_first m (r # rs) = (if region_id r = region_id m then m # rs else r # replace_first m rs)"

definition add_region :: "memory_region \<Rightarrow> memory_region list \<Rightarrow> memory_region list" where
  "add_region r rs = (if list_ex (\<lambda>x. region_id x = region_id r) rs then rs else rs @ [r])"

definition apply_memory_patches :: "state_delta \<Rightarrow> memory_region list \<Rightarrow> memory_region list" where
  "apply_memory_patches d rs =
     fold replace_first (dl_modified d)
       (fold add_region (dl_added d)
         (filter (\<lambda>r. \<not> list_ex (\<lambda>x. region_id x = region_id r) (dl_removed d)) rs))"

definition apply_delta :: "'j state \<Rightarrow> state_delta \<Rightarrow> 'j cpu_state option \<Rightarrow> (patch_error, 'j state) result" where
  "apply_delta from d to_cpu =
     (if sid_str (dl_from d) \<noteq> sid_str (st_id from)
      then Err (StateMismatch (sid_str (st_id from)) (sid_str (dl_from d)))
      else
        let r = from\<lparr>st_id := dl_to d\<rparr>;
            r = (if dl_cpu d then (case to_cpu of Some c \<Rightarrow> r\<lparr>st_cpu := c\<rparr> | None \<Rightarrow> r) else r)
        in Ok (r\<lparr>st_manifest := apply_memory_patches d (st_manifest r)\<rparr>))"

text \<open>\<^verbatim>\<open>HashSet::extend\<close> keeps one copy.\<close>

definition merge_step :: "state_delta \<Rightarrow> state_delta \<Rightarrow> state_delta" where
  "merge_step d m =
     m\<lparr>dl_added_pages := fold (\<lambda>(h, x). hm_insert h x) (dl_added_pages d) (dl_added_pages m),
       dl_removed_pages := fold push_new (dl_removed_pages d) (dl_removed_pages m),
       dl_cpu := dl_cpu m \<or> dl_cpu d, dl_fd := dl_fd m \<or> dl_fd d,
       dl_socket := dl_socket m \<or> dl_socket d, dl_size := dl_size m + dl_size d\<rparr>"

definition merge_deltas :: "state_delta list \<Rightarrow> state_delta option" where
  "merge_deltas ds =
     (if ds = [] then None
      else Some (fold merge_step ds (delta_new (dl_from (hd ds)) (dl_to (last ds)))))"

section \<open>Incremental transfer\<close>

record transfer_result =
  tr_delta :: state_delta
  tr_bytes :: nat
  tr_pages :: nat
  tr_ratio :: f32

definition estimate_state_size :: "'j state \<Rightarrow> nat" where
  "estimate_state_size s = sum_list (map (unat \<circ> region_size) (st_manifest s)) mod 2 ^ 64"

definition transfer_incremental :: "'j diff_env \<Rightarrow> 'j state \<Rightarrow> 'j state \<Rightarrow> transfer_result" where
  "transfer_incremental env from to =
     (let d = compute_delta env differ_new from to in
      if delta_is_empty d then \<lparr>tr_delta = d, tr_bytes = 0, tr_pages = 0, tr_ratio = 1\<rparr>
      else \<lparr>tr_delta = d, tr_bytes = transfer_size d, tr_pages = hm_len (dl_added_pages d),
            tr_ratio = compression_ratio d (estimate_state_size to)\<rparr>)"

section \<open>Manifests as maps\<close>

lemma region_map_snoc: "region_map (rs @ [r]) = hm_insert (region_id r) r (region_map rs)"
  by (simp add: region_map_def)

lemma region_map_ok [simp]: "hm_ok (region_map rs)"
  by (induction rs rule: rev_induct) (simp_all add: region_map_snoc, simp add: region_map_def)

lemma region_map_contains: "hm_contains (region_map rs) i \<longleftrightarrow> i \<in> region_id ` set rs"
  by (induction rs rule: rev_induct)
    (auto simp: region_map_snoc hm_contains_def, simp add: region_map_def)

lemma region_map_get:
  "distinct (map region_id rs) \<Longrightarrow> hm_get (region_map rs) i = Some r \<longleftrightarrow> r \<in> set rs \<and> region_id r = i"
  by (induction rs rule: rev_induct) (auto simp: region_map_snoc region_map_def image_iff)

lemma region_map_elem:
  "distinct (map region_id rs) \<Longrightarrow> (i, r) \<in> set (region_map rs) \<longleftrightarrow> r \<in> set rs \<and> region_id r = i"
  by (simp flip: hm_get_iff [OF region_map_ok] add: region_map_get)

lemma region_map_filter:
  assumes "distinct (map region_id rs)"
  shows "set (map snd (filter (\<lambda>(i, r). P i) (region_map rs))) = {r \<in> set rs. P (region_id r)}"
    and "distinct (map region_id (map snd (filter (\<lambda>(i, r). P i) (region_map rs))))"
proof -
  show "set (map snd (filter (\<lambda>(i, r). P i) (region_map rs))) = {r \<in> set rs. P (region_id r)}"
    by (force simp: region_map_elem [OF assms])
  have "map (region_id \<circ> snd) (region_map rs) = map fst (region_map rs)"
    by (rule map_cong) (auto simp: region_map_elem [OF assms])
  then have "distinct (map (region_id \<circ> snd) (region_map rs))"
    using region_map_ok [of rs] unfolding hm_ok_def by (simp only:)
  then show "distinct (map region_id (map snd (filter (\<lambda>(i, r). P i) (region_map rs))))"
    by (simp add: distinct_map_filter)
qed

lemma ids_replace_first [simp]: "map region_id (replace_first m rs) = map region_id rs"
  by (induction rs) auto

lemma ids_replace_all [simp]: "map region_id (fold replace_first ms rs) = map region_id rs"
  by (induction ms arbitrary: rs) simp_all

lemma set_replace_first:
  "distinct (map region_id rs) \<Longrightarrow> set (replace_first m rs) =
     (if region_id m \<in> region_id ` set rs then {m} else {}) \<union> {r \<in> set rs. region_id r \<noteq> region_id m}"
  by (induction rs) (auto simp: image_iff)

lemma set_replace_all:
  "distinct (map region_id rs) \<Longrightarrow> distinct (map region_id ms) \<Longrightarrow> set (fold replace_first ms rs) =
     {m \<in> set ms. region_id m \<in> region_id ` set rs} \<union> {r \<in> set rs. region_id r \<notin> region_id ` set ms}"
proof (induction ms arbitrary: rs)
  case (Cons m ms)
  define I where "I = region_id ` set rs"
  have "region_id ` set (replace_first m rs) = I" by (simp flip: set_map add: I_def)
  then have "set (fold replace_first (m # ms) rs) = {m' \<in> set ms. region_id m' \<in> I} \<union>
      {r \<in> set (replace_first m rs). region_id r \<notin> region_id ` set ms}"
    using Cons.IH [of "replace_first m rs"] Cons.prems by simp
  also have "set (replace_first m rs) =
      (if region_id m \<in> I then {m} else {}) \<union> {r \<in> set rs. region_id r \<noteq> region_id m}"
    using set_replace_first [of rs m] Cons.prems(1) by (simp add: I_def)
  finally show ?case using Cons.prems(2) unfolding I_def [symmetric] by auto
qed simp

lemma fold_add_region:
  "distinct (map region_id (rs @ xs)) \<Longrightarrow> fold add_region xs rs = rs @ xs"
proof (induction xs arbitrary: rs)
  case (Cons x xs)
  then have "add_region x rs = rs @ [x]" by (auto simp: add_region_def list_ex_iff image_iff)
  then show ?case using Cons.IH [of "rs @ [x]"] Cons.prems by (simp add: add_region_def)
qed simp

section \<open>Deltas restore the regions\<close>

lemma delta_ids:
  "dl_from (compute_delta env df from to) = st_id from"
  "dl_to (compute_delta env df from to) = st_id to"
  "dl_cpu (compute_delta env df from to) = cpu_differs env (st_cpu from) (st_cpu to)"
  by (simp_all add: compute_delta_def compare_memory_regions_def diff_modified_regions_def
      delta_new_def Let_def)

text \<open>What a page-level delta looks at: the place of a region, not its flags or temperature.\<close>

definition geometry :: "memory_region \<Rightarrow> string \<times> u64 \<times> u64" where
  "geometry r = (region_id r, region_base r, region_size r)"

lemma region_code_geometry: "region_code r = region_code r' \<longleftrightarrow> geometry r = geometry r'"
proof
  assume c: "region_code r = region_code r'"
  then have "length (str_bytes (region_id r)) = length (str_bytes (region_id r'))"
    using arg_cong [OF c, of length] by (simp add: region_code_def)
  with c have "str_bytes (region_id r) = str_bytes (region_id r')"
    "be64 (region_base r) = be64 (region_base r')" "be64 (region_size r) = be64 (region_size r')"
    by (auto simp: region_code_def)
  then show "geometry r = geometry r'"
    by (auto simp: geometry_def dest: str_bytes_inj be64_inj)
qed (simp add: geometry_def region_code_def)

lemma page_hashes: "fst ` set (build_page_hash_map sha rs) = (sha \<circ> region_code) ` set rs"
proof (induction rs rule: rev_induct)
  case (snoc r rs)
  have "hm_contains (build_page_hash_map sha (rs @ [r])) h \<longleftrightarrow>
      h = sha (region_code r) \<or> hm_contains (build_page_hash_map sha rs) h" for h
    by (simp add: build_page_hash_map_def hm_contains_def)
  then show ?case using snoc by (force simp: hm_contains_iff)
qed (simp add: build_page_hash_map_def)

lemma list_all_insert: "list_all P m \<Longrightarrow> P (k, v) \<Longrightarrow> list_all P (hm_insert k v m)"
  by (induction m) (auto simp: hm_insert_def)

lemma list_all_inserts:
  "list_all P ps \<Longrightarrow> list_all P m \<Longrightarrow> list_all P (fold (\<lambda>(h, x). hm_insert h x) ps m)"
  by (induction ps arbitrary: m) (auto intro: list_all_insert)

lemma page_hashes_empty: "list_all (\<lambda>(h, x). x = []) (build_page_hash_map sha rs)"
  by (induction rs rule: rev_induct) (simp_all add: build_page_hash_map_def list_all_insert)

text \<open>The regions that a delta lists.\<close>

lemma compute_delta_regions:
  assumes d: "d = compute_delta env df from to" and dist:
      "distinct (map region_id (st_manifest from))" "distinct (map region_id (st_manifest to))"
  shows "set (dl_added d) = {r \<in> set (st_manifest to). region_id r \<notin> region_id ` set (st_manifest from)}"
    and "distinct (map region_id (dl_added d))"
    and "set (dl_removed d) = {r \<in> set (st_manifest from). region_id r \<notin> region_id ` set (st_manifest to)}"
    and "df_page_level df \<Longrightarrow> dl_modified d =
      (if (diff_sha env \<circ> region_code) ` set (st_manifest to)
          \<subseteq> (diff_sha env \<circ> region_code) ` set (st_manifest from) then []
       else map snd (filter (\<lambda>(i, r). hm_contains (region_map (st_manifest from)) i) (region_map (st_manifest to))))"
    and "\<not> df_page_level df \<Longrightarrow> dl_modified d =
      List.map_filter (\<lambda>(i, r). hm_get (region_map (st_manifest to)) i) (region_map (st_manifest from))"
proof -
  let ?F = "region_map (st_manifest from)" and ?T = "region_map (st_manifest to)"
  have added: "dl_added d = map snd (filter (\<lambda>(i, r). \<not> hm_contains ?F i) ?T)"
    and removed: "dl_removed d = map snd (filter (\<lambda>(i, r). \<not> hm_contains ?T i) ?F)"
    unfolding d compute_delta_def compare_memory_regions_def diff_modified_regions_def delta_new_def
    by (simp_all add: Let_def)
  show "set (dl_added d) = {r \<in> set (st_manifest to). region_id r \<notin> region_id ` set (st_manifest from)}"
    and "distinct (map region_id (dl_added d))"
    and "set (dl_removed d) = {r \<in> set (st_manifest from). region_id r \<notin> region_id ` set (st_manifest to)}"
    unfolding added removed using region_map_filter [OF dist(1)] region_map_filter [OF dist(2)]
    by (simp_all add: region_map_contains)
  have changed: "filter (\<lambda>h. \<not> hm_contains (build_page_hash_map (diff_sha env) (st_manifest from)) h)
      (hm_keys (build_page_hash_map (diff_sha env) (st_manifest to))) = [] \<longleftrightarrow>
      (diff_sha env \<circ> region_code) ` set (st_manifest to) \<subseteq> (diff_sha env \<circ> region_code) ` set (st_manifest from)"
    unfolding filter_empty_conv hm_contains_iff page_hashes hm_keys_def set_map by auto
  show "df_page_level df \<Longrightarrow> dl_modified d =
      (if (diff_sha env \<circ> region_code) ` set (st_manifest to)
          \<subseteq> (diff_sha env \<circ> region_code) ` set (st_manifest from) then []
       else map snd (filter (\<lambda>(i, r). hm_contains ?F i) ?T))"
    unfolding changed [symmetric] d compute_delta_def compare_memory_regions_def
      diff_modified_regions_def delta_new_def
    by (simp add: Let_def)
  show "\<not> df_page_level df \<Longrightarrow> dl_modified d = List.map_filter (\<lambda>(i, r). hm_get ?T i) ?F"
    unfolding d compute_delta_def compare_memory_regions_def delta_new_def by (simp add: Let_def)
qed

lemma patched_regions:
  assumes dist: "distinct (map region_id F)" "distinct (map region_id T)"
    and added: "set (dl_added d) = {r \<in> set T. region_id r \<notin> region_id ` set F}"
      "distinct (map region_id (dl_added d))"
    and removed: "set (dl_removed d) = {r \<in> set F. region_id r \<notin> region_id ` set T}"
    and modified: "distinct (map region_id (dl_modified d))"
      "set (dl_modified d) \<in> {{}, {r \<in> set T. region_id r \<in> region_id ` set F}}"
  shows "distinct (map region_id (apply_memory_patches d F))"
    and "set (apply_memory_patches d F) = (if dl_modified d = []
      then {r \<in> set F. region_id r \<in> region_id ` set T} \<union> set (dl_added d) else set T)"
proof -
  define K where "K = filter (\<lambda>r. \<not> list_ex (\<lambda>x. region_id x = region_id r) (dl_removed d)) F"
  have K: "set K = {r \<in> set F. region_id r \<in> region_id ` set T}"
    unfolding K_def list_ex_iff set_filter removed by auto
  have "distinct (map region_id K)" using dist(1) by (simp add: K_def distinct_map_filter)
  moreover have "region_id ` set K \<inter> region_id ` set (dl_added d) = {}"
    unfolding K added(1) by (auto simp: image_iff)
  ultimately have KA: "distinct (map region_id (K @ dl_added d))" using added(2) by simp
  have patched: "apply_memory_patches d F = fold replace_first (dl_modified d) (K @ dl_added d)"
    by (simp add: apply_memory_patches_def fold_add_region [OF KA] flip: K_def)
  show "distinct (map region_id (apply_memory_patches d F))" using KA by (simp add: patched)
  have ids: "region_id ` set (K @ dl_added d) = region_id ` set T"
  proof -
    have "region_id ` set K = region_id ` set F \<inter> region_id ` set T" unfolding K by auto
    moreover have "region_id ` set (dl_added d) = region_id ` set T - region_id ` set F"
      unfolding added(1) by auto
    ultimately show ?thesis by (simp only: set_append image_Un) blast
  qed
  show "set (apply_memory_patches d F) = (if dl_modified d = []
      then {r \<in> set F. region_id r \<in> region_id ` set T} \<union> set (dl_added d) else set T)"
  proof (cases "dl_modified d = []")
    case False
    then have m: "set (dl_modified d) = {r \<in> set T. region_id r \<in> region_id ` set F}"
      using modified(2) by auto
    have "set (apply_memory_patches d F) = {m \<in> set (dl_modified d). region_id m \<in> region_id ` set T} \<union>
        {r \<in> set (K @ dl_added d). region_id r \<notin> region_id ` set (dl_modified d)}"
      unfolding patched by (simp only: set_replace_all [OF KA modified(1)] ids)
    also have "\<dots> = set T"
    proof -
      have "region_id ` set (dl_modified d) = region_id ` set T \<inter> region_id ` set F" unfolding m by auto
      then show ?thesis unfolding m set_append K added(1) by auto
    qed
    finally show ?thesis using False by simp
  qed (simp add: patched K)
qed

lemma set_map_filter_iff: "y \<in> set (List.map_filter f xs) \<longleftrightarrow> (\<exists>x\<in>set xs. f x = Some y)"
  by (induction xs) (auto simp: map_filter_simps split: option.splits)

lemma common_regions:
  assumes "distinct (map region_id F)" "distinct (map region_id T)"
  shows "set (List.map_filter (\<lambda>(i, r). hm_get (region_map T) i) (region_map F))
      = {r \<in> set T. region_id r \<in> region_id ` set F}"
    and "distinct (map region_id (List.map_filter (\<lambda>(i, r). hm_get (region_map T) i) (region_map F)))"
proof -
  let ?M = "List.map_filter (\<lambda>(i, r). hm_get (region_map T) i) (region_map F)"
  show "set ?M = {r \<in> set T. region_id r \<in> region_id ` set F}"
  proof (intro set_eqI)
    fix r
    have "r \<in> set ?M \<longleftrightarrow> (\<exists>q\<in>set F. hm_get (region_map T) (region_id q) = Some r)"
      unfolding set_map_filter_iff using region_map_elem [OF assms(1)] by (force split: prod.splits)
    then show "r \<in> set ?M \<longleftrightarrow> r \<in> {r \<in> set T. region_id r \<in> region_id ` set F}"
      by (auto simp: region_map_get [OF assms(2)] image_iff)
  qed
  have "map region_id (List.map_filter (\<lambda>(i, r). hm_get (region_map T) i) xs) =
      filter (hm_contains (region_map T)) (map fst xs)" for xs :: "(string \<times> memory_region) list"
  proof (induction xs)
    case (Cons a xs)
    have "hm_get (region_map T) (fst a) = Some r \<Longrightarrow> region_id r = fst a" for r
      using region_map_get [OF assms(2)] by blast
    with Cons show ?case
      by (cases "hm_get (region_map T) (fst a)")
        (simp_all add: map_filter_simps hm_contains_def case_prod_beta)
  qed (simp add: map_filter_simps)
  then show "distinct (map region_id ?M)" using region_map_ok [of F] by (simp add: hm_ok_def)
qed

lemma same_geometry:
  assumes dist: "distinct (map region_id F)" and sub: "geometry ` set T \<subseteq> geometry ` set F"
  shows "geometry ` {r \<in> set F. region_id r \<in> region_id ` set T} = geometry ` set T"
proof (intro equalityI subsetI)
  fix g assume "g \<in> geometry ` {r \<in> set F. region_id r \<in> region_id ` set T}"
  then obtain r t where r: "g = geometry r" "r \<in> set F" "t \<in> set T" "region_id r = region_id t" by blast
  have "geometry t \<in> geometry ` set F" using sub imageI [OF r(3)] by (rule subsetD)
  then obtain r' where r': "r' \<in> set F" "geometry r' = geometry t" by (auto elim!: imageE)
  then have "r' = r" using r dist by (simp add: geometry_def inj_on_def distinct_map)
  then show "g \<in> geometry ` set T" using r r' by auto
next
  fix g assume "g \<in> geometry ` set T"
  then obtain t where t: "g = geometry t" "t \<in> set T" by blast
  have "geometry t \<in> geometry ` set F" using sub imageI [OF t(2)] by (rule subsetD)
  then obtain r where r: "r \<in> set F" "geometry r = geometry t" by (auto elim!: imageE)
  then have "region_id r = region_id t" by (simp add: geometry_def)
  then show "g \<in> geometry ` {r \<in> set F. region_id r \<in> region_id ` set T}"
    using r t by (intro image_eqI [of _ _ r]) auto
qed

lemma delta_regions:
  fixes "from" to :: "'j state"
  defines "F \<equiv> st_manifest from" and "T \<equiv> st_manifest to"
  assumes dist: "distinct (map region_id F)" "distinct (map region_id T)"
    and sha: "\<And>r r'. r \<in> set T \<Longrightarrow> r' \<in> set F \<Longrightarrow>
      diff_sha env (region_code r) = diff_sha env (region_code r') \<Longrightarrow> region_code r = region_code r'"
    and d: "d = compute_delta env df from to"
  shows "distinct (map region_id (apply_memory_patches d F))"
    and "set (apply_memory_patches d F) = (if df_page_level df \<and> geometry ` set T \<subseteq> geometry ` set F
      then {r \<in> set F. region_id r \<in> region_id ` set T} else set T)"
proof -
  let ?h = "diff_sha env \<circ> region_code"
  note regs = compute_delta_regions [OF d dist [unfolded F_def T_def], folded F_def T_def]
  have same: "?h ` set T \<subseteq> ?h ` set F \<longleftrightarrow> geometry ` set T \<subseteq> geometry ` set F"
    using sha unfolding image_subset_iff image_iff comp_def region_code_geometry [symmetric] by metis
  let ?C = "{r \<in> set T. region_id r \<in> region_id ` set F}"
    and ?blind = "df_page_level df \<and> geometry ` set T \<subseteq> geometry ` set F"
  have modified: "distinct (map region_id (dl_modified d))"
    "set (dl_modified d) = (if ?blind then {} else ?C)"
    using regs(4,5) same common_regions [OF dist] region_map_filter [OF dist(2), of "hm_contains (region_map F)"]
    by (cases "df_page_level df"; simp add: region_map_contains split del: if_split cong: if_cong split: if_split)+
  have "set (dl_modified d) \<in> {{}, ?C}" unfolding modified(2) by simp
  note patched = patched_regions [OF dist regs(1,2,3) modified(1) this]
  show "set (apply_memory_patches d F) =
      (if ?blind then {r \<in> set F. region_id r \<in> region_id ` set T} else set T)"
  proof (cases "dl_modified d = []")
    case True
    show ?thesis
    proof (cases ?blind)
      case True
      then have "region_id ` set T \<subseteq> region_id ` set F" by (force simp: geometry_def image_iff)
      then have "set (dl_added d) = {}" unfolding regs(1) by auto
      then show ?thesis using patched(2) True \<open>dl_modified d = []\<close> by simp
    next
      case False
      from modified(2) have "set (dl_modified d) = ?C" by (simp only: if_not_P [OF False])
      with \<open>dl_modified d = []\<close> have C: "?C = {}" by (simp only: list.set)
      then have "region_id q \<noteq> region_id r" if "q \<in> set F" "r \<in> set T" for q r
        using that by (metis (mono_tags, lifting) empty_Collect_eq imageI)
      then have "{r \<in> set F. region_id r \<in> region_id ` set T} = {}" by (auto simp: image_iff)
      moreover have "set (dl_added d) = set T" unfolding regs(1) using C by auto
      ultimately show ?thesis
        using patched(2) by (simp only: if_not_P [OF False] if_P [OF \<open>dl_modified d = []\<close>] Un_empty_left)
    qed
  next
    case False
    then have "\<not> ?blind" using modified(2) by auto
    then show ?thesis using patched(2) False by auto
  qed
  show "distinct (map region_id (apply_memory_patches d F))" by (rule patched(1))
qed

text \<open>C38. Applying a delta to its source restores the target's memory regions: the result has the id
  of the target and one region for every region of the target, at the same address and of the
  same size.  When the delta is coarse, or some region is new, moved or resized, the regions are
  those of the target; otherwise a page-level delta sees no change, and regions whose flags or
  temperature differ keep those of the source.  The CPU state is the target's when it is sent
  along and found changed; descriptors and sockets are never changed.  Region ids are distinct in
  each manifest, and SHA-256 separates the regions at hand.\<close>

theorem delta_restores_regions:
  assumes dist: "distinct (map region_id (st_manifest from))" "distinct (map region_id (st_manifest to))"
    and sha: "\<And>r r'. r \<in> set (st_manifest to) \<Longrightarrow> r' \<in> set (st_manifest from) \<Longrightarrow>
      diff_sha env (region_code r) = diff_sha env (region_code r') \<Longrightarrow> region_code r = region_code r'"
    and run: "apply_delta from (compute_delta env df from to) cpu = x"
  shows "\<exists>s. x = Ok s \<and> st_id s = st_id to \<and> distinct (map region_id (st_manifest s)) \<and>
    geometry ` set (st_manifest s) = geometry ` set (st_manifest to) \<and>
    set (st_manifest s) =
      (if df_page_level df \<and> geometry ` set (st_manifest to) \<subseteq> geometry ` set (st_manifest from)
       then {r \<in> set (st_manifest from). region_id r \<in> region_id ` set (st_manifest to)}
       else set (st_manifest to)) \<and>
    st_cpu s = (if cpu_differs env (st_cpu from) (st_cpu to) then (case cpu of None \<Rightarrow> st_cpu from | Some c \<Rightarrow> c) else st_cpu from) \<and>
    st_fds s = st_fds from \<and> st_sockets s = st_sockets from"
proof -
  define d where "d = compute_delta env df from to"
  let ?F = "st_manifest from" and ?T = "st_manifest to"
  let ?blind = "df_page_level df \<and> geometry ` set ?T \<subseteq> geometry ` set ?F"
  have regions: "distinct (map region_id (apply_memory_patches d ?F))"
    "set (apply_memory_patches d ?F) =
      (if ?blind then {r \<in> set ?F. region_id r \<in> region_id ` set ?T} else set ?T)"
    by (rule delta_regions [OF dist _ d_def]; rule sha; assumption)+
  have st: "x = Ok (from\<lparr>st_id := st_id to, st_manifest := apply_memory_patches d ?F,
      st_cpu := (if cpu_differs env (st_cpu from) (st_cpu to)
        then (case cpu of None \<Rightarrow> st_cpu from | Some c \<Rightarrow> c) else st_cpu from)\<rparr>)"
    using run delta_ids [of env df "from" to]
    by (cases cpu; cases "cpu_differs env (st_cpu from) (st_cpu to)")
      (auto simp: apply_delta_def Let_def simp flip: d_def)
  have "geometry ` set (apply_memory_patches d ?F) = geometry ` set ?T"
    unfolding regions(2) using same_geometry [OF dist(1), of ?T] by (simp split: if_split)
  then show ?thesis using regions(1) unfolding st by (simp add: regions(2))
qed

definition demo_diff :: "unit diff_env" where
  "demo_diff = \<lparr>json_cpu = (\<lambda>c. Ok (str_bytes (arch c))), json_fd = (\<lambda>d. Ok [1]), json_socket = (\<lambda>s. Ok [1]),
     diff_sha = map (\<lambda>w. char_of (unat w))\<rparr>"

definition diff_region :: "string \<Rightarrow> memory_temperature \<Rightarrow> memory_region" where
  "diff_region i t = \<lparr>region_id = i, region_base = 0x1000, region_size = 4096,
     region_flags = \<lparr>flag_read = True, flag_write = True, flag_execute = False\<rparr>, region_temperature = t\<rparr>"

lemma delta_restores_regions_witness:
  "\<exists>s. apply_delta (demo_state ''a'' \<lparr>st_manifest := [diff_region ''x'' Hot, diff_region ''y'' Hot]\<rparr>)
      (compute_delta demo_diff differ_new
        (demo_state ''a'' \<lparr>st_manifest := [diff_region ''x'' Hot, diff_region ''y'' Hot]\<rparr>)
        (demo_state ''b'' \<lparr>st_manifest := [diff_region ''x'' Cold, diff_region ''z'' Hot]\<rparr>)) None = Ok s \<and>
    set (st_manifest s) = {diff_region ''x'' Cold, diff_region ''z'' Hot}"
proof -
  let ?a = "demo_state ''a'' \<lparr>st_manifest := [diff_region ''x'' Hot, diff_region ''y'' Hot]\<rparr>"
    and ?b = "demo_state ''b'' \<lparr>st_manifest := [diff_region ''x'' Cold, diff_region ''z'' Hot]\<rparr>"
  have byte: "unat w mod 256 = unat w" for w :: byte
  proof -
    have "unat w < 2 ^ LENGTH(8)" by (rule unsigned_less)
    then show ?thesis by simp
  qed
  have "inj (\<lambda>w :: byte. char_of (unat w) :: char)"
    by (rule inj_on_inverseI [where g = "\<lambda>c. of_nat (of_char c)"]) (simp add: byte)
  then have sha: "diff_sha demo_diff x = diff_sha demo_diff y \<Longrightarrow> x = y" for x y
    by (simp add: demo_diff_def inj_map_eq_map)
  have dist: "distinct (map region_id (st_manifest ?a))" "distinct (map region_id (st_manifest ?b))"
    by (simp_all add: diff_region_def)
  from delta_restores_regions [OF dist sha refl, where df = differ_new and cpu = None]
  obtain s where "apply_delta ?a (compute_delta demo_diff differ_new ?a ?b) None = Ok s"
    "set (st_manifest s) = (if df_page_level differ_new \<and> geometry ` set (st_manifest ?b) \<subseteq> geometry ` set (st_manifest ?a)
       then {r \<in> set (st_manifest ?a). region_id r \<in> region_id ` set (st_manifest ?b)} else set (st_manifest ?b))"
    by blast
  moreover have "\<not> geometry ` set (st_manifest ?b) \<subseteq> geometry ` set (st_manifest ?a)"
    by (simp add: geometry_def diff_region_def)
  ultimately show ?thesis by auto
qed

text \<open>Merging loses every change of regions: whatever deltas are merged, applying the result
  changes no region, so that a merged delta does not do what its parts do one after the other.\<close>

theorem merge_loses_regions:
  assumes "merge_deltas ds = Some m" "apply_delta s m cpu = Ok s'"
  shows "st_manifest s' = st_manifest s"
proof -
  have "dl_added (fold merge_step ds d) = dl_added d \<and> dl_removed (fold merge_step ds d) = dl_removed d \<and>
      dl_modified (fold merge_step ds d) = dl_modified d" for d
    by (induction ds arbitrary: d) (simp_all add: merge_step_def)
  then have "dl_added m = [] \<and> dl_removed m = [] \<and> dl_modified m = []"
    using assms(1) by (auto simp: merge_deltas_def delta_new_def split: if_splits)
  then show ?thesis
    using assms(2) by (auto simp: apply_delta_def apply_memory_patches_def Let_def split: if_splits option.splits)
qed

lemma merge_loses_regions_witness:
  "\<exists>m s. merge_deltas [(delta_new (StateId ''a'') (StateId ''b''))\<lparr>dl_added := [diff_region ''x'' Hot]\<rparr>] = Some m \<and>
     apply_delta (demo_state ''a'') m None = Ok s \<and> st_manifest s = st_manifest (demo_state ''a'')"
proof -
  let ?m = "merge_step ((delta_new (StateId ''a'') (StateId ''b''))\<lparr>dl_added := [diff_region ''x'' Hot]\<rparr>)
    (delta_new (StateId ''a'') (StateId ''b''))"
  have m: "merge_deltas [(delta_new (StateId ''a'') (StateId ''b''))\<lparr>dl_added := [diff_region ''x'' Hot]\<rparr>] = Some ?m"
    by (simp add: merge_deltas_def delta_new_def)
  obtain s where "apply_delta (demo_state ''a'') ?m None = Ok s"
    by (simp add: apply_delta_def merge_step_def delta_new_def Let_def)
  with m merge_loses_regions [OF m this] show ?thesis by blast
qed

text \<open>An incremental transfer reports that nothing is sent: the pages of a delta are
  placeholders without data, so for any two states the number of bytes is 0 and the compression
  ratio 1.\<close>

theorem transfer_reports_nothing:
  "tr_bytes (transfer_incremental env from to) = 0 \<and> tr_ratio (transfer_incremental env from to) = 1"
proof -
  let ?d = "compute_delta env differ_new from to"
  have "list_all (\<lambda>(h, x). x = []) (filter P (build_page_hash_map sha rs))" for P sha rs
    using page_hashes_empty [of sha rs] by (auto simp: list_all_iff)
  then have "list_all (\<lambda>(h, x). x = []) (dl_added_pages ?d)"
    by (simp add: compute_delta_def compare_memory_regions_def diff_modified_regions_def delta_new_def
        differ_new_def Let_def list_all_inserts)
  then have "transfer_size ?d = 0" by (auto simp: transfer_size_def hm_values_def list_all_iff)
  moreover have "f32_round 1 = 1" using f32_round_nat [of 1] by simp
  ultimately show ?thesis
    by (simp add: transfer_incremental_def compression_ratio_def f32_div_def f32_sub_def f32_of_nat_def Let_def)
qed

end
