(* ===== verification/Cloning.thy ===== *)
theory Cloning
  imports StateStore
begin

text \<open>
  \<^verbatim>\<open>src/src/state_cloning.rs\<close>: clones of states, the reference-counted pages they share, and the
  limit on the number of clones.  The state store is the one of \<open>StateStore\<close>; a call is given the
  fresh id and the readings of the clock.
\<close>

section \<open>Shared pages\<close>

record clone_config =
  cc_eager :: bool
  cc_cpu :: bool
  cc_fds :: bool
  cc_metadata :: bool
  cc_max :: u32

definition clone_default :: clone_config where
  "clone_default = \<lparr>cc_eager = False, cc_cpu = True, cc_fds = True, cc_metadata = True, cc_max = 0\<rparr>"

record clone_info =
  ci_parent :: state_id
  ci_clone :: state_id
  ci_at :: datetime
  ci_label :: string
  ci_cow :: bool
  ci_shared :: nat
  ci_unique :: nat

record clone_metadata =
  cmd_clone :: state_id
  cmd_parent :: state_id
  cmd_created :: datetime
  cmd_cow :: bool

text \<open>A page and its count, which a \<^verbatim>\<open>usize\<close> holds.\<close>

record cow_page =
  cp_data :: bytes
  cp_refs :: nat
  cp_hash :: string

definition page_new :: "bytes \<Rightarrow> string \<Rightarrow> cow_page" where
  "page_new d h = \<lparr>cp_data = d, cp_refs = 1, cp_hash = h\<rparr>"

definition page_increment :: "cow_page \<Rightarrow> cow_page" where
  "page_increment p = p\<lparr>cp_refs := (cp_refs p + 1) mod 2 ^ 64\<rparr>"

definition page_decrement :: "cow_page \<Rightarrow> cow_page \<times> nat" where
  "page_decrement p =
     (let n = (if cp_refs p = 0 then 2 ^ 64 - 1 else cp_refs p - 1) in (p\<lparr>cp_refs := n\<rparr>, n))"

definition page_is_unique :: "cow_page \<Rightarrow> bool" where
  "page_is_unique p \<longleftrightarrow> cp_refs p = 1"

definition page_make_unique :: "cow_page \<Rightarrow> cow_page" where
  "page_make_unique p = (if \<not> page_is_unique p then p\<lparr>cp_data := cp_data p, cp_refs := 1\<rparr> else p)"

section \<open>The cloner\<close>

datatype clone_error =
    MaxClonesReached u32
  | StoreError string
  | CloneNotFound string
  | CloneIoError string
  | ClonePanic

record cloner =
  cl_config :: clone_config
  cl_pages :: "(string, cow_page) hmap"
  cl_clones :: "(state_id, state_id list) hmap"

definition cloner_new :: "clone_config \<Rightarrow> cloner" where
  "cloner_new cfg = \<lparr>cl_config = cfg, cl_pages = [], cl_clones = []\<rparr>"

record clone_result =
  cr_id :: state_id
  cr_info :: clone_info
  cr_saved :: nat

definition store_error_text :: "store_error \<Rightarrow> string" where
  "store_error_text e =
     (case e of
        SsIoError m \<Rightarrow> ''IO error: '' @ m
      | SsSerializationError m \<Rightarrow> ''Serialization error: '' @ m
      | SsNotFound m \<Rightarrow> ''Not found: '' @ m
      | SsAlreadyExists m \<Rightarrow> ''Already exists: '' @ m
      | SsCorrupted m \<Rightarrow> ''Corrupted data: '' @ m
      | SsPanic \<Rightarrow> [])"

definition clone_limited :: "cloner \<Rightarrow> state_id \<Rightarrow> bool" where
  "clone_limited m i \<longleftrightarrow>
     (if cc_max (cl_config m) > 0
      then (case hm_get (cl_clones m) i of
              Some cs \<Rightarrow> length cs \<ge> unat (cc_max (cl_config m))
            | None \<Rightarrow> False)
      else False)"

definition cloned_state :: "clone_config \<Rightarrow> state_id \<Rightarrow> datetime \<Rightarrow> string \<Rightarrow> 'j state \<Rightarrow> 'j state" where
  "cloned_state cfg i now label s =
     \<lparr>st_id = i, st_vm_config = st_vm_config s,
      st_cpu = (if cc_cpu cfg then st_cpu s else st_cpu s),
      st_manifest = st_manifest s,
      st_fds = (if cc_fds cfg then st_fds s else []),
      st_sockets = (if cc_fds cfg then st_sockets s else []),
      st_devices = st_devices s, st_log = st_log s, st_ui = st_ui s,
      st_metadata = \<lparr>meta_label = label, meta_created_at = now,
        meta_ttl_seconds = (if cc_metadata cfg then meta_ttl_seconds (st_metadata s) else None)\<rparr>\<rparr>"

definition page_key :: "state_id \<Rightarrow> string \<Rightarrow> string" where
  "page_key i region = sid_str i @ ''-'' @ region"

definition share_region :: "state_id \<Rightarrow> memory_region \<Rightarrow> (string, cow_page) hmap \<Rightarrow> (string, cow_page) hmap" where
  "share_region i r pages =
     (let k = page_key i (region_id r) in
      case hm_get pages k of
        Some p \<Rightarrow> hm_insert k (page_increment p) pages
      | None \<Rightarrow> hm_insert k (page_new [] (region_id r)) pages)"

definition share_pages :: "'j state \<Rightarrow> cloner \<Rightarrow> cloner" where
  "share_pages s m =
     (if cc_eager (cl_config m) then m
      else m\<lparr>cl_pages := fold (share_region (st_id s)) (st_manifest s) (cl_pages m)\<rparr>)"

definition track_clone :: "state_id \<Rightarrow> state_id \<Rightarrow> cloner \<Rightarrow> cloner" where
  "track_clone parent i m = m\<lparr>cl_clones := hm_entry parent [] (\<lambda>cs. cs @ [i]) (cl_clones m)\<rparr>"

definition clone_report :: "clone_config \<Rightarrow> 'j state \<Rightarrow> state_id \<Rightarrow> datetime \<Rightarrow> string \<Rightarrow> clone_result" where
  "clone_report cfg s i now label =
     (let shared = (if cc_eager cfg then 0 else length (st_manifest s));
          unique = (if cc_eager cfg then length (st_manifest s) else 0)
      in \<lparr>cr_id = i,
          cr_info = \<lparr>ci_parent = st_id s, ci_clone = i, ci_at = now, ci_label = label,
                     ci_cow = (\<not> cc_eager cfg), ci_shared = shared, ci_unique = unique\<rparr>,
          cr_saved = (if cc_eager cfg then 0 else shared * 4096)\<rparr>)"

text \<open>\<open>t\<close> is the clock for the metadata, \<open>t1\<close> and \<open>t2\<close> those of the store, \<open>t3\<close> that of the report.\<close>

definition clone_state :: "'b backend_ops \<Rightarrow> 'j store_env \<Rightarrow> uuid \<Rightarrow> datetime \<Rightarrow> datetime \<Rightarrow> datetime \<Rightarrow>
    datetime \<Rightarrow> 'j state \<Rightarrow> string \<Rightarrow> cloner \<times> 'b state_store \<Rightarrow>
    (cloner \<times> 'b state_store) \<times> (clone_error, clone_result) result" where
  "clone_state ops env fresh t t1 t2 t3 s label w =
     (case w of (m, st) \<Rightarrow>
        if clone_limited m (st_id s) then (w, Err (MaxClonesReached (cc_max (cl_config m))))
        else
          let i = StateId fresh; c = cloned_state (cl_config m) i t label s; m = share_pages s m
          in (case store_state ops env t1 t2 c st of
                (st', Inl e) \<Rightarrow>
                  ((m, st'), Err (if e = SsPanic then ClonePanic else StoreError (store_error_text e)))
              | (st', Inr x) \<Rightarrow>
                  ((track_clone (st_id s) i m, st'),
                   Ok (clone_report (cl_config m) s i t3 label))))"

definition get_clones :: "state_id \<Rightarrow> cloner \<Rightarrow> state_id list" where
  "get_clones i m = (case hm_get (cl_clones m) i of Some cs \<Rightarrow> cs | None \<Rightarrow> [])"

definition parent_of :: "state_id \<Rightarrow> cloner \<Rightarrow> state_id option" where
  "parent_of c m = map_option fst (List.find (\<lambda>(p, cs). c \<in> set cs) (cl_clones m))"

definition get_clone_info :: "datetime \<Rightarrow> state_id \<Rightarrow> cloner \<Rightarrow> clone_info option" where
  "get_clone_info now c m =
     (case parent_of c m of
        None \<Rightarrow> None
      | Some p \<Rightarrow>
          let ps = hm_values (cl_pages m); shared = length (filter (\<lambda>p. cp_refs p > 1) ps)
          in Some \<lparr>ci_parent = p, ci_clone = c, ci_at = now, ci_label = ''clone-of-'' @ sid_str p,
                   ci_cow = (\<not> cc_eager (cl_config m)), ci_shared = shared,
                   ci_unique = length (filter (\<lambda>p. \<not> cp_refs p > 1) ps)\<rparr>)"

definition get_clone_metadata :: "datetime \<Rightarrow> state_id \<Rightarrow> cloner \<Rightarrow> clone_metadata option" where
  "get_clone_metadata now c m =
     (case parent_of c m of
        None \<Rightarrow> None
      | Some p \<Rightarrow> Some \<lparr>cmd_clone = c, cmd_parent = p, cmd_created = now,
                        cmd_cow = (\<not> cc_eager (cl_config m))\<rparr>)"

definition store_clone_metadata :: "state_id \<Rightarrow> state_id \<Rightarrow> bool \<Rightarrow> cloner \<Rightarrow> (clone_error, unit) result" where
  "store_clone_metadata c p cow m = Ok ()"

definition load_clone_metadata :: "datetime \<Rightarrow> state_id \<Rightarrow> cloner \<Rightarrow> clone_metadata option" where
  "load_clone_metadata now c m = get_clone_metadata now c m"

definition modify_page :: "state_id \<Rightarrow> string \<Rightarrow> bytes \<Rightarrow> cloner \<Rightarrow> cloner \<times> (clone_error, unit) result" where
  "modify_page i region d m =
     (let k = page_key i region in
      case hm_get (cl_pages m) k of
        Some p \<Rightarrow> (m\<lparr>cl_pages := hm_insert k ((page_make_unique p)\<lparr>cp_data := d\<rparr>) (cl_pages m)\<rparr>, Ok ())
      | None \<Rightarrow> (m\<lparr>cl_pages := hm_insert k (page_new d region) (cl_pages m)\<rparr>, Ok ()))"

definition get_page_ref_count :: "state_id \<Rightarrow> string \<Rightarrow> cloner \<Rightarrow> nat option" where
  "get_page_ref_count i region m = map_option cp_refs (hm_get (cl_pages m) (page_key i region))"

definition cleanup_pages :: "cloner \<Rightarrow> cloner \<times> (clone_error, nat) result" where
  "cleanup_pages m =
     (m\<lparr>cl_pages := hm_retain (\<lambda>k p. cp_refs p \<noteq> 0) (cl_pages m)\<rparr>,
      Ok (length (filter (\<lambda>p. cp_refs p = 0) (hm_values (cl_pages m)))))"

record clone_stats =
  cs_pages :: nat
  cs_shared :: nat
  cs_unique :: nat
  cs_clones :: nat
  cs_parents :: nat

definition clone_get_stats :: "cloner \<Rightarrow> clone_stats" where
  "clone_get_stats m =
     (let ps = hm_values (cl_pages m) in
      \<lparr>cs_pages = hm_len (cl_pages m), cs_shared = length (filter (\<lambda>p. cp_refs p > 1) ps),
       cs_unique = length (filter (\<lambda>p. cp_refs p = 1) ps),
       cs_clones = sum_list (map length (hm_values (cl_clones m))),
       cs_parents = hm_len (cl_clones m)\<rparr>)"

section \<open>Runs\<close>

datatype 'j clone_op =
    CClone uuid datetime datetime datetime datetime "'j state" string
  | CModify state_id string bytes
  | CCleanup
  | CStore "'j store_op"

fun clone_step :: "'b backend_ops \<Rightarrow> 'j store_env \<Rightarrow> 'j clone_op \<Rightarrow>
    cloner \<times> 'b state_store \<Rightarrow> cloner \<times> 'b state_store" where
  "clone_step ops env (CClone fresh t t1 t2 t3 s label) w = fst (clone_state ops env fresh t t1 t2 t3 s label w)"
| "clone_step ops env (CModify i region d) w = (fst (modify_page i region d (fst w)), snd w)"
| "clone_step ops env CCleanup w = (fst (cleanup_pages (fst w)), snd w)"
| "clone_step ops env (CStore op) w = (fst w, store_step ops env op (snd w))"

text \<open>Two tasks may both pass the limit before either is tracked.\<close>

lemma clone_limit_race:
  assumes "cc_max (cl_config m) = 1" "hm_get (cl_clones m) i = None" "a \<noteq> b"
  shows "\<not> clone_limited m i \<and> get_clones i (track_clone i b (track_clone i a m)) = [a, b]"
  using assms by (simp add: clone_limited_def get_clones_def track_clone_def)

section \<open>The limit\<close>

definition within_limit :: "cloner \<Rightarrow> bool" where
  "within_limit m \<longleftrightarrow> (\<forall>i. length (get_clones i m) \<le> unat (cc_max (cl_config m)))"

lemma clone_step_config [simp]: "cl_config (fst (clone_step ops env op w)) = cl_config (fst w)"
  by (cases op; cases w)
    (simp_all add: clone_state_def modify_page_def cleanup_pages_def share_pages_def track_clone_def
      Let_def split: option.splits prod.splits sum.splits)

lemma track_within:
  assumes "within_limit m" "cc_max (cl_config m) > 0" "\<not> clone_limited m i"
  shows "within_limit (track_clone i c m)"
proof -
  have "length (get_clones i m) < unat (cc_max (cl_config m))"
    using assms(2,3) by (auto simp: clone_limited_def get_clones_def word_less_nat_alt split: option.splits)
  then show ?thesis using assms(1)
    by (auto simp: within_limit_def get_clones_def track_clone_def Suc_le_eq split: option.splits)
qed

lemma share_pages_clones [simp]:
  "get_clones i (share_pages s m) = get_clones i m" "cl_config (share_pages s m) = cl_config m"
  "clone_limited (share_pages s m) i = clone_limited m i"
  "within_limit (share_pages s m) = within_limit m"
  by (simp_all add: share_pages_def get_clones_def clone_limited_def within_limit_def split: option.split)

lemma clone_step_within:
  assumes "within_limit (fst w)" "cc_max (cl_config (fst w)) > 0"
  shows "within_limit (fst (clone_step ops env op w))"
proof (cases op)
  case (CClone fresh t t1 t2 t3 s label)
  obtain m st where w: "w = (m, st)" by fastforce
  show ?thesis
  proof (cases "clone_limited m (st_id s)")
    case False
    then have "within_limit (track_clone (st_id s) (StateId fresh) (share_pages s m))"
      using assms w by (intro track_within) simp_all
    then show ?thesis
      using assms(1) CClone w False
      by (simp add: clone_state_def Let_def split: prod.splits sum.splits)
  qed (use assms(1) CClone w in \<open>simp add: clone_state_def\<close>)
qed (use assms(1) in \<open>simp_all add: within_limit_def get_clones_def modify_page_def cleanup_pages_def
       Let_def split: option.splits\<close>)

text \<open>The limit on clones holds: in any run of the cloner and the store from a fresh cloner, whose
  calls do not overlap, no state has more clones than the configured maximum, when there is one.\<close>

theorem clone_limit:
  assumes "cc_max cfg > 0"
  shows "length (get_clones i (fst (fold (clone_step ops env) os (cloner_new cfg, st)))) \<le> unat (cc_max cfg)"
proof -
  have "within_limit (fst (fold (clone_step ops env) os w)) \<and> cl_config (fst (fold (clone_step ops env) os w)) = cfg"
    if "within_limit (fst w)" "cl_config (fst w) = cfg" for w
    using that by (induction os arbitrary: w) (simp_all add: clone_step_within assms)
  from this [of "(cloner_new cfg, st)"] show ?thesis
    by (auto simp: within_limit_def get_clones_def cloner_new_def)
qed

lemma clone_limit_witness:
  "length (get_clones (StateId ''a'') (fst (fold (clone_step memory_ops demo_env)
     [CClone ''b'' 0 0 0 0 (demo_state ''a'') ''x'', CClone ''c'' 0 0 0 0 (demo_state ''a'') ''y'']
     (cloner_new (clone_default\<lparr>cc_max := 1\<rparr>), store_new 4 [])))) \<le> 1"
proof -
  have pos: "cc_max (clone_default\<lparr>cc_max := 1\<rparr>) > 0" by simp
  have u: "unat (cc_max (clone_default\<lparr>cc_max := 1\<rparr>)) = 1" by simp
  show ?thesis by (rule clone_limit [OF pos, unfolded u])
qed

section \<open>Clones are restored\<close>

text \<open>A clone is restored: once \<open>clone_state\<close> has returned, on the file-system backend, \<open>get_state\<close>
  returns for the clone's id the state that was cloned, with the id, the label and the time of
  the clone (without descriptors and sockets, or without a time to live, when the configuration
  leaves them out), after any run of other operations of the store.\<close>

theorem clone_restored:
  assumes "local_inv b" "fs_files b = []" "env_ok env hex_key"
    and "list_all (op_addressed (env_sha env) hex_key) (os1 @ os2)"
    and "list_all (\<lambda>op. \<not> touches (StateId fresh) op) os2"
    and "clone_state local_ops env fresh t t1 t2 t3 s label
      (m, fold (store_step local_ops env) os1 (store_new limit b)) = ((m', st), Inr res)"
    and "c = cloned_state (cl_config m) (StateId fresh) t label s"
    and "env_ser env c = Inr d" "\<And>d'. env_sha env d' = env_sha env d \<Longrightarrow> d' = d"
    and "get_state local_ops env (cr_id res) (fold (store_step local_ops env) os2 st) = (st', r)"
  shows "(r = Ok c \<and> st_manifest c = st_manifest s \<and> st_cpu c = st_cpu s \<and> st_id c = StateId fresh) \<or>
    (\<exists>e. r = Err e) \<and> fs_unreadable b"
proof -
  let ?st0 = "fold (store_step local_ops env) os1 (store_new limit b)"
  have "store_good env hex_key local_inv local_contents (store_new limit b)"
    using assms(1,2) by (intro store_new_good) (auto simp: local_contents_def)
  then have g0: "store_good env hex_key local_inv local_contents ?st0"
    and u0: "fs_unreadable (store_backend ?st0) = fs_unreadable b"
    using localfs.run_good [of env "store_new limit b" os1] assms(3,4)
    by (simp_all add: store_new_def)
  obtain e where st: "store_state local_ops env t1 t2 c ?st0 = (st, Inr e)"
    and id: "cr_id res = st_id c"
    using assms(6,7) by (auto simp: clone_state_def Let_def share_pages_def clone_report_def cloned_state_def
        split: if_splits prod.splits sum.splits)
  have "r = Ok c \<or> (\<exists>msg. r = Err msg) \<and> fs_unreadable b"
    using localfs.stored_then_fetched [OF g0 assms(3) _ _ assms(8,9) st, of os2 st' r] assms(4,5,7,10) id u0
    by (simp add: cloned_state_def)
  then show ?thesis using assms(7) by (auto simp: cloned_state_def)
qed

text \<open>Copy-on-write does not copy: modifying a page that several states share overwrites it in
  place and resets its count, and the old content is kept nowhere.\<close>

theorem shared_page_overwritten:
  assumes "hm_get (cl_pages m) (page_key i region) = Some p" "modify_page i region d m = (m', x)"
  shows "get_page_ref_count i region m' = Some 1 \<and>
    map_option cp_data (hm_get (cl_pages m') (page_key i region)) = Some d \<and>
    hm_len (cl_pages m') = hm_len (cl_pages m) \<and>
    (\<forall>k. k \<noteq> page_key i region \<longrightarrow> hm_get (cl_pages m') k = hm_get (cl_pages m) k)"
  using assms by (auto simp: modify_page_def Let_def get_page_ref_count_def page_make_unique_def
      page_is_unique_def hm_len_insert hm_contains_def)

definition demo_clone_env :: "unit store_env" where
  "demo_clone_env =
     \<lparr>env_ser = (\<lambda>s. if s = cloned_state clone_default (StateId ''b'') 5 ''copy'' (demo_state ''a'') then Ok [2]
                   else Err ''unsupported''),
      env_de = (\<lambda>d. Ok (cloned_state clone_default (StateId ''b'') 5 ''copy'' (demo_state ''a''))),
      env_sha = (\<lambda>d. if d = [2] then ''b2'' else ''a1''),
      env_add_seconds = (\<lambda>t n. Some (t + n * 1000000000))\<rparr>"

lemma clone_restored_witness:
  "\<exists>m st res st'. clone_state local_ops demo_clone_env ''b'' 5 5 5 5 (demo_state ''a'') ''copy''
       (cloner_new clone_default, store_new 1 demo_fs) = ((m, st), Inr res) \<and>
     get_state local_ops demo_clone_env (cr_id res) (fold (store_step local_ops demo_clone_env)
       [OpDelete (StateId ''a'')] st) = (st', Ok (cloned_state clone_default (StateId ''b'') 5 ''copy'' (demo_state ''a'')))"
proof -
  let ?c = "cloned_state clone_default (StateId ''b'') 5 ''copy'' (demo_state ''a'')"
  let ?os = "[OpDelete (StateId ''a'')]"
  obtain m st x where run: "clone_state local_ops demo_clone_env ''b'' 5 5 5 5 (demo_state ''a'') ''copy''
       (cloner_new clone_default, fold (store_step local_ops demo_clone_env) [] (store_new 1 demo_fs)) = ((m, st), x)"
    by (metis prod.exhaust)
  have "\<exists>res. x = Inr res"
    using run by (auto simp: clone_state_def clone_limited_def cloner_new_def clone_default_def store_state_def
        demo_clone_env_def local_ops_def local_put_def demo_fs_def store_new_def Let_def cloned_state_def
        split: option.splits)
  then obtain res where res: "x = Inr res" by blast
  obtain st' r where get: "get_state local_ops demo_clone_env (cr_id res)
      (fold (store_step local_ops demo_clone_env) ?os st) = (st', r)" by fastforce
  have "(r = Ok ?c \<and> st_manifest ?c = st_manifest (demo_state ''a'') \<and> st_cpu ?c = st_cpu (demo_state ''a'')
      \<and> st_id ?c = StateId ''b'') \<or> (\<exists>e. r = Err e) \<and> fs_unreadable demo_fs"
    by (rule clone_restored [where ?os1.0 = "[]", OF _ _ _ _ _ run [unfolded res] _ _ _ get])
      (auto simp: local_inv_def demo_fs_def env_ok_def demo_clone_env_def hex_key_def cloner_new_def
        split: if_splits)
  moreover have "\<not> fs_unreadable demo_fs" by (simp add: fs_unreadable_def demo_fs_def)
  ultimately show ?thesis using run res get by auto
qed

lemma shared_page_overwritten_witness:
  "get_page_ref_count (StateId ''a'') ''r'' (fst (modify_page (StateId ''a'') ''r'' [1]
     ((cloner_new clone_default)\<lparr>cl_pages := [(''a-r'', \<lparr>cp_data = [9], cp_refs = 3, cp_hash = ''r''\<rparr>)]\<rparr>))) = Some 1"
  using shared_page_overwritten [of "(cloner_new clone_default)\<lparr>cl_pages := [(''a-r'', \<lparr>cp_data = [9], cp_refs = 3,
      cp_hash = ''r''\<rparr>)]\<rparr>" "StateId ''a''" "''r''" _ "[1]", OF _ prod.collapse [symmetric]]
  by (simp add: page_key_def hm_get_def)

end
