(* ===== verification/BatchOps.thy ===== *)
theory BatchOps
  imports Model
begin

text \<open>
  \<^verbatim>\<open>src/src/batch_ops.rs\<close>: batches of operations on states.  A batch is a job: its task spawns one
  task per state, which wait for one of \<open>mx\<close> permits, and collects their results in the order of
  the states.  The steps of all tasks, of cancellation and of the cleanup interleave; a step that
  cannot be taken is \<open>None\<close>.  The executor (\<^verbatim>\<open>trait BatchExecutor\<close>) is a parameter, with the
  in-memory executor of the module as an instance; a call of it is one step.  The receiver of
  progress updates keeps up with them.
\<close>

section \<open>Operations and results\<close>

datatype batch_operation =
    BDelete "state_id list"
  | BAddTags "state_id list" "string list"
  | BRemoveTags "state_id list" "string list"
  | BUpdateMetadata "state_id list" "u64 option"
  | BExport "state_id list" string

datatype batch_status = Pending | Running | Completed | Failed | Cancelled

record batch_result =
  br_id :: string
  br_status :: batch_status
  br_total :: nat
  br_processed :: nat
  br_succeeded :: nat
  br_failed :: nat
  br_errors :: "(string \<times> string) list"
  br_started :: "datetime option"
  br_completed :: "datetime option"

record progress_update =
  pu_id :: string
  pu_processed :: nat
  pu_total :: nat
  pu_state :: "string option"

fun operation_ids :: "batch_operation \<Rightarrow> state_id list" where
  "operation_ids (BDelete is) = is"
| "operation_ids (BAddTags is ts) = is"
| "operation_ids (BRemoveTags is ts) = is"
| "operation_ids (BUpdateMetadata is ttl) = is"
| "operation_ids (BExport is f) = is"

definition operation_count :: "batch_operation \<Rightarrow> nat" where
  "operation_count op = length (operation_ids op)"

section \<open>Executors\<close>

text \<open>A spawned task returns the result of the executor, or panics (\<^verbatim>\<open>JoinError\<close>).\<close>

datatype task_outcome = Returned "(string, unit) result" | Panicked string

record 's batch_executor =
  ex_delete :: "state_id \<Rightarrow> 's \<Rightarrow> 's \<times> task_outcome"
  ex_add_tags :: "state_id \<Rightarrow> string list \<Rightarrow> 's \<Rightarrow> 's \<times> task_outcome"
  ex_remove_tags :: "state_id \<Rightarrow> string list \<Rightarrow> 's \<Rightarrow> 's \<times> task_outcome"
  ex_update :: "state_id \<Rightarrow> u64 option \<Rightarrow> 's \<Rightarrow> 's \<times> task_outcome"
  ex_export :: "state_id \<Rightarrow> string \<Rightarrow> 's \<Rightarrow> 's \<times> task_outcome"

definition memory_delete :: "state_id \<Rightarrow> (state_id, bool) hmap \<Rightarrow> (state_id, bool) hmap \<times> task_outcome" where
  "memory_delete i m =
     (case hm_get m i of
        Some b \<Rightarrow> (hm_remove i m, Returned (Ok ()))
      | None \<Rightarrow> (m, Returned (Err ''State not found'')))"

definition memory_executor :: "(state_id, bool) hmap batch_executor" where
  "memory_executor =
     \<lparr>ex_delete = memory_delete,
      ex_add_tags = (\<lambda>i ts m. (m, Returned (Ok ()))),
      ex_remove_tags = (\<lambda>i ts m. (m, Returned (Ok ()))),
      ex_update = (\<lambda>i ttl m. (m, Returned (Ok ()))),
      ex_export = (\<lambda>i f m. (m, Returned (Ok ())))\<rparr>"

text \<open>What a spawned task does for its state; without an executor it succeeds.\<close>

fun run_call :: "'s batch_executor option \<Rightarrow> batch_operation \<Rightarrow> state_id \<Rightarrow> 's \<Rightarrow> 's \<times> task_outcome" where
  "run_call None op i s = (s, Returned (Ok ()))"
| "run_call (Some ex) (BDelete is) i s = ex_delete ex i s"
| "run_call (Some ex) (BAddTags is ts) i s = ex_add_tags ex i ts s"
| "run_call (Some ex) (BRemoveTags is ts) i s = ex_remove_tags ex i ts s"
| "run_call (Some ex) (BUpdateMetadata is ttl) i s = ex_update ex i ttl s"
| "run_call (Some ex) (BExport is f) i s = ex_export ex i f s"

section \<open>Jobs\<close>

datatype handle = Queued | InFlight | Finished task_outcome

datatype job_phase = Spawned | Working | Ended

text \<open>\<open>jb_result\<close> is the copy of the result that the job's task updates; \<open>bw_ops\<close> is what the
  manager shows.\<close>

record job =
  jb_op :: batch_operation
  jb_result :: batch_result
  jb_handles :: "(state_id \<times> handle) list"
  jb_phase :: job_phase

record 's batch_world =
  bw_ops :: "batch_result list"
  bw_jobs :: "(string, job) hmap"
  bw_exec :: 's
  bw_sent :: "progress_update list"

definition batch_new :: "'s \<Rightarrow> 's batch_world" where
  "batch_new s = \<lparr>bw_ops = [], bw_jobs = [], bw_exec = s, bw_sent = []\<rparr>"

definition result_new :: "string \<Rightarrow> nat \<Rightarrow> batch_result" where
  "result_new i n =
     \<lparr>br_id = i, br_status = Pending, br_total = n, br_processed = 0, br_succeeded = 0,
      br_failed = 0, br_errors = [], br_started = None, br_completed = None\<rparr>"

fun update_result :: "batch_result \<Rightarrow> batch_result list \<Rightarrow> batch_result list" where
  "update_result r [] = []"
| "update_result r (x # xs) = (if br_id x = br_id r then r # xs else x # update_result r xs)"

definition batch_execute :: "uuid \<Rightarrow> batch_operation \<Rightarrow> 's batch_world \<Rightarrow> 's batch_world \<times> string" where
  "batch_execute fresh op w =
     (let r = result_new fresh (operation_count op) in
      (w\<lparr>bw_ops := bw_ops w @ [r],
         bw_jobs := hm_insert fresh \<lparr>jb_op = op, jb_result = r, jb_handles = [], jb_phase = Spawned\<rparr> (bw_jobs w)\<rparr>,
       fresh))"

definition job_begin :: "datetime \<Rightarrow> job \<Rightarrow> job" where
  "job_begin now j =
     j\<lparr>jb_result := (jb_result j)\<lparr>br_status := Running, br_started := Some now\<rparr>,
       jb_handles := map (\<lambda>i. (i, Queued)) (operation_ids (jb_op j)), jb_phase := Working\<rparr>"

definition in_flight :: "job \<Rightarrow> nat" where
  "in_flight j = length (filter (\<lambda>(i, h). h = InFlight) (jb_handles j))"

text \<open>One collected result.\<close>

fun collect_outcome :: "state_id \<Rightarrow> task_outcome \<Rightarrow> batch_result \<Rightarrow> batch_result" where
  "collect_outcome i (Returned (Inr u)) r =
     r\<lparr>br_succeeded := br_succeeded r + 1, br_processed := br_processed r + 1\<rparr>"
| "collect_outcome i (Returned (Inl e)) r =
     r\<lparr>br_failed := br_failed r + 1, br_errors := br_errors r @ [(sid_str i, e)],
       br_processed := br_processed r + 1\<rparr>"
| "collect_outcome i (Panicked e) r =
     r\<lparr>br_failed := br_failed r + 1, br_errors := br_errors r @ [(sid_str i, e)],
       br_processed := br_processed r + 1\<rparr>"

definition job_complete :: "datetime \<Rightarrow> job \<Rightarrow> job" where
  "job_complete now j =
     j\<lparr>jb_result := (jb_result j)\<lparr>br_status := (if br_failed (jb_result j) > 0 then Failed else Completed),
         br_completed := Some now\<rparr>, jb_phase := Ended\<rparr>"

text \<open>\<^verbatim>\<open>iter_mut().find\<close> finds the first operation of that id.\<close>

fun cancel_op :: "datetime \<Rightarrow> string \<Rightarrow> batch_result list \<Rightarrow> batch_result list \<times> bool" where
  "cancel_op now i [] = ([], False)"
| "cancel_op now i (r # rs) =
     (if br_id r = i
      then (if br_status r = Pending \<or> br_status r = Running
            then (r\<lparr>br_status := Cancelled, br_completed := Some now\<rparr> # rs, True)
            else (r # rs, False))
      else (case cancel_op now i rs of (rs', b) \<Rightarrow> (r # rs', b)))"

definition cleanup_ops :: "datetime \<Rightarrow> int \<Rightarrow> batch_result list \<Rightarrow> batch_result list \<times> nat" where
  "cleanup_ops now older_than rs =
     (let kept = filter (\<lambda>r. case br_completed r of Some t \<Rightarrow> t > now - older_than | None \<Rightarrow> True) rs
      in (kept, length rs - length kept))"

definition get_status :: "string \<Rightarrow> batch_result list \<Rightarrow> batch_result option" where
  "get_status i rs = List.find (\<lambda>r. br_id r = i) rs"

definition list_operations :: "nat \<Rightarrow> batch_result list \<Rightarrow> batch_result list" where
  "list_operations n rs = take n (rev rs)"

section \<open>Steps\<close>

datatype batch_act =
    Submit uuid batch_operation
  | Begin string datetime
  | Acquire string nat
  | Finish string nat
  | Collect string
  | Complete string datetime
  | Cancel string datetime
  | Cleanup datetime int

fun act_job :: "batch_act \<Rightarrow> string option" where
  "act_job (Begin i now) = Some i"
| "act_job (Acquire i k) = Some i"
| "act_job (Finish i k) = Some i"
| "act_job (Collect i) = Some i"
| "act_job (Complete i now) = Some i"
| "act_job _ = None"

definition put_job :: "string \<Rightarrow> job \<Rightarrow> 's batch_world \<Rightarrow> 's batch_world" where
  "put_job i j w = w\<lparr>bw_jobs := hm_insert i j (bw_jobs w)\<rparr>"

text \<open>A step of the job \<open>j\<close>, with the executor's state and the progress updates it sends.\<close>

fun job_act :: "'s batch_executor option \<Rightarrow> nat \<Rightarrow> bool \<Rightarrow> batch_act \<Rightarrow> job \<Rightarrow> 's \<Rightarrow>
    (job \<times> 's \<times> progress_update list) option" where
  "job_act ex mx report (Begin i now) j s =
     (if jb_phase j = Spawned then Some (job_begin now j, s, []) else None)"
| "job_act ex mx report (Acquire i k) j s =
     (if jb_phase j = Working \<and> k < length (jb_handles j) \<and> snd (jb_handles j ! k) = Queued \<and> in_flight j < mx
      then Some (j\<lparr>jb_handles := (jb_handles j)[k := (fst (jb_handles j ! k), InFlight)]\<rparr>, s, [])
      else None)"
| "job_act ex mx report (Finish i k) j s =
     (if jb_phase j = Working \<and> k < length (jb_handles j) \<and> snd (jb_handles j ! k) = InFlight
      then (case run_call ex (jb_op j) (fst (jb_handles j ! k)) s of
              (s', out) \<Rightarrow>
                Some (j\<lparr>jb_handles := (jb_handles j)[k := (fst (jb_handles j ! k), Finished out)]\<rparr>, s', []))
      else None)"
| "job_act ex mx report (Collect i) j s =
     (let n = br_processed (jb_result j) in
      if jb_phase j = Working \<and> n < length (jb_handles j)
      then (case jb_handles j ! n of
              (sid, Finished out) \<Rightarrow>
                let r = collect_outcome sid out (jb_result j) in
                Some (j\<lparr>jb_result := r\<rparr>, s,
                  if report then [\<lparr>pu_id = br_id r, pu_processed = br_processed r, pu_total = br_total r,
                                   pu_state = Some (sid_str sid)\<rparr>] else [])
            | _ \<Rightarrow> None)
      else None)"
| "job_act ex mx report (Complete i now) j s =
     (if jb_phase j = Working \<and> br_processed (jb_result j) = length (jb_handles j)
      then Some (job_complete now j, s, []) else None)"
| "job_act ex mx report _ j s = None"

text \<open>The steps at which the job writes its result back.\<close>

fun act_writes :: "batch_act \<Rightarrow> bool" where
  "act_writes (Begin i now) = True"
| "act_writes (Complete i now) = True"
| "act_writes _ = False"

definition batch_do :: "'s batch_executor option \<Rightarrow> nat \<Rightarrow> bool \<Rightarrow> batch_act \<Rightarrow> 's batch_world \<Rightarrow>
    's batch_world option" where
  "batch_do ex mx report a w =
     (case a of
        Submit fresh op \<Rightarrow> (if hm_get (bw_jobs w) fresh = None then Some (fst (batch_execute fresh op w)) else None)
      | Cancel i now \<Rightarrow> Some (w\<lparr>bw_ops := fst (cancel_op now i (bw_ops w))\<rparr>)
      | Cleanup now d \<Rightarrow> Some (w\<lparr>bw_ops := fst (cleanup_ops now d (bw_ops w))\<rparr>)
      | _ \<Rightarrow>
          (case act_job a of
             None \<Rightarrow> None
           | Some i \<Rightarrow>
               (case hm_get (bw_jobs w) i of
                  None \<Rightarrow> None
                | Some j \<Rightarrow>
                    (case job_act ex mx report a j (bw_exec w) of
                       None \<Rightarrow> None
                     | Some (j', s, sent) \<Rightarrow>
                         Some (put_job i j' (w\<lparr>bw_exec := s, bw_sent := bw_sent w @ sent,
                           bw_ops := (if act_writes a then update_result (jb_result j') (bw_ops w)
                                      else bw_ops w)\<rparr>))))))"

inductive batch_reach :: "'s batch_executor option \<Rightarrow> nat \<Rightarrow> bool \<Rightarrow> 's \<Rightarrow> 's batch_world \<Rightarrow> bool"
  for ex mx report s where
  start: "batch_reach ex mx report s (batch_new s)"
| step: "batch_reach ex mx report s w \<Longrightarrow> batch_do ex mx report a w = Some w' \<Longrightarrow> batch_reach ex mx report s w'"

fun batch_run :: "'s batch_executor option \<Rightarrow> nat \<Rightarrow> bool \<Rightarrow> batch_act list \<Rightarrow> 's batch_world \<Rightarrow>
    's batch_world option" where
  "batch_run ex mx report [] w = Some w"
| "batch_run ex mx report (a # as) w =
     (case batch_do ex mx report a w of None \<Rightarrow> None | Some w' \<Rightarrow> batch_run ex mx report as w')"

section \<open>The invariant of a job\<close>

definition outcome_errors :: "(state_id \<times> handle) list \<Rightarrow> (string \<times> string) list" where
  "outcome_errors hs = List.map_filter
     (\<lambda>(i, h). case h of
         Finished (Returned (Inl e)) \<Rightarrow> Some (sid_str i, e)
       | Finished (Panicked e) \<Rightarrow> Some (sid_str i, e)
       | _ \<Rightarrow> None) hs"

definition is_finished :: "state_id \<times> handle \<Rightarrow> bool" where
  "is_finished x \<longleftrightarrow> (case snd x of Finished out \<Rightarrow> True | _ \<Rightarrow> False)"

definition job_ok :: "nat \<Rightarrow> string \<Rightarrow> job \<Rightarrow> bool" where
  "job_ok mx i j \<longleftrightarrow>
     (let r = jb_result j; hs = jb_handles j; n = br_processed r in
      br_id r = i \<and> br_total r = operation_count (jb_op j) \<and>
      map fst hs = (if jb_phase j = Spawned then [] else operation_ids (jb_op j)) \<and>
      n \<le> length hs \<and> list_all is_finished (take n hs) \<and>
      br_errors r = outcome_errors (take n hs) \<and> br_failed r = length (br_errors r) \<and>
      br_succeeded r + br_failed r = n \<and> in_flight j \<le> mx \<and>
      (jb_phase j = Ended \<longrightarrow> n = length hs \<and>
         br_status r = (if br_failed r > 0 then Failed else Completed)))"

lemma outcome_errors_append [simp]: "outcome_errors (xs @ ys) = outcome_errors xs @ outcome_errors ys"
  by (simp add: outcome_errors_def map_filter_def)

lemma in_flight_update:
  assumes "k < length (jb_handles j)"
  shows "in_flight (j\<lparr>jb_handles := (jb_handles j)[k := (i, h)]\<rparr>) + (if snd (jb_handles j ! k) = InFlight then 1 else 0)
    = in_flight j + (if h = InFlight then 1 else 0)"
proof -
  let ?P = "\<lambda>(i, h). h = InFlight" and ?hs = "jb_handles j"
  have "length (filter ?P ?hs) = length (filter ?P (take k ?hs @ ?hs ! k # drop (Suc k) ?hs))"
    by (simp only: id_take_nth_drop [OF assms, symmetric])
  then show ?thesis
    using assms by (simp add: in_flight_def upd_conv_take_nth_drop case_prod_beta)
qed

lemma fst_update: "k < length xs \<Longrightarrow> map fst (xs[k := (fst (xs ! k), y)]) = map fst xs"
  by (simp add: map_update list_update_same_conv)

lemma finished_before:
  "list_all is_finished (take n hs) \<Longrightarrow> k < length hs \<Longrightarrow> \<not> is_finished (hs ! k) \<Longrightarrow> n \<le> k"
  by (rule ccontr) (auto simp: list_all_length)

lemma collect_outcome_errors [simp]:
  "br_id (collect_outcome i out r) = br_id r"
  "br_total (collect_outcome i out r) = br_total r"
  "br_processed (collect_outcome i out r) = Suc (br_processed r)"
  "br_errors (collect_outcome i out r) = br_errors r @ outcome_errors [(i, Finished out)]"
  "br_failed (collect_outcome i out r) = br_failed r + length (outcome_errors [(i, Finished out)])"
  by (cases "(i, out, r)" rule: collect_outcome.cases; simp add: outcome_errors_def map_filter_simps)+

lemma collect_outcome_count:
  "br_succeeded (collect_outcome i out r) + br_failed (collect_outcome i out r) = Suc (br_succeeded r + br_failed r)"
  by (cases "(i, out, r)" rule: collect_outcome.cases) simp_all

lemma job_act_ok:
  assumes ok: "job_ok mx i j" and a: "act_job a = Some i" and run: "job_act ex mx report a j s = Some (j', s', sent)"
  shows "job_ok mx i j'"
proof (cases a)
  case (Begin i' now)
  have "in_flight (job_begin now j) = 0" by (simp add: in_flight_def job_begin_def)
  then show ?thesis
    using ok run Begin by (auto simp: job_ok_def job_begin_def Let_def outcome_errors_def comp_def split: if_splits)
next
  case (Acquire i' k)
  then have k: "k < length (jb_handles j)" "snd (jb_handles j ! k) = Queued" "in_flight j < mx" "jb_phase j = Working"
    and j': "j' = j\<lparr>jb_handles := (jb_handles j)[k := (fst (jb_handles j ! k), InFlight)]\<rparr>"
    using run by (auto split: if_splits)
  have "br_processed (jb_result j) \<le> k"
    using ok k by (intro finished_before [of _ "jb_handles j"]) (auto simp: job_ok_def Let_def is_finished_def)
  then show ?thesis
    using ok k in_flight_update [OF k(1), of "fst (jb_handles j ! k)" InFlight]
    unfolding job_ok_def j' by (auto simp: Let_def fst_update)
next
  case (Finish i' k)
  then obtain out where k: "k < length (jb_handles j)" "snd (jb_handles j ! k) = InFlight" "jb_phase j = Working"
    and j': "j' = j\<lparr>jb_handles := (jb_handles j)[k := (fst (jb_handles j ! k), Finished out)]\<rparr>"
    using run by (auto split: if_splits prod.splits)
  have "br_processed (jb_result j) \<le> k"
    using ok k by (intro finished_before [of _ "jb_handles j"]) (auto simp: job_ok_def Let_def is_finished_def)
  then show ?thesis
    using ok k in_flight_update [OF k(1), of "fst (jb_handles j ! k)" "Finished out"]
    unfolding job_ok_def j' by (auto simp: Let_def fst_update)
next
  case (Collect i')
  let ?r = "jb_result j" and ?hs = "jb_handles j"
  let ?n = "br_processed ?r"
  obtain sid out where h: "jb_phase j = Working" "?n < length ?hs" "?hs ! ?n = (sid, Finished out)"
    and j': "j' = j\<lparr>jb_result := collect_outcome sid out ?r\<rparr>"
    using run Collect by (auto simp: Let_def split: if_splits prod.splits handle.splits)
  have take: "take (Suc ?n) ?hs = take ?n ?hs @ [(sid, Finished out)]"
    using h by (simp add: take_Suc_conv_app_nth)
  have n: "?n \<le> length ?hs" "list_all is_finished (take ?n ?hs)" "br_errors ?r = outcome_errors (take ?n ?hs)"
    "br_failed ?r = length (br_errors ?r)" "br_succeeded ?r + br_failed ?r = ?n"
    using ok by (auto simp: job_ok_def Let_def)
  have "is_finished (sid, Finished out)" by (simp add: is_finished_def)
  then show ?thesis
    using ok h n collect_outcome_count [of sid out ?r] unfolding j' job_ok_def
    by (simp add: take Let_def in_flight_def collect_outcome_errors del: take_Suc)
next
  case (Complete i' now)
  then show ?thesis
    using ok run by (auto simp: job_ok_def job_complete_def Let_def in_flight_def split: if_splits)
qed (use a in simp_all)

section \<open>The invariant of the manager\<close>

definition batch_ok :: "nat \<Rightarrow> 's batch_world \<Rightarrow> bool" where
  "batch_ok mx w \<longleftrightarrow>
     (\<forall>i j. hm_get (bw_jobs w) i = Some j \<longrightarrow> job_ok mx i j) \<and>
     distinct (map br_id (bw_ops w)) \<and>
     (\<forall>r\<in>set (bw_ops w). \<exists>j. hm_get (bw_jobs w) (br_id r) = Some j \<and>
        (jb_phase j = Ended \<longrightarrow> r = jb_result j))"

lemma map_other: "i \<notin> br_id ` set rs \<Longrightarrow> map (\<lambda>r. if br_id r = i \<and> P r then f r else r) rs = rs"
  by (induction rs) auto

lemma update_result_map:
  "distinct (map br_id rs) \<Longrightarrow> update_result r rs = map (\<lambda>x. if br_id x = br_id r then r else x) rs"
  by (induction rs) (auto simp: map_other [where P = "\<lambda>x. True" and f = "\<lambda>x. r", simplified])

lemma cancel_op_map:
  "distinct (map br_id rs) \<Longrightarrow> fst (cancel_op now i rs) =
     map (\<lambda>r. if br_id r = i \<and> (br_status r = Pending \<or> br_status r = Running)
       then r\<lparr>br_status := Cancelled, br_completed := Some now\<rparr> else r) rs"
  by (induction rs) (auto simp: map_other [where P = "\<lambda>r. br_status r = Pending \<or> br_status r = Running"
        and f = "\<lambda>r. r\<lparr>br_status := Cancelled, br_completed := Some now\<rparr>"] split: prod.splits)

lemma batch_do_job:
  assumes "batch_do ex mx report a w = Some w'" "act_job a = Some i"
  shows "\<exists>j j' s sent. hm_get (bw_jobs w) i = Some j \<and> job_act ex mx report a j (bw_exec w) = Some (j', s, sent) \<and>
    w' = put_job i j' (w\<lparr>bw_exec := s, bw_sent := bw_sent w @ sent,
      bw_ops := (if act_writes a then update_result (jb_result j') (bw_ops w) else bw_ops w)\<rparr>)"
  using assms by (cases a) (auto simp: batch_do_def simp del: job_act.simps act_writes.simps split: option.splits)

lemma job_act_phase:
  assumes "job_act ex mx report a j s = Some (j', s', sent)" "act_job a = Some i"
  shows "jb_phase j \<noteq> Ended \<and> (jb_phase j' = Ended \<longrightarrow> act_writes a)"
  using assms by (cases a) (auto simp: Let_def job_begin_def split: if_splits prod.splits handle.splits)

lemma batch_ok_map:
  assumes ok: "batch_ok mx w" and ids: "\<And>r. br_id (f r) = br_id r"
    and ended: "\<And>r j. jb_phase j = Ended \<Longrightarrow> r = jb_result j \<Longrightarrow> hm_get (bw_jobs w) (br_id r) = Some j \<Longrightarrow>
      f r = jb_result j"
  shows "batch_ok mx (w\<lparr>bw_ops := map f (bw_ops w)\<rparr>)"
proof -
  have "\<exists>j. hm_get (bw_jobs w) (br_id (f r)) = Some j \<and> (jb_phase j = Ended \<longrightarrow> f r = jb_result j)"
    if "r \<in> set (bw_ops w)" for r
    using ok that ended unfolding batch_ok_def ids by blast
  moreover have "distinct (map br_id (map f (bw_ops w)))"
    using ok unfolding map_map comp_def ids by (simp add: batch_ok_def)
  ultimately show ?thesis using ok by (simp add: batch_ok_def)
qed

lemma batch_do_ok:
  assumes ok: "batch_ok mx w" and run: "batch_do ex mx report a w = Some w'"
  shows "batch_ok mx w'"
proof (cases "act_job a")
  case (Some i)
  from batch_do_job [OF run Some] obtain j j' s sent where
    j: "hm_get (bw_jobs w) i = Some j" and act: "job_act ex mx report a j (bw_exec w) = Some (j', s, sent)"
    and w': "w' = put_job i j' (w\<lparr>bw_exec := s, bw_sent := bw_sent w @ sent,
      bw_ops := (if act_writes a then update_result (jb_result j') (bw_ops w) else bw_ops w)\<rparr>)" by blast
  have j': "job_ok mx i j'" using job_act_ok [OF _ Some act] ok j by (simp add: batch_ok_def)
  then have id: "br_id (jb_result j') = i" by (simp add: job_ok_def Let_def)
  note ph = job_act_phase [OF act Some]
  have upd: "update_result (jb_result j') (bw_ops w) =
      map (\<lambda>x. if br_id x = i then jb_result j' else x) (bw_ops w)"
    using ok by (simp add: update_result_map batch_ok_def id)
  have ids: "map (\<lambda>x. br_id (if br_id x = i then jb_result j' else x)) (bw_ops w) = map br_id (bw_ops w)"
    by (simp add: id)
  show ?thesis
    using ok j' ph unfolding batch_ok_def w' put_job_def
    by (auto simp: upd comp_def ids id)
next
  case None
  show ?thesis
  proof (cases a)
    case (Submit fresh op)
    then have "hm_get (bw_jobs w) fresh = None" using run by (auto simp: batch_do_def split: if_splits)
    moreover have "job_ok mx fresh \<lparr>jb_op = op, jb_result = result_new fresh (operation_count op),
        jb_handles = [], jb_phase = Spawned\<rparr>"
      by (simp add: job_ok_def result_new_def outcome_errors_def in_flight_def map_filter_simps)
    moreover have "fresh \<notin> br_id ` set (bw_ops w)"
      using ok \<open>hm_get (bw_jobs w) fresh = None\<close> by (auto simp: batch_ok_def)
    ultimately show ?thesis
      using ok run Submit by (auto simp: batch_do_def batch_execute_def batch_ok_def Let_def result_new_def
          split: if_splits)
  next
    case (Cancel i now)
    let ?P = "\<lambda>r. br_status r = Pending \<or> br_status r = Running"
    let ?f = "\<lambda>r. if br_id r = i \<and> ?P r then r\<lparr>br_status := Cancelled, br_completed := Some now\<rparr> else r"
    have d: "distinct (map br_id (bw_ops w))" using ok by (simp add: batch_ok_def)
    have w': "w' = w\<lparr>bw_ops := map ?f (bw_ops w)\<rparr>"
      using run by (simp add: Cancel batch_do_def cancel_op_map [OF d])
    have ids: "br_id (?f r) = br_id r" for r by simp
    have "?f r = jb_result j" if "jb_phase j = Ended" "r = jb_result j" "hm_get (bw_jobs w) (br_id r) = Some j" for r j
    proof -
      have "job_ok mx (br_id r) j" using ok that(3) by (simp add: batch_ok_def)
      then have "\<not> ?P r" using that(1,2) by (simp add: job_ok_def Let_def)
      then show ?thesis using that(2) by simp
    qed
    then show ?thesis unfolding w' by (intro batch_ok_map [OF ok ids])
  next
    case (Cleanup now d)
    then show ?thesis
      using ok run by (auto simp: batch_do_def batch_ok_def cleanup_ops_def Let_def distinct_map_filter)
  qed (use None in simp_all)
qed

lemma batch_reach_ok: "batch_reach ex mx report s w \<Longrightarrow> batch_ok mx w"
  by (induction rule: batch_reach.induct) (simp add: batch_ok_def batch_new_def, rule batch_do_ok)

section \<open>The steps left to a job\<close>

fun handle_measure :: "handle \<Rightarrow> nat" where
  "handle_measure Queued = 2"
| "handle_measure InFlight = 1"
| "handle_measure (Finished out) = 0"

definition job_measure :: "job \<Rightarrow> nat" where
  "job_measure j =
     (case jb_phase j of
        Spawned \<Rightarrow> 3 * operation_count (jb_op j) + 2
      | Working \<Rightarrow> sum_list (map (\<lambda>(i, h). handle_measure h) (jb_handles j)) +
          (length (jb_handles j) - br_processed (jb_result j)) + 1
      | Ended \<Rightarrow> 0)"

lemma handle_sum_update:
  "k < length hs \<Longrightarrow> sum_list (map (\<lambda>(i, h). handle_measure h) (hs[k := (fst (hs ! k), h)])) + handle_measure (snd (hs ! k)) =
    sum_list (map (\<lambda>(i, h). handle_measure h) hs) + handle_measure h"
  by (induction hs arbitrary: k) (auto split: nat.splits prod.splits simp: nth_Cons')

lemma handle_sum_finished:
  "list_all is_finished hs \<Longrightarrow> sum_list (map (\<lambda>(i, h). handle_measure h) hs) = 0"
  by (induction hs) (auto simp: is_finished_def split: handle.splits)

lemma job_act_measure:
  assumes ok: "job_ok mx i j" and a: "act_job a = Some i" and run: "job_act ex mx report a j s = Some (j', s', sent)"
  shows "Suc (job_measure j') = job_measure j"
proof (cases a)
  case (Begin i' now)
  then show ?thesis
    using run by (auto simp: job_begin_def job_measure_def operation_count_def comp_def sum_list_triv split: if_splits)
       (use ok in \<open>auto simp: job_ok_def Let_def\<close>)
next
  case (Acquire i' k)
  then show ?thesis
    using run handle_sum_update [of k "jb_handles j" InFlight] by (auto simp: job_measure_def split: if_splits)
next
  case (Finish i' k)
  then obtain out where "k < length (jb_handles j)" "snd (jb_handles j ! k) = InFlight" "jb_phase j = Working"
    "j' = j\<lparr>jb_handles := (jb_handles j)[k := (fst (jb_handles j ! k), Finished out)]\<rparr>"
    using run by (auto split: if_splits prod.splits)
  then show ?thesis
    using handle_sum_update [of k "jb_handles j" "Finished out"] by (auto simp: job_measure_def)
next
  case (Collect i')
  then show ?thesis
    using run by (auto simp: job_measure_def Let_def split: if_splits prod.splits handle.splits)
next
  case (Complete i' now)
  then have "list_all is_finished (jb_handles j)"
    using ok run by (auto simp: job_ok_def Let_def split: if_splits)
  then show ?thesis
    using run Complete by (auto simp: job_measure_def job_complete_def handle_sum_finished split: if_splits)
qed (use a in simp_all)

text \<open>A job that has not ended has a step, when there is a permit at all.\<close>

lemma job_act_progress:
  assumes ok: "job_ok mx i j" and mx: "0 < mx" and ne: "jb_phase j \<noteq> Ended"
  obtains a where "act_job a = Some i" "job_act ex mx report a j s \<noteq> None"
proof (cases "jb_phase j")
  case Spawned
  then show ?thesis by (intro that [of "Begin i 0"]) simp_all
next
  case Working
  let ?n = "br_processed (jb_result j)" and ?hs = "jb_handles j"
  note goal = that
  have fin: ?thesis if "k < length ?hs" "snd (?hs ! k) = InFlight" for k
    by (rule goal [of "Finish i k"]) (use that Working in \<open>simp_all split: prod.splits\<close>)
  have "?n \<le> length ?hs" using ok by (simp add: job_ok_def Let_def)
  then consider "?n = length ?hs" | "?n < length ?hs" by linarith
  then show ?thesis
  proof cases
    case 1
    then show ?thesis using Working by (intro that [of "Complete i 0"]) simp_all
  next
    case 2
    obtain sid h where h: "?hs ! ?n = (sid, h)" by (cases "?hs ! ?n")
    show ?thesis
    proof (cases h)
      case Queued
      show ?thesis
      proof (cases "in_flight j < mx")
        case True
        then show ?thesis using Working 2 h Queued by (intro that [of "Acquire i ?n"]) simp_all
      next
        case False
        then have "filter (\<lambda>(i, h). h = InFlight) ?hs \<noteq> []" using mx by (auto simp: in_flight_def)
        then obtain x where "x \<in> set ?hs" "snd x = InFlight" by (auto simp: filter_empty_conv)
        then show ?thesis using fin by (metis in_set_conv_nth)
      qed
    next
      case InFlight
      then show ?thesis using fin 2 h by simp
    next
      case (Finished out)
      then show ?thesis using Working 2 h by (intro that [of "Collect i"]) (simp_all add: Let_def)
    qed
  qed
qed (use ne in simp)

lemma batch_do_other:
  assumes "batch_do ex mx report a w = Some w'" "act_job a \<noteq> Some i" "hm_get (bw_jobs w) i = Some j"
  shows "hm_get (bw_jobs w') i = Some j"
proof (cases "act_job a")
  case None
  then show ?thesis using assms by (cases a) (auto simp: batch_do_def batch_execute_def Let_def split: if_splits)
next
  case (Some i')
  then show ?thesis using batch_do_job [OF assms(1) Some] assms by (auto simp: put_job_def)
qed

lemma batch_do_own:
  assumes "batch_ok mx w" "batch_do ex mx report a w = Some w'" "act_job a = Some i" "hm_get (bw_jobs w) i = Some j"
  obtains j' where "hm_get (bw_jobs w') i = Some j'" "Suc (job_measure j') = job_measure j"
proof -
  from batch_do_job [OF assms(2,3)] assms(4) obtain j' s sent where
    "job_act ex mx report a j (bw_exec w) = Some (j', s, sent)" "hm_get (bw_jobs w') i = Some j'"
    by (auto simp: put_job_def)
  moreover have "job_ok mx i j" using assms(1,4) by (simp add: batch_ok_def)
  ultimately show ?thesis by (intro that job_act_measure [OF _ assms(3)])
qed

lemma batch_do_enabled:
  assumes "hm_get (bw_jobs w) i = Some j" "act_job a = Some i" "job_act ex mx report a j (bw_exec w) \<noteq> None"
  obtains w' where "batch_do ex mx report a w = Some w'"
  using assms by (cases a) (auto simp: batch_do_def simp del: job_act.simps act_writes.simps)

lemma batch_run_steps:
  assumes "batch_ok mx w" "batch_run ex mx report as w = Some w'" "hm_get (bw_jobs w) i = Some j"
  shows "batch_ok mx w' \<and> (\<exists>j'. hm_get (bw_jobs w') i = Some j' \<and>
    job_measure j' + length (filter (\<lambda>a. act_job a = Some i) as) = job_measure j)"
  using assms
proof (induction as arbitrary: w j)
  case (Cons a as)
  from Cons.prems(2) obtain w1 where w1: "batch_do ex mx report a w = Some w1" "batch_run ex mx report as w1 = Some w'"
    by (auto split: option.splits)
  note ok1 = batch_do_ok [OF Cons.prems(1) w1(1)]
  show ?case
  proof (cases "act_job a = Some i")
    case True
    obtain j1 where "hm_get (bw_jobs w1) i = Some j1" "Suc (job_measure j1) = job_measure j"
      by (rule batch_do_own [OF Cons.prems(1) w1(1) True Cons.prems(3)])
    then show ?thesis using Cons.IH [OF ok1 w1(2)] True by fastforce
  next
    case False
    then show ?thesis
      using Cons.IH [OF ok1 w1(2) batch_do_other [OF w1(1) False Cons.prems(3)]] by simp
  qed
qed simp

lemma job_measure_0: "job_measure j = 0 \<longleftrightarrow> jb_phase j = Ended"
  by (auto simp: job_measure_def split: job_phase.splits)

lemma batch_runs_to_end:
  assumes "0 < mx" "batch_ok mx w" "hm_get (bw_jobs w) i = Some j"
  shows "\<exists>as w' j'. batch_run ex mx report as w = Some w' \<and> hm_get (bw_jobs w') i = Some j' \<and>
    jb_phase j' = Ended \<and> list_all (\<lambda>a. act_job a = Some i) as \<and> length as = job_measure j"
  using assms(2,3)
proof (induction "job_measure j" arbitrary: w j)
  case 0
  then show ?case using job_measure_0 [of j] by (intro exI [of _ "[]"]) auto
next
  case (Suc n)
  have ne: "jb_phase j \<noteq> Ended" "job_ok mx i j"
    using Suc.hyps(2) job_measure_0 [of j] Suc.prems by (simp_all add: batch_ok_def)
  obtain a where a: "act_job a = Some i" "job_act ex mx report a j (bw_exec w) \<noteq> None"
    by (rule job_act_progress [OF ne(2) assms(1) ne(1)])
  obtain w1 where w1: "batch_do ex mx report a w = Some w1" by (rule batch_do_enabled [OF Suc.prems(2) a])
  obtain j1 where j1: "hm_get (bw_jobs w1) i = Some j1" "Suc (job_measure j1) = job_measure j"
    by (rule batch_do_own [OF Suc.prems(1) w1 a(1) Suc.prems(2)])
  then have "n = job_measure j1" using Suc.hyps(2) by simp
  from Suc.hyps(1) [OF this batch_do_ok [OF Suc.prems(1) w1] j1(1)] obtain as w' j' where
    "batch_run ex mx report as w1 = Some w'" "hm_get (bw_jobs w') i = Some j'" "jb_phase j' = Ended"
    "list_all (\<lambda>a. act_job a = Some i) as" "length as = job_measure j1" by blast
  then show ?case using w1 a(1) j1(2) by (intro exI [of _ "a # as"] exI [of _ w'] exI [of _ j']) auto
qed

section \<open>Executors that delete\<close>

text \<open>What the manager relies on when it deletes: a delete that has returned or panicked leaves the
  state gone, and no operation brings one back.\<close>

locale deleting_executor =
  fixes ex :: "'s batch_executor"
    and holds :: "'s \<Rightarrow> state_id \<Rightarrow> bool"
  assumes delete_gone: "\<not> holds (fst (ex_delete ex i s)) i"
    and call_adds_none: "\<not> holds s k \<Longrightarrow> \<not> holds (fst (run_call (Some ex) op i s)) k"
begin

definition deleted :: "'s batch_world \<Rightarrow> bool" where
  "deleted w \<longleftrightarrow> (\<forall>i j is k out. hm_get (bw_jobs w) i = Some j \<longrightarrow> jb_op j = BDelete is \<longrightarrow>
     (k, Finished out) \<in> set (jb_handles j) \<longrightarrow> \<not> holds (bw_exec w) k)"

lemma job_act_adds_none:
  "job_act (Some ex) mx report a j s = Some (j', s', sent) \<Longrightarrow> \<not> holds s k \<Longrightarrow> \<not> holds s' k"
  using call_adds_none [of s k "jb_op j"]
  by (cases a) (auto simp: Let_def split: if_splits prod.splits handle.splits dest!: spec, metis fst_conv)

lemma job_act_deletes:
  assumes "job_act (Some ex) mx report a j s = Some (j', s', sent)" "jb_op j = BDelete is"
    and "(k, Finished out) \<in> set (jb_handles j')"
  shows "(k, Finished out) \<in> set (jb_handles j) \<or> \<not> holds s' k"
proof (cases a)
  case (Finish i n)
  then show ?thesis
    using assms delete_gone [of k s] by (auto split: if_splits prod.splits dest!: set_update_subset_insert [THEN subsetD])
next
  case (Acquire i n)
  then show ?thesis
    using assms by (auto split: if_splits dest!: set_update_subset_insert [THEN subsetD])
qed (use assms in \<open>auto simp: Let_def job_begin_def job_complete_def split: if_splits prod.splits handle.splits\<close>)

lemma job_act_op:
  "job_act (Some ex) mx report a j s = Some (j', s', sent) \<Longrightarrow> jb_op j' = jb_op j"
  by (cases a) (auto simp: Let_def job_begin_def job_complete_def split: if_splits prod.splits handle.splits)

lemma step_deleted:
  assumes del: "deleted w" and run: "batch_do (Some ex) mx report a w = Some w'"
  shows "deleted w'"
proof (cases "act_job a")
  case (Some i)
  from batch_do_job [OF run Some] obtain j j' s sent where
    j: "hm_get (bw_jobs w) i = Some j" and act: "job_act (Some ex) mx report a j (bw_exec w) = Some (j', s, sent)"
    and w': "bw_jobs w' = hm_insert i j' (bw_jobs w)" "bw_exec w' = s" by (auto simp: put_job_def)
  show ?thesis
    unfolding deleted_def
  proof (intro allI impI)
    fix i1 j1 "is" k out
    assume *: "hm_get (bw_jobs w') i1 = Some j1" "jb_op j1 = BDelete is" "(k, Finished out) \<in> set (jb_handles j1)"
    have "\<not> holds (bw_exec w) k \<or> \<not> holds s k"
    proof (cases "i1 = i")
      case True
      then have j1: "j1 = j'" using * w' by simp
      then have op: "jb_op j = BDelete is" using job_act_op [OF act] * by simp
      show ?thesis
        using job_act_deletes [OF act op] *(3) del j op unfolding deleted_def j1 by blast
    next
      case False
      then show ?thesis using * w' del unfolding deleted_def by auto
    qed
    then show "\<not> holds (bw_exec w') k" using job_act_adds_none [OF act] w' by auto
  qed
next
  case None
  then show ?thesis
    using del run by (cases a) (auto simp: deleted_def batch_do_def batch_execute_def Let_def split: if_splits, blast+)
qed

lemma reach_deleted: "batch_reach (Some ex) mx report s w \<Longrightarrow> deleted w"
  by (induction rule: batch_reach.induct) (simp add: deleted_def batch_new_def, rule step_deleted)

lemma delete_batch_gone:
  assumes "batch_reach (Some ex) mx report s w" "hm_get (bw_jobs w) i = Some j" "jb_phase j = Ended"
    and op: "jb_op j = BDelete is" and k: "k \<in> set is"
  shows "\<not> holds (bw_exec w) k"
proof -
  have ok: "job_ok mx i j" using batch_reach_ok [OF assms(1)] assms(2) by (simp add: batch_ok_def)
  then have "map fst (jb_handles j) = is" "list_all is_finished (jb_handles j)"
    using assms(3) op by (auto simp: job_ok_def Let_def)
  then obtain h where "(k, h) \<in> set (jb_handles j)" "is_finished (k, h)"
    using k by (force simp: list_all_iff)
  then obtain out where "(k, Finished out) \<in> set (jb_handles j)"
    by (cases h) (auto simp: is_finished_def)
  then show ?thesis using reach_deleted [OF assms(1)] assms(2) op unfolding deleted_def by blast
qed

end

interpretation memory_deletes: deleting_executor memory_executor "\<lambda>m k. hm_get m k \<noteq> None"
proof
  show "\<not> hm_get (fst (ex_delete memory_executor i m)) i \<noteq> None" for i m
    by (simp add: memory_executor_def memory_delete_def split: option.splits)
  show "\<not> hm_get (fst (run_call (Some memory_executor) op i m)) k \<noteq> None" if "\<not> hm_get m k \<noteq> None" for m k op i
    using that by (cases op) (auto simp: memory_executor_def memory_delete_def split: option.splits)
qed

section \<open>What the manager promises\<close>

text \<open>C12. What a batch reports when it has ended: however the tasks, cancellations and cleanups have
  interleaved, the operation that the manager shows has processed every state, counts exactly the
  successes and failures, lists exactly the failures in the order of the states, and is marked
  failed when there is one and completed otherwise.  In particular it is never shown as
  cancelled: a cancellation does not stop the job and is overwritten when it ends.\<close>

theorem ended_batch_result:
  assumes "batch_reach ex mx report s w" "hm_get (bw_jobs w) i = Some j" "jb_phase j = Ended"
    and "get_status i (bw_ops w) = Some r"
  shows "list_all is_finished (jb_handles j) \<and> map fst (jb_handles j) = operation_ids (jb_op j) \<and>
    br_processed r = operation_count (jb_op j) \<and> br_total r = br_processed r \<and>
    br_errors r = outcome_errors (jb_handles j) \<and> br_failed r = length (outcome_errors (jb_handles j)) \<and>
    br_succeeded r = operation_count (jb_op j) - br_failed r \<and>
    br_status r = (if outcome_errors (jb_handles j) = [] then Completed else Failed)"
proof -
  note ok = batch_reach_ok [OF assms(1)]
  have j: "job_ok mx i j" using ok assms(2) by (simp add: batch_ok_def)
  have "r \<in> set (bw_ops w)" "br_id r = i"
    using assms(4) by (auto simp: get_status_def find_Some_iff)
  then have r: "r = jb_result j" using ok assms(2,3) unfolding batch_ok_def by fastforce
  have "length (jb_handles j) = operation_count (jb_op j)"
    using j assms(3) unfolding job_ok_def operation_count_def Let_def by (metis length_map job_phase.distinct(3))
  then show ?thesis using j assms(3) unfolding job_ok_def r by (auto simp: Let_def)
qed

text \<open>No more than \<open>mx\<close> calls of a batch run at any time.\<close>

theorem batch_concurrency:
  assumes "batch_reach ex mx report s w" "hm_get (bw_jobs w) i = Some j"
  shows "in_flight j \<le> mx"
  using batch_reach_ok [OF assms(1)] assms(2) by (auto simp: batch_ok_def job_ok_def Let_def)




text \<open>A batch of deletions that has ended with the in-memory executor has deleted every one of its
  states, also those it reports as failed because another batch was first.\<close>

theorem delete_batch_deletes:
  assumes "batch_reach (Some memory_executor) mx report m w" "hm_get (bw_jobs w) i = Some j"
    and "jb_phase j = Ended" "jb_op j = BDelete is" "k \<in> set is"
  shows "hm_get (bw_exec w) k = None"
  using memory_deletes.delete_batch_gone [OF assms] by simp

section \<open>A batch of two deletions\<close>

text \<open>One of the two states is there; one call at a time.\<close>

definition demo_batch_acts :: "batch_act list" where
  "demo_batch_acts =
     [Submit ''op'' (BDelete [StateId ''a'', StateId ''b'']), Begin ''op'' 1, Acquire ''op'' 1, Cancel ''op'' 2,
      Finish ''op'' 1, Acquire ''op'' 0, Finish ''op'' 0, Collect ''op'', Collect ''op'', Complete ''op'' 3]"

definition demo_batch :: "nat \<Rightarrow> (state_id, bool) hmap batch_world" where
  "demo_batch n = the (batch_run (Some memory_executor) 1 True (take n demo_batch_acts)
     (batch_new [(StateId ''a'', True)]))"

lemma batch_run_reach:
  "batch_run ex mx report as w = Some w' \<Longrightarrow> batch_reach ex mx report s w \<Longrightarrow> batch_reach ex mx report s w'"
  by (induction "as" arbitrary: w) (auto split: option.splits intro: batch_reach.step)

lemma demo_batch_runs:
  "batch_run (Some memory_executor) 1 True (take 10 demo_batch_acts) (batch_new [(StateId ''a'', True)]) \<noteq> None"
  "batch_run (Some memory_executor) 1 True (take 3 demo_batch_acts) (batch_new [(StateId ''a'', True)]) \<noteq> None"
  by code_simp+

lemma demo_batch_reach:
  "batch_reach (Some memory_executor) 1 True [(StateId ''a'', True)] (demo_batch 10)"
  "batch_reach (Some memory_executor) 1 True [(StateId ''a'', True)] (demo_batch 3)"
  unfolding demo_batch_def
  by (rule batch_run_reach [OF _ batch_reach.start], use demo_batch_runs in force)+

definition demo_job :: job where
  "demo_job =
     \<lparr>jb_op = BDelete [StateId ''a'', StateId ''b''],
      jb_result = \<lparr>br_id = ''op'', br_status = Failed, br_total = 2, br_processed = 2, br_succeeded = 1, br_failed = 1,
        br_errors = [(''b'', ''State not found'')], br_started = Some 1, br_completed = Some 3\<rparr>,
      jb_handles = [(StateId ''a'', Finished (Returned (Ok ()))),
        (StateId ''b'', Finished (Returned (Err ''State not found'')))],
      jb_phase = Ended\<rparr>"

lemma demo_batch_job:
  "hm_get (bw_jobs (demo_batch 10)) ''op'' = Some demo_job"
  "get_status ''op'' (bw_ops (demo_batch 10)) = Some (jb_result demo_job)"
  by code_simp+

lemma ended_batch_result_witness:
  "br_status (jb_result demo_job) = Failed \<and> br_processed (jb_result demo_job) = operation_count (jb_op demo_job)"
  using ended_batch_result [OF demo_batch_reach(1) demo_batch_job(1) _ demo_batch_job(2)]
  by (simp add: demo_job_def outcome_errors_def map_filter_simps)

lemma batch_concurrency_witness:
  "\<exists>j. hm_get (bw_jobs (demo_batch 3)) ''op'' = Some j \<and> in_flight j \<le> 1"
proof -
  have "hm_get (bw_jobs (demo_batch 3)) ''op'' \<noteq> None" by code_simp
  then show ?thesis using batch_concurrency [OF demo_batch_reach(2)] by blast
qed


lemma demo_job_ended:
  "jb_phase demo_job = Ended"
  "jb_op demo_job = BDelete [StateId ''a'', StateId ''b'']"
  by (simp_all add: demo_job_def)

lemma delete_batch_deletes_witness: "hm_get (bw_exec (demo_batch 10)) (StateId ''a'') = None"
  by (rule delete_batch_deletes [OF demo_batch_reach(1) demo_batch_job(1) demo_job_ended]) simp

end
