(* ===== verification/AuditLog.thy ===== *)
theory AuditLog
  imports Model
begin

text \<open>
  \<^verbatim>\<open>src/src/audit.rs\<close>: the audit log with its hash chain, the flush to a file, the integrity
  check and the queries.  Parameters (\<open>audit_env\<close>): the JSON of events and entries, RFC 3339
  times, SHA-256 and the faults of the log file.  \<^verbatim>\<open>log\<close> reads the last hash under its own lock,
  releases it, and does the rest while it holds the lock of the entry counter; so a call is a
  read step and an append step, and calls of several tasks interleave between the two.
\<close>

datatype audit_event =
    StateCreated string
  | StateResumed string
  | StateForked string
  | StateDeleted
  | StateShared string "string list"
  | AccessGranted string "string list"
  | AccessRevoked string
  | AccessDenied string
  | Login string bool
  | Logout
  | TokenRefreshed
  | KeyRotated u32 u32
  | EncryptionEnabled
  | EncryptionDisabled
  | ConfigChanged string string string
  | BackupCreated string
  | BackupRestored string
  | AuditErrorEvent string string

record 'j audit_entry =
  ae_id :: u64
  ae_timestamp :: datetime
  ae_event :: audit_event
  ae_actor :: string
  ae_resource :: string
  ae_previous :: string
  ae_hash :: string
  ae_metadata :: "'j option"

datatype audit_error = AuditIoError string | AuditSerializationError string | IntegrityCheckFailed

record 'j audit_env =
  ev_json :: "audit_event \<Rightarrow> string"
  rfc3339 :: "datetime \<Rightarrow> string"
  entry_json :: "'j audit_entry \<Rightarrow> (string, string) result"
  entry_of_json :: "string \<Rightarrow> 'j audit_entry option"
  digest :: "bytes \<Rightarrow> string"
  file_fault :: "string \<Rightarrow> string option"

record 'j audit_logger =
  aud_max :: nat
  aud_entries :: "'j audit_entry list"
  aud_id :: u64
  aud_last :: string
  aud_file :: "string list option"

text \<open>\<^verbatim>\<open>load_last_hash\<close>: the hash of the entry on the last line, else the empty string.\<close>

definition load_last_hash :: "'j audit_env \<Rightarrow> string list \<Rightarrow> string" where
  "load_last_hash env ls =
     (if ls = [] then []
      else (case entry_of_json env (last ls) of None \<Rightarrow> [] | Some e \<Rightarrow> ae_hash e))"

definition logger_new :: "'j audit_env \<Rightarrow> nat \<Rightarrow> string list option \<Rightarrow> 'j audit_logger" where
  "logger_new env mx file =
     \<lparr>aud_max = mx, aud_entries = [], aud_id = 0,
      aud_last = (case file of None \<Rightarrow> [] | Some ls \<Rightarrow> load_last_hash env ls),
      aud_file = file\<rparr>"

definition calculate_hash :: "'j audit_env \<Rightarrow> 'j audit_entry \<Rightarrow> string" where
  "calculate_hash env e =
     digest env (be64 (ae_id e) @ str_bytes (rfc3339 env (ae_timestamp e))
       @ str_bytes (ev_json env (ae_event e)) @ str_bytes (ae_actor e)
       @ str_bytes (ae_resource e) @ str_bytes (ae_previous e))"

record 'j log_call =
  lc_event :: audit_event
  lc_actor :: string
  lc_resource :: string
  lc_metadata :: "'j option"
  lc_now :: datetime

text \<open>The second step of \<^verbatim>\<open>log\<close>: \<open>previous\<close> is the hash its first step has read.\<close>

definition make_entry :: "'j audit_env \<Rightarrow> u64 \<Rightarrow> string \<Rightarrow> 'j log_call \<Rightarrow> 'j audit_entry" where
  "make_entry env i previous c =
     (let e = \<lparr>ae_id = i, ae_timestamp = lc_now c, ae_event = lc_event c, ae_actor = lc_actor c,
               ae_resource = lc_resource c, ae_previous = previous, ae_hash = [],
               ae_metadata = lc_metadata c\<rparr>
      in e\<lparr>ae_hash := calculate_hash env e\<rparr>)"

fun trim_front :: "nat \<Rightarrow> 'a list \<Rightarrow> 'a list" where
  "trim_front mx [] = []"
| "trim_front mx (x # xs) = (if length (x # xs) > mx then trim_front mx xs else x # xs)"

definition log_append ::
  "'j audit_env \<Rightarrow> string \<Rightarrow> 'j log_call \<Rightarrow> 'j audit_logger \<Rightarrow> 'j audit_logger \<times> u64" where
  "log_append env previous c l =
     (let i = aud_id l + 1; e = make_entry env i previous c
      in (l\<lparr>aud_id := i, aud_last := ae_hash e,
            aud_entries := trim_front (aud_max l) (aud_entries l @ [e])\<rparr>, i))"

definition log_event :: "'j audit_env \<Rightarrow> 'j log_call \<Rightarrow> 'j audit_logger \<Rightarrow> 'j audit_logger \<times> u64" where
  "log_event env c l = log_append env (aud_last l) c l"

fun verify_from :: "'j audit_env \<Rightarrow> string \<Rightarrow> 'j audit_entry list \<Rightarrow> bool" where
  "verify_from env expected [] = True"
| "verify_from env expected (e # es) =
     (if ae_previous e \<noteq> expected then False
      else if calculate_hash env e \<noteq> ae_hash e then False
      else verify_from env (ae_hash e) es)"

definition verify_integrity :: "'j audit_env \<Rightarrow> 'j audit_logger \<Rightarrow> (audit_error, bool) result" where
  "verify_integrity env l = Ok (verify_from env [] (aud_entries l))"

definition get_recent :: "nat \<Rightarrow> 'j audit_logger \<Rightarrow> 'j audit_entry list" where
  "get_recent n l = take n (rev (aud_entries l))"

text \<open>\<^verbatim>\<open>str::contains\<close>.\<close>

fun str_contains :: "string \<Rightarrow> string \<Rightarrow> bool" where
  "str_contains [] p \<longleftrightarrow> p = []"
| "str_contains (c # s) p \<longleftrightarrow> take (length p) (c # s) = p \<or> str_contains s p"

definition entry_matches :: "'j audit_env \<Rightarrow> string option \<Rightarrow> string option \<Rightarrow> string option \<Rightarrow>
    'j audit_entry \<Rightarrow> bool" where
  "entry_matches env actor resource event_type e \<longleftrightarrow>
     (case actor of None \<Rightarrow> True | Some a \<Rightarrow> ae_actor e = a) \<and>
     (case resource of None \<Rightarrow> True | Some r \<Rightarrow> ae_resource e = r) \<and>
     (case event_type of None \<Rightarrow> True | Some t \<Rightarrow> str_contains (ev_json env (ae_event e)) t)"

definition search_entries :: "'j audit_env \<Rightarrow> string option \<Rightarrow> string option \<Rightarrow> string option \<Rightarrow>
    nat \<Rightarrow> 'j audit_logger \<Rightarrow> 'j audit_entry list" where
  "search_entries env actor resource event_type limit l =
     take limit (filter (entry_matches env actor resource event_type) (aud_entries l))"

definition export_log :: "'j audit_logger \<Rightarrow> (audit_error, 'j audit_entry list) result" where
  "export_log l = Ok (aud_entries l)"

section \<open>Flushing\<close>

text \<open>\<^verbatim>\<open>flush\<close>: an entry that cannot be encoded or written has left the queue and is lost.\<close>

fun flush_loop :: "'j audit_env \<Rightarrow> 'j audit_entry list \<Rightarrow> string list \<Rightarrow>
    'j audit_entry list \<times> string list \<times> (audit_error, unit) result" where
  "flush_loop env [] ls = ([], ls, Ok ())"
| "flush_loop env (e # es) ls =
     (case entry_json env e of
        Inl x \<Rightarrow> (es, ls, Err (AuditSerializationError x))
      | Inr j \<Rightarrow>
          (case file_fault env j of
             Some x \<Rightarrow> (es, ls, Err (AuditIoError x))
           | None \<Rightarrow> flush_loop env es (ls @ [j])))"

definition flush_log :: "'j audit_env \<Rightarrow> 'j audit_logger \<Rightarrow> 'j audit_logger \<times> (audit_error, unit) result" where
  "flush_log env l =
     (case aud_file l of
        None \<Rightarrow> (l, Ok ())
      | Some ls \<Rightarrow>
          (case flush_loop env (aud_entries l) ls of
             (es, ls', r) \<Rightarrow> (l\<lparr>aud_entries := es, aud_file := Some ls'\<rparr>, r)))"

text \<open>One tick of the background task: all entries leave the queue, errors are ignored.\<close>

definition flush_tick :: "'j audit_env \<Rightarrow> 'j audit_logger \<Rightarrow> 'j audit_logger" where
  "flush_tick env l =
     (case aud_file l of
        None \<Rightarrow> l
      | Some ls \<Rightarrow>
          l\<lparr>aud_entries := [],
            aud_file := Some (fold (\<lambda>e ls.
              (case entry_json env e of
                 Inl x \<Rightarrow> ls
               | Inr j \<Rightarrow> (case file_fault env j of Some x \<Rightarrow> ls | None \<Rightarrow> ls @ [j])))
              (aud_entries l) ls)\<rparr>)"

section \<open>Interleaved calls\<close>

datatype 'j audit_action = ReadLast nat | Append nat "'j log_call"

record 'j audit_world =
  aw_logger :: "'j audit_logger"
  aw_seen :: "nat \<Rightarrow> string"

fun audit_step :: "'j audit_env \<Rightarrow> 'j audit_action \<Rightarrow> 'j audit_world \<Rightarrow> 'j audit_world" where
  "audit_step env (ReadLast t) w = w\<lparr>aw_seen := (aw_seen w)(t := aud_last (aw_logger w))\<rparr>"
| "audit_step env (Append t c) w =
     w\<lparr>aw_logger := fst (log_append env (aw_seen w t) c (aw_logger w))\<rparr>"

section \<open>The hash chain\<close>

lemma trim_front_drop: "trim_front mx xs = drop (length xs - mx) xs"
  by (induction mx xs rule: trim_front.induct) (auto simp: Suc_diff_le)

lemma make_entry_fields [simp]:
  "ae_previous (make_entry env i p c) = p"
  "calculate_hash env (make_entry env i p c) = ae_hash (make_entry env i p c)"
  "ae_metadata (make_entry env i p c) = lc_metadata c"
  by (simp_all add: make_entry_def calculate_hash_def Let_def)

text \<open>The entries that a sequence of calls appends, each chained to the one before.\<close>

fun chain :: "'j audit_env \<Rightarrow> u64 \<Rightarrow> string \<Rightarrow> 'j log_call list \<Rightarrow> 'j audit_entry list" where
  "chain env i p [] = []"
| "chain env i p (c # cs) =
     make_entry env (i + 1) p c # chain env (i + 1) (ae_hash (make_entry env (i + 1) p c)) cs"

lemma length_chain [simp]: "length (chain env i p cs) = length cs"
  by (induction cs arbitrary: i p) simp_all

lemma chain_Nil_iff [simp]: "chain env i p cs = [] \<longleftrightarrow> cs = []"
  by (cases cs) simp_all

lemma chain_snoc:
  "chain env i p (cs @ [c]) = chain env i p cs
     @ [make_entry env (i + of_nat (length cs) + 1)
          (if cs = [] then p else ae_hash (last (chain env i p cs))) c]"
proof (induction cs arbitrary: i p)
  case (Cons d ds)
  then show ?case by (simp add: algebra_simps)
qed simp

lemma verify_chain: "verify_from env p (chain env i p cs)"
  by (induction cs arbitrary: i p) simp_all

lemma verify_from_wrong_start: "es \<noteq> [] \<Longrightarrow> ae_previous (hd es) \<noteq> p \<Longrightarrow> \<not> verify_from env p es"
  by (cases es) simp_all

lemma chain_previous: "k < length cs \<Longrightarrow>
    ae_previous (chain env i p cs ! k) = (if k = 0 then p else ae_hash (chain env i p cs ! (k - 1)))"
proof (induction cs arbitrary: i p k)
  case (Cons c cs)
  then show ?case by (cases k; cases "k - 1") (auto simp: nth_Cons')
qed simp

lemma chain_hash: "k < length cs \<Longrightarrow> \<exists>d. ae_hash (chain env i p cs ! k) = digest env d"
proof (induction cs arbitrary: i p k)
  case (Cons c cs)
  then show ?case
    by (cases k) (auto simp flip: make_entry_fields(2) simp: calculate_hash_def)
qed simp

definition log_all :: "'j audit_env \<Rightarrow> 'j log_call list \<Rightarrow> 'j audit_logger \<Rightarrow> 'j audit_logger" where
  "log_all env cs l = fold (\<lambda>c l. fst (log_event env c l)) cs l"

lemma log_all_state:
  assumes "aud_entries l = []" "aud_id l = i" "aud_last l = p" "aud_max l = mx"
  shows "aud_entries (log_all env cs l) = drop (length cs - mx) (chain env i p cs) \<and>
    aud_id (log_all env cs l) = i + of_nat (length cs) \<and>
    aud_last (log_all env cs l) = (if cs = [] then p else ae_hash (last (chain env i p cs))) \<and>
    aud_max (log_all env cs l) = mx"
proof (induction cs rule: rev_induct)
  case (snoc c cs)
  have "log_all env (cs @ [c]) l = fst (log_event env c (log_all env cs l))"
    by (simp add: log_all_def)
  then show ?case
    using snoc.IH
    by (cases "length cs < mx")
      (simp_all add: log_event_def log_append_def Let_def trim_front_drop chain_snoc algebra_simps
        Suc_diff_le)
qed (use assms in \<open>simp add: log_all_def\<close>)

lemma log_all_new:
  "aud_entries (log_all env cs (logger_new env mx None)) = drop (length cs - mx) (chain env 0 [] cs)"
  using log_all_state [of "logger_new env mx None" 0 "[]" mx env cs] by (simp add: logger_new_def)

text \<open>What the hash of an entry covers: everything before \<open>previous_hash\<close>, and that hash.\<close>

definition entry_body :: "'j audit_env \<Rightarrow> 'j audit_entry \<Rightarrow> bytes" where
  "entry_body env e = be64 (ae_id e) @ str_bytes (rfc3339 env (ae_timestamp e))
     @ str_bytes (ev_json env (ae_event e)) @ str_bytes (ae_actor e @ ae_resource e)"

lemma calculate_hash_body:
  "calculate_hash env e = digest env (entry_body env e @ str_bytes (ae_previous e))"
  by (simp add: calculate_hash_def entry_body_def)

lemma verify_snoc:
  "verify_from env p (es @ [e]) \<longleftrightarrow> verify_from env p es \<and>
     ae_previous e = (if es = [] then p else ae_hash (last es)) \<and> calculate_hash env e = ae_hash e"
  by (induction es arbitrary: p) auto

lemma verify_take: "verify_from env p es \<Longrightarrow> verify_from env p (take n es)"
  by (induction env p es arbitrary: n rule: verify_from.induct)
    (auto simp: take_Cons' split: if_splits)

lemma verify_update:
  "verify_from env p es \<Longrightarrow> i < length es \<Longrightarrow> ae_previous e = ae_previous (es ! i) \<Longrightarrow>
     ae_hash e = ae_hash (es ! i) \<Longrightarrow> entry_body env e = entry_body env (es ! i) \<Longrightarrow>
     verify_from env p (es[i := e])"
proof (induction env p es arbitrary: i rule: verify_from.induct)
  case (2 env expected x es)
  then show ?case
    by (cases i) (auto simp: calculate_hash_body split: if_splits)
qed simp

section \<open>What the audit log promises\<close>

text \<open>The integrity check accepts an untouched log exactly as long as no entry has been
  trimmed: after any sequence of calls on a fresh logger the check answers true when all entries
  fit in memory (or none is kept), and false as soon as the first one has been dropped, although
  nobody tampered with the log.  SHA-256 digests are assumed to be nonempty strings.\<close>

theorem audit_verifies_until_trimmed:
  assumes "\<And>d. digest env d \<noteq> []"
  shows "verify_integrity env (log_all env cs (logger_new env mx None)) = Ok (length cs \<le> mx \<or> mx = 0)"
proof (cases "length cs \<le> mx \<or> mx = 0")
  case True
  then show ?thesis by (auto simp: verify_integrity_def log_all_new verify_chain)
next
  case False
  let ?k = "length cs - mx"
  have k: "?k < length cs" "?k \<noteq> 0" using False by auto
  then obtain d where "ae_previous (chain env 0 [] cs ! ?k) = digest env d"
    using chain_previous [of ?k cs env 0 "[]"] chain_hash [of "?k - 1" cs env 0 "[]"]
    by (metis less_imp_diff_less)
  then have "ae_previous (hd (drop ?k (chain env 0 [] cs))) \<noteq> []"
    using assms k by (simp add: hd_drop_conv_nth)
  then show ?thesis
    using False k verify_from_wrong_start [of "drop ?k (chain env 0 [] cs)" "[]" env]
    by (simp add: verify_integrity_def log_all_new)
qed

definition demo_audit :: "unit audit_env" where
  "demo_audit = \<lparr>ev_json = (\<lambda>e. case e of Logout \<Rightarrow> ''Logout'' | _ \<Rightarrow> ''other''), rfc3339 = (\<lambda>t. ''now''),
     entry_json = (\<lambda>e. Ok (ae_hash e)), entry_of_json = (\<lambda>s. None),
     digest = (\<lambda>d. replicate 63 (CHR ''0'') @ [char_of (foldr (\<lambda>b a. unat b + 7 * a) d 0)]),
     file_fault = (\<lambda>s. None)\<rparr>"

definition demo_call :: "audit_event \<Rightarrow> unit log_call" where
  "demo_call e = \<lparr>lc_event = e, lc_actor = ''u'', lc_resource = ''s'', lc_metadata = None, lc_now = 0\<rparr>"

lemma audit_verifies_until_trimmed_witness:
  "verify_integrity demo_audit (log_all demo_audit [demo_call Logout, demo_call StateDeleted]
      (logger_new demo_audit 2 None)) = Ok True \<and>
   verify_integrity demo_audit (log_all demo_audit [demo_call Logout, demo_call StateDeleted]
      (logger_new demo_audit 1 None)) = Ok False"
  using audit_verifies_until_trimmed [of demo_audit] by (simp add: demo_audit_def)



text \<open>Three kinds of edits pass the check: changing the metadata of an entry, moving
  characters between its actor and its resource, and cutting off the end of the log.\<close>

theorem audit_undetected_edits:
  assumes "verify_from env [] es" "i < length es"
    and "actor @ resource = ae_actor (es ! i) @ ae_resource (es ! i)"
  shows "verify_from env []
    (take n (es[i := (es ! i)\<lparr>ae_actor := actor, ae_resource := resource, ae_metadata := m\<rparr>]))"
  by (rule verify_take, rule verify_update) (use assms in \<open>simp_all add: entry_body_def\<close>)

lemma audit_undetected_edits_witness:
  "verify_from demo_audit [] (take 1 ((chain demo_audit 0 [] [demo_call Logout])
     [0 := (chain demo_audit 0 [] [demo_call Logout] ! 0)
        \<lparr>ae_actor := ''us'', ae_resource := [], ae_metadata := Some ()\<rparr>]))"
  by (rule audit_undetected_edits [OF verify_chain])
    (simp_all add: make_entry_def demo_call_def Let_def)

text \<open>Concurrent calls break the chain: when two tasks read the last hash before either of
  them appends, both calls succeed and the integrity check answers false from then on (unless
  the digest of the first new entry happens to equal the hash both have read).\<close>

theorem audit_race_breaks_chain:
  assumes "t \<noteq> t'" "length (aud_entries (aw_logger w)) + 2 \<le> aud_max (aw_logger w)"
    and "ae_hash (make_entry env (aud_id (aw_logger w) + 1) (aud_last (aw_logger w)) c)
      \<noteq> aud_last (aw_logger w)"
  shows "verify_integrity env (aw_logger
    (fold (audit_step env) [ReadLast t, ReadLast t', Append t c, Append t' c'] w)) = Ok False"
proof -
  let ?l = "aw_logger w"
  let ?e = "make_entry env (aud_id ?l + 1) (aud_last ?l) c"
  let ?f = "make_entry env (aud_id ?l + 1 + 1) (aud_last ?l) c'"
  have "aud_entries (aw_logger (fold (audit_step env) [ReadLast t, ReadLast t', Append t c, Append t' c'] w))
      = (aud_entries ?l @ [?e]) @ [?f]"
    using assms(1,2) by (simp add: log_append_def Let_def trim_front_drop)
  moreover have "\<not> verify_from env [] ((aud_entries ?l @ [?e]) @ [?f])"
    unfolding verify_snoc using assms(3) by auto
  ultimately show ?thesis by (simp add: verify_integrity_def)
qed

lemma audit_race_breaks_chain_witness:
  "verify_integrity demo_audit (aw_logger
    (fold (audit_step demo_audit)
      [ReadLast 1, ReadLast 2, Append 1 (demo_call Logout), Append 2 (demo_call Logout)]
      \<lparr>aw_logger = logger_new demo_audit 10 None, aw_seen = (\<lambda>_. [])\<rparr>)) = Ok False"
  by (rule audit_race_breaks_chain)
    (simp_all add: logger_new_def calculate_hash_def demo_audit_def flip: make_entry_fields(2))

end
