(* ===== verification/Versioning.thy ===== *)
theory Versioning
  imports Model
begin

text \<open>
  \<^verbatim>\<open>src/src/state_versioning.rs\<close>: the version control of states.  The walk to the ancestors is a
  loop that need not end, so it is a partial function with value \<open>None\<close> where the program does
  not return; the walk to the descendants always ends.  Fresh UUIDs and the clock are arguments.
\<close>

record history_entry =
  he_state :: state_id
  he_parent :: "state_id option"
  he_timestamp :: datetime
  he_message :: string
  he_author :: string
  he_tags :: "string list"

record state_history =
  sh_state :: state_id
  sh_entries :: "history_entry list"
  sh_children :: "state_id list"

datatype version_error =
    BranchExists string
  | BranchNotFound string
  | TagExists string
  | TagNotFound string
  | VStateNotFound string
  | VIoError string

record version_control =
  vc_history :: "(state_id, state_history) hmap"
  vc_branches :: "(string, state_id) hmap"
  vc_tags :: "(string, state_id) hmap"

record version_stats =
  vs_total_states :: nat
  vs_total_branches :: nat
  vs_total_tags :: nat
  vs_oldest :: "datetime option"
  vs_newest :: "datetime option"

definition vc_new :: version_control where
  "vc_new = \<lparr>vc_history = [], vc_branches = [], vc_tags = []\<rparr>"

definition history_new :: "state_id \<Rightarrow> state_history" where
  "history_new i = \<lparr>sh_state = i, sh_entries = [], sh_children = []\<rparr>"

definition record_state :: "datetime \<Rightarrow> state_id \<Rightarrow> state_id option \<Rightarrow> string \<Rightarrow> string \<Rightarrow>
    version_control \<Rightarrow> version_control \<times> (version_error, unit) result" where
  "record_state now i parent message author vc =
     (let entry = \<lparr>he_state = i, he_parent = parent, he_timestamp = now, he_message = message,
                   he_author = author, he_tags = []\<rparr>;
          h = hm_entry i (history_new i) (\<lambda>sh. sh\<lparr>sh_entries := sh_entries sh @ [entry]\<rparr>)
                (vc_history vc);
          h = (case parent of
                 None \<Rightarrow> h
               | Some p \<Rightarrow> hm_modify p (\<lambda>sh. sh\<lparr>sh_children := sh_children sh @ [i]\<rparr>) h)
      in (vc\<lparr>vc_history := h\<rparr>, Ok ()))"

definition create_branch :: "datetime \<Rightarrow> string \<Rightarrow> state_id \<Rightarrow> version_control \<Rightarrow>
    version_control \<times> (version_error, unit) result" where
  "create_branch now name i vc =
     (if hm_contains (vc_branches vc) name then (vc, Err (BranchExists name))
      else record_state now i None (''Branch: '' @ name) ''system''
             (vc\<lparr>vc_branches := hm_insert name i (vc_branches vc)\<rparr>))"

definition get_branch :: "string \<Rightarrow> version_control \<Rightarrow> state_id option" where
  "get_branch name vc = hm_get (vc_branches vc) name"

definition list_branches :: "version_control \<Rightarrow> string list" where
  "list_branches vc = hm_keys (vc_branches vc)"

definition delete_branch ::
  "string \<Rightarrow> version_control \<Rightarrow> version_control \<times> (version_error, unit) result" where
  "delete_branch name vc =
     (vc\<lparr>vc_branches := hm_remove name (vc_branches vc)\<rparr>,
      if hm_get (vc_branches vc) name = None then Err (BranchNotFound name) else Ok ())"

definition create_tag ::
  "string \<Rightarrow> state_id \<Rightarrow> version_control \<Rightarrow> version_control \<times> (version_error, unit) result" where
  "create_tag name i vc =
     (if hm_contains (vc_tags vc) name then (vc, Err (TagExists name))
      else (vc\<lparr>vc_tags := hm_insert name i (vc_tags vc)\<rparr>, Ok ()))"

definition get_tag :: "string \<Rightarrow> version_control \<Rightarrow> state_id option" where
  "get_tag name vc = hm_get (vc_tags vc) name"

definition list_tags :: "version_control \<Rightarrow> string list" where
  "list_tags vc = hm_keys (vc_tags vc)"

definition delete_tag ::
  "string \<Rightarrow> version_control \<Rightarrow> version_control \<times> (version_error, unit) result" where
  "delete_tag name vc =
     (vc\<lparr>vc_tags := hm_remove name (vc_tags vc)\<rparr>,
      if hm_get (vc_tags vc) name = None then Err (TagNotFound name) else Ok ())"

definition get_history :: "state_id \<Rightarrow> version_control \<Rightarrow> state_history option" where
  "get_history i vc = hm_get (vc_history vc) i"

section \<open>Ancestry\<close>

text \<open>The parent named by the first entry of a state's history, \<^verbatim>\<open>entries.first()\<close>.\<close>

definition first_parent :: "state_history \<Rightarrow> state_id option" where
  "first_parent sh = (case sh_entries sh of [] \<Rightarrow> None | e # es \<Rightarrow> he_parent e)"

partial_function (option) ancestry_loop :: "(state_id, state_history) hmap \<Rightarrow> state_id option \<Rightarrow>
    state_id list \<Rightarrow> state_id list option" where
  "ancestry_loop h current acc =
     (case current of
        None \<Rightarrow> Some acc
      | Some i \<Rightarrow>
          (case hm_get h i of
             None \<Rightarrow> Some acc
           | Some sh \<Rightarrow> ancestry_loop h (first_parent sh) (acc @ [i])))"

definition get_ancestry :: "state_id \<Rightarrow> version_control \<Rightarrow> state_id list option" where
  "get_ancestry i vc = ancestry_loop (vc_history vc) (Some i) []"

definition find_common_ancestor ::
  "state_id \<Rightarrow> state_id \<Rightarrow> version_control \<Rightarrow> state_id option option" where
  "find_common_ancestor a b vc =
     (case get_ancestry a vc of
        None \<Rightarrow> None
      | Some as \<Rightarrow>
          (case get_ancestry b vc of
             None \<Rightarrow> None
           | Some bs \<Rightarrow> Some (List.find (\<lambda>i. i \<in> set bs) as)))"

section \<open>Descendants\<close>

text \<open>
  The inner loop over the children of one state: those not yet found are appended to both
  lists.  The stack \<^verbatim>\<open>to_visit\<close> is kept with its top first.
\<close>

fun visit_children :: "state_id list \<Rightarrow> state_id list \<Rightarrow> state_id list \<Rightarrow> state_id list \<times> state_id list" where
  "visit_children [] found stack = (found, stack)"
| "visit_children (c # cs) found stack =
     (if c \<in> set found then visit_children cs found stack
      else visit_children cs (found @ [c]) (c # stack))"

definition children_of :: "(state_id, state_history) hmap \<Rightarrow> state_id \<Rightarrow> state_id list" where
  "children_of h i = (case hm_get h i of None \<Rightarrow> [] | Some sh \<Rightarrow> sh_children sh)"

definition all_children :: "(state_id, state_history) hmap \<Rightarrow> state_id set" where
  "all_children h = set (concat (map sh_children (hm_values h)))"

lemma children_of_all: "set (children_of h i) \<subseteq> all_children h"
proof (cases "hm_get h i")
  case (Some sh)
  then have "sh \<in> set (hm_values h)" by (force simp: hm_values_def dest: hm_get_Some_in)
  then show ?thesis by (auto simp: children_of_def all_children_def Some)
qed (simp add: children_of_def)

lemma visit_children_spec:
  "visit_children cs found stack = (found', stack') \<Longrightarrow>
     \<exists>ns. set ns = set cs - set found \<and> distinct ns \<and> found' = found @ ns \<and> stack' = rev ns @ stack"
proof (induction cs found stack arbitrary: found' stack' rule: visit_children.induct)
  case (2 c cs found stack)
  show ?case
  proof (cases "c \<in> set found")
    case True
    then show ?thesis using 2 by auto
  next
    case False
    obtain ns where "set ns = set cs - set (found @ [c])" "distinct ns"
      "found' = (found @ [c]) @ ns" "stack' = rev ns @ c # stack"
      using 2(2) [OF False] 2(3) False by auto
    then show ?thesis using False by (intro exI [of _ "c # ns"]) auto
  qed
qed simp

function descend_loop :: "(state_id, state_history) hmap \<Rightarrow> state_id list \<Rightarrow> state_id list \<Rightarrow> state_id list" where
  "descend_loop h found [] = found"
| "descend_loop h found (i # stack) =
     (case visit_children (children_of h i) found stack of
        (found', stack') \<Rightarrow> descend_loop h found' stack')"
  by pat_completeness auto
termination
proof (relation "measures [\<lambda>(h, found, stack). card (all_children h - set found),
    \<lambda>(h, found, stack). length stack]", goal_cases)
  case (2 h found i stack found' stack')
  then obtain ns where ns: "set ns = set (children_of h i) - set found" "distinct ns"
    "found' = found @ ns" "stack' = rev ns @ stack"
    using visit_children_spec by metis
  show ?case
  proof (cases "ns = []")
    case False
    then obtain n where n: "n \<in> set ns" by (cases ns) auto
    have fin: "finite (all_children h)" by (simp add: all_children_def)
    have "all_children h - set found' \<subset> all_children h - set found"
      using n ns children_of_all [of h i] by auto
    then show ?thesis using fin by (simp add: psubset_card_mono)
  qed (use ns in simp)
qed simp

definition get_descendants :: "state_id \<Rightarrow> version_control \<Rightarrow> state_id list" where
  "get_descendants i vc = descend_loop (vc_history vc) [] [i]"

section \<open>Rollback and statistics\<close>

definition rollback :: "datetime \<Rightarrow> uuid \<Rightarrow> state_id \<Rightarrow> version_control \<Rightarrow>
    version_control \<times> (version_error, state_id) result" where
  "rollback now fresh to vc =
     (if \<not> hm_contains (vc_history vc) to then (vc, Err (VStateNotFound (sid_str to)))
      else (fst (record_state now (StateId fresh) (Some to) ''Rollback'' ''system'' vc),
            Ok (StateId fresh)))"

definition version_get_stats :: "version_control \<Rightarrow> version_stats" where
  "version_get_stats vc =
     (let ts = map he_timestamp (concat (map sh_entries (hm_values (vc_history vc)))) in
      \<lparr>vs_total_states = sum_list (map (\<lambda>h. length (sh_entries h)) (hm_values (vc_history vc))),
       vs_total_branches = hm_len (vc_branches vc), vs_total_tags = hm_len (vc_tags vc),
       vs_oldest = (if ts = [] then None else Some (Min (set ts))),
       vs_newest = (if ts = [] then None else Some (Max (set ts)))\<rparr>)"

section \<open>Runs of the version control\<close>

datatype vc_op =
    VRecord datetime state_id "state_id option" string string
  | VBranch datetime string state_id
  | VTag string state_id
  | VDeleteBranch string
  | VDeleteTag string
  | VRollback datetime uuid state_id

fun vc_step :: "vc_op \<Rightarrow> version_control \<Rightarrow> version_control" where
  "vc_step (VRecord now i p m a) vc = fst (record_state now i p m a vc)"
| "vc_step (VBranch now name i) vc = fst (create_branch now name i vc)"
| "vc_step (VTag name i) vc = fst (create_tag name i vc)"
| "vc_step (VDeleteBranch name) vc = fst (delete_branch name vc)"
| "vc_step (VDeleteTag name) vc = fst (delete_tag name vc)"
| "vc_step (VRollback now fresh to) vc = fst (rollback now fresh to vc)"

text \<open>The first record of a state names a known parent, and the UUID of a rollback is fresh.\<close>

fun op_grows :: "version_control \<Rightarrow> vc_op \<Rightarrow> bool" where
  "op_grows vc (VRecord now i (Some p) m a) \<longleftrightarrow>
     hm_get (vc_history vc) i \<noteq> None \<or> hm_get (vc_history vc) p \<noteq> None"
| "op_grows vc (VRollback now fresh to) \<longleftrightarrow> hm_get (vc_history vc) (StateId fresh) = None"
| "op_grows vc _ \<longleftrightarrow> True"

fun grows :: "version_control \<Rightarrow> vc_op list \<Rightarrow> bool" where
  "grows vc [] \<longleftrightarrow> True"
| "grows vc (op # ops) \<longleftrightarrow> op_grows vc op \<and> grows (vc_step op vc) ops"

definition ranked :: "(state_id, state_history) hmap \<Rightarrow> (state_id \<Rightarrow> nat) \<Rightarrow> bool" where
  "ranked h rank \<longleftrightarrow>
     (\<forall>i sh p. hm_get h i = Some sh \<longrightarrow> first_parent sh = Some p \<longrightarrow>
        hm_get h p \<noteq> None \<and> rank p < rank i)"

lemma first_parent_update [simp]:
  "first_parent (sh\<lparr>sh_children := cs\<rparr>) = first_parent sh"
  "first_parent (sh\<lparr>sh_entries := sh_entries sh @ [e]\<rparr>) =
     (if sh_entries sh = [] then he_parent e else first_parent sh)"
  by (simp_all add: first_parent_def split: list.splits)

lemma first_parent_single [simp]:
  "first_parent \<lparr>sh_state = i, sh_entries = e # es, sh_children = cs\<rparr> = he_parent e"
  by (simp add: first_parent_def)

definition entries_ok :: "(state_id, state_history) hmap \<Rightarrow> bool" where
  "entries_ok h \<longleftrightarrow> (\<forall>i sh. hm_get h i = Some sh \<longrightarrow> sh_entries sh \<noteq> [])"

lemma record_history:
  fixes now :: datetime
  assumes "entries_ok (vc_history vc)" "vc' = fst (record_state now i p m a vc)"
  shows "entries_ok (vc_history vc') \<and>
    (\<forall>j. map_option first_parent (hm_get (vc_history vc') j) =
      (if j = i \<and> hm_get (vc_history vc) i = None then Some p
       else map_option first_parent (hm_get (vc_history vc) j)))"
proof -
  let ?e = "\<lparr>he_state = i, he_parent = p, he_timestamp = now, he_message = m, he_author = a, he_tags = []\<rparr>"
  let ?h = "hm_entry i (history_new i) (\<lambda>sh. sh\<lparr>sh_entries := sh_entries sh @ [?e]\<rparr>) (vc_history vc)"
  have h: "map_option first_parent (hm_get ?h j) =
      (if j = i \<and> hm_get (vc_history vc) i = None then Some p
       else map_option first_parent (hm_get (vc_history vc) j))" for j
    using assms(1) by (auto simp: entries_ok_def history_new_def split: option.splits)
  have e: "entries_ok ?h"
    using assms(1) by (auto simp: entries_ok_def split: if_splits)
  show ?thesis
  proof (cases p)
    case None
    then show ?thesis using h e assms(2) by (simp add: record_state_def Let_def)
  next
    case (Some q)
    let ?g = "hm_modify q (\<lambda>sh. sh\<lparr>sh_children := sh_children sh @ [i]\<rparr>) ?h"
    have "vc_history vc' = ?g" using Some assms(2) by (simp add: record_state_def Let_def)
    moreover have "map_option first_parent (hm_get ?g j) = map_option first_parent (hm_get ?h j)" for j
      unfolding hm_get_modify by (auto simp: option.map_comp comp_def simp del: hm_get_entry)
    moreover have "entries_ok ?g"
      using e unfolding entries_ok_def hm_get_modify
      by (auto simp del: hm_get_entry split: if_splits)
    ultimately show ?thesis using h by simp
  qed
qed

lemma record_ranked:
  assumes "entries_ok (vc_history vc)" "\<exists>rank. ranked (vc_history vc) rank"
    and "\<And>q. p = Some q \<Longrightarrow> hm_get (vc_history vc) i \<noteq> None \<or> hm_get (vc_history vc) q \<noteq> None"
    and "vc' = fst (record_state now i p m a vc)"
  shows "entries_ok (vc_history vc') \<and> (\<exists>rank. ranked (vc_history vc') rank)"
proof -
  note r = record_history [OF assms(1,4)]
  obtain rank where rank: "ranked (vc_history vc) rank" using assms(2) by blast
  have parent: "\<exists>sh. hm_get (vc_history vc') j = Some sh \<and> first_parent sh = q \<Longrightarrow>
      (if j = i \<and> hm_get (vc_history vc) i = None then p = q
       else \<exists>sh. hm_get (vc_history vc) j = Some sh \<and> first_parent sh = q)" for j q
    using conjunct2 [OF r, THEN spec, of j]
    by (cases "hm_get (vc_history vc) j") (auto split: if_splits)
  have known: "hm_get (vc_history vc') j = None \<longleftrightarrow> hm_get (vc_history vc) j = None \<and> j \<noteq> i" for j
    using conjunct2 [OF r, THEN spec, of j]
    by (cases "hm_get (vc_history vc') j"; cases "hm_get (vc_history vc) j") (auto split: if_splits)
  define rank' where "rank' = (case p of
    Some q \<Rightarrow> if hm_get (vc_history vc) i = None then rank(i := Suc (rank q)) else rank | None \<Rightarrow> rank)"
  have "ranked (vc_history vc') rank'"
    unfolding ranked_def
  proof (intro allI impI)
    fix j sh q assume j: "hm_get (vc_history vc') j = Some sh" "first_parent sh = Some q"
    show "hm_get (vc_history vc') q \<noteq> None \<and> rank' q < rank' j"
    proof (cases "j = i \<and> hm_get (vc_history vc) i = None")
      case True
      then have "p = Some q" using parent [of j "Some q"] j by simp
      then have "hm_get (vc_history vc) q \<noteq> None" "q \<noteq> i" using assms(3) True by auto
      then show ?thesis using True \<open>p = Some q\<close> known by (simp add: rank'_def)
    next
      case False
      then obtain sh' where "hm_get (vc_history vc) j = Some sh'" "first_parent sh' = Some q"
        using parent [of j "Some q"] j by auto
      then have q: "hm_get (vc_history vc) q \<noteq> None" "rank q < rank j"
        using rank by (auto simp: ranked_def)
      have "rank' x = rank x" if "hm_get (vc_history vc) x \<noteq> None" for x
        using that by (cases p) (auto simp: rank'_def)
      then show ?thesis using q known \<open>hm_get (vc_history vc) j = Some sh'\<close> by simp
    qed
  qed
  then show ?thesis using r by blast
qed

lemma vc_step_ranked:
  assumes "entries_ok (vc_history vc)" "\<exists>rank. ranked (vc_history vc) rank" "op_grows vc op"
  shows "entries_ok (vc_history (vc_step op vc)) \<and> (\<exists>rank. ranked (vc_history (vc_step op vc)) rank)"
proof (cases op)
  case (VRecord now i p m a)
  then show ?thesis
    using record_ranked [OF assms(1,2) _ refl, of p i now m a] assms(3) by (cases p) auto
next
  case (VBranch now name i)
  let ?vc = "vc\<lparr>vc_branches := hm_insert name i (vc_branches vc)\<rparr>"
  show ?thesis
    using record_ranked [of ?vc None i _ now] VBranch assms
    by (cases "hm_contains (vc_branches vc) name") (simp_all add: create_branch_def)
next
  case (VRollback now fresh to)
  then show ?thesis
    using record_ranked [OF assms(1,2) _ refl, of "Some to" "StateId fresh" now] assms
    by (auto simp: rollback_def hm_contains_def)
qed (use assms in \<open>simp_all add: create_tag_def delete_branch_def delete_tag_def\<close>)

lemma grows_ranked:
  "entries_ok (vc_history vc) \<Longrightarrow> \<exists>rank. ranked (vc_history vc) rank \<Longrightarrow> grows vc ops \<Longrightarrow>
     \<exists>rank. ranked (vc_history (fold vc_step ops vc)) rank"
proof (induction ops arbitrary: vc)
  case (Cons op ops)
  then show ?case using vc_step_ranked [of vc op] by auto
qed simp

subsection \<open>Lineages\<close>

fun lineage :: "(state_id, state_history) hmap \<Rightarrow> state_id option \<Rightarrow> state_id list \<Rightarrow> bool" where
  "lineage h c [] \<longleftrightarrow> (case c of None \<Rightarrow> True | Some i \<Rightarrow> hm_get h i = None)"
| "lineage h c (x # xs) \<longleftrightarrow>
     c = Some x \<and> (\<exists>sh. hm_get h x = Some sh \<and> lineage h (first_parent sh) xs)"

lemma ancestry_loop_ranked:
  assumes "ranked h rank"
  shows "\<exists>xs. (\<forall>acc. ancestry_loop h (Some i) acc = Some (acc @ xs)) \<and> lineage h (Some i) xs \<and>
    distinct xs \<and> (\<forall>x\<in>set xs. rank x \<le> rank i)"
proof (induction "rank i" arbitrary: i rule: less_induct)
  case less
  show ?case
  proof (cases "hm_get h i")
    case None
    then show ?thesis by (intro exI [of _ "[]"]) (simp add: ancestry_loop.simps)
  next
    case (Some sh)
    show ?thesis
    proof (cases "first_parent sh")
      case None
      then show ?thesis
        using Some by (intro exI [of _ "[i]"]) (simp add: ancestry_loop.simps)
    next
      case (Some p)
      then have lt: "rank p < rank i" using assms \<open>hm_get h i = Some sh\<close> by (auto simp: ranked_def)
      obtain xs where xs: "\<forall>acc. ancestry_loop h (Some p) acc = Some (acc @ xs)"
        "lineage h (Some p) xs" "distinct xs" "\<forall>x\<in>set xs. rank x \<le> rank p"
        using less [OF lt] by blast
      have "ancestry_loop h (Some i) acc = Some (acc @ i # xs)" for acc
        using xs(1) Some \<open>hm_get h i = Some sh\<close> by (subst ancestry_loop.simps) simp
      moreover have "i \<notin> set xs" using xs(4) lt by auto
      ultimately show ?thesis
        using xs lt Some \<open>hm_get h i = Some sh\<close> by (intro exI [of _ "i # xs"]) auto
    qed
  qed
qed

lemma get_ancestry_grows:
  assumes "grows vc_new ops" "vc = fold vc_step ops vc_new"
  shows "\<exists>as. get_ancestry i vc = Some as \<and> lineage (vc_history vc) (Some i) as \<and> distinct as"
proof -
  have "\<exists>rank. ranked (vc_history vc) rank"
    using grows_ranked [of vc_new ops] assms by (simp add: vc_new_def entries_ok_def ranked_def)
  then obtain rank where "ranked (vc_history vc) rank" by blast
  from ancestry_loop_ranked [OF this, of i] show ?thesis by (auto simp: get_ancestry_def)
qed

lemma find_Some_split: "List.find P xs = Some x \<Longrightarrow> \<exists>us vs. xs = us @ x # vs \<and> P x \<and> (\<forall>u\<in>set us. \<not> P u)"
proof (induction xs)
  case (Cons y ys)
  show ?case
  proof (cases "P y")
    case False
    then obtain us vs where "ys = us @ x # vs" "P x" "\<forall>u\<in>set us. \<not> P u" using Cons by auto
    then show ?thesis using False by (intro exI [of _ "y # us"] exI [of _ vs]) auto
  qed (use Cons in \<open>auto intro: exI [of _ "[]"]\<close>)
qed simp

section \<open>What the version control promises\<close>

text \<open>C33. Ancestry and common ancestors are right on every history that grows by recording new
  states under known parents, by branches, tags and rollbacks: both walks end, each is the chain
  of first parents without repetition, and the result is the nearest ancestor of the first state
  that the second one shares, or none when they share none.\<close>

theorem common_ancestor_nearest:
  assumes "grows vc_new ops" "vc = fold vc_step ops vc_new"
  shows "\<exists>as bs r. get_ancestry a vc = Some as \<and> get_ancestry b vc = Some bs \<and>
    lineage (vc_history vc) (Some a) as \<and> lineage (vc_history vc) (Some b) bs \<and>
    distinct as \<and> find_common_ancestor a b vc = Some r \<and>
    (case r of None \<Rightarrow> set as \<inter> set bs = {}
     | Some c \<Rightarrow> c \<in> set bs \<and> (\<exists>us vs. as = us @ c # vs \<and> set us \<inter> set bs = {}))"
proof -
  obtain as bs where as: "get_ancestry a vc = Some as" "lineage (vc_history vc) (Some a) as" "distinct as"
    and bs: "get_ancestry b vc = Some bs" "lineage (vc_history vc) (Some b) bs"
    using get_ancestry_grows [OF assms] by meson
  let ?r = "List.find (\<lambda>i. i \<in> set bs) as"
  have "case ?r of None \<Rightarrow> set as \<inter> set bs = {}
      | Some c \<Rightarrow> c \<in> set bs \<and> (\<exists>us vs. as = us @ c # vs \<and> set us \<inter> set bs = {})"
  proof (cases ?r)
    case None
    then have "set as \<inter> set bs = {}" by (auto simp: find_None_iff)
    then show ?thesis using None by simp
  next
    case (Some c)
    from find_Some_split [OF this] show ?thesis using Some by auto
  qed
  moreover have "find_common_ancestor a b vc = Some ?r"
    using as bs by (simp add: find_common_ancestor_def)
  ultimately show ?thesis using as bs by blast
qed

definition demo_history :: "vc_op list" where
  "demo_history =
     [VRecord 1 (StateId ''base'') None ''init'' ''u'', VBranch 2 ''main'' (StateId ''base''),
      VRecord 3 (StateId ''left'') (Some (StateId ''base'')) ''l'' ''u'',
      VRollback 4 ''right'' (StateId ''base'')]"

lemma common_ancestor_nearest_witness:
  "\<exists>as bs r. get_ancestry (StateId ''left'') (fold vc_step demo_history vc_new) = Some as \<and>
     get_ancestry (StateId ''right'') (fold vc_step demo_history vc_new) = Some bs \<and>
     lineage (vc_history (fold vc_step demo_history vc_new)) (Some (StateId ''left'')) as \<and>
     lineage (vc_history (fold vc_step demo_history vc_new)) (Some (StateId ''right'')) bs \<and>
     distinct as \<and>
     find_common_ancestor (StateId ''left'') (StateId ''right'') (fold vc_step demo_history vc_new) = Some r \<and>
     (case r of None \<Rightarrow> set as \<inter> set bs = {}
      | Some c \<Rightarrow> c \<in> set bs \<and> (\<exists>us vs. as = us @ c # vs \<and> set us \<inter> set bs = {}))"
  by (rule common_ancestor_nearest [of demo_history])
    (simp_all add: demo_history_def vc_new_def record_state_def create_branch_def Let_def
      hm_contains_def)

lemma ancestry_loop_cycle:
  assumes "ancestry_loop h c acc = Some r"
    and "\<forall>x\<in>C. \<exists>sh p. hm_get h x = Some sh \<and> first_parent sh = Some p \<and> p \<in> C"
  shows "c \<notin> Some ` C"
proof -
  have "(\<forall>x\<in>C. \<exists>sh p. hm_get h x = Some sh \<and> first_parent sh = Some p \<and> p \<in> C) \<longrightarrow> c \<notin> Some ` C"
  proof (rule ancestry_loop.raw_induct [OF _ assms(1)], intro impI notI)
    fix loop h' c acc r
    assume IH: "\<And>h c acc r. loop h c acc = Some r \<Longrightarrow>
        (\<forall>x\<in>C. \<exists>sh p. hm_get h x = Some sh \<and> first_parent sh = Some p \<and> p \<in> C) \<longrightarrow> c \<notin> Some ` C"
      and body: "(case c of None \<Rightarrow> Some acc
        | Some i \<Rightarrow> (case hm_get h' i of None \<Rightarrow> Some acc
           | Some sh \<Rightarrow> loop h' (first_parent sh) (acc @ [i]))) = Some r"
      and closed: "\<forall>x\<in>C. \<exists>sh p. hm_get h' x = Some sh \<and> first_parent sh = Some p \<and> p \<in> C"
      and "c \<in> Some ` C"
    then obtain x where x: "c = Some x" "x \<in> C" by blast
    then obtain sh p where p: "hm_get h' x = Some sh" "first_parent sh = Some p" "p \<in> C"
      using closed by blast
    then have "loop h' (Some p) (acc @ [x]) = Some r" using body x by simp
    from IH [OF this] closed p(3) show False by blast
  qed
  then show ?thesis using assms(2) by blast
qed

text \<open>The walk to the ancestors does not return on a history with a cycle of first parents:
  for every set of known states each of whose first parent is again in the set,
  \<open>get_ancestry\<close> of a state of the set runs forever (in the program, with a growing vector and
  the read lock held).  Nothing in \<open>record_state\<close> rejects such a history: a state recorded as its
  own parent is enough.\<close>

theorem ancestry_diverges_on_cycle:
  assumes "\<forall>x\<in>C. \<exists>sh p. hm_get (vc_history vc) x = Some sh \<and> first_parent sh = Some p \<and> p \<in> C"
    and "i \<in> C"
  shows "get_ancestry i vc = None"
proof (rule ccontr)
  assume "get_ancestry i vc \<noteq> None"
  then obtain r where "ancestry_loop (vc_history vc) (Some i) [] = Some r"
    by (auto simp: get_ancestry_def)
  from ancestry_loop_cycle [OF this assms(1)] assms(2) show False by blast
qed

lemma ancestry_diverges_on_cycle_witness:
  "get_ancestry (StateId ''a'')
     (fst (record_state 0 (StateId ''a'') (Some (StateId ''a'')) ''m'' ''u'' vc_new)) = None"
  by (rule ancestry_diverges_on_cycle [where C = "{StateId ''a''}"])
    (simp_all add: record_state_def vc_new_def history_new_def first_parent_def Let_def)

subsection \<open>Descendants\<close>

definition child_rel :: "version_control \<Rightarrow> (state_id \<times> state_id) set" where
  "child_rel vc = {(i, j). j \<in> set (children_of (vc_history vc) i)}"

lemma descend_loop_inv:
  assumes "distinct found" "set found \<subseteq> R" "set stack \<subseteq> insert s (set found)"
    and "\<forall>x\<in>insert s (set found) - set stack. set (children_of h x) \<subseteq> set found"
    and "\<forall>x\<in>insert s R. set (children_of h x) \<subseteq> R"
  shows "distinct (descend_loop h found stack) \<and> set (descend_loop h found stack) \<subseteq> R \<and>
    (\<forall>x\<in>insert s (set (descend_loop h found stack)).
       set (children_of h x) \<subseteq> set (descend_loop h found stack))"
  using assms
proof (induction h found stack rule: descend_loop.induct)
  case (2 h found i stack)
  obtain found' stack' where v: "visit_children (children_of h i) found stack = (found', stack')"
    by fastforce
  from visit_children_spec [OF this] obtain ns where
    ns: "set ns = set (children_of h i) - set found" "distinct ns" "found' = found @ ns"
      "stack' = rev ns @ stack"
    by blast
  have i: "i \<in> insert s (set found)" using 2(4) by auto
  have "set (children_of h i) \<subseteq> R" using i 2(3,6) by blast
  then have fR: "set found' \<subseteq> R" using ns(1,3) 2(3) by auto
  have closed: "\<forall>x\<in>insert s (set found') - set stack'. set (children_of h x) \<subseteq> set found'"
    using 2(5) ns by auto
  have "distinct found'" "set stack' \<subseteq> insert s (set found')"
    using ns 2(2,4) by auto
  from 2(1) [OF v [symmetric] this(1) fR this(2) closed 2(6)] show ?case by (simp add: v)
qed auto

lemma child_rel_closed:
  assumes "\<forall>x\<in>insert s A. set (children_of (vc_history vc) x) \<subseteq> A" "(s, y) \<in> (child_rel vc)\<^sup>+"
  shows "y \<in> A"
  using assms(2)
proof (induction rule: trancl_induct)
  case (base y)
  then show ?case using assms(1) by (auto simp: child_rel_def)
next
  case (step y z)
  then show ?case using assms(1) by (auto simp: child_rel_def)
qed

text \<open>The walk to the descendants ends on every history, cycles included, and returns without
  repetition exactly the states reachable over one or more child links.\<close>

theorem descendants_reachable:
  "distinct (get_descendants i vc) \<and> set (get_descendants i vc) = {j. (i, j) \<in> (child_rel vc)\<^sup>+}"
proof -
  let ?h = "vc_history vc" and ?R = "{j. (i, j) \<in> (child_rel vc)\<^sup>+}"
  have R: "\<forall>x\<in>insert i ?R. set (children_of ?h x) \<subseteq> ?R"
    by (auto simp: child_rel_def intro: trancl_into_trancl)
  from descend_loop_inv [of "[]" ?R "[i]" i ?h] R
  have d: "distinct (get_descendants i vc)" "set (get_descendants i vc) \<subseteq> ?R"
    "\<forall>x\<in>insert i (set (get_descendants i vc)). set (children_of ?h x) \<subseteq> set (get_descendants i vc)"
    by (simp_all add: get_descendants_def)
  show ?thesis using d(1,2) child_rel_closed [OF d(3)] by blast
qed

end
