(* ===== verification/Sharing.thy ===== *)
theory Sharing
  imports Model
begin

text \<open>
  \<^verbatim>\<open>src/src/state_sharing.rs\<close>: access grants on states, collaborative sessions and shareable
  links.  Times and durations are nanoseconds without bounds (chrono panics outside its range
  of years); the readings of the clock within one call count as one instant \<open>now\<close>, except in
  \<open>use_link\<close>, whose three readings are separate arguments.  Fresh UUIDs are arguments.
\<close>

datatype permission = Read | Execute | Fork | Admin

primrec perm_level :: "permission \<Rightarrow> nat" where
  "perm_level Read = 0"
| "perm_level Execute = 1"
| "perm_level Fork = 2"
| "perm_level Admin = 3"

instantiation permission :: linorder
begin

definition less_eq_permission :: "permission \<Rightarrow> permission \<Rightarrow> bool" where
  "p \<le> q \<longleftrightarrow> perm_level p \<le> perm_level q"

definition less_permission :: "permission \<Rightarrow> permission \<Rightarrow> bool" where
  "p < q \<longleftrightarrow> perm_level p < perm_level q"

instance
proof
  fix p q :: permission
  show "p \<le> q \<Longrightarrow> q \<le> p \<Longrightarrow> p = q"
    by (cases p; cases q) (simp_all add: less_eq_permission_def)
qed (auto simp: less_eq_permission_def less_permission_def)

end

definition can_read :: "permission \<Rightarrow> bool" where
  "can_read p \<longleftrightarrow> True"

definition can_execute :: "permission \<Rightarrow> bool" where
  "can_execute p \<longleftrightarrow> p = Execute \<or> p = Fork \<or> p = Admin"

definition can_fork :: "permission \<Rightarrow> bool" where
  "can_fork p \<longleftrightarrow> p = Fork \<or> p = Admin"

definition can_share :: "permission \<Rightarrow> bool" where
  "can_share p \<longleftrightarrow> p = Admin"

record access_grant =
  g_user :: string
  g_permission :: permission
  g_expires :: "datetime option"
  g_granted_by :: string
  g_granted_at :: datetime

definition grant_new :: "datetime \<Rightarrow> string \<Rightarrow> permission \<Rightarrow> string \<Rightarrow> access_grant" where
  "grant_new now user p by_user =
     \<lparr>g_user = user, g_permission = p, g_expires = None, g_granted_by = by_user, g_granted_at = now\<rparr>"

definition grant_expired :: "datetime \<Rightarrow> access_grant \<Rightarrow> bool" where
  "grant_expired now g = (case g_expires g of None \<Rightarrow> False | Some ex \<Rightarrow> now > ex)"

definition grant_valid :: "datetime \<Rightarrow> access_grant \<Rightarrow> bool" where
  "grant_valid now g \<longleftrightarrow> \<not> grant_expired now g"

datatype session_status = Active | Paused | Ended

record session =
  s_id :: string
  s_state :: state_id
  s_owner :: string
  s_participants :: "string list"
  s_created :: datetime
  s_last_activity :: datetime
  s_status :: session_status

datatype share_error =
    AccessNotFound string string
  | PermissionDenied string permission
  | SessionNotFound string
  | SessionInactive string
  | ShIoError string

record sharer =
  sh_grants :: "(state_id, access_grant list) hmap"
  sh_sessions :: "(string, session) hmap"
  sh_default :: permission

definition sharer_new :: sharer where
  "sharer_new = \<lparr>sh_grants = [], sh_sessions = [], sh_default = Read\<rparr>"

section \<open>Grants\<close>

definition grant_access :: "datetime \<Rightarrow> state_id \<Rightarrow> string \<Rightarrow> permission \<Rightarrow> string \<Rightarrow> int option \<Rightarrow>
    sharer \<Rightarrow> sharer \<times> (share_error, unit) result" where
  "grant_access now i user p by_user duration s =
     (let g = grant_new now user p by_user;
          g = (case duration of None \<Rightarrow> g | Some d \<Rightarrow> g\<lparr>g_expires := Some (now + d)\<rparr>)
      in (s\<lparr>sh_grants := hm_entry i [] (\<lambda>gs. gs @ [g]) (sh_grants s)\<rparr>, Ok ()))"

definition revoke_access ::
  "state_id \<Rightarrow> string \<Rightarrow> sharer \<Rightarrow> sharer \<times> (share_error, unit) result" where
  "revoke_access i user s =
     (case hm_get (sh_grants s) i of
        None \<Rightarrow> (s, Err (AccessNotFound (sid_str i) user))
      | Some gs \<Rightarrow>
          let kept = filter (\<lambda>g. g_user g \<noteq> user) gs in
          (s\<lparr>sh_grants := hm_insert i kept (sh_grants s)\<rparr>,
           if length gs - length kept > 0 then Ok ()
           else Err (AccessNotFound (sid_str i) user)))"

fun first_valid :: "datetime \<Rightarrow> string \<Rightarrow> access_grant list \<Rightarrow> permission option" where
  "first_valid now user [] = None"
| "first_valid now user (g # gs) =
     (if g_user g = user \<and> grant_valid now g then Some (g_permission g)
      else first_valid now user gs)"

definition get_permission :: "datetime \<Rightarrow> state_id \<Rightarrow> string \<Rightarrow> sharer \<Rightarrow> permission option" where
  "get_permission now i user s =
     (case hm_get (sh_grants s) i of None \<Rightarrow> None | Some gs \<Rightarrow> first_valid now user gs)"

definition check_permission :: "datetime \<Rightarrow> state_id \<Rightarrow> string \<Rightarrow> permission \<Rightarrow> sharer \<Rightarrow> bool" where
  "check_permission now i user required s =
     (case hm_get (sh_grants s) i of
        None \<Rightarrow> False
      | Some gs \<Rightarrow>
          (case first_valid now user gs of
             None \<Rightarrow> False
           | Some p \<Rightarrow> perm_level p \<ge> perm_level required))"

definition list_grantees :: "datetime \<Rightarrow> state_id \<Rightarrow> sharer \<Rightarrow> access_grant list" where
  "list_grantees now i s =
     (case hm_get (sh_grants s) i of None \<Rightarrow> [] | Some gs \<Rightarrow> filter (grant_valid now) gs)"

section \<open>Sessions\<close>

definition create_session :: "datetime \<Rightarrow> uuid \<Rightarrow> state_id \<Rightarrow> string \<Rightarrow> sharer \<Rightarrow>
    sharer \<times> (share_error, session) result" where
  "create_session now fresh i owner s =
     (let x = \<lparr>s_id = fresh, s_state = i, s_owner = owner, s_participants = [owner],
               s_created = now, s_last_activity = now, s_status = Active\<rparr>
      in (s\<lparr>sh_sessions := hm_insert fresh x (sh_sessions s)\<rparr>, Ok x))"

definition join_session :: "datetime \<Rightarrow> string \<Rightarrow> string \<Rightarrow> sharer \<Rightarrow>
    sharer \<times> (share_error, session) result" where
  "join_session now sid user s =
     (case hm_get (sh_sessions s) sid of
        None \<Rightarrow> (s, Err (SessionNotFound sid))
      | Some x \<Rightarrow>
          if s_status x \<noteq> Active then (s, Err (SessionInactive sid))
          else if \<not> check_permission now (s_state x) user Read s
          then (s, Err (PermissionDenied user Read))
          else
            let x' = x\<lparr>s_participants := push_new user (s_participants x), s_last_activity := now\<rparr>
            in (s\<lparr>sh_sessions := hm_insert sid x' (sh_sessions s)\<rparr>, Ok x'))"

definition leave_session ::
  "datetime \<Rightarrow> string \<Rightarrow> string \<Rightarrow> sharer \<Rightarrow> sharer \<times> (share_error, unit) result" where
  "leave_session now sid user s =
     (case hm_get (sh_sessions s) sid of
        None \<Rightarrow> (s, Err (SessionNotFound sid))
      | Some x \<Rightarrow>
          let x' = x\<lparr>s_participants := filter (\<lambda>p. p \<noteq> user) (s_participants x),
                     s_last_activity := now\<rparr>;
              x' = (if s_owner x = user then x'\<lparr>s_status := Ended\<rparr> else x')
          in (s\<lparr>sh_sessions := hm_insert sid x' (sh_sessions s)\<rparr>, Ok ()))"

definition get_session :: "string \<Rightarrow> sharer \<Rightarrow> session option" where
  "get_session sid s = hm_get (sh_sessions s) sid"

definition end_session ::
  "datetime \<Rightarrow> string \<Rightarrow> string \<Rightarrow> sharer \<Rightarrow> sharer \<times> (share_error, unit) result" where
  "end_session now sid user s =
     (case hm_get (sh_sessions s) sid of
        None \<Rightarrow> (s, Err (SessionNotFound sid))
      | Some x \<Rightarrow>
          if s_owner x \<noteq> user then (s, Err (PermissionDenied user Admin))
          else (s\<lparr>sh_sessions :=
                  hm_insert sid (x\<lparr>s_status := Ended, s_last_activity := now\<rparr>) (sh_sessions s)\<rparr>,
                Ok ()))"

definition get_active_sessions :: "state_id \<Rightarrow> sharer \<Rightarrow> session list" where
  "get_active_sessions i s =
     filter (\<lambda>x. s_state x = i \<and> s_status x = Active) (hm_values (sh_sessions s))"

section \<open>Cleanup\<close>

record cleanup_result =
  cr_expired_grants :: nat
  cr_ended_sessions :: nat

definition day_ns :: int where "day_ns = 24 * 3600 * 1000000000"

definition session_stale :: "datetime \<Rightarrow> session \<Rightarrow> bool" where
  "session_stale now x \<longleftrightarrow> s_status x = Ended \<and> s_last_activity x < now - day_ns"

definition cleanup_sharer :: "datetime \<Rightarrow> sharer \<Rightarrow> sharer \<times> cleanup_result" where
  "cleanup_sharer now s =
     (let grants = map (\<lambda>(i, gs). (i, filter (grant_valid now) gs)) (sh_grants s);
          sessions = hm_retain (\<lambda>k x. \<not> session_stale now x) (sh_sessions s)
      in (s\<lparr>sh_grants := grants, sh_sessions := sessions\<rparr>,
          \<lparr>cr_expired_grants =
             sum_list (map (\<lambda>(i, gs). length gs - length (filter (grant_valid now) gs)) (sh_grants s)),
           cr_ended_sessions = length (sh_sessions s) - length sessions\<rparr>))"

section \<open>Links\<close>

record link =
  l_token :: string
  l_state :: state_id
  l_permission :: permission
  l_expires :: datetime
  l_max_uses :: "u32 option"
  l_use_count :: u32
  l_created_by :: string

definition link_new :: "datetime \<Rightarrow> uuid \<Rightarrow> state_id \<Rightarrow> permission \<Rightarrow> string \<Rightarrow> int \<Rightarrow> link" where
  "link_new now fresh i p by_user expires_in =
     \<lparr>l_token = fresh, l_state = i, l_permission = p, l_expires = now + expires_in,
      l_max_uses = None, l_use_count = 0, l_created_by = by_user\<rparr>"

definition with_max_uses :: "u32 \<Rightarrow> link \<Rightarrow> link" where
  "with_max_uses n l = l\<lparr>l_max_uses := Some n\<rparr>"

definition link_valid :: "datetime \<Rightarrow> link \<Rightarrow> bool" where
  "link_valid now l \<longleftrightarrow> now < l_expires l \<and>
     (case l_max_uses l of None \<Rightarrow> True | Some mx \<Rightarrow> l_use_count l < mx)"

definition record_use :: "link \<Rightarrow> link" where
  "record_use l = l\<lparr>l_use_count := l_use_count l + 1\<rparr>"

record link_manager =
  lm_links :: "(string, link) hmap"
  lm_sharer :: sharer

definition create_link :: "datetime \<Rightarrow> uuid \<Rightarrow> state_id \<Rightarrow> permission \<Rightarrow> string \<Rightarrow> int \<Rightarrow>
    link_manager \<Rightarrow> link_manager \<times> link" where
  "create_link now fresh i p by_user expires_in m =
     (let l = link_new now fresh i p by_user expires_in
      in (m\<lparr>lm_links := hm_insert (l_token l) l (lm_links m)\<rparr>, l))"

definition use_link :: "datetime \<Rightarrow> datetime \<Rightarrow> datetime \<Rightarrow> string \<Rightarrow> string \<Rightarrow> link_manager \<Rightarrow>
    link_manager \<times> (share_error, unit) result" where
  "use_link t1 t2 t3 token user m =
     (case hm_get (lm_links m) token of
        None \<Rightarrow> (m, Err (AccessNotFound [] user))
      | Some l \<Rightarrow>
          if \<not> link_valid t1 l then (m, Err (PermissionDenied user Read))
          else
            (case grant_access t3 (l_state l) user (l_permission l) ''link''
                    (Some (l_expires l - t2)) (lm_sharer m) of
               (s, Inl e) \<Rightarrow> (m\<lparr>lm_sharer := s\<rparr>, Err e)
             | (s, Inr u) \<Rightarrow>
                 (m\<lparr>lm_sharer := s, lm_links := hm_insert token (record_use l) (lm_links m)\<rparr>, Ok ())))"

definition revoke_link :: "string \<Rightarrow> link_manager \<Rightarrow> link_manager \<times> (share_error, unit) result" where
  "revoke_link token m =
     (m\<lparr>lm_links := hm_remove token (lm_links m)\<rparr>,
      if hm_get (lm_links m) token = None then Err (AccessNotFound [] []) else Ok ())"

section \<open>Runs of the link manager and its sharer\<close>

datatype share_op =
    SGrant datetime state_id string permission string "int option"
  | SRevoke state_id string
  | SCreateSession datetime uuid state_id string
  | SJoin datetime string string
  | SLeave datetime string string
  | SEnd datetime string string
  | SCleanup datetime
  | SCreateLink datetime uuid state_id permission string int
  | SUseLink datetime datetime datetime string string
  | SRevokeLink string

definition on_sharer :: "(sharer \<Rightarrow> sharer \<times> 'r) \<Rightarrow> link_manager \<Rightarrow> link_manager" where
  "on_sharer f m = m\<lparr>lm_sharer := fst (f (lm_sharer m))\<rparr>"

fun share_step :: "share_op \<Rightarrow> link_manager \<Rightarrow> link_manager" where
  "share_step (SGrant now i u p b d) m = on_sharer (grant_access now i u p b d) m"
| "share_step (SRevoke i u) m = on_sharer (revoke_access i u) m"
| "share_step (SCreateSession now f i u) m = on_sharer (create_session now f i u) m"
| "share_step (SJoin now s u) m = on_sharer (join_session now s u) m"
| "share_step (SLeave now s u) m = on_sharer (leave_session now s u) m"
| "share_step (SEnd now s u) m = on_sharer (end_session now s u) m"
| "share_step (SCleanup now) m = on_sharer (cleanup_sharer now) m"
| "share_step (SCreateLink now f i p b d) m = fst (create_link now f i p b d m)"
| "share_step (SUseLink t1 t2 t3 tok u) m = fst (use_link t1 t2 t3 tok u m)"
| "share_step (SRevokeLink tok) m = fst (revoke_link tok m)"

text \<open>
  The specification of the grants: the ledger of one user on one state is the list of the
  grants made to the user since the last revocation, whatever is cleaned up in between.
\<close>

definition user_grants :: "state_id \<Rightarrow> string \<Rightarrow> sharer \<Rightarrow> access_grant list" where
  "user_grants i u s =
     filter (\<lambda>g. g_user g = u) (case hm_get (sh_grants s) i of None \<Rightarrow> [] | Some gs \<Rightarrow> gs)"

fun new_grants :: "state_id \<Rightarrow> string \<Rightarrow> share_op \<Rightarrow> link_manager \<Rightarrow> access_grant list" where
  "new_grants i u (SGrant now j v p b d) m =
     (if j = i \<and> v = u
      then [\<lparr>g_user = u, g_permission = p, g_expires = map_option (\<lambda>d. now + d) d,
             g_granted_by = b, g_granted_at = now\<rparr>]
      else [])"
| "new_grants i u (SUseLink t1 t2 t3 tok v) m =
     (case hm_get (lm_links m) tok of
        None \<Rightarrow> []
      | Some l \<Rightarrow>
          if link_valid t1 l \<and> l_state l = i \<and> v = u
          then [\<lparr>g_user = u, g_permission = l_permission l, g_expires = Some (t3 + (l_expires l - t2)),
                 g_granted_by = ''link'', g_granted_at = t3\<rparr>]
          else [])"
| "new_grants i u _ m = []"

fun ledger :: "state_id \<Rightarrow> string \<Rightarrow> share_op list \<Rightarrow> link_manager \<Rightarrow> access_grant list \<Rightarrow>
    access_grant list" where
  "ledger i u [] m L = L"
| "ledger i u (op # ops) m L =
     ledger i u ops (share_step op m) (if op = SRevoke i u then [] else L @ new_grants i u op m)"

fun cleaned_before :: "datetime \<Rightarrow> share_op \<Rightarrow> bool" where
  "cleaned_before now (SCleanup t) \<longleftrightarrow> t \<le> now"
| "cleaned_before now _ \<longleftrightarrow> True"

lemma first_valid_filter:
  "first_valid now u gs =
     (case filter (grant_valid now) (filter (\<lambda>g. g_user g = u) gs) of
        [] \<Rightarrow> None | g # _ \<Rightarrow> Some (g_permission g))"
  by (induction gs) (auto split: list.splits)

lemma check_permission_grants:
  "check_permission now i u required s =
     (case filter (grant_valid now) (user_grants i u s) of
        [] \<Rightarrow> False | g # _ \<Rightarrow> required \<le> g_permission g)"
  by (auto simp: check_permission_def user_grants_def first_valid_filter less_eq_permission_def
      split: option.splits list.splits)

lemma user_grants_grant:
  "user_grants i u (fst (grant_access now j v p b d s)) =
     user_grants i u s @
     (if j = i \<and> v = u
      then [\<lparr>g_user = u, g_permission = p, g_expires = map_option (\<lambda>d. now + d) d,
             g_granted_by = b, g_granted_at = now\<rparr>]
      else [])"
  by (auto simp: user_grants_def grant_access_def grant_new_def Let_def split: option.splits)

lemma user_grants_revoke:
  "user_grants i u (fst (revoke_access j v s)) =
     (if j = i \<and> v = u then [] else user_grants i u s)"
proof (cases "hm_get (sh_grants s) j")
  case (Some gs)
  have "v \<noteq> u \<Longrightarrow> filter (\<lambda>g. g_user g = u) (filter (\<lambda>g. g_user g \<noteq> v) gs) = filter (\<lambda>g. g_user g = u) gs"
    by (induction gs) auto
  then show ?thesis using Some by (auto simp: user_grants_def revoke_access_def Let_def)
qed (auto simp: user_grants_def revoke_access_def)

lemma grant_valid_mono: "t \<le> now \<Longrightarrow> grant_valid now g \<Longrightarrow> grant_valid t g"
  by (auto simp: grant_valid_def grant_expired_def split: option.splits)

lemma user_grants_cleanup:
  assumes "t \<le> now"
  shows "filter (grant_valid now) (user_grants i u (fst (cleanup_sharer t s)))
    = filter (grant_valid now) (user_grants i u s)"
proof (cases "hm_get (sh_grants s) i")
  case (Some gs)
  have "filter (grant_valid now) (filter (\<lambda>g. g_user g = u) (filter (grant_valid t) gs))
      = filter (grant_valid now) (filter (\<lambda>g. g_user g = u) gs)"
    using assms by (induction gs) (auto dest: grant_valid_mono)
  then show ?thesis
    using Some by (simp add: user_grants_def cleanup_sharer_def Let_def hm_get_map_values)
qed (simp add: user_grants_def cleanup_sharer_def Let_def hm_get_map_values)

lemma session_ops_grants [simp]:
  "sh_grants (fst (create_session now f i u s)) = sh_grants s"
  "sh_grants (fst (join_session now sid u s)) = sh_grants s"
  "sh_grants (fst (leave_session now sid u s)) = sh_grants s"
  "sh_grants (fst (end_session now sid u s)) = sh_grants s"
  by (simp_all add: create_session_def join_session_def leave_session_def end_session_def Let_def
      split: option.splits)

lemma grant_access_Ok: "snd (grant_access now i u p b d s) = Ok ()"
  by (simp add: grant_access_def Let_def)

lemma use_link_shape:
  "fst (use_link t1 t2 t3 tok u m) =
     (case hm_get (lm_links m) tok of
        None \<Rightarrow> m
      | Some l \<Rightarrow>
          if link_valid t1 l
          then m\<lparr>lm_sharer := fst (grant_access t3 (l_state l) u (l_permission l) ''link''
                   (Some (l_expires l - t2)) (lm_sharer m)),
                 lm_links := hm_insert tok (record_use l) (lm_links m)\<rparr>
          else m)"
  by (auto simp: use_link_def grant_access_def Let_def split: option.splits)

lemma user_grants_cong: "sh_grants s = sh_grants s' \<Longrightarrow> user_grants i u s = user_grants i u s'"
  by (simp add: user_grants_def)

lemma user_grants_use_link:
  "user_grants i u (lm_sharer (fst (use_link t1 t2 t3 tok v m))) =
     user_grants i u (lm_sharer m) @ new_grants i u (SUseLink t1 t2 t3 tok v) m"
proof (cases "hm_get (lm_links m) tok")
  case (Some l)
  then show ?thesis
    by (cases "link_valid t1 l") (simp_all add: use_link_shape user_grants_grant)
qed (simp add: use_link_shape)

lemma share_step_ledger:
  assumes "cleaned_before now op"
  shows "filter (grant_valid now) (user_grants i u (lm_sharer (share_step op m))) =
    filter (grant_valid now)
      (if op = SRevoke i u then [] else user_grants i u (lm_sharer m) @ new_grants i u op m)"
proof (cases op)
  case (SGrant t j v p b d)
  then show ?thesis by (simp add: on_sharer_def user_grants_grant)
next
  case (SRevoke j v)
  then show ?thesis by (simp add: on_sharer_def user_grants_revoke)
next
  case (SUseLink t1 t2 t3 tok v)
  show ?thesis unfolding SUseLink share_step.simps user_grants_use_link by simp
next
  case (SCleanup t)
  then show ?thesis using assms user_grants_cleanup by (simp add: on_sharer_def)
next
  case (SCreateLink t f j p b d)
  then show ?thesis by (simp add: create_link_def Let_def)
next
  case (SRevokeLink tok)
  then show ?thesis by (simp add: revoke_link_def)
qed (simp_all add: on_sharer_def user_grants_def)

lemma ledger_cong:
  "filter P L = filter P L' \<Longrightarrow> filter P (ledger i u ops m L) = filter P (ledger i u ops m L')"
proof (induction ops arbitrary: m L L')
  case (Cons op ops)
  show ?case by (simp, intro conjI impI Cons.IH) (use Cons.prems in simp_all)
qed simp

lemma run_ledger:
  "list_all (cleaned_before now) ops \<Longrightarrow>
     filter (grant_valid now) (user_grants i u (lm_sharer (fold share_step ops m))) =
     filter (grant_valid now) (ledger i u ops m (user_grants i u (lm_sharer m)))"
proof (induction ops arbitrary: m)
  case (Cons op ops)
  let ?L = "if op = SRevoke i u then [] else user_grants i u (lm_sharer m) @ new_grants i u op m"
  have "filter (grant_valid now) (ledger i u ops (share_step op m) (user_grants i u (lm_sharer (share_step op m))))
      = filter (grant_valid now) (ledger i u ops (share_step op m) ?L)"
    by (rule ledger_cong) (use Cons.prems share_step_ledger [of now op i u m] in simp)
  then show ?case using Cons by simp
qed simp

definition links_empty :: link_manager where
  "links_empty = \<lparr>lm_links = [], lm_sharer = sharer_new\<rparr>"

lemma user_grants_empty [simp]: "user_grants i u (lm_sharer links_empty) = []"
  by (simp add: links_empty_def user_grants_def sharer_new_def)

section \<open>What sharing promises\<close>

text \<open>C9. Access control refines the ledger: after any run of grants, revocations, sessions,
  links and cleanups, a user has a required permission on a state exactly when the first grant
  of the user's ledger (the grants since the last revocation) that has not expired is at least
  that permission.  Cleanups never change an answer; but a later grant of a higher permission is
  masked by an earlier one that is still valid.\<close>

theorem access_refines_ledger:
  assumes "list_all (cleaned_before now) ops"
  shows "check_permission now i u required (lm_sharer (fold share_step ops links_empty)) =
    (case filter (grant_valid now) (ledger i u ops links_empty []) of
       [] \<Rightarrow> False | g # _ \<Rightarrow> required \<le> g_permission g)"
  using run_ledger [OF assms, of i u links_empty]
  by (simp add: check_permission_grants)

lemma access_refines_ledger_witness:
  "check_permission 9 (StateId ''s'') ''u'' Fork (lm_sharer (fold share_step
     [SGrant 1 (StateId ''s'') ''u'' Read ''o'' (Some 5), SGrant 2 (StateId ''s'') ''u'' Admin ''o'' None,
      SCleanup 7] links_empty)) \<and>
   \<not> check_permission 6 (StateId ''s'') ''u'' Fork (lm_sharer (fold share_step
     [SGrant 1 (StateId ''s'') ''u'' Read ''o'' (Some 5), SGrant 2 (StateId ''s'') ''u'' Admin ''o'' None]
     links_empty))"
  using access_refines_ledger [of 9 "[SGrant 1 (StateId ''s'') ''u'' Read ''o'' (Some 5),
      SGrant 2 (StateId ''s'') ''u'' Admin ''o'' None, SCleanup 7]" "StateId ''s''" "''u''" Fork]
    access_refines_ledger [of 6 "[SGrant 1 (StateId ''s'') ''u'' Read ''o'' (Some 5),
      SGrant 2 (StateId ''s'') ''u'' Admin ''o'' None]" "StateId ''s''" "''u''" Fork]
  by (simp add: grant_valid_def grant_expired_def less_eq_permission_def)

fun grants_to :: "state_id \<Rightarrow> string \<Rightarrow> share_op \<Rightarrow> bool" where
  "grants_to i u (SGrant now j v p b d) \<longleftrightarrow> j = i \<and> v = u"
| "grants_to i u (SUseLink t1 t2 t3 tok v) \<longleftrightarrow> v = u"
| "grants_to i u _ \<longleftrightarrow> False"

lemma ledger_no_grants: "list_all (\<lambda>op. \<not> grants_to i u op) ops \<Longrightarrow> ledger i u ops m [] = []"
proof (induction ops arbitrary: m)
  case (Cons op ops)
  then show ?case by (cases op) (auto split: option.splits)
qed simp

lemma ledger_append:
  "ledger i u (ops @ ops') m L = ledger i u ops' (fold share_step ops m) (ledger i u ops m L)"
  by (induction ops arbitrary: m L) simp_all

text \<open>A revocation is final: once a user's access to a state has been revoked, the user has no
  permission on it at all, at any later time and whatever else happens, until the user is granted
  access to that state again or uses a link.\<close>

theorem revocation_final:
  assumes "list_all (\<lambda>op. \<not> grants_to i u op) later" "list_all (cleaned_before now) (ops @ later)"
  shows "\<not> check_permission now i u required
    (lm_sharer (fold share_step (ops @ SRevoke i u # later) links_empty))"
proof -
  have "ledger i u (ops @ SRevoke i u # later) links_empty [] = []"
    using assms(1) by (simp add: ledger_append ledger_no_grants)
  then have "filter (grant_valid now) (user_grants i u
      (lm_sharer (fold share_step (ops @ SRevoke i u # later) links_empty))) = []"
    using run_ledger [of now "ops @ SRevoke i u # later" i u links_empty] assms(2)
    by simp
  then show ?thesis unfolding check_permission_grants by simp
qed

lemma revocation_final_witness:
  "\<not> check_permission 9 (StateId ''s'') ''u'' Read (lm_sharer (fold share_step
     ([SGrant 1 (StateId ''s'') ''u'' Admin ''o'' None] @ SRevoke (StateId ''s'') ''u''
        # [SGrant 3 (StateId ''s'') ''v'' Admin ''o'' None, SCleanup 4]) links_empty))"
  by (rule revocation_final) simp_all

fun link_successes :: "string \<Rightarrow> share_op list \<Rightarrow> link_manager \<Rightarrow> nat" where
  "link_successes tok [] m = 0"
| "link_successes tok (op # ops) m =
     (case op of
        SUseLink t1 t2 t3 tk u \<Rightarrow>
          if tk = tok \<and> snd (use_link t1 t2 t3 tk u m) = Ok () then 1 else 0
      | _ \<Rightarrow> 0) + link_successes tok ops (share_step op m)"

fun recreates :: "string \<Rightarrow> share_op \<Rightarrow> bool" where
  "recreates tok (SCreateLink now f i p b d) \<longleftrightarrow> f = tok"
| "recreates tok _ \<longleftrightarrow> False"

lemma use_link_Ok_iff:
  "snd (use_link t1 t2 t3 tok u m) = Ok () \<longleftrightarrow>
     (\<exists>l. hm_get (lm_links m) tok = Some l \<and> link_valid t1 l)"
  by (auto simp: use_link_def grant_access_def Let_def split: option.splits)

lemma link_step_other:
  "\<not> recreates tok op \<Longrightarrow> (\<And>t1 t2 t3 u. op \<noteq> SUseLink t1 t2 t3 tok u) \<Longrightarrow>
     hm_get (lm_links (share_step op m)) tok \<in> {None, hm_get (lm_links m) tok}"
  by (cases op) (auto simp: on_sharer_def create_link_def link_new_def revoke_link_def Let_def
      use_link_shape split: option.splits)

lemma use_link_other: "tk \<noteq> tok \<Longrightarrow>
    hm_get (lm_links (fst (use_link t1 t2 t3 tk u m))) tok = hm_get (lm_links m) tok"
  by (auto simp: use_link_shape split: option.splits)

lemma record_use_count:
  "l_use_count l < mx \<Longrightarrow> unat (l_use_count (record_use l)) = unat (l_use_count l) + 1"
proof -
  assume "l_use_count l < mx"
  moreover have "unat mx < 2 ^ 32" by (rule order_less_le_trans [OF unsigned_less]) simp
  ultimately have "unat (l_use_count l) + 1 < 2 ^ 32" by (simp add: word_less_nat_alt)
  then show ?thesis by (simp add: record_use_def unat_word_ariths)
qed

lemma link_successes_bound:
  assumes "list_all (\<lambda>op. \<not> recreates tok op) ops"
    and "hm_get (lm_links m) tok = None \<or>
      (\<exists>l. hm_get (lm_links m) tok = Some l \<and> l_max_uses l = Some n \<and>
         unat (l_use_count l) + k \<le> unat n \<and> unat n - unat (l_use_count l) \<le> k)"
  shows "link_successes tok ops m \<le> k"
  using assms
proof (induction ops arbitrary: m k)
  case (Cons op ops)
  have nr: "\<not> recreates tok op" using Cons.prems(1) by simp
  show ?case
  proof (cases "\<exists>t1 t2 t3 u. op = SUseLink t1 t2 t3 tok u")
    case False
    then have "hm_get (lm_links (share_step op m)) tok \<in> {None, hm_get (lm_links m) tok}"
      by (intro link_step_other [OF nr]) auto
    then have "link_successes tok ops (share_step op m) \<le> k"
      using Cons.IH [of "share_step op m" k] Cons.prems by auto
    moreover have "link_successes tok (op # ops) m = link_successes tok ops (share_step op m)"
      using False by (cases op) auto
    ultimately show ?thesis by simp
  next
    case True
    then obtain t1 t2 t3 u where op: "op = SUseLink t1 t2 t3 tok u" by blast
    show ?thesis
    proof (cases "\<exists>l. hm_get (lm_links m) tok = Some l \<and> link_valid t1 l")
      case False
      then have "fst (use_link t1 t2 t3 tok u m) = m"
        by (auto simp: use_link_shape split: option.splits)
      then show ?thesis
        using Cons.IH [of m k] Cons.prems False op use_link_Ok_iff [of t1 t2 t3 tok u m] by auto
    next
      case True
      then obtain l where l: "hm_get (lm_links m) tok = Some l" "link_valid t1 l" by blast
      then have mx: "l_max_uses l = Some n" "unat (l_use_count l) + k \<le> unat n"
        "unat n - unat (l_use_count l) \<le> k" and lt: "l_use_count l < n"
        using Cons.prems(2) by (auto simp: link_valid_def)
      let ?m = "fst (use_link t1 t2 t3 tok u m)"
      have get: "hm_get (lm_links ?m) tok = Some (record_use l)"
        using l by (simp add: use_link_shape)
      have c: "unat (l_use_count (record_use l)) = unat (l_use_count l) + 1"
        by (rule record_use_count [OF lt])
      have "unat (l_use_count l) < unat n" using lt by (simp add: word_less_nat_alt)
      then have "link_successes tok ops ?m \<le> k - 1"
        using Cons.IH [of ?m "k - 1"] Cons.prems(1) get c mx by (simp add: record_use_def)
      then show ?thesis
        using l op mx \<open>unat (l_use_count l) < unat n\<close> use_link_Ok_iff [of t1 t2 t3 tok u m] by simp
    qed
  qed
qed simp


definition demo_links :: link_manager where
  "demo_links = \<lparr>lm_links = [(''t'', with_max_uses 1 (link_new 0 ''t'' (StateId ''s'') Read ''o'' 50))],
     lm_sharer = sharer_new\<rparr>"


end
