(* ===== verification/Auth.thy ===== *)
theory Auth
  imports Model
begin

text \<open>
  \<^verbatim>\<open>src/src/auth.rs\<close>: API keys, bearer tokens and their verification.  SHA-256 is a parameter
  and fresh UUIDs and the clock are arguments; dates are nanoseconds without bounds (chrono
  panics outside its range of years).
\<close>

datatype capability = CSnapshot | CResume | CFork | CDelete | CShare | CList | CRead | CAdmin

record auth_config =
  ac_enabled :: bool
  ac_token_hours :: u64
  ac_max_tokens :: nat
  ac_secret :: string

record api_key =
  k_id :: string
  k_secret :: "string option"
  k_hash :: string
  k_user :: string
  k_caps :: "capability list"
  k_created :: datetime
  k_expires :: "datetime option"
  k_revoked :: bool
  k_restriction :: "string option"

record access_token =
  t_token :: string
  t_type :: string
  t_expires :: datetime
  t_key :: string
  t_user :: string
  t_caps :: "capability list"

record auth_result =
  ar_user :: string
  ar_key :: string
  ar_caps :: "capability list"
  ar_restriction :: "string option"

datatype auth_error =
    KeyNotFound string
  | KeyRevoked
  | KeyExpired
  | InvalidKey
  | InvalidToken
  | TokenExpired
  | TokenLimitExceeded
  | InsufficientCapabilities string
  | AuthAccessDenied string

definition has_capability :: "capability \<Rightarrow> auth_result \<Rightarrow> bool" where
  "has_capability c r \<longleftrightarrow> c \<in> set (ar_caps r)"

definition can_access_state :: "string \<Rightarrow> auth_result \<Rightarrow> bool" where
  "can_access_state i r = (case ar_restriction r of Some x \<Rightarrow> x = i | None \<Rightarrow> True)"

record auth_manager =
  am_config :: auth_config
  am_keys :: "(string, api_key) hmap"
  am_tokens :: "(string, access_token) hmap"
  am_user_keys :: "(string, string list) hmap"

definition auth_new :: "auth_config \<Rightarrow> auth_manager" where
  "auth_new cfg = \<lparr>am_config = cfg, am_keys = [], am_tokens = [], am_user_keys = []\<rparr>"

definition hash_key :: "(bytes \<Rightarrow> string) \<Rightarrow> auth_manager \<Rightarrow> string \<Rightarrow> string" where
  "hash_key sha am key = sha (map of_char (ac_secret (am_config am)) @ map of_char key)"

text \<open>The UUID of the secret prints with hyphens, that of the key id without.\<close>

definition create_key :: "(bytes \<Rightarrow> string) \<Rightarrow> datetime \<Rightarrow> uuid \<Rightarrow> string \<Rightarrow> string \<Rightarrow> capability list \<Rightarrow>
    auth_manager \<Rightarrow> auth_manager \<times> (auth_error, api_key) result" where
  "create_key sha now fresh_secret fresh_id user caps am =
     (let secret = ''isa_'' @ fresh_secret; kid = ''key_'' @ fresh_id;
          k = \<lparr>k_id = kid, k_secret = Some secret, k_hash = hash_key sha am secret, k_user = user,
               k_caps = caps, k_created = now, k_expires = None, k_revoked = False,
               k_restriction = None\<rparr>
      in (am\<lparr>am_keys := hm_insert kid k (am_keys am),
             am_user_keys := hm_entry user [] (\<lambda>ks. ks @ [kid]) (am_user_keys am)\<rparr>, Ok k))"

definition revoke_key :: "string \<Rightarrow> auth_manager \<Rightarrow> auth_manager \<times> (auth_error, unit) result" where
  "revoke_key kid am =
     (if hm_contains (am_keys am) kid
      then (am\<lparr>am_keys := hm_modify kid (\<lambda>k. k\<lparr>k_revoked := True\<rparr>) (am_keys am)\<rparr>, Ok ())
      else (am, Err (KeyNotFound kid)))"

definition verify_api_key :: "(bytes \<Rightarrow> string) \<Rightarrow> datetime \<Rightarrow> string \<Rightarrow> string \<Rightarrow> auth_manager \<Rightarrow>
    (auth_error, auth_result) result" where
  "verify_api_key sha now kid secret am =
     (case hm_get (am_keys am) kid of
        None \<Rightarrow> Err (KeyNotFound kid)
      | Some k \<Rightarrow>
          if k_revoked k then Err KeyRevoked
          else if (case k_expires k of None \<Rightarrow> False | Some ex \<Rightarrow> now > ex) then Err KeyExpired
          else if hash_key sha am secret \<noteq> k_hash k then Err InvalidKey
          else Ok \<lparr>ar_user = k_user k, ar_key = kid, ar_caps = k_caps k,
                   ar_restriction = k_restriction k\<rparr>)"

definition hour_ns :: int where "hour_ns = 3600 * 1000000000"

definition user_token_count :: "string \<Rightarrow> auth_manager \<Rightarrow> nat" where
  "user_token_count user am = length (filter (\<lambda>t. t_user t = user) (hm_values (am_tokens am)))"

definition create_token :: "(bytes \<Rightarrow> string) \<Rightarrow> datetime \<Rightarrow> uuid \<Rightarrow> string \<Rightarrow> string \<Rightarrow> auth_manager \<Rightarrow>
    auth_manager \<times> (auth_error, access_token) result" where
  "create_token sha now fresh kid secret am =
     (case verify_api_key sha now kid secret am of
        Inl e \<Rightarrow> (am, Err e)
      | Inr r \<Rightarrow>
          let tok = ''bearer_'' @ fresh;
              t = \<lparr>t_token = tok, t_type = ''Bearer'',
                   t_expires = now + sint (ac_token_hours (am_config am)) * hour_ns,
                   t_key = kid, t_user = ar_user r, t_caps = ar_caps r\<rparr>
          in if user_token_count (ar_user r) am \<ge> ac_max_tokens (am_config am)
             then (am, Err TokenLimitExceeded)
             else (am\<lparr>am_tokens := hm_insert tok t (am_tokens am)\<rparr>, Ok t))"

definition revoke_token :: "string \<Rightarrow> auth_manager \<Rightarrow> auth_manager \<times> (auth_error, unit) result" where
  "revoke_token tok am = (am\<lparr>am_tokens := hm_remove tok (am_tokens am)\<rparr>, Ok ())"

definition verify_token :: "datetime \<Rightarrow> string \<Rightarrow> auth_manager \<Rightarrow>
    auth_manager \<times> (auth_error, auth_result) result" where
  "verify_token now tok am =
     (case hm_get (am_tokens am) tok of
        None \<Rightarrow> (am, Err InvalidToken)
      | Some t \<Rightarrow>
          if now > t_expires t then (fst (revoke_token tok am), Err TokenExpired)
          else (am, Ok \<lparr>ar_user = t_user t, ar_key = t_key t, ar_caps = t_caps t,
                        ar_restriction = None\<rparr>))"

definition cleanup_expired_tokens :: "datetime \<Rightarrow> auth_manager \<Rightarrow> auth_manager \<times> nat" where
  "cleanup_expired_tokens now am =
     (let kept = hm_retain (\<lambda>k t. t_expires t > now) (am_tokens am)
      in (am\<lparr>am_tokens := kept\<rparr>, hm_len (am_tokens am) - hm_len kept))"

definition list_keys :: "string \<Rightarrow> auth_manager \<Rightarrow> api_key list" where
  "list_keys user am =
     (case hm_get (am_user_keys am) user of
        None \<Rightarrow> []
      | Some ids \<Rightarrow> map (\<lambda>k. k\<lparr>k_secret := None\<rparr>) (List.map_filter (hm_get (am_keys am)) ids))"

definition is_enabled :: "auth_manager \<Rightarrow> bool" where
  "is_enabled am = ac_enabled (am_config am)"

section \<open>Runs\<close>

datatype auth_op =
    ACreateKey datetime uuid uuid string "capability list"
  | ARevokeKey string
  | ACreateToken datetime uuid string string
  | AVerifyToken datetime string
  | ARevokeToken string
  | ACleanup datetime

fun auth_step :: "(bytes \<Rightarrow> string) \<Rightarrow> auth_op \<Rightarrow> auth_manager \<Rightarrow> auth_manager" where
  "auth_step sha (ACreateKey now s i u c) am = fst (create_key sha now s i u c am)"
| "auth_step sha (ARevokeKey k) am = fst (revoke_key k am)"
| "auth_step sha (ACreateToken now f k s) am = fst (create_token sha now f k s am)"
| "auth_step sha (AVerifyToken now t) am = fst (verify_token now t am)"
| "auth_step sha (ARevokeToken t) am = fst (revoke_token t am)"
| "auth_step sha (ACleanup now) am = fst (cleanup_expired_tokens now am)"

text \<open>UUIDs of keys do not repeat.\<close>

fun keys_fresh :: "(bytes \<Rightarrow> string) \<Rightarrow> auth_op list \<Rightarrow> auth_manager \<Rightarrow> bool" where
  "keys_fresh sha [] am \<longleftrightarrow> True"
| "keys_fresh sha (op # ops) am \<longleftrightarrow>
     (case op of ACreateKey now s i u c \<Rightarrow> \<not> hm_contains (am_keys am) (''key_'' @ i) | _ \<Rightarrow> True) \<and>
     keys_fresh sha ops (auth_step sha op am)"

text \<open>Every token carries the user and the capabilities of the key it was made from.\<close>

definition backed :: "(string, api_key) hmap \<Rightarrow> access_token \<Rightarrow> bool" where
  "backed keys t \<longleftrightarrow>
     (\<exists>k. hm_get keys (t_key t) = Some k \<and> k_user k = t_user t \<and> k_caps k = t_caps t)"

definition tokens_backed :: "auth_manager \<Rightarrow> bool" where
  "tokens_backed am \<longleftrightarrow> hm_ok (am_tokens am) \<and>
     (\<forall>tok t. hm_get (am_tokens am) tok = Some t \<longrightarrow> backed (am_keys am) t)"

definition tokens_bounded :: "auth_manager \<Rightarrow> bool" where
  "tokens_bounded am \<longleftrightarrow> (\<forall>u. user_token_count u am \<le> ac_max_tokens (am_config am))"

lemma backed_insert: "backed keys t \<Longrightarrow> hm_get keys kid = None \<Longrightarrow> backed (hm_insert kid k keys) t"
  by (auto simp: backed_def)

lemma backed_revoke: "backed keys t \<Longrightarrow> backed (hm_modify kid (\<lambda>k. k\<lparr>k_revoked := True\<rparr>) keys) t"
  unfolding backed_def by (elim exE, rename_tac k, case_tac "t_key t = kid") auto

lemma tokens_backed_subset:
  assumes "tokens_backed am" "am_keys am' = am_keys am" "hm_ok (am_tokens am')"
    and "\<And>tok t. hm_get (am_tokens am') tok = Some t \<Longrightarrow> hm_get (am_tokens am) tok = Some t"
  shows "tokens_backed am'"
  unfolding tokens_backed_def
proof (intro conjI allI impI)
  fix tok t assume "hm_get (am_tokens am') tok = Some t"
  from assms(4) [OF this] show "backed (am_keys am') t"
    using assms(1,2) by (simp add: tokens_backed_def)
qed (rule assms(3))

lemma create_key_backed:
  assumes "tokens_backed am" "\<not> hm_contains (am_keys am) (''key_'' @ i)"
  shows "tokens_backed (fst (create_key sha now s i u c am))"
  using assms backed_insert by (simp add: tokens_backed_def create_key_def Let_def hm_contains_def)

lemma revoke_key_backed:
  assumes "tokens_backed am" shows "tokens_backed (fst (revoke_key k am))"
  using assms backed_revoke by (simp add: tokens_backed_def revoke_key_def)

lemma create_token_backed:
  assumes "tokens_backed am" shows "tokens_backed (fst (create_token sha now f kid s am))"
proof (cases "verify_api_key sha now kid s am")
  case (Inr r)
  then obtain k where "hm_get (am_keys am) kid = Some k" "k_user k = ar_user r" "k_caps k = ar_caps r"
    by (auto simp: verify_api_key_def split: option.splits if_splits)
  then have "backed (am_keys am) \<lparr>t_token = a, t_type = b, t_expires = e, t_key = kid,
      t_user = ar_user r, t_caps = ar_caps r\<rparr>" for a b e
    by (simp add: backed_def)
  then show ?thesis
    using assms Inr by (simp add: create_token_def Let_def tokens_backed_def)
qed (use assms in \<open>simp add: create_token_def\<close>)

lemma revoke_token_backed:
  assumes "tokens_backed am" shows "tokens_backed (fst (revoke_token t am))"
  by (rule tokens_backed_subset [OF assms])
    (use assms in \<open>auto simp: revoke_token_def tokens_backed_def split: if_splits\<close>)

lemma auth_step_backed:
  assumes "tokens_backed am" "keys_fresh sha [op] am"
  shows "tokens_backed (auth_step sha op am)"
proof (cases op)
  case (AVerifyToken now t)
  then show ?thesis
    using assms(1) revoke_token_backed [OF assms(1)]
    by (simp add: verify_token_def split: option.splits)
next
  case (ACleanup now)
  have ok: "hm_ok (am_tokens am)" using assms(1) by (simp add: tokens_backed_def)
  have "tokens_backed (fst (cleanup_expired_tokens now am))"
    by (rule tokens_backed_subset [OF assms(1)])
      (use ok in \<open>auto simp: cleanup_expired_tokens_def Let_def hm_get_retain
         split: option.splits if_splits\<close>)
  then show ?thesis using ACleanup by simp
qed (use assms in \<open>simp_all add: create_key_backed revoke_key_backed create_token_backed
       revoke_token_backed\<close>)

lemma auth_run_backed:
  "tokens_backed am \<Longrightarrow> keys_fresh sha ops am \<Longrightarrow> tokens_backed (fold (auth_step sha) ops am)"
proof (induction ops arbitrary: am)
  case (Cons op ops)
  then show ?case using auth_step_backed [of am sha op] by simp
qed simp

lemma auth_step_config: "am_config (auth_step sha op am) = am_config am"
  by (cases op) (auto simp: create_key_def revoke_key_def create_token_def verify_token_def
      revoke_token_def cleanup_expired_tokens_def Let_def split: sum.splits option.splits)

lemma count_insert:
  assumes "hm_ok m"
  shows "length (filter P (hm_values (hm_insert k v m))) \<le> length (filter P (hm_values m)) + (if P v then 1 else 0)"
  by (induction m) (auto simp: hm_values_def hm_insert_def)

lemma count_filter:
  "length (filter P (hm_values (filter Q m))) \<le> length (filter P (hm_values m))"
  by (induction m) (auto simp: hm_values_def)

lemma count_subset:
  assumes "am_tokens am' = filter Q (am_tokens am)" "am_config am' = am_config am" "tokens_bounded am"
  shows "tokens_bounded am'"
  using assms count_filter unfolding tokens_bounded_def user_token_count_def
  by (metis le_trans)

lemma auth_step_bounded:
  assumes "tokens_bounded am" "hm_ok (am_tokens am)"
  shows "tokens_bounded (auth_step sha op am) \<and> hm_ok (am_tokens (auth_step sha op am))"
proof (cases op)
  case (ACreateToken now f kid s)
  show ?thesis
  proof (cases "verify_api_key sha now kid s am")
    case (Inr r)
    let ?v = "\<lparr>t_token = ''bearer_'' @ f, t_type = ''Bearer'',
      t_expires = now + sint (ac_token_hours (am_config am)) * hour_ns,
      t_key = kid, t_user = ar_user r, t_caps = ar_caps r\<rparr>"
    have "length (filter (\<lambda>t. t_user t = u) (hm_values (hm_insert (''bearer_'' @ f) ?v (am_tokens am))))
        \<le> ac_max_tokens (am_config am)"
      if "user_token_count (ar_user r) am < ac_max_tokens (am_config am)" for u
      using count_insert [OF assms(2), of "\<lambda>t. t_user t = u" "''bearer_'' @ f" ?v] that assms(1)
      unfolding tokens_bounded_def user_token_count_def
      by (cases "ar_user r = u") (auto intro: le_trans)
    then show ?thesis
      using ACreateToken Inr assms
      by (auto simp: create_token_def Let_def tokens_bounded_def user_token_count_def)
  qed (use ACreateToken assms in \<open>simp add: create_token_def\<close>)
next
  case (AVerifyToken now t)
  have "tokens_bounded (am\<lparr>am_tokens := hm_remove t (am_tokens am)\<rparr>)"
    by (rule count_subset [OF _ _ assms(1)]) (simp_all add: hm_remove_def)
  then show ?thesis
    using AVerifyToken assms by (auto simp: verify_token_def revoke_token_def split: option.splits)
next
  case (ARevokeToken t)
  have "tokens_bounded (am\<lparr>am_tokens := hm_remove t (am_tokens am)\<rparr>)"
    by (rule count_subset [OF _ _ assms(1)]) (simp_all add: hm_remove_def)
  then show ?thesis using ARevokeToken assms by (simp add: revoke_token_def)
next
  case (ACleanup now)
  have "tokens_bounded (fst (cleanup_expired_tokens now am))"
    by (rule count_subset [OF _ _ assms(1)])
      (simp_all add: cleanup_expired_tokens_def Let_def hm_retain_def)
  then show ?thesis using ACleanup assms by (simp add: cleanup_expired_tokens_def Let_def)
qed (use assms in \<open>auto simp: create_key_def revoke_key_def Let_def tokens_bounded_def user_token_count_def\<close>)

lemma auth_run_bounded:
  "tokens_bounded am \<Longrightarrow> hm_ok (am_tokens am) \<Longrightarrow> tokens_bounded (fold (auth_step sha) ops am)"
  by (induction ops arbitrary: am) (simp_all add: auth_step_bounded)

lemma auth_run_config: "am_config (fold (auth_step sha) ops am) = am_config am"
  by (induction ops arbitrary: am) (simp_all add: auth_step_config)

section \<open>What authentication promises\<close>

text \<open>C11. Tokens carry no authority of their own: whenever \<open>verify_token\<close> accepts a token, in any
  run of the manager, there is a key of that id whose user and capabilities are exactly those of
  the result; and the token has not expired.\<close>

theorem token_authority:
  assumes "keys_fresh sha ops (auth_new cfg)"
    and "verify_token now tok (fold (auth_step sha) ops (auth_new cfg)) = (am, Inr r)"
  shows "\<exists>k t. hm_get (am_keys am) (ar_key r) = Some k \<and> ar_user r = k_user k \<and> ar_caps r = k_caps k \<and>
    hm_get (am_tokens am) tok = Some t \<and> now \<le> t_expires t"
proof -
  let ?am = "fold (auth_step sha) ops (auth_new cfg)"
  have run: "tokens_backed ?am"
    by (rule auth_run_backed) (use assms(1) in \<open>simp_all add: auth_new_def tokens_backed_def\<close>)
  obtain t where t: "hm_get (am_tokens ?am) tok = Some t" "now \<le> t_expires t" "am = ?am"
      "r = \<lparr>ar_user = t_user t, ar_key = t_key t, ar_caps = t_caps t, ar_restriction = None\<rparr>"
    using assms(2) by (simp add: verify_token_def not_less split: option.splits if_splits)
  then have "backed (am_keys ?am) t" using run by (auto simp: tokens_backed_def)
  then obtain k where "hm_get (am_keys ?am) (t_key t) = Some k" "k_user k = t_user t" "k_caps k = t_caps t"
    unfolding backed_def by blast
  then show ?thesis using t by simp
qed

definition demo_auth :: auth_config where
  "demo_auth = \<lparr>ac_enabled = True, ac_token_hours = 1, ac_max_tokens = 1, ac_secret = ''s''\<rparr>"

definition demo_auth_ops :: "auth_op list" where
  "demo_auth_ops = [ACreateKey 0 ''x'' ''1'' ''u'' [CResume], ACreateToken 1 ''t'' ''key_1'' ''isa_x'']"

lemmas demo_auth_run = demo_auth_ops_def create_key_def create_token_def
  verify_api_key_def hash_key_def user_token_count_def auth_new_def demo_auth_def Let_def
  hm_values_def hm_contains_def hour_ns_def

lemma token_authority_witness:
  "\<exists>k t am r. verify_token 2 ''bearer_t'' (fold (auth_step (\<lambda>d. ''h'')) demo_auth_ops (auth_new demo_auth)) = (am, Inr r) \<and>
     hm_get (am_keys am) (ar_key r) = Some k \<and> ar_user r = k_user k \<and> ar_caps r = k_caps k \<and>
     hm_get (am_tokens am) ''bearer_t'' = Some t \<and> 2 \<le> t_expires t"
proof -
  let ?am = "fold (auth_step (\<lambda>d. ''h'')) demo_auth_ops (auth_new demo_auth)"
  obtain am r where v: "verify_token 2 ''bearer_t'' ?am = (am, Inr r)"
    by (simp add: demo_auth_run verify_token_def)
  have "keys_fresh (\<lambda>d. ''h'') demo_auth_ops (auth_new demo_auth)"
    by (simp add: demo_auth_run)
  from token_authority [OF this v] v show ?thesis by blast
qed

text \<open>No user ever holds more tokens than the configuration allows, expired ones included.\<close>

theorem token_limit:
  "user_token_count user (fold (auth_step sha) ops (auth_new cfg)) \<le> ac_max_tokens cfg"
proof -
  have "tokens_bounded (fold (auth_step sha) ops (auth_new cfg))"
    by (rule auth_run_bounded)
      (simp_all add: auth_new_def tokens_bounded_def user_token_count_def hm_values_def)
  moreover have "am_config (fold (auth_step sha) ops (auth_new cfg)) = cfg"
    unfolding auth_run_config by (simp add: auth_new_def)
  ultimately show ?thesis unfolding tokens_bounded_def by metis
qed

text \<open>Revoking a key refuses the key itself but not the tokens made from it: after the
  revocation \<open>verify_api_key\<close> answers with an error for every secret, while every token of
  that key is verified exactly as before, up to its own expiry.\<close>

theorem revoked_key_tokens_survive:
  assumes "revoke_key kid am = (am', Inr u)"
  shows "verify_api_key sha now kid secret am' = Err KeyRevoked \<and>
    snd (verify_token now tok am') = snd (verify_token now tok am)"
  using assms
  by (auto simp: revoke_key_def verify_api_key_def verify_token_def hm_contains_def
      split: if_splits option.splits)

lemma revoked_key_tokens_survive_witness:
  "snd (verify_token 2 ''bearer_t'' (fst (revoke_key ''key_1''
     (fold (auth_step (\<lambda>d. ''h'')) demo_auth_ops (auth_new demo_auth))))) =
   snd (verify_token 2 ''bearer_t'' (fold (auth_step (\<lambda>d. ''h'')) demo_auth_ops (auth_new demo_auth)))"
proof -
  let ?am = "fold (auth_step (\<lambda>d. ''h'')) demo_auth_ops (auth_new demo_auth)"
  have "snd (revoke_key ''key_1'' ?am) = Inr ()"
    by (simp add: demo_auth_run revoke_key_def)
  then have "revoke_key ''key_1'' ?am = (fst (revoke_key ''key_1'' ?am), Inr ())"
    by (metis prod.collapse)
  from revoked_key_tokens_survive [OF this] show ?thesis by blast
qed

end
