(* ===== verification/RateLimit.thy ===== *)
theory RateLimit
  imports F32 "HOL-Library.Char_ord"
begin

text \<open>
  \<^verbatim>\<open>src/src/rate_limit.rs\<close>: the token bucket over 32-bit floats, the limiter with one bucket per
  key, the sliding window and the client address.  An \<^verbatim>\<open>Instant\<close> and a \<^verbatim>\<open>Duration\<close> are numbers of
  nanoseconds; the refill rate is a finite float.  The panics of the code are \<open>None\<close>: the
  conversion of a retry time that is infinite or negative (refill rate 0 or below), and the
  empty queue of a sliding window that allows no request.  (Subtracting the window from an
  \<^verbatim>\<open>Instant\<close> that close to the origin of the clock would panic too; instants have no origin here.)
\<close>

record rate_limit_config =
  rl_max_tokens :: nat
  rl_refill_rate :: f32
  rl_window_secs :: nat

definition rate_default :: rate_limit_config where
  "rate_default = \<lparr>rl_max_tokens = 100, rl_refill_rate = 10, rl_window_secs = 60\<rparr>"

section \<open>The token bucket\<close>

record token_bucket =
  tb_max :: nat
  tb_tokens :: f32
  tb_last :: int
  tb_rate :: f32

definition bucket_new :: "int \<Rightarrow> nat \<Rightarrow> f32 \<Rightarrow> token_bucket" where
  "bucket_new now mx rate =
     \<lparr>tb_max = mx, tb_tokens = f32_of_nat mx, tb_last = now, tb_rate = rate\<rparr>"

text \<open>\<^verbatim>\<open>Duration::as_secs_f32\<close>: the seconds plus the fraction, each rounded.\<close>

definition as_secs_f32 :: "nat \<Rightarrow> f32" where
  "as_secs_f32 ns =
     f32_add (f32_of_nat (ns div 1000000000))
       (f32_div (f32_of_nat (ns mod 1000000000)) (f32_of_nat 1000000000))"

text \<open>\<^verbatim>\<open>duration_since\<close> is zero when the earlier instant is the later one.\<close>

definition refill :: "int \<Rightarrow> token_bucket \<Rightarrow> token_bucket" where
  "refill now b =
     (let elapsed = as_secs_f32 (nat (now - tb_last b));
          new_tokens = f32_mul elapsed (tb_rate b)
      in b\<lparr>tb_tokens := min (f32_add (tb_tokens b) new_tokens) (f32_of_nat (tb_max b)),
           tb_last := now\<rparr>)"

definition try_consume :: "int \<Rightarrow> nat \<Rightarrow> token_bucket \<Rightarrow> token_bucket \<times> bool" where
  "try_consume now n b =
     (let b = refill now b in
      if tb_tokens b \<ge> f32_of_nat n
      then (b\<lparr>tb_tokens := f32_sub (tb_tokens b) (f32_of_nat n)\<rparr>, True)
      else (b, False))"

definition bucket_tokens :: "token_bucket \<Rightarrow> nat" where
  "bucket_tokens b = f32_to_u32 (tb_tokens b)"

text \<open>\<^verbatim>\<open>from_secs_f32\<close> rounds to the nearest nanosecond and panics on what no duration holds.\<close>

definition from_secs_f32 :: "f32 \<Rightarrow> nat option" where
  "from_secs_f32 x = (if x < 0 \<or> x \<ge> 2 ^ 64 then None else Some (nat (rne (x * 1000000000))))"

definition time_until_token :: "token_bucket \<Rightarrow> nat option" where
  "time_until_token b =
     (if tb_tokens b \<ge> 1 then Some 0
      else if tb_rate b = 0 then None
      else from_secs_f32 (f32_div (f32_sub 1 (tb_tokens b)) (tb_rate b)))"

section \<open>The limiter\<close>

datatype rate_limit_result = Allowed | Limited (rl_retry: nat) (rl_limit: nat) (rl_remaining: nat)

definition is_allowed :: "rate_limit_result \<Rightarrow> bool" where
  "is_allowed r \<longleftrightarrow> r = Allowed"

definition retry_after :: "rate_limit_result \<Rightarrow> nat option" where
  "retry_after r = (case r of Allowed \<Rightarrow> None | Limited t l m \<Rightarrow> Some t)"

record rate_limiter =
  lim_default :: rate_limit_config
  lim_buckets :: "(string, token_bucket) hmap"
  lim_endpoints :: "(string, rate_limit_config) hmap"

definition limiter_new :: "rate_limit_config \<Rightarrow> rate_limiter" where
  "limiter_new cfg = \<lparr>lim_default = cfg, lim_buckets = [], lim_endpoints = []\<rparr>"

definition set_endpoint_limit :: "string \<Rightarrow> rate_limit_config \<Rightarrow> rate_limiter \<Rightarrow> rate_limiter" where
  "set_endpoint_limit ep cfg l = l\<lparr>lim_endpoints := hm_insert ep cfg (lim_endpoints l)\<rparr>"

definition endpoint_config :: "string option \<Rightarrow> rate_limiter \<Rightarrow> rate_limit_config" where
  "endpoint_config ep l =
     (case ep of
        None \<Rightarrow> lim_default l
      | Some e \<Rightarrow> (case hm_get (lim_endpoints l) e of None \<Rightarrow> lim_default l | Some c \<Rightarrow> c))"

definition get_bucket :: "int \<Rightarrow> string \<Rightarrow> rate_limit_config \<Rightarrow> rate_limiter \<Rightarrow> token_bucket" where
  "get_bucket now key cfg l =
     (case hm_get (lim_buckets l) key of
        None \<Rightarrow> bucket_new now (rl_max_tokens cfg) (rl_refill_rate cfg)
      | Some b \<Rightarrow> b)"

definition limiter_check :: "int \<Rightarrow> string \<Rightarrow> string option \<Rightarrow> rate_limiter \<Rightarrow>
    rate_limiter \<times> rate_limit_result option" where
  "limiter_check now key ep l =
     (let cfg = endpoint_config ep l in
      case try_consume now 1 (get_bucket now key cfg l) of
        (b, ok) \<Rightarrow>
          (l\<lparr>lim_buckets := hm_insert key b (lim_buckets l)\<rparr>,
           if ok then Some Allowed
           else map_option (\<lambda>t. Limited t (rl_max_tokens cfg) (bucket_tokens b)) (time_until_token b)))"

fun check_batch :: "int \<Rightarrow> string list \<Rightarrow> rate_limiter \<Rightarrow> rate_limiter \<times> rate_limit_result list option" where
  "check_batch now [] l = (l, Some [])"
| "check_batch now (k # ks) l =
     (case limiter_check now k None l of
        (l', None) \<Rightarrow> (l', None)
      | (l', Some r) \<Rightarrow>
          (case check_batch now ks l' of (l'', rs) \<Rightarrow> (l'', map_option (\<lambda>rs. r # rs) rs)))"

record limit_status =
  ls_limit :: nat
  ls_remaining :: nat
  ls_reset :: nat

text \<open>The outer option is the panic, the inner one an unknown key.\<close>

definition limiter_status :: "string \<Rightarrow> rate_limiter \<Rightarrow> limit_status option option" where
  "limiter_status key l =
     (case hm_get (lim_buckets l) key of
        None \<Rightarrow> Some None
      | Some b \<Rightarrow>
          map_option (\<lambda>t. Some \<lparr>ls_limit = tb_max b, ls_remaining = bucket_tokens b, ls_reset = t\<rparr>)
            (time_until_token b))"

definition limiter_reset :: "int \<Rightarrow> string \<Rightarrow> rate_limiter \<Rightarrow> rate_limiter" where
  "limiter_reset now key l =
     l\<lparr>lim_buckets := hm_modify key (\<lambda>b. b\<lparr>tb_tokens := f32_of_nat (tb_max b), tb_last := now\<rparr>)
         (lim_buckets l)\<rparr>"

definition limiter_remove :: "string \<Rightarrow> rate_limiter \<Rightarrow> rate_limiter" where
  "limiter_remove key l = l\<lparr>lim_buckets := hm_remove key (lim_buckets l)\<rparr>"

definition limiter_cleanup :: "int \<Rightarrow> int \<Rightarrow> rate_limiter \<Rightarrow> rate_limiter" where
  "limiter_cleanup now max_age l =
     l\<lparr>lim_buckets := hm_retain (\<lambda>k b. max 0 (now - tb_last b) < max_age) (lim_buckets l)\<rparr>"

section \<open>The sliding window\<close>

record sliding_window =
  sw_window_secs :: nat
  sw_max :: nat
  sw_requests :: "(string, int list) hmap"

definition sliding_new :: "nat \<Rightarrow> nat \<Rightarrow> sliding_window" where
  "sliding_new w mx = \<lparr>sw_window_secs = w, sw_max = mx, sw_requests = []\<rparr>"

fun drop_old :: "int \<Rightarrow> int list \<Rightarrow> int list" where
  "drop_old start [] = []"
| "drop_old start (t # ts) = (if t < start then drop_old start ts else t # ts)"

definition window_ns :: "sliding_window \<Rightarrow> int" where
  "window_ns sw = int (sw_window_secs sw) * 1000000000"

definition sliding_check :: "int \<Rightarrow> string \<Rightarrow> sliding_window \<Rightarrow> sliding_window \<times> rate_limit_result option" where
  "sliding_check now key sw =
     (let ts = drop_old (now - window_ns sw)
                 (case hm_get (sw_requests sw) key of None \<Rightarrow> [] | Some ts \<Rightarrow> ts)
      in if length ts < sw_max sw
         then (sw\<lparr>sw_requests := hm_insert key (ts @ [now]) (sw_requests sw)\<rparr>, Some Allowed)
         else (sw\<lparr>sw_requests := hm_insert key ts (sw_requests sw)\<rparr>,
               (case ts of
                  [] \<Rightarrow> None
                | oldest # _ \<Rightarrow> Some (Limited (nat (oldest + window_ns sw - now)) (sw_max sw) 0))))"

section \<open>The client address\<close>

text \<open>\<^verbatim>\<open>str::trim\<close> for ASCII: a header value with other bytes is refused by \<^verbatim>\<open>to_str\<close>.\<close>

definition is_space :: "char \<Rightarrow> bool" where
  "is_space c \<longleftrightarrow> c \<in> set [CHR '' '', CHR 0x09, CHR 0x0A, CHR 0x0B, CHR 0x0C, CHR 0x0D]"

definition trim_str :: "string \<Rightarrow> string" where
  "trim_str s = rev (dropWhile is_space (rev (dropWhile is_space s)))"

definition visible_ascii :: "string \<Rightarrow> bool" where
  "visible_ascii s \<longleftrightarrow> list_all (\<lambda>c. c = CHR 0x09 \<or> (CHR 0x20 \<le> c \<and> c < CHR 0x7F)) s"

definition extract_ip :: "bool \<Rightarrow> (string \<Rightarrow> string option) \<Rightarrow> string \<Rightarrow> string" where
  "extract_ip trust_proxy headers remote =
     (if trust_proxy then
        (case headers ''x-forwarded-for'' of
           Some f \<Rightarrow>
             if visible_ascii f then trim_str (takeWhile (\<lambda>c. c \<noteq> CHR '','') f)
             else (case headers ''x-real-ip'' of
                     Some r \<Rightarrow> if visible_ascii r then trim_str r else remote
                   | None \<Rightarrow> remote)
         | None \<Rightarrow>
             (case headers ''x-real-ip'' of
                Some r \<Rightarrow> if visible_ascii r then trim_str r else remote
              | None \<Rightarrow> remote))
      else remote)"

section \<open>Runs\<close>

fun consume_run :: "(int \<times> nat) list \<Rightarrow> token_bucket \<Rightarrow> token_bucket \<times> bool list" where
  "consume_run [] b = (b, [])"
| "consume_run ((t, n) # ts) b =
     (case try_consume t n b of (b', ok) \<Rightarrow>
        (case consume_run ts b' of (b'', oks) \<Rightarrow> (b'', ok # oks)))"

definition bucket_ok :: "token_bucket \<Rightarrow> bool" where
  "bucket_ok b \<longleftrightarrow> is_f32 (tb_tokens b) \<and> 0 \<le> tb_tokens b \<and> tb_tokens b \<le> f32_of_nat (tb_max b) \<and>
     0 \<le> tb_rate b"

lemma as_secs_nonneg: "0 \<le> as_secs_f32 n"
  by (simp add: as_secs_f32_def f32_add_nonneg f32_div_nonneg)

lemma as_secs_zero [simp]: "as_secs_f32 0 = 0"
  by (simp add: as_secs_f32_def f32_of_nat_def f32_add_def f32_div_def)

lemma is_f32_of_nat [simp]: "is_f32 (f32_of_nat n)"
  by (simp add: f32_of_nat_def)

lemma refill_ok: "bucket_ok b \<Longrightarrow> bucket_ok (refill t b)"
  by (auto simp: bucket_ok_def refill_def Let_def is_f32_min f32_add_nonneg f32_mul_nonneg as_secs_nonneg)

lemma refill_fields [simp]: "tb_max (refill t b) = tb_max b" "tb_rate (refill t b) = tb_rate b"
  by (simp_all add: refill_def Let_def)

lemma try_consume_ok:
  assumes "bucket_ok b" shows "bucket_ok (fst (try_consume t n b)) \<and> tb_max (fst (try_consume t n b)) = tb_max b"
proof -
  let ?b = "refill t b"
  have ok: "bucket_ok ?b" by (rule refill_ok [OF assms])
  have "f32_sub (tb_tokens ?b) (f32_of_nat n) \<le> tb_tokens ?b"
    using ok by (intro f32_sub_le) (simp_all add: bucket_ok_def)
  moreover have "f32_of_nat n \<le> tb_tokens ?b \<Longrightarrow> 0 \<le> f32_sub (tb_tokens ?b) (f32_of_nat n)"
    by (rule f32_sub_nonneg)
  ultimately show ?thesis
    using ok by (auto simp: try_consume_def Let_def bucket_ok_def)
qed

lemma consume_run_ok:
  "bucket_ok b \<Longrightarrow> bucket_ok (fst (consume_run ts b)) \<and> tb_max (fst (consume_run ts b)) = tb_max b"
proof (induction ts b rule: consume_run.induct)
  case (2 t n ts b)
  obtain b' ok where c: "try_consume t n b = (b', ok)" by fastforce
  then have "bucket_ok b' \<and> tb_max b' = tb_max b" using try_consume_ok [OF 2(2), of t n] by simp
  then show ?case using 2(1) [OF c [symmetric]] c by (simp add: case_prod_beta)
qed simp

lemma bucket_new_ok: "0 \<le> rate \<Longrightarrow> bucket_ok (bucket_new now mx rate)"
  by (simp add: bucket_ok_def bucket_new_def)

text \<open>At one instant nothing is refilled, and small counts are exact.\<close>

lemma refill_same_instant:
  "bucket_ok b \<Longrightarrow> tb_last b = t \<Longrightarrow> refill t b = b"
  by (cases b) (simp add: refill_def bucket_ok_def f32_add_def f32_mul_def is_f32_def)

lemma consume_same_instant:
  assumes "tb_tokens b = of_nat k" "k \<le> tb_max b" "tb_max b \<le> 2 ^ 24" "tb_last b = t" "0 \<le> tb_rate b"
  shows "snd (consume_run (replicate n (t, 1)) b) = replicate (min n k) True @ replicate (n - k) False"
  using assms
proof (induction n arbitrary: b k)
  case (Suc n)
  have k: "k \<le> 2 ^ 24" using Suc.prems by simp
  have ok: "bucket_ok b"
    using Suc.prems k by (simp add: bucket_ok_def is_f32_def f32_round_nat f32_of_nat_exact)
  have one: "f32_of_nat 1 = 1" using f32_of_nat_exact [of 1] by simp
  show ?case
  proof (cases k)
    case 0
    then have "try_consume t 1 b = (b, False)"
      using refill_same_instant [OF ok Suc.prems(4)] Suc.prems(1) one by (simp add: try_consume_def)
    then show ?thesis
      using Suc.IH [of b 0] Suc.prems 0 by (simp add: case_prod_beta)
  next
    case (Suc j)
    have "f32_sub (1 + of_nat j) 1 = of_nat j"
      using f32_round_nat [of j] k Suc by (simp add: f32_sub_def)
    then have c: "try_consume t 1 b = (b\<lparr>tb_tokens := of_nat j\<rparr>, True)"
      using refill_same_instant [OF ok Suc.prems(4)] Suc.prems(1) Suc one by (simp add: try_consume_def)
    have "snd (consume_run (replicate n (t, 1)) (b\<lparr>tb_tokens := of_nat j\<rparr>))
        = replicate (min n j) True @ replicate (n - j) False"
      using Suc.IH [of "b\<lparr>tb_tokens := of_nat j\<rparr>" j] Suc.prems Suc by simp
    then show ?thesis using c Suc by (simp add: case_prod_beta)
  qed
qed simp

section \<open>What the limiters promise\<close>

text \<open>A token bucket never holds a negative amount nor more than its maximum, whatever
  amounts are consumed at whatever instants, rounding included; and of \<open>n\<close> requests at the
  instant of its creation it grants exactly the first \<open>max_tokens\<close>, for every maximum up to
  2^24.  The refill rate is not negative.\<close>

theorem bucket_bounds:
  assumes "0 \<le> rate"
  shows "0 \<le> tb_tokens (fst (consume_run ts (bucket_new now mx rate))) \<and>
    tb_tokens (fst (consume_run ts (bucket_new now mx rate))) \<le> f32_of_nat mx \<and>
    (mx \<le> 2 ^ 24 \<longrightarrow> snd (consume_run (replicate n (now, 1)) (bucket_new now mx rate))
       = replicate (min n mx) True @ replicate (n - mx) False)"
proof -
  have "bucket_ok (fst (consume_run ts (bucket_new now mx rate))) \<and>
      tb_max (fst (consume_run ts (bucket_new now mx rate))) = tb_max (bucket_new now mx rate)"
    by (rule consume_run_ok [OF bucket_new_ok [OF assms]])
  moreover have "snd (consume_run (replicate n (now, 1)) (bucket_new now mx rate))
      = replicate (min n mx) True @ replicate (n - mx) False" if "mx \<le> 2 ^ 24"
    by (rule consume_same_instant) (use that assms in \<open>simp_all add: bucket_new_def f32_of_nat_exact\<close>)
  ultimately show ?thesis by (auto simp: bucket_ok_def bucket_new_def)
qed

lemma bucket_bounds_witness:
  "0 \<le> tb_tokens (fst (consume_run [(5, 2), (9, 7)] (bucket_new 0 3 (1 / 2)))) \<and>
   snd (consume_run (replicate 4 (0, 1)) (bucket_new 0 3 (1 / 2)))
     = replicate 3 True @ replicate 1 False"
proof -
  have "(0 :: f32) \<le> 1 / 2" "min 4 (3 :: nat) = 3" "4 - (3 :: nat) = 1" by simp_all
  then show ?thesis using bucket_bounds [of "1 / 2" "[(5, 2), (9, 7)]" 0 3 4] by simp
qed

lemma large_bucket_round: "f32_round 33554431 = 33554432" "f32_round 33554432 = 33554432"
  by code_simp+

lemma large_bucket_run:
  assumes "0 \<le> tb_rate b" "tb_max b = 2 ^ 25" "tb_tokens b = 2 ^ 25"
  shows "snd (consume_run (map (\<lambda>t. (t, 1)) ts) b) = replicate (length ts) True"
  using assms
proof (induction ts arbitrary: b)
  case (Cons t ts)
  have mx: "f32_of_nat (2 ^ 25) = 2 ^ 25" using large_bucket_round by (simp add: f32_of_nat_def)
  have one: "f32_of_nat 1 = 1" using f32_of_nat_exact [of 1] by simp
  let ?new = "f32_mul (as_secs_f32 (nat (t - tb_last b))) (tb_rate b)"
  have "2 ^ 25 \<le> f32_add (2 ^ 25) ?new"
    by (rule f32_add_ge) (use Cons.prems large_bucket_round in
      \<open>simp_all add: is_f32_def f32_mul_nonneg as_secs_nonneg\<close>)
  then have "tb_tokens (refill t b) = 2 ^ 25"
    using Cons.prems mx by (simp add: refill_def Let_def)
  moreover have "f32_sub (2 ^ 25) 1 = 2 ^ 25" using large_bucket_round by (simp add: f32_sub_def)
  ultimately have c: "try_consume t 1 b = ((refill t b)\<lparr>tb_tokens := 2 ^ 25\<rparr>, True)"
    using one by (simp add: try_consume_def Let_def)
  show ?case
    using Cons.IH [of "(refill t b)\<lparr>tb_tokens := 2 ^ 25\<rparr>"] Cons.prems c by (simp add: case_prod_beta)
qed simp

text \<open>A bucket for 2^25 requests never refuses one: subtracting one token from its 32-bit
  float rounds back to the same value, so it is never drained, at any rate of requests.\<close>

theorem large_bucket_never_drains:
  assumes "0 \<le> rate"
  shows "snd (consume_run (map (\<lambda>t. (t, 1)) ts) (bucket_new now (2 ^ 25) rate)) = replicate (length ts) True"
proof (rule large_bucket_run)
  show "tb_tokens (bucket_new now (2 ^ 25) rate) = 2 ^ 25"
    using large_bucket_round by (simp add: bucket_new_def f32_of_nat_def)
qed (use assms in \<open>simp_all add: bucket_new_def\<close>)

lemma large_bucket_never_drains_witness:
  "snd (consume_run (map (\<lambda>t. (t, 1)) [0, 0]) (bucket_new 0 (2 ^ 25) 1)) = replicate (length [0, 0 :: int]) True"
  by (rule large_bucket_never_drains) simp

text \<open>
  The sliding window.  \<open>sliding_run\<close> collects the instants at which the requests of one key
  were allowed, in a run of requests of all keys.
\<close>

fun sliding_run :: "string \<Rightarrow> (int \<times> string) list \<Rightarrow> sliding_window \<Rightarrow> int list" where
  "sliding_run k [] sw = []"
| "sliding_run k ((t, key) # rs) sw =
     (case sliding_check t key sw of (sw', r) \<Rightarrow>
        (if key = k \<and> r = Some Allowed then [t] else []) @ sliding_run k rs sw')"

definition in_window :: "int \<Rightarrow> int \<Rightarrow> int list \<Rightarrow> int list" where
  "in_window a w ts = filter (\<lambda>t. a \<le> t \<and> t \<le> a + w) ts"

lemma in_window_append [simp]: "in_window a w (xs @ ys) = in_window a w xs @ in_window a w ys"
  by (simp add: in_window_def)

lemma drop_old_split: "\<exists>xs. ts = xs @ drop_old s ts \<and> (\<forall>x\<in>set xs. x < s)"
proof (induction s ts rule: drop_old.induct)
  case (2 s t ts)
  show ?case
  proof (cases "t < s")
    case True
    then obtain xs where "ts = xs @ drop_old s ts" "\<forall>x\<in>set xs. x < s" using 2 by blast
    then show ?thesis using True by (intro exI [of _ "t # xs"]) simp
  qed simp
qed simp

text \<open>The queue of the key holds the allowed instants \<open>A\<close> but for a prefix that is too old.\<close>

definition window_inv :: "string \<Rightarrow> int list \<Rightarrow> int \<Rightarrow> sliding_window \<Rightarrow> bool" where
  "window_inv k A T sw \<longleftrightarrow>
     (\<exists>P. A = P @ (case hm_get (sw_requests sw) k of None \<Rightarrow> [] | Some ts \<Rightarrow> ts) \<and>
        (\<forall>p\<in>set P. p < T - window_ns sw)) \<and>
     (\<forall>a. length (in_window a (window_ns sw) A) \<le> sw_max sw)"

lemma sliding_check_shape [simp]:
  "window_ns (fst (sliding_check t key sw)) = window_ns sw"
  "sw_max (fst (sliding_check t key sw)) = sw_max sw"
  "key \<noteq> k \<Longrightarrow> hm_get (sw_requests (fst (sliding_check t key sw))) k = hm_get (sw_requests sw) k"
  by (auto simp: sliding_check_def window_ns_def Let_def)

lemma window_inv_later:
  assumes "window_inv k A T sw" "T \<le> t"
  shows "window_inv k A t sw"
proof -
  obtain P where "A = P @ (case hm_get (sw_requests sw) k of None \<Rightarrow> [] | Some ts \<Rightarrow> ts)"
    "\<forall>p\<in>set P. p < T - window_ns sw"
    using assms(1) unfolding window_inv_def by blast
  moreover from this(2) have "\<forall>p\<in>set P. p < t - window_ns sw" using assms(2) by fastforce
  ultimately show ?thesis using assms(1) unfolding window_inv_def by blast
qed

lemma window_inv_check:
  assumes inv: "window_inv k A t sw"
  shows "window_inv k (A @ (if snd (sliding_check t k sw) = Some Allowed then [t] else [])) t
    (fst (sliding_check t k sw))"
proof -
  let ?w = "window_ns sw"
  define ts where "ts = (case hm_get (sw_requests sw) k of None \<Rightarrow> [] | Some ts \<Rightarrow> ts)"
  obtain P where P: "A = P @ ts" "\<forall>p\<in>set P. p < t - ?w"
    and W: "\<forall>a. length (in_window a ?w A) \<le> sw_max sw"
    using inv by (auto simp: window_inv_def ts_def)
  obtain xs where xs: "ts = xs @ drop_old (t - ?w) ts" "\<forall>x\<in>set xs. x < t - ?w"
    using drop_old_split by blast
  define D where "D = drop_old (t - ?w) ts"
  have A: "A = (P @ xs) @ D" using P(1) xs(1) by (simp add: D_def)
  have old: "\<forall>p\<in>set (P @ xs). p < t - ?w" using P(2) xs(2) by auto
  show ?thesis
  proof (cases "length D < sw_max sw")
    case True
    have "length (in_window a ?w (A @ [t])) \<le> sw_max sw" for a
    proof (cases "a \<le> t \<and> t \<le> a + ?w")
      case in_w: True
      have "in_window a ?w (P @ xs) = []"
        unfolding in_window_def filter_empty_conv
      proof (intro ballI notI)
        fix p assume p: "p \<in> set (P @ xs)" "a \<le> p \<and> p \<le> a + ?w"
        have "p < t - ?w" using old p(1) by blast
        then show False using p(2) in_w by linarith
      qed
      moreover have "length (in_window a ?w D) \<le> length D" by (simp add: in_window_def)
      ultimately show ?thesis
        using True in_w by (simp add: A in_window_def [of a ?w "[t]"])
    next
      case False
      then have "in_window a ?w (A @ [t]) = in_window a ?w A" by (auto simp: in_window_def)
      then show ?thesis using W by simp
    qed
    moreover have "sliding_check t k sw = (sw\<lparr>sw_requests := hm_insert k (D @ [t]) (sw_requests sw)\<rparr>, Some Allowed)"
      using True by (simp add: sliding_check_def Let_def D_def ts_def)
    ultimately show ?thesis
      using A old by (auto simp: window_inv_def window_ns_def intro!: exI [of _ "P @ xs"])
  next
    case False
    then have "fst (sliding_check t k sw) = sw\<lparr>sw_requests := hm_insert k D (sw_requests sw)\<rparr>"
      "snd (sliding_check t k sw) \<noteq> Some Allowed"
      by (auto simp: sliding_check_def Let_def D_def ts_def split: list.splits)
    then show ?thesis
      using A old W by (auto simp: window_inv_def window_ns_def intro!: exI [of _ "P @ xs"])
  qed
qed

lemma sliding_run_inv:
  assumes "window_inv k A T sw" "sorted (T # map fst rs)"
  shows "length (in_window a (window_ns sw) (A @ sliding_run k rs sw)) \<le> sw_max sw"
  using assms
proof (induction k rs sw arbitrary: A T rule: sliding_run.induct)
  case (1 k sw)
  then show ?case by (simp add: window_inv_def)
next
  case (2 k t key rs sw)
  obtain sw' r where c: "sliding_check t key sw = (sw', r)" by fastforce
  then have sw': "sw' = fst (sliding_check t key sw)" "r = snd (sliding_check t key sw)" by simp_all
  let ?A = "A @ (if key = k \<and> r = Some Allowed then [t] else [])"
  have inv: "window_inv k A t sw" using window_inv_later [OF 2(2)] 2(3) by simp
  have "window_inv k ?A t sw'"
  proof (cases "key = k")
    case True
    then show ?thesis using window_inv_check [OF inv] by (simp add: sw')
  next
    case False
    then show ?thesis using inv by (simp add: window_inv_def sw')
  qed
  moreover have "window_ns sw' = window_ns sw" "sw_max sw' = sw_max sw" by (simp_all add: sw')
  ultimately show ?case using 2(1) [OF c [symmetric], of ?A t] 2(3) by (simp add: c)
qed

text \<open>C34. The sliding window keeps its limit at every position, not only at multiples of the
  window: among the requests of a key that are allowed in a run of requests at non-decreasing
  times, every closed interval as long as the window contains at most \<open>max_requests\<close>.\<close>

theorem sliding_window_bound:
  assumes "sorted (map fst rs)"
  shows "length (in_window a (int w * 1000000000) (sliding_run k rs (sliding_new w mx))) \<le> mx"
proof (cases rs)
  case (Cons r rs')
  have "window_inv k [] (fst r) (sliding_new w mx)"
    by (simp add: window_inv_def sliding_new_def in_window_def)
  from sliding_run_inv [OF this, of rs a] assms Cons show ?thesis
    by (simp add: window_ns_def sliding_new_def)
qed (simp add: in_window_def)

lemma sliding_window_bound_witness:
  "length (in_window 0 (int 1 * 1000000000)
     (sliding_run ''k'' [(0, ''k''), (1, ''k''), (2, ''x'')] (sliding_new 1 1))) \<le> 1"
  by (rule sliding_window_bound) simp

text \<open>The limit of an endpoint decides nothing once a key has a bucket: the answer to a
  request is the same for every endpoint, whatever limits were set, because the bucket was
  created with the configuration of the key's first request.\<close>

theorem endpoint_limit_ignored:
  assumes "hm_get (lim_buckets l) key = Some b"
  shows "snd (limiter_check now key ep l) = Some Allowed \<longleftrightarrow> snd (try_consume now 1 b)"
  using assms by (auto simp: limiter_check_def get_bucket_def Let_def case_prod_beta split: if_splits)

definition demo_limiter :: rate_limiter where
  "demo_limiter = set_endpoint_limit ''/snapshot'' \<lparr>rl_max_tokens = 0, rl_refill_rate = 1, rl_window_secs = 60\<rparr>
     (fst (limiter_check 0 ''u'' None (limiter_new rate_default)))"

lemma endpoint_limit_ignored_witness:
  "snd (limiter_check 5 ''u'' (Some ''/snapshot'') demo_limiter) = Some Allowed
     \<longleftrightarrow> snd (limiter_check 5 ''u'' None demo_limiter) = Some Allowed"
proof -
  obtain b where "hm_get (lim_buckets demo_limiter) ''u'' = Some b"
    by (simp add: demo_limiter_def set_endpoint_limit_def limiter_check_def Let_def case_prod_beta)
  from endpoint_limit_ignored [OF this] show ?thesis by simp
qed

end
