(* ===== verification/Validation.thy ===== *)
theory Validation
  imports Model
begin

text \<open>
  \<^verbatim>\<open>src/src/validation.rs\<close>: the validation of requests.  A \<^verbatim>\<open>&str\<close> to be validated is the list of
  its code points (\<open>ustr\<close>) and \<^verbatim>\<open>len()\<close> is the length of its UTF-8 encoding.  The Unicode class
  \<^verbatim>\<open>is_alphanumeric\<close> is the parameter \<open>alnum\<close>, of which the properties use the ASCII part
  (\<open>ascii_alnum_ok\<close>); \<^verbatim>\<open>canonicalize\<close> asks the file system and is a parameter that gives the
  components of the canonical path.  Multiplications of \<^verbatim>\<open>u64\<close> wrap, as in a release build.
\<close>

type_synonym ustr = "nat list"

definition ustr_of :: "string \<Rightarrow> ustr" where
  "ustr_of s = map of_char s"

definition utf8_size :: "nat \<Rightarrow> nat" where
  "utf8_size c = (if c < 0x80 then 1 else if c < 0x800 then 2 else if c < 0x10000 then 3 else 4)"

definition str_len :: "ustr \<Rightarrow> nat" where
  "str_len s = sum_list (map utf8_size s)"

datatype validation_rule =
    Required
  | MinLength
  | MaxLength
  | Format
  | Range
  | Pattern
  | PathTraversal
  | InvalidCharacter

record validation_error =
  ve_field :: string
  ve_message :: string
  ve_rule :: validation_rule

type_synonym validation_errors = "validation_error list"

definition add_error :: "string \<Rightarrow> string \<Rightarrow> validation_rule \<Rightarrow> validation_errors \<Rightarrow> validation_errors" where
  "add_error f m r es = es @ [\<lparr>ve_field = f, ve_message = m, ve_rule = r\<rparr>]"

definition into_error :: "validation_errors \<Rightarrow> validation_errors option" where
  "into_error es = (if es = [] then None else Some es)"

definition finish :: "validation_errors \<Rightarrow> 'a \<Rightarrow> (validation_errors, 'a) result" where
  "finish es a = (if es = [] then Ok a else Err es)"

fun display_errors :: "validation_errors \<Rightarrow> string" where
  "display_errors [] = []"
| "display_errors [e] = ve_field e @ '': '' @ ve_message e"
| "display_errors (e # es) = ve_field e @ '': '' @ ve_message e @ '', '' @ display_errors es"

section \<open>Identifiers and labels\<close>

definition hyphen :: nat where "hyphen = 0x2D"
definition underscore :: nat where "underscore = 0x5F"
definition blank :: nat where "blank = 0x20"

definition validate_state_id :: "(nat \<Rightarrow> bool) \<Rightarrow> ustr \<Rightarrow> (validation_errors, unit) result" where
  "validate_state_id alnum s =
     (if s = [] then Err (add_error ''state_id'' ''State ID is required'' Required [])
      else
        let es = (if str_len s > 64
                  then add_error ''state_id'' ''State ID must be 64 characters or less'' MaxLength []
                  else []);
            es = (if \<not> list_all (\<lambda>c. alnum c \<or> c = hyphen \<or> c = underscore) s
                  then add_error ''state_id''
                    ''State ID must contain only alphanumeric characters, hyphens, and underscores''
                    Pattern es
                  else es)
        in finish es ())"

definition validate_label :: "(nat \<Rightarrow> bool) \<Rightarrow> ustr \<Rightarrow> (validation_errors, unit) result" where
  "validate_label alnum s =
     (if s = [] then Err (add_error ''label'' ''Label is required'' Required [])
      else
        let es = (if str_len s > 256
                  then add_error ''label'' ''Label must be 256 characters or less'' MaxLength []
                  else []);
            es = (if \<not> list_all (\<lambda>c. alnum c \<or> c = blank \<or> c = hyphen \<or> c = underscore) s
                  then add_error ''label''
                    ''Label must contain only alphanumeric characters, spaces, hyphens, and underscores''
                    Pattern es
                  else es)
        in finish es ())"

definition validate_region :: "(nat \<Rightarrow> bool) \<Rightarrow> ustr \<Rightarrow> (validation_errors, unit) result" where
  "validate_region alnum s =
     (if s = [] then Err (add_error ''region'' ''Region is required'' Required [])
      else
        let es = (if str_len s > 64
                  then add_error ''region'' ''Region must be 64 characters or less'' MaxLength []
                  else []);
            es = (if \<not> list_all (\<lambda>c. alnum c \<or> c = hyphen) s
                  then add_error ''region''
                    ''Region must contain only alphanumeric characters and hyphens'' Pattern es
                  else es)
        in finish es ())"

section \<open>Times to live\<close>

definition is_digit :: "nat \<Rightarrow> bool" where
  "is_digit c \<longleftrightarrow> 0x30 \<le> c \<and> c \<le> 0x39"

definition digits_value :: "ustr \<Rightarrow> nat" where
  "digits_value ds = foldl (\<lambda>n c. n * 10 + (c - 0x30)) 0 ds"

text \<open>\<^verbatim>\<open>parse::<u64>\<close> of a nonempty string of digits.\<close>

definition parse_u64 :: "ustr \<Rightarrow> nat option" where
  "parse_u64 ds = (if digits_value ds < 2 ^ 64 then Some (digits_value ds) else None)"

definition unit_factor :: "ustr \<Rightarrow> nat option" where
  "unit_factor u =
     (if u \<in> set (map ustr_of [''s'', ''sec'', ''secs'', ''second'', ''seconds'']) then Some 1
      else if u \<in> set (map ustr_of [''m'', ''min'', ''mins'', ''minute'', ''minutes'']) then Some 60
      else if u \<in> set (map ustr_of [''h'', ''hr'', ''hrs'', ''hour'', ''hours'']) then Some 3600
      else if u \<in> set (map ustr_of [''d'', ''day'', ''days'']) then Some 86400
      else if u \<in> set (map ustr_of [''w'', ''week'', ''weeks'']) then Some 604800
      else None)"

definition validate_ttl :: "ustr option \<Rightarrow> (validation_errors, nat option) result" where
  "validate_ttl ttl =
     (case ttl of
        None \<Rightarrow> Ok None
      | Some t \<Rightarrow>
          if t = [] then Ok None
          else
            let num = takeWhile is_digit t; rest = dropWhile is_digit t in
            if num = [] then Err (add_error ''ttl'' ''TTL must start with a number'' Format [])
            else
              (case parse_u64 num of
                 None \<Rightarrow> Err (add_error ''ttl'' ''Invalid TTL number'' Format [])
               | Some n \<Rightarrow>
                   (case unit_factor rest of
                      None \<Rightarrow> Err (add_error ''ttl''
                        ''Invalid TTL unit. Valid units: s, m, h, d, w'' Format [])
                    | Some f \<Rightarrow>
                        let seconds = (n * f) mod 2 ^ 64;
                            es = (if seconds < 60
                                  then add_error ''ttl'' ''TTL must be at least 1 minute'' Range []
                                  else []);
                            es = (if seconds > 365 * 86400
                                  then add_error ''ttl'' ''TTL must be at most 365 days'' Range es
                                  else es)
                        in finish es (Some seconds))))"

section \<open>Paths and machines\<close>

fun has_dot_dot :: "ustr \<Rightarrow> bool" where
  "has_dot_dot (a # b # s) \<longleftrightarrow> (a = 0x2E \<and> b = 0x2E) \<or> has_dot_dot (b # s)"
| "has_dot_dot _ \<longleftrightarrow> False"

definition validate_file_path :: "(ustr \<Rightarrow> ustr list option) \<Rightarrow> ustr \<Rightarrow> ustr \<Rightarrow>
    (validation_errors, unit) result" where
  "validate_file_path canonicalize path base =
     (if path = [] then Err (add_error ''path'' ''Path is required'' Required [])
      else
        let es = (if str_len path > 512
                  then add_error ''path'' ''Path must be 512 characters or less'' MaxLength []
                  else []);
            es = (if has_dot_dot path
                  then add_error ''path'' ''Path traversal (..) is not allowed'' PathTraversal es
                  else es);
            es = (case canonicalize path of
                    None \<Rightarrow> es
                  | Some c \<Rightarrow>
                      (case canonicalize base of
                         None \<Rightarrow> es
                       | Some b \<Rightarrow>
                           if take (length b) c \<noteq> b
                           then add_error ''path'' ''Path must be within the allowed directory''
                                  PathTraversal es
                           else es))
        in finish es ())"

definition validate_vm_config :: "u8 \<Rightarrow> u32 \<Rightarrow> (validation_errors, unit) result" where
  "validate_vm_config cpus mem =
     (let es = (if cpus < 1
                then add_error ''vcpus'' ''VM must have at least 1 vCPU'' Range [] else []);
          es = (if cpus > 128
                then add_error ''vcpus'' ''VM cannot have more than 128 vCPUs'' Range es else es);
          es = (if mem < 64
                then add_error ''memory_mb'' ''VM must have at least 64MB of memory'' Range es else es);
          es = (if mem > 1024 * 1024
                then add_error ''memory_mb'' ''VM cannot have more than 1TB of memory'' Range es else es)
      in finish es ())"

section \<open>Requests\<close>

definition validate_resume_mode :: "ustr \<Rightarrow> (validation_errors, unit) result" where
  "validate_resume_mode mode =
     (if mode \<notin> set (map ustr_of [''collaborative'', ''readonly'', ''debug''])
      then Err (add_error ''mode'' ''Invalid mode. Valid modes: collaborative, readonly, debug''
                  Pattern [])
      else Ok ())"

definition errors_of :: "(validation_errors, 'a) result \<Rightarrow> validation_errors" where
  "errors_of r = (case r of Inl es \<Rightarrow> es | Inr a \<Rightarrow> [])"

definition validate_snapshot_request :: "(nat \<Rightarrow> bool) \<Rightarrow> ustr \<Rightarrow> ustr option \<Rightarrow>
    (validation_errors, unit) result" where
  "validate_snapshot_request alnum label ttl =
     finish (errors_of (validate_label alnum label) @ errors_of (validate_ttl ttl)) ()"

definition validate_resume_request :: "(nat \<Rightarrow> bool) \<Rightarrow> ustr \<Rightarrow> ustr \<Rightarrow> ustr option \<Rightarrow>
    (validation_errors, unit) result" where
  "validate_resume_request alnum state_id mode region =
     finish (errors_of (validate_state_id alnum state_id) @ errors_of (validate_resume_mode mode)
       @ (case region of None \<Rightarrow> [] | Some r \<Rightarrow> errors_of (validate_region alnum r))) ()"

section \<open>Decimal numbers\<close>

text \<open>The decimal digits of a number, as the client writes them.\<close>

fun decimal :: "nat \<Rightarrow> ustr" where
  "decimal n = (if n < 10 then [0x30 + n] else decimal (n div 10) @ [0x30 + n mod 10])"

declare decimal.simps [simp del]

lemma is_digit_small: "k < 10 \<Longrightarrow> is_digit (0x30 + k)"
  by (simp add: is_digit_def)

lemma decimal_digits: "list_all is_digit (decimal n) \<and> decimal n \<noteq> []"
proof (induction n rule: decimal.induct)
  case (1 n)
  then show ?case by (subst (1 2) decimal.simps) (auto simp: is_digit_small simp del: add_numeral_left)
qed

lemma decimal_value [simp]: "digits_value (decimal n) = n"
proof (induction n rule: decimal.induct)
  case (1 n)
  show ?case
  proof (cases "n < 10")
    case False
    then have "digits_value (decimal n) = digits_value (decimal (n div 10)) * 10 + n mod 10"
      by (subst decimal.simps) (simp add: digits_value_def)
    then show ?thesis using 1 False by simp
  qed (subst decimal.simps, simp add: digits_value_def)
qed

text \<open>The names of the units with the seconds they stand for.\<close>

definition ttl_units :: "(string \<times> nat) list" where
  "ttl_units =
     [(''s'', 1), (''sec'', 1), (''secs'', 1), (''second'', 1), (''seconds'', 1),
      (''m'', 60), (''min'', 60), (''mins'', 60), (''minute'', 60), (''minutes'', 60),
      (''h'', 60 * 60), (''hr'', 60 * 60), (''hrs'', 60 * 60), (''hour'', 60 * 60), (''hours'', 60 * 60),
      (''d'', 24 * 60 * 60), (''day'', 24 * 60 * 60), (''days'', 24 * 60 * 60),
      (''w'', 7 * 24 * 60 * 60), (''week'', 7 * 24 * 60 * 60), (''weeks'', 7 * 24 * 60 * 60)]"

lemma unit_factor_iff: "unit_factor v = Some f \<longleftrightarrow> (\<exists>u. (u, f) \<in> set ttl_units \<and> v = ustr_of u)"
proof
  assume "unit_factor v = Some f"
  then show "\<exists>u. (u, f) \<in> set ttl_units \<and> v = ustr_of u"
    unfolding unit_factor_def ttl_units_def by (simp split: if_split_asm) blast+
next
  assume "\<exists>u. (u, f) \<in> set ttl_units \<and> v = ustr_of u"
  then obtain u where "(u, f) \<in> set ttl_units" "v = ustr_of u" by blast
  then show "unit_factor v = Some f" by (auto simp: ttl_units_def unit_factor_def ustr_of_def)
qed

lemma unit_names:
  "unit_factor u = Some f \<Longrightarrow> u \<in> ustr_of ` {''s'', ''sec'', ''secs'', ''second'', ''seconds'', ''m'', ''min'',
     ''mins'', ''minute'', ''minutes'', ''h'', ''hr'', ''hrs'', ''hour'', ''hours'', ''d'', ''day'', ''days'',
     ''w'', ''week'', ''weeks''}"
  unfolding unit_factor_def by (simp split: if_split_asm) blast+

lemma unit_no_digit: "unit_factor u = Some f \<Longrightarrow> u \<noteq> [] \<and> \<not> is_digit (hd u)"
  by (drule unit_names) (elim imageE insertE, simp_all add: ustr_of_def is_digit_def)

lemma split_number:
  assumes "unit_factor u = Some f" "list_all is_digit ds"
  shows "takeWhile is_digit (ds @ u) = ds" "dropWhile is_digit (ds @ u) = u"
proof -
  obtain c cs where u: "u = c # cs" "\<not> is_digit c" using unit_no_digit [OF assms(1)] by (cases u) auto
  then show "takeWhile is_digit (ds @ u) = ds" "dropWhile is_digit (ds @ u) = u"
    using assms(2) by (simp_all add: takeWhile_append2 dropWhile_append2 list_all_iff)
qed

lemma ttl_checks:
  assumes "takeWhile is_digit t = ds" "dropWhile is_digit t = v"
  shows "validate_ttl (Some t) = Ok (Some s) \<longleftrightarrow> ds \<noteq> [] \<and> digits_value ds < 2 ^ 64 \<and>
    (\<exists>f. unit_factor v = Some f \<and> s = (digits_value ds * f) mod 2 ^ 64 \<and> 60 \<le> s \<and> s \<le> 365 * 86400)"
proof (cases "unit_factor v")
  case None
  then show ?thesis using assms by (simp add: validate_ttl_def parse_u64_def Let_def)
next
  case (Some f)
  define m where "m = (digits_value ds * f) mod 2 ^ 64"
  show ?thesis using assms Some
    by (cases "t = []"; cases "m < 60"; cases "365 * 86400 < m")
      (auto simp: validate_ttl_def parse_u64_def finish_def add_error_def Let_def m_def [symmetric])
qed

lemma ttl_value:
  assumes "unit_factor u = Some f" "n < 2 ^ 64"
  shows "validate_ttl (Some (decimal n @ u)) = Ok (Some s) \<longleftrightarrow>
    s = (n * f) mod 2 ^ 64 \<and> 60 \<le> s \<and> s \<le> 365 * 86400"
  using assms split_number [OF assms(1) conjunct1 [OF decimal_digits], of n] decimal_digits [of n]
  by (auto simp: ttl_checks)

section \<open>What validation promises\<close>

text \<open>C37. The TTLs accepted are exactly these, among all strings: a nonempty run of digits whose
  value fits in 64 bits, followed by one of the 21 names of units, with a time (the value times
  the unit, modulo 2^64) between one minute and 365 days; the answer is that time in seconds.\<close>

theorem ttl_exact:
  "validate_ttl (Some t) = Ok (Some s) \<longleftrightarrow>
    (\<exists>ds u f. t = ds @ ustr_of u \<and> (u, f) \<in> set ttl_units \<and> ds \<noteq> [] \<and> list_all is_digit ds \<and>
       digits_value ds < 2 ^ 64 \<and> s = (digits_value ds * f) mod 2 ^ 64 \<and>
       60 \<le> s \<and> s \<le> 365 * 86400)" (is "?l \<longleftrightarrow> ?r")
proof
  assume l: ?l
  let ?ds = "takeWhile is_digit t" and ?v = "dropWhile is_digit t"
  from iffD1 [OF ttl_checks [OF refl refl] l] obtain f where
    c: "?ds \<noteq> []" "digits_value ?ds < 2 ^ 64" "unit_factor ?v = Some f"
      "s = (digits_value ?ds * f) mod 2 ^ 64" "60 \<le> s" "s \<le> 365 * 86400"
    by (elim conjE exE) (rule that)
  obtain u where u: "(u, f) \<in> set ttl_units" "?v = ustr_of u"
    using c(3) unfolding unit_factor_iff by (elim exE conjE) (rule that)
  have "list_all is_digit ?ds" by (auto simp: list_all_iff dest: set_takeWhileD)
  moreover have "t = ?ds @ ustr_of u" by (simp add: u(2) [symmetric])
  ultimately show ?r using c u(1)
    by (intro exI [of _ ?ds] exI [of _ u] exI [of _ f] conjI)
next
  assume ?r
  then obtain ds u f where t: "t = ds @ ustr_of u" and u: "unit_factor (ustr_of u) = Some f"
    and ds: "ds \<noteq> []" "list_all is_digit ds" "digits_value ds < 2 ^ 64"
    and s: "s = (digits_value ds * f) mod 2 ^ 64" "60 \<le> s" "s \<le> 365 * 86400"
    unfolding unit_factor_iff by blast
  show ?l using split_number [OF u ds(2)] ds s u unfolding t by (simp add: ttl_checks)
qed

text \<open>Beyond 64 bits the multiplication wraps and absurd times are accepted: 2^57 + k weeks,
  more than ten billion years, pass the check as k weeks.\<close>

theorem ttl_wraps:
  assumes "1 \<le> k" "k \<le> 52"
  shows "validate_ttl (Some (decimal (2 ^ 57 + k) @ ustr_of ''w'')) = Ok (Some (k * 604800)) \<and>
    365 * 86400 < (2 ^ 57 + k) * 604800"
proof
  have u: "unit_factor (ustr_of ''w'') = Some 604800" by (simp add: unit_factor_def ustr_of_def)
  have "(2 ^ 57 + k) * 604800 = k * 604800 + 4725 * 2 ^ 64" by simp
  then have "((2 ^ 57 + k) * 604800) mod 2 ^ 64 = (k * 604800) mod 2 ^ 64"
    by (metis mod_mult_self1)
  also have "\<dots> = k * 604800" using assms by simp
  finally show "validate_ttl (Some (decimal (2 ^ 57 + k) @ ustr_of ''w'')) = Ok (Some (k * 604800))"
    using assms by (subst ttl_value [OF u]) simp_all
qed (use assms in simp)

lemma ttl_wraps_witness:
  "validate_ttl (Some (decimal (2 ^ 57 + 1) @ ustr_of ''w'')) = Ok (Some 604800)"
  using ttl_wraps [of 1] by simp

definition ascii_alnum_ok :: "(nat \<Rightarrow> bool) \<Rightarrow> bool" where
  "ascii_alnum_ok alnum \<longleftrightarrow>
     (\<forall>c<128. alnum c \<longleftrightarrow> (0x30 \<le> c \<and> c \<le> 0x39) \<or> (0x41 \<le> c \<and> c \<le> 0x5A) \<or> (0x61 \<le> c \<and> c \<le> 0x7A))"

text \<open>A state id that passes the validation of a resume request is safe as one component of a
  path or a URL: it is not empty, has at most 64 bytes, and contains no ASCII character but
  letters, digits, the hyphen and the underscore, so no dot, slash, backslash or NUL.\<close>

theorem resume_state_id_safe:
  assumes "ascii_alnum_ok alnum" "validate_resume_request alnum state_id mode region = Ok u"
  shows "state_id \<noteq> [] \<and> length state_id \<le> 64 \<and>
    set state_id \<inter> {0x00, 0x2E, 0x2F, 0x5C} = {} \<and>
    mode \<in> set (map ustr_of [''collaborative'', ''readonly'', ''debug''])"
proof -
  have e: "errors_of (validate_state_id alnum state_id) = []" "errors_of (validate_resume_mode mode) = []"
    using assms(2) by (auto simp: validate_resume_request_def finish_def split: if_splits)
  then have s: "state_id \<noteq> []" "str_len state_id \<le> 64"
    "\<forall>c\<in>set state_id. alnum c \<or> c = hyphen \<or> c = underscore"
    by (auto simp: errors_of_def validate_state_id_def add_error_def finish_def Let_def list_all_iff
        split: if_splits)
  have "length state_id \<le> str_len state_id"
    unfolding str_len_def by (induction state_id) (auto simp: utf8_size_def)
  moreover have "c \<notin> {0x00, 0x2E, 0x2F, 0x5C}" if "c \<in> set state_id" for c
  proof -
    have "alnum c \<or> c = 0x2D \<or> c = 0x5F" using s(3) that by (auto simp: hyphen_def underscore_def)
    moreover have "c < 128 \<Longrightarrow> alnum c \<Longrightarrow> c \<notin> {0x00, 0x2E, 0x2F, 0x5C}"
      using assms(1) unfolding ascii_alnum_ok_def by auto
    ultimately show ?thesis by (cases "c < 128") auto
  qed
  moreover have "mode \<in> set (map ustr_of [''collaborative'', ''readonly'', ''debug''])"
    using e(2) by (auto simp: validate_resume_mode_def errors_of_def add_error_def split: if_splits)
  ultimately show ?thesis using s by auto
qed

lemma resume_state_id_safe_witness:
  "set (ustr_of ''a-1'') \<inter> {0x00, 0x2E, 0x2F, 0x5C} = {}"
proof -
  let ?alnum = "\<lambda>c :: nat. (0x30 \<le> c \<and> c \<le> 0x39) \<or> (0x41 \<le> c \<and> c \<le> 0x5A) \<or> (0x61 \<le> c \<and> c \<le> 0x7A)"
  have "ascii_alnum_ok ?alnum" by (simp add: ascii_alnum_ok_def)
  moreover have "validate_resume_request ?alnum (ustr_of ''a-1'') (ustr_of ''debug'') None = Ok ()"
    by (simp add: validate_resume_request_def validate_state_id_def validate_resume_mode_def
        errors_of_def finish_def ustr_of_def str_len_def utf8_size_def hyphen_def)
  ultimately show ?thesis using resume_state_id_safe by blast
qed

end
