(* ===== verification/Search.thy ===== *)
theory Search
  imports Validation
begin

text \<open>
  \<^verbatim>\<open>src/src/state_search.rs\<close>: the search index over states, with its two inverted indexes, and
  the query with filters, sorting and pagination.  Labels, tags and words are lists of code
  points; \<^verbatim>\<open>to_lowercase\<close> and \<^verbatim>\<open>is_alphanumeric\<close> on Unicode are the parameters \<open>lower\<close> and
  \<open>alnum\<close>.  A hash set of states is the list of its elements.  Page numbers are 32-bit words;
  the panics of a page size 0 (division) and of a page beyond the results (slicing) are \<open>None\<close>.
\<close>

datatype sort_field = CreatedAt | ByLabel | BySize
datatype sort_order = Asc | Desc

record search_query =
  sq_query :: "ustr option"
  sq_tags :: "ustr list option"
  sq_after :: "datetime option"
  sq_before :: "datetime option"
  sq_sort :: sort_field
  sq_order :: sort_order
  sq_page :: u32
  sq_page_size :: u32

definition query_default :: search_query where
  "query_default = \<lparr>sq_query = None, sq_tags = None, sq_after = None, sq_before = None,
     sq_sort = CreatedAt, sq_order = Desc, sq_page = 0, sq_page_size = 20\<rparr>"

record index_entry =
  ie_id :: state_id
  ie_label :: ustr
  ie_tags :: "ustr list"
  ie_created :: datetime
  ie_size :: nat
  ie_owner :: string

record search_result =
  sr_total :: nat
  sr_page :: u32
  sr_page_size :: u32
  sr_total_pages :: u32
  sr_results :: "index_entry list"

record search_index =
  si_entries :: "(state_id, index_entry) hmap"
  si_labels :: "(ustr, state_id list) hmap"
  si_tags :: "(ustr, state_id list) hmap"

definition index_new :: search_index where
  "index_new = \<lparr>si_entries = [], si_labels = [], si_tags = []\<rparr>"

text \<open>\<^verbatim>\<open>split\<close> on the characters that are not alphanumeric, dropping words below two bytes.\<close>

fun split_words :: "(nat \<Rightarrow> bool) \<Rightarrow> ustr \<Rightarrow> ustr \<Rightarrow> ustr list" where
  "split_words alnum w [] = [w]"
| "split_words alnum w (c # cs) =
     (if alnum c then split_words alnum (w @ [c]) cs else w # split_words alnum [] cs)"

definition tokenize :: "(ustr \<Rightarrow> ustr) \<Rightarrow> (nat \<Rightarrow> bool) \<Rightarrow> ustr \<Rightarrow> ustr list" where
  "tokenize lower alnum text =
     filter (\<lambda>w. w \<noteq> [] \<and> str_len w \<ge> 2) (split_words alnum [] (lower text))"

section \<open>The inverted indexes\<close>

definition add_ids :: "ustr list \<Rightarrow> state_id \<Rightarrow> (ustr, state_id list) hmap \<Rightarrow> (ustr, state_id list) hmap" where
  "add_ids ws i m = fold (\<lambda>w. hm_entry w [] (push_new i)) ws m"

definition drop_id :: "state_id \<Rightarrow> ustr \<Rightarrow> (ustr, state_id list) hmap \<Rightarrow> (ustr, state_id list) hmap" where
  "drop_id i w m =
     (case hm_get m w of
        None \<Rightarrow> m
      | Some s \<Rightarrow>
          let s' = removeAll i s in if s' = [] then hm_remove w m else hm_insert w s' m)"

definition drop_ids :: "ustr list \<Rightarrow> state_id \<Rightarrow> (ustr, state_id list) hmap \<Rightarrow> (ustr, state_id list) hmap" where
  "drop_ids ws i m = fold (drop_id i) ws m"

definition remove_state :: "(ustr \<Rightarrow> ustr list) \<Rightarrow> state_id \<Rightarrow> search_index \<Rightarrow> search_index" where
  "remove_state tok i ix =
     (case hm_get (si_entries ix) i of
        None \<Rightarrow> ix
      | Some e \<Rightarrow>
          ix\<lparr>si_labels := drop_ids (tok (ie_label e)) i (si_labels ix),
             si_tags := drop_ids (ie_tags e) i (si_tags ix),
             si_entries := hm_remove i (si_entries ix)\<rparr>)"

definition index_state :: "(ustr \<Rightarrow> ustr list) \<Rightarrow> index_entry \<Rightarrow> search_index \<Rightarrow> search_index" where
  "index_state tok e ix =
     (let i = ie_id e; ix = remove_state tok i ix
      in ix\<lparr>si_entries := hm_insert i e (si_entries ix),
            si_labels := add_ids (tok (ie_label e)) i (si_labels ix),
            si_tags := add_ids (ie_tags e) i (si_tags ix)\<rparr>)"

section \<open>Queries\<close>

definition match_text :: "(ustr \<Rightarrow> ustr list) \<Rightarrow> search_query \<Rightarrow> index_entry \<Rightarrow> bool" where
  "match_text tok q e =
     (case sq_query q of
        None \<Rightarrow> True
      | Some t \<Rightarrow> list_ex (\<lambda>w. w \<in> set (tok (ie_label e))) (tok t))"

definition match_tags :: "search_index \<Rightarrow> search_query \<Rightarrow> index_entry \<Rightarrow> bool" where
  "match_tags ix q e =
     (case sq_tags q of
        None \<Rightarrow> True
      | Some tags \<Rightarrow>
          list_all (\<lambda>t. t \<in> set (ie_tags e) \<or>
            (case hm_get (si_tags ix) t of None \<Rightarrow> False | Some s \<Rightarrow> ie_id e \<in> set s)) tags)"

definition match_dates :: "search_query \<Rightarrow> index_entry \<Rightarrow> bool" where
  "match_dates q e \<longleftrightarrow>
     (case sq_after q of None \<Rightarrow> True | Some t \<Rightarrow> ie_created e \<ge> t) \<and>
     (case sq_before q of None \<Rightarrow> True | Some t \<Rightarrow> ie_created e \<le> t)"

fun lex_le :: "ustr \<Rightarrow> ustr \<Rightarrow> bool" where
  "lex_le [] t \<longleftrightarrow> True"
| "lex_le (a # s) [] \<longleftrightarrow> False"
| "lex_le (a # s) (b # t) \<longleftrightarrow> a < b \<or> (a = b \<and> lex_le s t)"

definition field_le :: "sort_field \<Rightarrow> index_entry \<Rightarrow> index_entry \<Rightarrow> bool" where
  "field_le f a b =
     (case f of
        CreatedAt \<Rightarrow> ie_created a \<le> ie_created b
      | ByLabel \<Rightarrow> lex_le (ie_label a) (ie_label b)
      | BySize \<Rightarrow> ie_size a \<le> ie_size b)"

definition query_le :: "search_query \<Rightarrow> index_entry \<Rightarrow> index_entry \<Rightarrow> bool" where
  "query_le q a b =
     (case sq_order q of Asc \<Rightarrow> field_le (sq_sort q) a b | Desc \<Rightarrow> field_le (sq_sort q) b a)"

text \<open>\<^verbatim>\<open>sort_by\<close> is stable; so is insertion sort.\<close>

fun insert_by :: "('a \<Rightarrow> 'a \<Rightarrow> bool) \<Rightarrow> 'a \<Rightarrow> 'a list \<Rightarrow> 'a list" where
  "insert_by le x [] = [x]"
| "insert_by le x (y # ys) = (if le x y then x # y # ys else y # insert_by le x ys)"

definition sort_by :: "('a \<Rightarrow> 'a \<Rightarrow> bool) \<Rightarrow> 'a list \<Rightarrow> 'a list" where
  "sort_by le xs = foldr (insert_by le) xs []"

definition matching :: "(ustr \<Rightarrow> ustr list) \<Rightarrow> search_query \<Rightarrow> search_index \<Rightarrow> index_entry list" where
  "matching tok q ix =
     filter (match_dates q) (filter (match_tags ix q) (filter (match_text tok q) (hm_values (si_entries ix))))"

definition search :: "(ustr \<Rightarrow> ustr list) \<Rightarrow> search_query \<Rightarrow> search_index \<Rightarrow> search_result option" where
  "search tok q ix =
     (let ms = sort_by (query_le q) (matching tok q ix); total = length ms in
      if sq_page_size q = 0 then None
      else
        let total_pages = ((of_nat total :: u32) + sq_page_size q - 1) div sq_page_size q;
            start = unat (sq_page q * sq_page_size q);
            end_pos = min (start + unat (sq_page_size q)) total
        in if start > end_pos then None
           else Some \<lparr>sr_total = total, sr_page = sq_page q, sr_page_size = sq_page_size q,
                      sr_total_pages = total_pages,
                      sr_results = take (end_pos - start) (drop start ms)\<rparr>)"

record index_stats =
  is_states :: nat
  is_words :: nat
  is_tags :: nat

definition search_get_stats :: "search_index \<Rightarrow> index_stats" where
  "search_get_stats ix = \<lparr>is_states = hm_len (si_entries ix), is_words = hm_len (si_labels ix),
     is_tags = hm_len (si_tags ix)\<rparr>"

section \<open>The indexes are exact\<close>

definition ids_at :: "(ustr, state_id list) hmap \<Rightarrow> ustr \<Rightarrow> state_id set" where
  "ids_at m w = (case hm_get m w of None \<Rightarrow> {} | Some s \<Rightarrow> set s)"

definition no_empty :: "(ustr, state_id list) hmap \<Rightarrow> bool" where
  "no_empty m \<longleftrightarrow> (\<forall>w. hm_get m w \<noteq> Some [])"

lemma ids_at_add: "ids_at (add_ids ws i m) w = ids_at m w \<union> (if w \<in> set ws then {i} else {})"
proof (induction ws arbitrary: m)
  case (Cons v ws)
  have "ids_at (hm_entry v [] (push_new i) m) w = ids_at m w \<union> (if w = v then {i} else {})"
    by (auto simp: ids_at_def split: option.splits)
  then show ?case using Cons by (auto simp: add_ids_def)
qed (simp add: add_ids_def)

lemma no_empty_add: "no_empty m \<Longrightarrow> no_empty (add_ids ws i m)"
proof (induction ws arbitrary: m)
  case (Cons v ws)
  have "push_new i s \<noteq> []" for s by (auto simp: push_new_def)
  then have "no_empty (hm_entry v [] (push_new i) m)" using Cons.prems by (auto simp: no_empty_def)
  then show ?case using Cons by (simp add: add_ids_def)
qed (simp add: add_ids_def)

lemma drop_id_spec:
  "ids_at (drop_id i v m) w = ids_at m w - (if w = v then {i} else {})"
  "no_empty m \<Longrightarrow> no_empty (drop_id i v m)"
  by (auto simp: drop_id_def ids_at_def no_empty_def Let_def removeAll_id split: option.splits)
    (auto simp: removeAll_filter_not_eq filter_empty_conv)

lemma ids_at_drop: "ids_at (drop_ids ws i m) w = ids_at m w - (if w \<in> set ws then {i} else {})"
  by (induction ws arbitrary: m) (auto simp: drop_ids_def drop_id_spec)

lemma no_empty_drop: "no_empty m \<Longrightarrow> no_empty (drop_ids ws i m)"
  by (induction ws arbitrary: m) (auto simp: drop_ids_def drop_id_spec)

text \<open>An inverted index agrees with the words (or tags) of the entries.\<close>

definition inverts :: "(index_entry \<Rightarrow> ustr list) \<Rightarrow> (state_id, index_entry) hmap \<Rightarrow>
    (ustr, state_id list) hmap \<Rightarrow> bool" where
  "inverts words es m \<longleftrightarrow> no_empty m \<and>
     (\<forall>w. ids_at m w = {i. \<exists>e. hm_get es i = Some e \<and> w \<in> set (words e)})"

definition index_ok :: "(ustr \<Rightarrow> ustr list) \<Rightarrow> search_index \<Rightarrow> bool" where
  "index_ok tok ix \<longleftrightarrow> hm_ok (si_entries ix) \<and>
     (\<forall>i e. hm_get (si_entries ix) i = Some e \<longrightarrow> ie_id e = i) \<and>
     inverts (tok \<circ> ie_label) (si_entries ix) (si_labels ix) \<and>
     inverts ie_tags (si_entries ix) (si_tags ix)"

lemma inverts_remove:
  "inverts words es m \<Longrightarrow> hm_get es i = Some e \<Longrightarrow> inverts words (hm_remove i es) (drop_ids (words e) i m)"
  by (auto simp: inverts_def no_empty_drop ids_at_drop split: if_splits)

lemma inverts_insert:
  "inverts words es m \<Longrightarrow> hm_get es i = None \<Longrightarrow> inverts words (hm_insert i e es) (add_ids (words e) i m)"
  by (auto simp: inverts_def no_empty_add ids_at_add split: if_splits)

lemma remove_state_ok: "index_ok tok ix \<Longrightarrow> index_ok tok (remove_state tok i ix)"
  using inverts_remove [of "tok \<circ> ie_label"] inverts_remove [of ie_tags]
  by (auto simp: index_ok_def remove_state_def split: option.splits if_splits)

lemma remove_state_gone: "hm_get (si_entries (remove_state tok i ix)) i = None"
  by (simp add: remove_state_def split: option.splits)

lemma index_state_ok: "index_ok tok ix \<Longrightarrow> index_ok tok (index_state tok e ix)"
  using inverts_insert [of "tok \<circ> ie_label" _ _ "ie_id e" e] inverts_insert [of ie_tags _ _ "ie_id e" e]
    remove_state_ok [of tok ix "ie_id e"] remove_state_gone [of tok "ie_id e" ix]
  by (auto simp: index_ok_def index_state_def Let_def split: if_splits)

datatype index_op = IndexState index_entry | RemoveState state_id

fun index_step :: "(ustr \<Rightarrow> ustr list) \<Rightarrow> index_op \<Rightarrow> search_index \<Rightarrow> search_index" where
  "index_step tok (IndexState e) ix = index_state tok e ix"
| "index_step tok (RemoveState i) ix = remove_state tok i ix"

lemma index_run_ok: "index_ok tok ix \<Longrightarrow> index_ok tok (fold (index_step tok) ops ix)"
proof (induction ops arbitrary: ix)
  case (Cons op ops)
  then show ?case by (cases op) (simp_all add: index_state_ok remove_state_ok)
qed simp

lemma index_new_ok: "index_ok tok index_new"
  by (simp add: index_ok_def index_new_def inverts_def no_empty_def ids_at_def)

section \<open>Sorting\<close>

lemma mset_insert_by [simp]: "mset (insert_by le x xs) = add_mset x (mset xs)"
  by (induction xs) simp_all

lemma mset_sort_by [simp]: "mset (sort_by le xs) = mset xs"
  by (induction xs) (simp_all add: sort_by_def)

lemma length_sort_by [simp]: "length (sort_by le xs) = length xs"
  by (metis mset_sort_by size_mset)

lemma set_insert_by [simp]: "set (insert_by le x xs) = insert x (set xs)"
  by (induction xs) auto

lemma sorted_insert_by:
  assumes "\<And>x y. le x y \<or> le y x" "\<And>x y z. le x y \<Longrightarrow> le y z \<Longrightarrow> le x z" "sorted_wrt le xs"
  shows "sorted_wrt le (insert_by le x xs)"
  using assms(3)
proof (induction xs)
  case (Cons y ys)
  show ?case
  proof (cases "le x y")
    case True
    then show ?thesis using Cons.prems assms(2) [OF True] by auto
  next
    case False
    then have "le y x" using assms(1) by blast
    then show ?thesis using Cons False by auto
  qed
qed simp

lemma sorted_sort_by:
  assumes "\<And>x y. le x y \<or> le y x" "\<And>x y z. le x y \<Longrightarrow> le y z \<Longrightarrow> le x z"
  shows "sorted_wrt le (sort_by le xs)"
proof (induction xs)
  case (Cons x xs)
  then show ?case using sorted_insert_by [where xs = "sort_by le xs" and x = x, OF assms] by (simp add: sort_by_def)
qed (simp add: sort_by_def)

lemma lex_le_total: "lex_le s t \<or> lex_le t s"
  by (induction s t rule: lex_le.induct) auto

lemma lex_le_trans: "lex_le s t \<Longrightarrow> lex_le t u \<Longrightarrow> lex_le s u"
proof (induction s t arbitrary: u rule: lex_le.induct)
  case (3 a s b t)
  then show ?case by (cases u) auto
qed auto

lemma field_le_total: "field_le f a b \<or> field_le f b a"
  using lex_le_total by (cases f) (auto simp: field_le_def)

lemma field_le_trans: "field_le f a b \<Longrightarrow> field_le f b c \<Longrightarrow> field_le f a c"
  using lex_le_trans by (cases f) (auto simp: field_le_def)

lemma sorted_query: "sorted_wrt (query_le q) (sort_by (query_le q) xs)"
  by (rule sorted_sort_by) (use field_le_total field_le_trans in \<open>auto simp: query_le_def split: sort_order.splits\<close>)

section \<open>What the index promises\<close>

text \<open>The inverted indexes are exact: after any run of indexing and removals, a state is listed
  under a word exactly when it is indexed with a label that contains the word, and under a tag
  exactly when it is indexed with that tag; no key is left with an empty set.\<close>

theorem inverted_indexes_exact:
  "let ix = fold (index_step tok) ops index_new in
     (\<forall>w. ids_at (si_labels ix) w = {i. \<exists>e. hm_get (si_entries ix) i = Some e \<and> w \<in> set (tok (ie_label e))}) \<and>
     (\<forall>t. ids_at (si_tags ix) t = {i. \<exists>e. hm_get (si_entries ix) i = Some e \<and> t \<in> set (ie_tags e)}) \<and>
     no_empty (si_labels ix) \<and> no_empty (si_tags ix)"
  using index_run_ok [OF index_new_ok, of tok ops] by (simp add: index_ok_def inverts_def Let_def)

text \<open>An entry answers a query when it has a word of the text, all the tags, and a date in range.\<close>

definition answers :: "(ustr \<Rightarrow> ustr list) \<Rightarrow> search_query \<Rightarrow> index_entry \<Rightarrow> bool" where
  "answers tok q e \<longleftrightarrow> match_text tok q e \<and>
     (case sq_tags q of None \<Rightarrow> True | Some ts \<Rightarrow> set ts \<subseteq> set (ie_tags e)) \<and> match_dates q e"

lemma match_tags_exact:
  assumes "index_ok tok ix" "e \<in> set (hm_values (si_entries ix))"
  shows "match_tags ix q e \<longleftrightarrow> (case sq_tags q of None \<Rightarrow> True | Some ts \<Rightarrow> set ts \<subseteq> set (ie_tags e))"
proof -
  have hm: "hm_ok (si_entries ix)" using assms(1) by (simp add: index_ok_def)
  then obtain i where i: "hm_get (si_entries ix) i = Some e" using assms(2) by (auto simp: hm_values_iff)
  then have "ie_id e = i" using assms(1) by (simp add: index_ok_def)
  have "ids_at (si_tags ix) t = {i. \<exists>e. hm_get (si_entries ix) i = Some e \<and> t \<in> set (ie_tags e)}" for t
    using assms(1) by (simp add: index_ok_def inverts_def)
  then have "i \<in> ids_at (si_tags ix) t \<longleftrightarrow> t \<in> set (ie_tags e)" for t using i by simp
  moreover have "(case hm_get (si_tags ix) t of None \<Rightarrow> False | Some s \<Rightarrow> ie_id e \<in> set s)
      \<longleftrightarrow> i \<in> ids_at (si_tags ix) t" for t
    using \<open>ie_id e = i\<close> by (simp add: ids_at_def split: option.split)
  ultimately have "(case hm_get (si_tags ix) t of None \<Rightarrow> False | Some s \<Rightarrow> ie_id e \<in> set s)
      \<longleftrightarrow> t \<in> set (ie_tags e)" for t
    by simp
  then show ?thesis by (auto simp: match_tags_def list_all_iff split: option.splits)
qed



end
