(* ===== verification/Orchestration.thy ===== *)
theory Orchestration
  imports Model F32
begin

text \<open>
  \<^verbatim>\<open>src/src/orchestration.rs\<close>: edge nodes, their health and the placement of VMs.  Scores are
  32-bit floats (theory \<open>F32\<close>; finite values only); counters are 32-bit words.  The loop of
  health checks is modelled with the lock on the nodes, whose read guard it holds while it calls
  methods that take the write lock; the outcomes of the HTTP requests are an argument.
\<close>

record node_config =
  nc_id :: string
  nc_address :: string
  nc_region :: string
  nc_max_vms :: u32
  nc_interval :: u64

datatype node_status = Healthy | Degraded | Unhealthy | Draining

record edge_node =
  en_config :: node_config
  en_status :: node_status
  en_vms :: u32
  en_memory :: u32
  en_cpu :: f32
  en_last_check :: "datetime option"
  en_latency :: f32

record node_health =
  nh_vms :: u32
  nh_memory :: u32
  nh_cpu :: f32
  nh_disk :: u32
  nh_rx :: f32
  nh_tx :: f32

record region =
  rg_id :: string
  rg_name :: string
  rg_nodes :: "string list"
  rg_total :: u32
  rg_used :: u32

definition node_new :: "node_config \<Rightarrow> edge_node" where
  "node_new cfg = \<lparr>en_config = cfg, en_status = Healthy, en_vms = 0, en_memory = 0, en_cpu = 0,
     en_last_check = None, en_latency = 0\<rparr>"

definition can_accept :: "edge_node \<Rightarrow> bool" where
  "can_accept n \<longleftrightarrow> en_status n = Healthy \<and> en_vms n < nc_max_vms (en_config n)"

definition f32_const :: "rat \<Rightarrow> f32" where "f32_const x = f32_round x"

definition placement_score :: "edge_node \<Rightarrow> f32" where
  "placement_score n =
     (if \<not> can_accept n then 0
      else
        let capacity = f32_sub 1 (f32_div (f32_of_nat (unat (en_vms n)))
                                          (f32_of_nat (unat (nc_max_vms (en_config n)))));
            memory = min (f32_div (f32_of_nat (unat (en_memory n))) 8192) 1;
            cpu = f32_sub 1 (en_cpu n);
            latency = f32_sub 1 (min (f32_div (en_latency n) 100) 1)
        in f32_add (f32_add (f32_add (f32_mul capacity (f32_const (3 / 10)))
                                     (f32_mul memory (f32_const (3 / 10))))
                            (f32_mul cpu (f32_const (2 / 10))))
             (f32_mul latency (f32_const (2 / 10))))"

definition update_health :: "datetime \<Rightarrow> node_health \<Rightarrow> edge_node \<Rightarrow> edge_node" where
  "update_health now h n =
     n\<lparr>en_vms := nh_vms h, en_memory := nh_memory h, en_cpu := nh_cpu h, en_last_check := Some now,
       en_status :=
         (if nh_cpu h > f32_const (9 / 10) \<or> nh_memory h < 512 then Degraded
          else if nh_cpu h > f32_const (95 / 100) \<or> nh_memory h < 256 then Unhealthy
          else Healthy)\<rparr>"

section \<open>The orchestrator\<close>

record orchestrator =
  or_nodes :: "(string, edge_node) hmap"
  or_regions :: "(string, region) hmap"
  or_local :: string

definition orchestrator_new :: "string \<Rightarrow> orchestrator" where
  "orchestrator_new local_id = \<lparr>or_nodes = [], or_regions = [], or_local = local_id\<rparr>"

definition region_new :: "string \<Rightarrow> region" where
  "region_new r = \<lparr>rg_id = r, rg_name = r, rg_nodes = [], rg_total = 0, rg_used = 0\<rparr>"

definition register_node :: "edge_node \<Rightarrow> orchestrator \<Rightarrow> orchestrator" where
  "register_node n orch =
     (let i = nc_id (en_config n); r = nc_region (en_config n)
      in orch\<lparr>or_nodes := hm_insert i n (or_nodes orch),
              or_regions := hm_entry r (region_new r) (\<lambda>x. x\<lparr>rg_nodes := rg_nodes x @ [i]\<rparr>)
                              (or_regions orch)\<rparr>)"

definition deregister_node :: "string \<Rightarrow> orchestrator \<Rightarrow> orchestrator" where
  "deregister_node i orch =
     (case hm_get (or_nodes orch) i of
        None \<Rightarrow> orch
      | Some n \<Rightarrow>
          orch\<lparr>or_nodes := hm_remove i (or_nodes orch),
               or_regions := hm_modify (nc_region (en_config n))
                 (\<lambda>x. x\<lparr>rg_nodes := filter (\<lambda>k. k \<noteq> i) (rg_nodes x)\<rparr>) (or_regions orch)\<rparr>)"

text \<open>\<^verbatim>\<open>Iterator::max_by\<close> returns the last of several maximal elements.\<close>

fun max_by :: "('a \<Rightarrow> rat) \<Rightarrow> 'a list \<Rightarrow> 'a option" where
  "max_by f [] = None"
| "max_by f (x # xs) = Some (foldl (\<lambda>best y. if f best > f y then best else y) x xs)"

definition candidate :: "string option \<Rightarrow> edge_node \<Rightarrow> bool" where
  "candidate pref n \<longleftrightarrow>
     (case pref of Some r \<Rightarrow> nc_region (en_config n) = r \<and> can_accept n | None \<Rightarrow> can_accept n)"

definition find_best_node :: "string option \<Rightarrow> orchestrator \<Rightarrow> edge_node option" where
  "find_best_node pref orch = max_by placement_score (filter (candidate pref) (hm_values (or_nodes orch)))"

definition get_nodes_in_region :: "string \<Rightarrow> orchestrator \<Rightarrow> edge_node list" where
  "get_nodes_in_region r orch =
     filter (\<lambda>n. nc_region (en_config n) = r) (hm_values (or_nodes orch))"

definition get_regions :: "orchestrator \<Rightarrow> region list" where
  "get_regions orch = hm_values (or_regions orch)"

definition update_node_health :: "datetime \<Rightarrow> string \<Rightarrow> node_health \<Rightarrow> orchestrator \<Rightarrow> orchestrator" where
  "update_node_health now i h orch =
     orch\<lparr>or_nodes := hm_modify i (update_health now h) (or_nodes orch)\<rparr>"

text \<open>The failure count lives in the last decimal digit of the number of VMs.\<close>

definition increment_failure_count :: "string \<Rightarrow> orchestrator \<Rightarrow> orchestrator \<times> u32" where
  "increment_failure_count i orch =
     (case hm_get (or_nodes orch) i of
        None \<Rightarrow> (orch, 0)
      | Some n \<Rightarrow>
          let new_count = en_vms n mod 10 + 1 in
          (orch\<lparr>or_nodes := hm_insert i (n\<lparr>en_vms := (en_vms n div 10) * 10 + new_count\<rparr>)
                  (or_nodes orch)\<rparr>, new_count))"

definition reset_failure_count :: "string \<Rightarrow> orchestrator \<Rightarrow> orchestrator" where
  "reset_failure_count i orch =
     orch\<lparr>or_nodes := hm_modify i (\<lambda>n. n\<lparr>en_vms := (en_vms n div 10) * 10\<rparr>) (or_nodes orch)\<rparr>"

definition mark_node_unhealthy :: "string \<Rightarrow> orchestrator \<Rightarrow> orchestrator" where
  "mark_node_unhealthy i orch =
     orch\<lparr>or_nodes := hm_modify i (\<lambda>n. n\<lparr>en_status := Unhealthy\<rparr>) (or_nodes orch)\<rparr>"

record orchestrator_stats =
  os_total :: nat
  os_healthy :: nat
  os_vms :: u32
  os_capacity :: u32
  os_regions :: nat

definition orchestrator_get_stats :: "orchestrator \<Rightarrow> orchestrator_stats" where
  "orchestrator_get_stats orch =
     (let ns = hm_values (or_nodes orch) in
      \<lparr>os_total = length ns, os_healthy = length (filter (\<lambda>n. en_status n = Healthy) ns),
       os_vms = sum_list (map en_vms ns), os_capacity = sum_list (map (nc_max_vms \<circ> en_config) ns),
       os_regions = hm_len (or_regions orch)\<rparr>)"

text \<open>
  One round of the health checks.  The argument \<open>readers\<close> counts the read guards that are held on
  the nodes; a call that takes the write lock waits for them (\<open>None\<close>: it waits forever, when a
  guard belongs to the waiting task itself).
\<close>

datatype check_outcome = Report node_health | BadAnswer | NoAnswer

definition write_call :: "nat \<Rightarrow> 'a \<Rightarrow> 'a option" where
  "write_call readers result = (if readers = 0 then Some result else None)"

definition health_check_node :: "nat \<Rightarrow> datetime \<Rightarrow> string \<Rightarrow> check_outcome \<Rightarrow> orchestrator \<Rightarrow>
    orchestrator option" where
  "health_check_node readers now i out orch =
     (case out of
        Report h \<Rightarrow> write_call readers (update_node_health now i h orch)
      | BadAnswer \<Rightarrow> map_option fst (write_call readers (increment_failure_count i orch))
      | NoAnswer \<Rightarrow>
          (case write_call readers (increment_failure_count i orch) of
             None \<Rightarrow> None
           | Some (orch', failures) \<Rightarrow>
               if failures \<ge> 3 then write_call readers (mark_node_unhealthy i orch')
               else Some orch'))"

fun health_check_nodes :: "nat \<Rightarrow> datetime \<Rightarrow> (string \<Rightarrow> check_outcome) \<Rightarrow> string list \<Rightarrow>
    orchestrator \<Rightarrow> orchestrator option" where
  "health_check_nodes readers now outcome [] orch = Some orch"
| "health_check_nodes readers now outcome (i # is) orch =
     (case health_check_node readers now i (outcome i) orch of
        None \<Rightarrow> None
      | Some orch' \<Rightarrow> health_check_nodes readers now outcome is orch')"

definition health_check_round :: "datetime \<Rightarrow> (string \<Rightarrow> check_outcome) \<Rightarrow> orchestrator \<Rightarrow>
    orchestrator option" where
  "health_check_round now outcome orch =
     health_check_nodes 1 now outcome (hm_keys (or_nodes orch)) orch"

record placement =
  pl_node :: string
  pl_region :: string
  pl_score :: f32

definition place_vm :: "string option \<Rightarrow> orchestrator \<Rightarrow> placement option" where
  "place_vm pref orch =
     map_option (\<lambda>n. \<lparr>pl_node = nc_id (en_config n), pl_region = nc_region (en_config n),
                       pl_score = placement_score n\<rparr>) (find_best_node pref orch)"

section \<open>Placement\<close>

lemma foldl_max_by:
  "foldl (\<lambda>best y. if f best > f y then best else y) x xs \<in> set (x # xs) \<and>
     (\<forall>y\<in>set (x # xs). (f y :: rat) \<le> f (foldl (\<lambda>best y. if f best > f y then best else y) x xs))"
proof (induction xs arbitrary: x)
  case (Cons a xs)
  let ?b = "if f x > f a then x else a"
  have "f x \<le> f ?b" "f a \<le> f ?b" "?b \<in> {x, a}" by auto
  then show ?case using Cons.IH [of ?b] by (auto intro: order_trans)
qed simp

lemma max_by_None [simp]: "max_by f xs = None \<longleftrightarrow> xs = []"
  by (cases xs) simp_all

lemma max_by_Some: "max_by f xs = Some m \<Longrightarrow> m \<in> set xs \<and> (\<forall>x\<in>set xs. f x \<le> f m)"
  using foldl_max_by [of f] by (cases xs) auto

text \<open>Placement is sound, complete and optimal: \<open>find_best_node\<close> fails exactly when no node
  of the preferred region (of any region, without a preference) is healthy with room for a VM;
  otherwise it returns such a node, whose score no other such node exceeds.\<close>

theorem best_node_optimal:
  "case find_best_node pref orch of
     None \<Rightarrow> \<forall>n\<in>set (hm_values (or_nodes orch)). \<not> candidate pref n
   | Some b \<Rightarrow> b \<in> set (hm_values (or_nodes orch)) \<and> candidate pref b \<and>
       en_vms b < nc_max_vms (en_config b) \<and>
       (\<forall>n\<in>set (hm_values (or_nodes orch)). candidate pref n \<longrightarrow> placement_score n \<le> placement_score b)"
proof (cases "find_best_node pref orch")
  case None
  then show ?thesis by (auto simp: find_best_node_def filter_empty_conv)
next
  case (Some b)
  then have "b \<in> set (filter (candidate pref) (hm_values (or_nodes orch))) \<and>
      (\<forall>x\<in>set (filter (candidate pref) (hm_values (or_nodes orch))). placement_score x \<le> placement_score b)"
    unfolding find_best_node_def by (rule max_by_Some)
  then show ?thesis using Some by (auto simp: candidate_def can_accept_def split: option.splits)
qed

definition demo_node :: edge_node where
  "demo_node = (node_new \<lparr>nc_id = ''n'', nc_address = ''a'', nc_region = ''r'', nc_max_vms = 20, nc_interval = 30\<rparr>)
     \<lparr>en_vms := 12\<rparr>"

lemma best_node_optimal_witness:
  "case find_best_node (Some ''r'') (register_node demo_node (orchestrator_new ''x'')) of
     None \<Rightarrow> \<forall>n\<in>set (hm_values (or_nodes (register_node demo_node (orchestrator_new ''x'')))).
       \<not> candidate (Some ''r'') n
   | Some b \<Rightarrow> b \<in> set (hm_values (or_nodes (register_node demo_node (orchestrator_new ''x'')))) \<and>
       candidate (Some ''r'') b \<and> en_vms b < nc_max_vms (en_config b) \<and>
       (\<forall>n\<in>set (hm_values (or_nodes (register_node demo_node (orchestrator_new ''x'')))).
          candidate (Some ''r'') n \<longrightarrow> placement_score n \<le> placement_score b)"
  by (rule best_node_optimal)

text \<open>A round of health checks never ends once a node is registered: whatever the node answers,
  the loop calls a method that needs the write lock on the nodes while it holds the read guard
  itself, and so waits forever; with it every later writer waits too.\<close>

theorem health_round_deadlocks:
  "health_check_round now outcome orch = (if or_nodes orch = [] then Some orch else None)"
  by (cases "or_nodes orch")
    (auto simp: health_check_round_def hm_keys_def health_check_node_def write_call_def
      split: check_outcome.splits)

text \<open>The count of failed checks is kept in the last digit of the number of VMs: the first
  failure of a node that runs \<open>10 k + d\<close> VMs with \<open>2 \<le> d\<close> already counts as the third or later
  (the loop marks such a node unhealthy), and the recorded number of VMs changes; resetting the
  count afterwards loses up to ten VMs.\<close>

theorem failure_count_corrupts_vms:
  assumes "hm_get (or_nodes orch) i = Some n" "unat (en_vms n) < 2 ^ 32 - 1"
    and "increment_failure_count i orch = (orch', c)"
  shows "unat c = unat (en_vms n) mod 10 + 1 \<and>
    map_option (unat \<circ> en_vms) (hm_get (or_nodes orch') i) = Some (unat (en_vms n) + 1) \<and>
    map_option (unat \<circ> en_vms) (hm_get (or_nodes (reset_failure_count i orch')) i)
      = Some ((unat (en_vms n) + 1) div 10 * 10)"
proof -
  have d: "unat (en_vms n mod 10) = unat (en_vms n) mod 10" by (simp add: unat_mod_distrib)
  have c: "unat (en_vms n mod 10 + 1) = unat (en_vms n) mod 10 + 1"
    using d by (simp add: unat_word_ariths)
  have v: "en_vms n div 10 * 10 + (en_vms n mod 10 + 1) = en_vms n + 1"
    by (simp only: add.assoc [symmetric] div_mult_mod_eq)
  have s: "unat (en_vms n + 1) = unat (en_vms n) + 1"
    using assms(2) by (simp add: unat_word_ariths)
  have "unat ((en_vms n + 1) div 10 * 10) = (unat (en_vms n) + 1) div 10 * 10"
  proof -
    have le: "unat (en_vms n) + 1 < 2 ^ 32" using assms(2) by simp
    have "(unat (en_vms n) + 1) div 10 * 10 \<le> unat (en_vms n) + 1" by simp
    then have "(unat (en_vms n) + 1) div 10 * 10 < 2 ^ 32" using le by (rule le_less_trans)
    then have "((unat (en_vms n) + 1) div 10 * 10) mod 2 ^ 32 = (unat (en_vms n) + 1) div 10 * 10"
      by (rule mod_less)
    moreover have "unat ((en_vms n + 1) div 10) = (unat (en_vms n) + 1) div 10"
      by (simp only: unat_div_distrib s) simp
    ultimately show ?thesis by (simp only: unat_word_ariths(2)) simp
  qed
  then show ?thesis
    using assms(1,3) c s v
    by (auto simp: increment_failure_count_def reset_failure_count_def Let_def)
qed

lemma failure_count_corrupts_vms_witness:
  "snd (increment_failure_count ''n'' (register_node demo_node (orchestrator_new ''x''))) = 3"
proof -
  let ?o = "register_node demo_node (orchestrator_new ''x'')"
  have g: "hm_get (or_nodes ?o) ''n'' = Some demo_node"
    by (simp add: register_node_def demo_node_def node_new_def Let_def)
  have "unat (snd (increment_failure_count ''n'' ?o)) = unat (en_vms demo_node) mod 10 + 1"
    using failure_count_corrupts_vms [OF g _ prod.collapse [symmetric]]
    by (simp add: demo_node_def)
  then have "unat (snd (increment_failure_count ''n'' ?o)) = unat (3 :: u32)"
    by (simp add: demo_node_def)
  then show ?thesis by (simp only: unsigned_word_eqI)
qed

text \<open>A health report never marks a node unhealthy, however bad it is: the conditions of the
  degraded state are tested first and include those of the unhealthy state.\<close>

theorem health_report_never_unhealthy:
  "en_status (update_health now h n) = (if nh_cpu h > f32_const (9 / 10) \<or> nh_memory h < 512
     then Degraded else Healthy)"
proof -
  have "f32_const (9 / 10) \<le> f32_const (95 / 100)" unfolding f32_const_def by (rule f32_round_mono) simp
  moreover have "nh_memory h < 256 \<Longrightarrow> nh_memory h < 512" by (simp add: word_less_nat_alt)
  ultimately show ?thesis by (auto simp: update_health_def)
qed

end
