(* ===== verification/Deterministic.thy ===== *)
theory Deterministic
  imports Model
begin

text \<open>
  \<^verbatim>\<open>src/src/deterministic.rs\<close>: the recorder of non-deterministic events and the replay engine.
  A log call takes a sequence number under one lock and pushes its entry under another, so it is
  two steps, between which the steps of other tasks may come (\<open>log_act\<close>).  The JSON encodings
  and the debug format of events are parameters.  Not modelled: attaching the system-call
  tracer (\<open>ptrace\<close>, and a function the source leaves unimplemented).
\<close>

record det_config =
  dc_max_entries :: nat
  dc_strict :: bool
  dc_timestamps :: bool

record 'j event_metadata =
  em_thread :: u64
  em_cpu :: "u32 option"
  em_ip :: "u64 option"
  em_extra :: "(string, 'j) hmap"

record 'j log_entry =
  le_seq :: u64
  le_time :: "datetime option"
  le_event :: deterministic_event
  le_meta :: "'j event_metadata option"

definition entry_new :: "datetime \<Rightarrow> u64 \<Rightarrow> deterministic_event \<Rightarrow> 'j log_entry" where
  "entry_new now sq e = \<lparr>le_seq = sq, le_time = Some now, le_event = e, le_meta = None\<rparr>"

definition with_metadata :: "'j event_metadata \<Rightarrow> 'j log_entry \<Rightarrow> 'j log_entry" where
  "with_metadata m e = e\<lparr>le_meta := Some m\<rparr>"

record syscall_event =
  sc_number :: u64
  sc_name :: string
  sc_args :: "u64 list"
  sc_return :: "64 word"
  sc_error :: "32 word option"

record 'j signal_event =
  sg_number :: "32 word"
  sg_name :: string
  sg_pid :: "u32 option"
  sg_info :: "'j option"

record schedule_event =
  ts_thread :: u64
  ts_cpu :: u32
  ts_slice :: u64
  ts_preempted :: bool
  ts_reason :: string

datatype io_direction = IoRead | IoWrite

record network_event =
  ni_connection :: string
  ni_direction :: io_direction
  ni_bytes :: u64
  ni_hash :: "string option"

datatype random_source = RdRand | RdSeed | DevUrandom | GetRandom

record random_event =
  rs_source :: random_source
  rs_seed :: u64
  rs_bytes :: nat

text \<open>The six kinds of log calls; the first is the call made by the tracer.\<close>

datatype 'j recorded =
    RTraced string
  | RSyscall syscall_event
  | RSignal "'j signal_event"
  | RSchedule schedule_event
  | RNetwork network_event
  | RRandom random_event

record 'j json_make =
  json_str :: "string \<Rightarrow> 'j"
  json_num :: "nat \<Rightarrow> 'j"

primrec direction_debug :: "io_direction \<Rightarrow> string" where
  "direction_debug IoRead = ''Read''"
| "direction_debug IoWrite = ''Write''"

primrec source_debug :: "random_source \<Rightarrow> string" where
  "source_debug RdRand = ''RdRand''"
| "source_debug RdSeed = ''RdSeed''"
| "source_debug DevUrandom = ''DevUrandom''"
| "source_debug GetRandom = ''GetRandom''"

fun recorded_event :: "'j recorded \<Rightarrow> deterministic_event" where
  "recorded_event (RTraced n) = Syscall n"
| "recorded_event (RSyscall s) = Syscall (sc_name s)"
| "recorded_event (RSignal s) = Signal (sg_name s)"
| "recorded_event (RSchedule s) = ThreadSchedule (ts_thread s)"
| "recorded_event (RNetwork n) = NetworkIoBoundary (ni_connection n)"
| "recorded_event (RRandom r) = RandomnessSeed (rs_seed r)"

fun recorded_metadata :: "'j json_make \<Rightarrow> 'j recorded \<Rightarrow> 'j event_metadata option" where
  "recorded_metadata js (RTraced n) = None"
| "recorded_metadata js (RSyscall s) =
     Some \<lparr>em_thread = 0, em_cpu = None, em_ip = None, em_extra = []\<rparr>"
| "recorded_metadata js (RSignal s) = None"
| "recorded_metadata js (RSchedule s) =
     Some \<lparr>em_thread = ts_thread s, em_cpu = Some (ts_cpu s), em_ip = None, em_extra = []\<rparr>"
| "recorded_metadata js (RNetwork n) =
     Some \<lparr>em_thread = 0, em_cpu = None, em_ip = None,
           em_extra =
             (let m = hm_insert ''direction'' (json_str js (direction_debug (ni_direction n))) [];
                  m = hm_insert ''bytes_transferred'' (json_num js (unat (ni_bytes n))) m
              in (case ni_hash n of None \<Rightarrow> m
                  | Some h \<Rightarrow> hm_insert ''payload_hash'' (json_str js h) m))\<rparr>"
| "recorded_metadata js (RRandom r) =
     Some \<lparr>em_thread = 0, em_cpu = None, em_ip = None,
           em_extra = hm_insert ''bytes_read'' (json_num js (rs_bytes r))
             (hm_insert ''source'' (json_str js (source_debug (rs_source r))) [])\<rparr>"

definition make_log_entry :: "'j json_make \<Rightarrow> datetime \<Rightarrow> u64 \<Rightarrow> 'j recorded \<Rightarrow> 'j log_entry" where
  "make_log_entry js now sq r =
     (case recorded_metadata js r of
        None \<Rightarrow> entry_new now sq (recorded_event r)
      | Some m \<Rightarrow> with_metadata m (entry_new now sq (recorded_event r)))"

section \<open>The recorder\<close>

datatype logger_error =
    LSerializationError string
  | LDeserializationError string
  | BufferFull
  | LIoError string

record 'j det_logger =
  dl_config :: det_config
  dl_entries :: "'j log_entry list"
  dl_sequence :: u64
  dl_recording :: bool

definition det_logger_new :: "det_config \<Rightarrow> 'j det_logger" where
  "det_logger_new cfg =
     \<lparr>dl_config = cfg, dl_entries = [], dl_sequence = 0, dl_recording = True\<rparr>"

definition set_recording :: "bool \<Rightarrow> 'j det_logger \<Rightarrow> 'j det_logger" where
  "set_recording b l = l\<lparr>dl_recording := b\<rparr>"

definition is_recording :: "'j det_logger \<Rightarrow> bool" where
  "is_recording l = dl_recording l"

definition take_sequence :: "'j det_logger \<Rightarrow> 'j det_logger \<times> u64" where
  "take_sequence l = (l\<lparr>dl_sequence := dl_sequence l + 1\<rparr>, dl_sequence l + 1)"

definition push_entry :: "'j log_entry \<Rightarrow> 'j det_logger \<Rightarrow> 'j det_logger" where
  "push_entry e l = l\<lparr>dl_entries := dl_entries l @ [e]\<rparr>"

text \<open>A log call that is not interrupted.\<close>

definition log_recorded :: "'j json_make \<Rightarrow> datetime \<Rightarrow> 'j recorded \<Rightarrow> 'j det_logger \<Rightarrow>
    'j det_logger \<times> (logger_error, u64) result" where
  "log_recorded js now r l =
     (if \<not> is_recording l then (l, Ok 0)
      else (case take_sequence l of
              (l', sq) \<Rightarrow> (push_entry (make_log_entry js now sq r) l', Ok sq)))"

definition get_event_log :: "'j det_logger \<Rightarrow> event_log" where
  "get_event_log l = \<lparr>log_events = map le_event (dl_entries l)\<rparr>"

definition get_entries :: "'j det_logger \<Rightarrow> 'j log_entry list" where
  "get_entries l = dl_entries l"

definition entry_count :: "'j det_logger \<Rightarrow> nat" where
  "entry_count l = length (dl_entries l)"

definition clear_log :: "'j det_logger \<Rightarrow> 'j det_logger" where
  "clear_log l = l\<lparr>dl_entries := [], dl_sequence := 0\<rparr>"

definition serialize_log :: "('j log_entry list \<Rightarrow> (string, bytes) result) \<Rightarrow> 'j det_logger \<Rightarrow>
    (logger_error, bytes) result" where
  "serialize_log ser l =
     (case ser (dl_entries l) of
        Inl e \<Rightarrow> Err (LSerializationError (''Failed to serialize: '' @ e))
      | Inr d \<Rightarrow> Ok d)"

text \<open>The sequence number is left as it was.\<close>

definition deserialize_log :: "(bytes \<Rightarrow> (string, 'j log_entry list) result) \<Rightarrow> bytes \<Rightarrow>
    'j det_logger \<Rightarrow> 'j det_logger \<times> (logger_error, unit) result" where
  "deserialize_log de d l =
     (case de d of
        Inl e \<Rightarrow> (l, Err (LDeserializationError (''Failed to deserialize: '' @ e)))
      | Inr es \<Rightarrow> (l\<lparr>dl_entries := es\<rparr>, Ok ()))"

section \<open>Interleaved log calls\<close>

datatype 'j log_action =
    TakeSeq nat
  | PushEntry nat datetime "'j recorded"
  | Recording bool
  | ClearLog

record 'j log_world =
  lw_logger :: "'j det_logger"
  lw_taken :: "nat \<Rightarrow> u64 option"

text \<open>A push belongs to a call that has taken a number; the number is then used up.\<close>

fun log_act :: "'j json_make \<Rightarrow> 'j log_action \<Rightarrow> 'j log_world \<Rightarrow> 'j log_world" where
  "log_act js (TakeSeq t) w =
     (if \<not> is_recording (lw_logger w) \<or> lw_taken w t \<noteq> None then w
      else (case take_sequence (lw_logger w) of
              (l, sq) \<Rightarrow> w\<lparr>lw_logger := l, lw_taken := (lw_taken w)(t := Some sq)\<rparr>))"
| "log_act js (PushEntry t now r) w =
     (case lw_taken w t of
        None \<Rightarrow> w
      | Some sq \<Rightarrow>
          w\<lparr>lw_logger := push_entry (make_log_entry js now sq r) (lw_logger w),
            lw_taken := (lw_taken w)(t := None)\<rparr>)"
| "log_act js (Recording b) w = w\<lparr>lw_logger := set_recording b (lw_logger w)\<rparr>"
| "log_act js ClearLog w = w\<lparr>lw_logger := clear_log (lw_logger w)\<rparr>"

text \<open>
  The worlds that tasks reach from a fresh logger in \<open>n\<close> steps, when the log is cleared only
  while no call is on its way.
\<close>

inductive log_reach :: "'j json_make \<Rightarrow> det_config \<Rightarrow> nat \<Rightarrow> 'j log_world \<Rightarrow> bool" for js cfg where
  fresh: "log_reach js cfg 0 \<lparr>lw_logger = det_logger_new cfg, lw_taken = (\<lambda>_. None)\<rparr>"
| cleared: "log_reach js cfg n w \<Longrightarrow> (\<And>t. lw_taken w t = None) \<Longrightarrow>
    log_reach js cfg (Suc n) (log_act js ClearLog w)"
| acted: "log_reach js cfg n w \<Longrightarrow> a \<noteq> ClearLog \<Longrightarrow> log_reach js cfg (Suc n) (log_act js a w)"

section \<open>The replay engine\<close>

datatype replay_error =
    Divergence (expected_text: string) (actual_text: string) (at_position: nat)
  | EndOfLog
  | NotStarted
  | RSerializationError string

record 'j replay_engine =
  re_log :: "'j log_entry list"
  re_pos :: nat
  re_strict :: bool

definition engine_new :: "event_log \<Rightarrow> det_config \<Rightarrow> 'j replay_engine" where
  "engine_new log cfg =
     \<lparr>re_log = map (\<lambda>(sq, e). \<lparr>le_seq = of_nat sq, le_time = None, le_event = e, le_meta = None\<rparr>)
         (enumerate 0 (log_events log)),
      re_pos = 0, re_strict = dc_strict cfg\<rparr>"

definition start_replay :: "'j replay_engine \<Rightarrow> 'j replay_engine" where
  "start_replay e = e\<lparr>re_pos := 0\<rparr>"

definition next_event :: "'j replay_engine \<Rightarrow> deterministic_event option" where
  "next_event e = (if re_pos e < length (re_log e) then Some (le_event (re_log e ! re_pos e)) else None)"

definition advance :: "'j replay_engine \<Rightarrow> 'j replay_engine \<times> u64 option" where
  "advance e =
     (if re_pos e < length (re_log e)
      then (e\<lparr>re_pos := re_pos e + 1\<rparr>, Some (le_seq (re_log e ! re_pos e)))
      else (e, None))"

fun events_match :: "deterministic_event \<Rightarrow> deterministic_event \<Rightarrow> bool" where
  "events_match (Syscall a) (Syscall b) \<longleftrightarrow> a = b"
| "events_match (Signal a) (Signal b) \<longleftrightarrow> a = b"
| "events_match (ThreadSchedule a) (ThreadSchedule b) \<longleftrightarrow> a = b"
| "events_match (NetworkIoBoundary a) (NetworkIoBoundary b) \<longleftrightarrow> a = b"
| "events_match (RandomnessSeed a) (RandomnessSeed b) \<longleftrightarrow> a = b"
| "events_match _ _ \<longleftrightarrow> False"

definition verify_event :: "(deterministic_event \<Rightarrow> string) \<Rightarrow> deterministic_event \<Rightarrow>
    'j replay_engine \<Rightarrow> 'j replay_engine \<times> (replay_error, bool) result" where
  "verify_event dbg actual e =
     (case next_event e of
        None \<Rightarrow> (e, Err EndOfLog)
      | Some expected \<Rightarrow>
          let matches = events_match expected actual in
          if \<not> matches \<and> re_strict e
          then (e, Err (Divergence (dbg expected) (dbg actual) (re_pos e)))
          else (if matches then fst (advance e) else e, Ok matches))"

definition replay_complete :: "'j replay_engine \<Rightarrow> bool" where
  "replay_complete e \<longleftrightarrow> re_pos e \<ge> length (re_log e)"

definition replay_progress :: "'j replay_engine \<Rightarrow> nat \<times> nat" where
  "replay_progress e = (re_pos e, length (re_log e))"

definition replay_remaining :: "'j replay_engine \<Rightarrow> nat" where
  "replay_remaining e = length (re_log e) - re_pos e"

text \<open>A replay that presents the events of an execution one by one and stops at the first error.\<close>

fun replay_run :: "(deterministic_event \<Rightarrow> string) \<Rightarrow> deterministic_event list \<Rightarrow>
    'j replay_engine \<Rightarrow> 'j replay_engine \<times> replay_error option" where
  "replay_run dbg [] e = (e, None)"
| "replay_run dbg (a # as) e =
     (case verify_event dbg a e of
        (e', Inl x) \<Rightarrow> (e', Some x)
      | (e', Inr b) \<Rightarrow> replay_run dbg as e')"

section \<open>Recording\<close>

definition log_all :: "'j json_make \<Rightarrow> (datetime \<times> 'j recorded) list \<Rightarrow> 'j det_logger \<Rightarrow> 'j det_logger" where
  "log_all js rs l = fold (\<lambda>(now, r) l. fst (log_recorded js now r l)) rs l"

lemma make_log_entry_fields [simp]:
  "le_event (make_log_entry js now sq r) = recorded_event r"
  "le_seq (make_log_entry js now sq r) = sq"
  by (simp_all add: make_log_entry_def entry_new_def with_metadata_def split: option.splits)

lemma log_all_events:
  "dl_recording l \<Longrightarrow>
     map le_event (dl_entries (log_all js rs l)) = map le_event (dl_entries l) @ map (recorded_event \<circ> snd) rs"
proof (induction rs arbitrary: l)
  case (Cons r rs)
  obtain now x where r: "r = (now, x)" by fastforce
  let ?l = "fst (log_recorded js now x l)"
  have "dl_recording ?l" "map le_event (dl_entries ?l) = map le_event (dl_entries l) @ [recorded_event x]"
    using Cons.prems by (simp_all add: log_recorded_def is_recording_def take_sequence_def push_entry_def)
  then show ?case using Cons.IH [of ?l] r by (simp add: log_all_def)
qed (simp add: log_all_def)

lemma events_match_eq: "events_match a b \<longleftrightarrow> a = b"
  by (cases a; cases b) simp_all

fun common_prefix :: "'a list \<Rightarrow> 'a list \<Rightarrow> nat" where
  "common_prefix (x # xs) (y # ys) = (if x = y then Suc (common_prefix xs ys) else 0)"
| "common_prefix _ _ = 0"

lemma replay_run_spec:
  assumes "re_strict e" "re_pos e \<le> length (re_log e)" "map le_event (re_log e) = es"
  shows "replay_run dbg as e =
    (let k = common_prefix (drop (re_pos e) es) as in
     (e\<lparr>re_pos := re_pos e + k\<rparr>,
      if k = length as then None
      else if re_pos e + k = length es then Some EndOfLog
      else Some (Divergence (dbg (es ! (re_pos e + k))) (dbg (as ! k)) (re_pos e + k))))"
  using assms
proof (induction dbg as e rule: replay_run.induct)
  case (1 dbg e)
  then show ?case by (simp add: Let_def)
next
  case (2 dbg a as e)
  show ?case
  proof (cases "re_pos e < length (re_log e)")
    case False
    then show ?thesis using 2(3,4) by (auto simp: verify_event_def next_event_def Let_def)
  next
    case True
    have ev: "le_event (re_log e ! re_pos e) = es ! re_pos e" using True 2(4) by auto
    have dr: "drop (re_pos e) es = es ! re_pos e # drop (Suc (re_pos e)) es"
      using True 2(4) Cons_nth_drop_Suc [of "re_pos e" es] by (metis length_map)
    show ?thesis
    proof (cases "es ! re_pos e = a")
      case eq: True
      let ?e = "e\<lparr>re_pos := re_pos e + 1\<rparr>"
      have v: "verify_event dbg a e = (?e, Inr True)"
        using True ev eq by (simp add: verify_event_def next_event_def advance_def events_match_eq Let_def)
      have "replay_run dbg as ?e =
        (let k = common_prefix (drop (re_pos ?e) es) as in
         (?e\<lparr>re_pos := re_pos ?e + k\<rparr>,
          if k = length as then None
          else if re_pos ?e + k = length es then Some EndOfLog
          else Some (Divergence (dbg (es ! (re_pos ?e + k))) (dbg (as ! k)) (re_pos ?e + k))))"
        by (rule 2(1) [OF v [symmetric] refl]) (use 2(2-4) True in simp_all)
      then show ?thesis using v dr eq by (simp add: Let_def)
    next
      case False
      then have "verify_event dbg a e = (e, Inl (Divergence (dbg (es ! re_pos e)) (dbg a) (re_pos e)))"
        using True ev 2(2) by (simp add: verify_event_def next_event_def events_match_eq Let_def)
      moreover have "re_pos e \<noteq> length es" using True 2(4) by auto
      ultimately show ?thesis using dr False by (simp add: Let_def)
    qed
  qed
qed

lemma engine_new_events: "map le_event (re_log (engine_new log cfg)) = log_events log"
proof -
  have "map le_event (map (\<lambda>(sq, e). \<lparr>le_seq = of_nat sq, le_time = None, le_event = e, le_meta = None\<rparr>)
      (enumerate n es)) = es" for n es
    by (induction es arbitrary: n) simp_all
  then show ?thesis by (simp add: engine_new_def)
qed

section \<open>What recording and replay promise\<close>

text \<open>C31. Strict replay detects exactly the first divergence: for every recording made by
  uninterrupted log calls and every execution, the replay accepts the longest common prefix of
  the two event sequences, ends without an error exactly when that is the whole execution, and
  otherwise stops with the position and the two events of the first difference, or with the end
  of the log when the execution goes on after it.\<close>

theorem replay_detects_divergence:
  fixes rs :: "(datetime \<times> 'j recorded) list" and e :: "'k replay_engine"
  assumes "dc_strict cfg" "e = engine_new (get_event_log (log_all js rs (det_logger_new cfg))) cfg"
    and "es = map (recorded_event \<circ> snd) rs" "k = common_prefix es as"
  shows "re_pos (fst (replay_run dbg as e)) = k \<and>
    snd (replay_run dbg as e) =
      (if k = length as then None
       else if k = length es then Some EndOfLog
       else Some (Divergence (dbg (es ! k)) (dbg (as ! k)) k))"
proof -
  have "map le_event (re_log e) = es"
    using assms(2,3) log_all_events [of "det_logger_new cfg" js rs]
    by (simp add: engine_new_events get_event_log_def) (simp add: det_logger_new_def)
  moreover have "re_strict e" "re_pos e = 0" using assms(1,2) by (simp_all add: engine_new_def)
  ultimately show ?thesis using replay_run_spec [of e es dbg as] assms(4) by (simp add: Let_def)
qed

definition demo_recording :: "(datetime \<times> unit recorded) list" where
  "demo_recording = [(0, RTraced ''open''), (1, RRandom \<lparr>rs_source = RdRand, rs_seed = 7, rs_bytes = 8\<rparr>)]"

definition demo_js :: "unit json_make" where
  "demo_js = \<lparr>json_str = (\<lambda>_. ()), json_num = (\<lambda>_. ())\<rparr>"

definition demo_det :: det_config where
  "demo_det = \<lparr>dc_max_entries = 10, dc_strict = True, dc_timestamps = True\<rparr>"

lemma replay_detects_divergence_witness:
  "snd (replay_run (\<lambda>_. ''e'') [Syscall ''open'', RandomnessSeed 8]
     (engine_new (get_event_log (log_all demo_js demo_recording (det_logger_new demo_det))) demo_det
        :: unit replay_engine))
   = Some (Divergence ''e'' ''e'' 1)"
proof -
  have "dc_strict demo_det" by (simp add: demo_det_def)
  from replay_detects_divergence [where 'k = unit, OF this refl refl refl, of "\<lambda>_. ''e''"
      "[Syscall ''open'', RandomnessSeed 8]" demo_js demo_recording]
  show ?thesis by (simp add: demo_recording_def del: replay_run.simps)
qed

text \<open>The invariant of interleaved calls: the numbers in the log and the numbers taken are distinct
  and none exceeds the counter.\<close>

definition seqs_ok :: "'j log_world \<Rightarrow> bool" where
  "seqs_ok w \<longleftrightarrow>
     distinct (map le_seq (dl_entries (lw_logger w))) \<and>
     (\<forall>e\<in>set (dl_entries (lw_logger w)). 0 < le_seq e \<and> le_seq e \<le> dl_sequence (lw_logger w)) \<and>
     (\<forall>t sq. lw_taken w t = Some sq \<longrightarrow> 0 < sq \<and> sq \<le> dl_sequence (lw_logger w) \<and>
        sq \<notin> le_seq ` set (dl_entries (lw_logger w))) \<and>
     (\<forall>t t' sq. lw_taken w t = Some sq \<longrightarrow> lw_taken w t' = Some sq \<longrightarrow> t = t')"

lemma seq_succ:
  assumes "unat (sq :: u64) < 2 ^ 64 - 1"
  shows "sq < sq + 1" "unat (sq + 1) = unat sq + 1"
  using assms by (simp_all add: word_less_nat_alt unat_word_ariths)

lemma log_act_ok:
  assumes ok: "seqs_ok w" and c: "a = ClearLog \<Longrightarrow> lw_taken w = (\<lambda>_. None)" and b: "unat (dl_sequence (lw_logger w)) < 2 ^ 64 - 1"
  shows "seqs_ok (log_act js a w) \<and>
    unat (dl_sequence (lw_logger (log_act js a w))) \<le> unat (dl_sequence (lw_logger w)) + 1"
proof (cases a)
  case (TakeSeq t)
  let ?s = "dl_sequence (lw_logger w)"
  have lt: "?s < ?s + 1" and un: "unat (?s + 1) = unat ?s + 1" using seq_succ [OF b] by simp_all
  have up: "x \<le> ?s \<Longrightarrow> x \<le> ?s + 1 \<and> x \<noteq> ?s + 1" for x
    using lt by (meson leD order_less_imp_le order_trans order_refl)
  show ?thesis
  proof (cases "is_recording (lw_logger w) \<and> lw_taken w t = None")
    case True
    then have "log_act js a w = w\<lparr>lw_logger := (lw_logger w)\<lparr>dl_sequence := ?s + 1\<rparr>,
        lw_taken := (lw_taken w)(t := Some (?s + 1))\<rparr>"
      using TakeSeq by (simp add: take_sequence_def)
    moreover have "0 < ?s + 1" using lt by (metis word_gt_0 word_not_simps(1))
    moreover have "?s + 1 \<notin> le_seq ` set (dl_entries (lw_logger w))"
      using ok lt unfolding seqs_ok_def by (metis imageE leD)
    moreover have "lw_taken w t' \<noteq> Some (?s + 1)" for t'
      using ok lt unfolding seqs_ok_def by (metis leD)
    ultimately show ?thesis
      using ok up un unfolding seqs_ok_def by (auto split: if_splits)
  qed (use TakeSeq ok in auto)
next
  case (PushEntry t now r)
  then show ?thesis
    using ok unfolding seqs_ok_def by (auto simp: push_entry_def split: option.splits if_splits)
next
  case (Recording r)
  then show ?thesis using ok by (simp add: seqs_ok_def set_recording_def)
next
  case ClearLog
  then show ?thesis using c by (simp add: seqs_ok_def clear_log_def)
qed

lemma log_reach_ok:
  "log_reach js cfg n w \<Longrightarrow> n < 2 ^ 64 \<Longrightarrow>
     seqs_ok w \<and> unat (dl_sequence (lw_logger w)) \<le> n"
proof (induction rule: log_reach.induct)
  case fresh
  show ?case by (simp add: seqs_ok_def det_logger_new_def)
next
  case (cleared n w)
  have "lw_taken w = (\<lambda>_. None)" by (rule ext) (rule cleared.hyps(2))
  then show ?case using log_act_ok [of w ClearLog js] cleared by (simp del: log_act.simps)
next
  case (acted n w a)
  then show ?case using log_act_ok [of w a js] by (simp del: log_act.simps)
qed

text \<open>The two steps of a call, uninterrupted, are \<open>log_recorded\<close>.\<close>

lemma uninterrupted_call:
  assumes "lw_taken w t = None"
  shows "fold (log_act js) [TakeSeq t, PushEntry t now r] w =
    w\<lparr>lw_logger := fst (log_recorded js now r (lw_logger w))\<rparr>"
  using assms by (auto simp: log_recorded_def take_sequence_def fun_upd_idem push_entry_def)

text \<open>However the calls of concurrent tasks interleave, and recording is switched on and off,
  no two entries ever carry the same sequence number, as long as the log is cleared only while no
  call is on its way (and for fewer than 2^64 steps).  The entries need not be in the order of
  their numbers.\<close>

theorem log_sequences_distinct:
  assumes "log_reach js cfg n w" "n < 2 ^ 64"
  shows "distinct (map le_seq (dl_entries (lw_logger w)))"
  using log_reach_ok [OF assms] by (simp add: seqs_ok_def)

abbreviation demo_world :: "unit log_world" where
  "demo_world \<equiv> \<lparr>lw_logger = det_logger_new demo_det, lw_taken = (\<lambda>_. None)\<rparr>"

lemma log_order_race:
  "map le_seq (dl_entries (lw_logger (fold (log_act demo_js)
     [TakeSeq 1, TakeSeq 2, PushEntry 2 0 (RTraced ''b''), PushEntry 1 0 (RTraced ''a'')] demo_world))) = [2, 1]"
  by (simp add: det_logger_new_def is_recording_def take_sequence_def push_entry_def)

lemma log_sequences_distinct_witness:
  "distinct (map le_seq (dl_entries (lw_logger (log_act demo_js ClearLog (fold (log_act demo_js)
     [TakeSeq 1, TakeSeq 2, PushEntry 2 0 (RTraced ''b''), PushEntry 1 0 (RTraced ''a'')] demo_world)))))"
proof -
  have reach: "log_reach demo_js demo_det (length as) (fold (log_act demo_js) as demo_world)"
    if "list_all (\<lambda>a. a \<noteq> ClearLog) as" for as
    using that by (induction as rule: rev_induct) (auto intro: log_reach.intros)
  let ?as = "[TakeSeq 1, TakeSeq 2, PushEntry 2 0 (RTraced ''b''), PushEntry 1 0 (RTraced ''a'')]"
  have "log_reach demo_js demo_det (Suc (length ?as)) (log_act demo_js ClearLog (fold (log_act demo_js) ?as demo_world))"
    using log_reach.cleared [OF reach [of ?as]]
    by (simp add: det_logger_new_def is_recording_def take_sequence_def)
  from log_sequences_distinct [OF this] show ?thesis by simp
qed

text \<open>Restoring a log does not restore the counter: when a fresh logger has read back a log
  whose entries are numbered from 1, the next event recorded gets the number 1 again, which an
  entry of the log already has.\<close>

theorem restored_log_repeats_number:
  assumes "deserialize_log de d (det_logger_new cfg) = (l, Ok ())"
    and "de d = Ok es" "es \<noteq> []" "le_seq (hd es) = 1"
    and "log_recorded js now r l = (l', x)"
  shows "x = Ok 1 \<and> \<not> distinct (map le_seq (get_entries l'))"
proof -
  obtain e es' where "es = e # es'" "le_seq e = 1" using assms(3,4) by (cases es) auto
  then show ?thesis
    using assms(1,2,5) by (auto simp: deserialize_log_def det_logger_new_def log_recorded_def
        is_recording_def take_sequence_def push_entry_def get_entries_def)
qed

lemma restored_log_repeats_number_witness:
  "snd (log_recorded demo_js 0 (RTraced ''b'')
     (fst (deserialize_log (\<lambda>d. Ok (dl_entries (log_all demo_js [(0, RTraced ''a'')] (det_logger_new demo_det))))
        [] (det_logger_new demo_det)))) = Ok 1"
proof -
  let ?es = "dl_entries (log_all demo_js [(0, RTraced ''a'')] (det_logger_new demo_det))"
  have "?es \<noteq> [] \<and> le_seq (hd ?es) = 1"
    by (simp add: log_all_def log_recorded_def det_logger_new_def is_recording_def take_sequence_def
        push_entry_def)
  then show ?thesis
    using restored_log_repeats_number [of "\<lambda>d. Ok ?es" "[]" demo_det _ ?es, OF _ refl _ _ prod.collapse [symmetric]]
    by (simp add: deserialize_log_def)
qed

end
