(* ===== verification/SocketProxy.thy ===== *)
theory SocketProxy
  imports Model "HOL-Library.Sublist"
begin

text \<open>
  \<^verbatim>\<open>src/src/socket_proxy.rs\<close>: the tables of proxied connections with their lookups, the request that
  opens a connection, and the forwarding between client and remote.  Parsing of addresses and the
  Unicode functions on requests are parameters; a stream is the list of the chunks that reads will
  return, a read takes at most as much as its buffer holds and an empty one is the end.  The operations of the tables take
  their locks one after the other, and are one step here.
\<close>

section \<open>Connections\<close>

datatype socket_addr = AddrV4 bytes u16 | AddrV6 bytes u16 u32 u32

definition any_addr :: socket_addr where
  "any_addr = AddrV4 [0, 0, 0, 0] 0"

record proxy_config =
  pc_listen :: string
  pc_port :: u16
  pc_buffer :: nat
  pc_timeout :: u64

definition proxy_default :: proxy_config where
  "proxy_default = \<lparr>pc_listen = ''127.0.0.1'', pc_port = 14433, pc_buffer = 65536, pc_timeout = 30\<rparr>"

datatype conn_state = Connecting | Established | Snapshotting | Resuming | Closed

record proxied =
  px_id :: uuid
  px_guest :: socket_addr
  px_remote :: socket_addr
  px_protocol :: transport_protocol
  px_state :: conn_state
  px_tx :: bytes
  px_rx :: bytes
  px_created :: datetime
  px_sent :: u64
  px_received :: u64

definition proxied_new :: "uuid \<Rightarrow> datetime \<Rightarrow> socket_addr \<Rightarrow> socket_addr \<Rightarrow> transport_protocol \<Rightarrow> proxied" where
  "proxied_new fresh now guest remote proto =
     \<lparr>px_id = fresh, px_guest = guest, px_remote = remote, px_protocol = proto, px_state = Connecting,
      px_tx = [], px_rx = [], px_created = now, px_sent = 0, px_received = 0\<rparr>"

definition buffered_bytes :: "proxied \<Rightarrow> nat" where
  "buffered_bytes c = length (px_tx c) + length (px_rx c)"

record saved_conn =
  sv_id :: uuid
  sv_guest :: socket_addr
  sv_remote :: socket_addr
  sv_protocol :: transport_protocol
  sv_tx_len :: nat
  sv_rx_len :: nat

record proxy_stats =
  pst_connections :: nat
  pst_sent :: u64
  pst_received :: u64

datatype proxy_error =
    BindError string
  | ConnectionError string
  | ProxyIoError string
  | ProxyNotFound string
  | ProxyTimeout string
  | ProxySerializationError string

section \<open>The tables\<close>

record proxy =
  pr_config :: proxy_config
  pr_conns :: "(uuid, proxied) hmap"
  pr_guests :: "(socket_addr, uuid) hmap"
  pr_remotes :: "(socket_addr, uuid) hmap"
  pr_listener :: "socket_addr option"
  pr_running :: bool
  pr_accepting :: bool

definition proxy_new :: "proxy_config \<Rightarrow> proxy" where
  "proxy_new cfg =
     \<lparr>pr_config = cfg, pr_conns = [], pr_guests = [], pr_remotes = [], pr_listener = None,
      pr_running = False, pr_accepting = False\<rparr>"

definition proxy_start :: "(string \<Rightarrow> (string, socket_addr) result) \<Rightarrow> (socket_addr \<Rightarrow> (string, unit) result) \<Rightarrow>
    proxy \<Rightarrow> proxy \<times> (proxy_error, unit) result" where
  "proxy_start parse bind p =
     (case parse (pc_listen (pr_config p) @ '':'' @ dec_str (unat (pc_port (pr_config p)))) of
        Inl e \<Rightarrow> (p, Err (BindError (''Invalid address: '' @ e)))
      | Inr a \<Rightarrow>
          (case bind a of
             Inl e \<Rightarrow> (p, Err (BindError (''Failed to bind: '' @ e)))
           | Inr u \<Rightarrow> (p\<lparr>pr_listener := Some a, pr_running := True, pr_accepting := True\<rparr>, Ok ())))"

text \<open>The accept loop ends when it receives the message that \<open>stop\<close> sends.\<close>

definition proxy_stop :: "proxy \<Rightarrow> proxy" where
  "proxy_stop p = p\<lparr>pr_running := False, pr_accepting := False\<rparr>"

definition register_connection :: "uuid \<Rightarrow> datetime \<Rightarrow> socket_addr \<Rightarrow> socket_addr \<Rightarrow> transport_protocol \<Rightarrow>
    proxy \<Rightarrow> proxy \<times> (proxy_error, uuid) result" where
  "register_connection fresh now guest remote proto p =
     (p\<lparr>pr_conns := hm_insert fresh (proxied_new fresh now guest remote proto) (pr_conns p),
        pr_guests := hm_insert guest fresh (pr_guests p),
        pr_remotes := hm_insert remote fresh (pr_remotes p)\<rparr>, Ok fresh)"

definition unregister_connection :: "uuid \<Rightarrow> proxy \<Rightarrow> proxy \<times> (proxy_error, unit) result" where
  "unregister_connection i p =
     (case hm_get (pr_conns p) i of
        None \<Rightarrow> (p, Ok ())
      | Some c \<Rightarrow>
          (p\<lparr>pr_conns := hm_remove i (pr_conns p), pr_guests := hm_remove (px_guest c) (pr_guests p),
             pr_remotes := hm_remove (px_remote c) (pr_remotes p)\<rparr>, Ok ()))"

definition get_connection :: "uuid \<Rightarrow> proxy \<Rightarrow> proxied option" where
  "get_connection i p = hm_get (pr_conns p) i"

definition get_by_guest_addr :: "socket_addr \<Rightarrow> proxy \<Rightarrow> proxied option" where
  "get_by_guest_addr a p =
     (case hm_get (pr_guests p) a of Some i \<Rightarrow> hm_get (pr_conns p) i | None \<Rightarrow> None)"

text \<open>A connection that the listener accepts is entered under an id of its own, not the id of its
  record.\<close>

definition accept_connection :: "uuid \<Rightarrow> uuid \<Rightarrow> datetime \<Rightarrow> socket_addr \<Rightarrow> proxy \<Rightarrow> proxy" where
  "accept_connection conn_id fresh now guest p =
     p\<lparr>pr_conns := hm_insert conn_id (proxied_new fresh now guest any_addr Tcp) (pr_conns p),
       pr_guests := hm_insert guest conn_id (pr_guests p)\<rparr>"

definition establish :: "uuid \<Rightarrow> socket_addr \<Rightarrow> proxy \<Rightarrow> proxy" where
  "establish i a p =
     p\<lparr>pr_conns := hm_modify i (\<lambda>c. c\<lparr>px_remote := a, px_state := Established\<rparr>) (pr_conns p)\<rparr>"

definition close_connection :: "uuid \<Rightarrow> socket_addr \<Rightarrow> proxy \<Rightarrow> proxy" where
  "close_connection i peer p =
     p\<lparr>pr_guests := hm_remove peer (pr_guests p), pr_conns := hm_remove i (pr_conns p)\<rparr>"

definition saved_of :: "uuid \<Rightarrow> proxied \<Rightarrow> saved_conn" where
  "saved_of i c =
     \<lparr>sv_id = i, sv_guest = px_guest c, sv_remote = px_remote c, sv_protocol = px_protocol c,
      sv_tx_len = length (px_tx c), sv_rx_len = length (px_rx c)\<rparr>"

definition prepare_snapshot :: "proxy \<Rightarrow> proxy \<times> (proxy_error, saved_conn list) result" where
  "prepare_snapshot p =
     (let cs = map (\<lambda>(i, c). (i, c\<lparr>px_state := Snapshotting\<rparr>)) (pr_conns p) in
      (p\<lparr>pr_conns := cs\<rparr>, Ok (map (\<lambda>(i, c). saved_of i c) cs)))"

text \<open>Every saved connection is registered anew, under a fresh id and at a fresh time.\<close>

definition restore_connections :: "(uuid \<times> datetime) list \<Rightarrow> saved_conn list \<Rightarrow> proxy \<Rightarrow>
    proxy \<times> (proxy_error, unit) result" where
  "restore_connections fresh ss p =
     (fold (\<lambda>((i, now), s) p. fst (register_connection i now (sv_guest s) (sv_remote s) (sv_protocol s) p))
        (zip fresh ss) p, Ok ())"

definition get_descriptors :: "proxy \<Rightarrow> fd_descriptor list" where
  "get_descriptors p = map (\<lambda>(i, c). \<lparr>fd_num = 0, fd_kind_of = FDSocket i\<rparr>) (pr_conns p)"

definition get_socket_table :: "proxy \<Rightarrow> socket_descriptor list" where
  "get_socket_table p =
     map (\<lambda>c. \<lparr>socket_id = px_id c, socket_protocol = px_protocol c\<rparr>) (hm_values (pr_conns p))"

definition proxy_get_stats :: "proxy \<Rightarrow> proxy_stats" where
  "proxy_get_stats p =
     (let cs = hm_values (pr_conns p) in
      \<lparr>pst_connections = length cs, pst_sent = sum_list (map px_sent cs),
       pst_received = sum_list (map px_received cs)\<rparr>)"

section \<open>Opening a connection\<close>

record proxy_env =
  pe_lossy :: "bytes \<Rightarrow> string"
  pe_first_word :: "string \<Rightarrow> string option"
  pe_trim :: "string \<Rightarrow> string"
  pe_addr :: "string \<Rightarrow> socket_addr option"

definition read_stream :: "nat \<Rightarrow> bytes list \<Rightarrow> bytes \<times> bytes list" where
  "read_stream n cs =
     (case cs of
        [] \<Rightarrow> ([], [])
      | c # cs' \<Rightarrow> (take n c, if drop n c = [] then cs' else drop n c # cs'))"

definition strip_prefix :: "string \<Rightarrow> string \<Rightarrow> string option" where
  "strip_prefix p s = (if take (length p) s = p then Some (drop (length p) s) else None)"

definition target_addr :: "proxy_env \<Rightarrow> bytes \<Rightarrow> socket_addr option" where
  "target_addr env buf =
     (let request = pe_lossy env buf in
      case strip_prefix ''CONNECT '' request of
        Some s \<Rightarrow> (case pe_first_word env s of Some w \<Rightarrow> pe_addr env w | None \<Rightarrow> None)
      | None \<Rightarrow> if length buf \<ge> 7 then pe_addr env (pe_trim env request) else None)"

definition crlf :: string where
  "crlf = [CHR 0x0D, CHR 0x0A]"

definition reply_200 :: bytes where
  "reply_200 = str_bytes (''HTTP/1.1 200 Connection Established'' @ crlf @ crlf)"

definition reply_502 :: bytes where
  "reply_502 = str_bytes (''HTTP/1.1 502 Bad Gateway'' @ crlf @ crlf)"

definition reply_400 :: bytes where
  "reply_400 = str_bytes (''HTTP/1.1 400 Bad Request'' @ crlf @ crlf @ ''Invalid CONNECT request'')"

text \<open>The handler reads once: every branch of its loop leaves it, and a read that fails ends it like the
  end of the stream.  It answers, and either goes on to
  forward the rest of the client's stream or closes the connection.\<close>

datatype opened = Quit bytes | Forward socket_addr bytes "bytes list"

definition open_connection :: "proxy_env \<Rightarrow> (socket_addr \<Rightarrow> (string, unit) result) \<Rightarrow> nat \<Rightarrow>
    bytes list \<Rightarrow> opened" where
  "open_connection env connect buffer_size client =
     (case read_stream (min buffer_size 8192) client of
        (buf, rest) \<Rightarrow>
          if buf = [] then Quit []
          else (case target_addr env buf of
                  None \<Rightarrow> Quit reply_400
                | Some a \<Rightarrow>
                    (case connect a of
                       Inl e \<Rightarrow> Quit reply_502
                     | Inr u \<Rightarrow> Forward a reply_200 rest)))"

section \<open>Forwarding\<close>

text \<open>One direction: what is still to be read, what has been written, and whether it has stopped.\<close>

record flow =
  fl_in :: "bytes list"
  fl_out :: bytes

datatype fault = NoFault | ReadFault | WriteFault nat

text \<open>One turn of a direction's loop; the number of bytes to be counted, and whether it goes on.  A
  write that fails may have written a part.\<close>

definition flow_step :: "fault \<Rightarrow> flow \<Rightarrow> flow \<times> nat \<times> bool" where
  "flow_step x f =
     (if x = ReadFault then (f, 0, False)
      else (case read_stream 8192 (fl_in f) of
              (buf, rest) \<Rightarrow>
                if buf = [] then (f, 0, False)
                else (case x of
                        WriteFault k \<Rightarrow> (f\<lparr>fl_in := rest, fl_out := fl_out f @ take k buf\<rparr>, 0, False)
                      | _ \<Rightarrow> (f\<lparr>fl_in := rest, fl_out := fl_out f @ buf\<rparr>, length buf, True))))"

record forwarding =
  fw_up :: flow
  fw_down :: flow
  fw_open :: bool

definition forward_new :: "bytes list \<Rightarrow> bytes list \<Rightarrow> forwarding" where
  "forward_new client remote =
     \<lparr>fw_up = \<lparr>fl_in = client, fl_out = []\<rparr>, fw_down = \<lparr>fl_in = remote, fl_out = []\<rparr>, fw_open = True\<rparr>"

datatype direction = Up | Down

text \<open>\<^verbatim>\<open>select!\<close> runs both directions and drops the other one when the first stops.\<close>

definition count_traffic :: "uuid \<Rightarrow> direction \<Rightarrow> nat \<Rightarrow> proxy \<Rightarrow> proxy" where
  "count_traffic i dir n p =
     p\<lparr>pr_conns := hm_modify i
         (\<lambda>c. case dir of Up \<Rightarrow> c\<lparr>px_sent := px_sent c + of_nat n\<rparr>
                        | Down \<Rightarrow> c\<lparr>px_received := px_received c + of_nat n\<rparr>) (pr_conns p)\<rparr>"

fun forward_step :: "uuid \<Rightarrow> direction \<times> fault \<Rightarrow> proxy \<times> forwarding \<Rightarrow> proxy \<times> forwarding" where
  "forward_step i (dir, x) (p, f) =
     (if fw_open f then
        (case flow_step x (case dir of Up \<Rightarrow> fw_up f | Down \<Rightarrow> fw_down f) of
           (fl, n, go) \<Rightarrow>
             (if n = 0 then p else count_traffic i dir n p,
              (case dir of Up \<Rightarrow> f\<lparr>fw_up := fl, fw_open := go\<rparr> | Down \<Rightarrow> f\<lparr>fw_down := fl, fw_open := go\<rparr>)))
      else (p, f))"

section \<open>Runs\<close>

datatype proxy_op =
    PRegister uuid datetime socket_addr socket_addr transport_protocol
  | PUnregister uuid
  | PAccept uuid uuid datetime socket_addr
  | PEstablish uuid socket_addr
  | PTraffic uuid direction nat
  | PClose uuid socket_addr
  | PSnapshot
  | PStop

fun proxy_step :: "proxy_op \<Rightarrow> proxy \<Rightarrow> proxy" where
  "proxy_step (PRegister i now g r t) p = fst (register_connection i now g r t p)"
| "proxy_step (PUnregister i) p = fst (unregister_connection i p)"
| "proxy_step (PAccept i fresh now g) p = accept_connection i fresh now g p"
| "proxy_step (PEstablish i a) p = establish i a p"
| "proxy_step (PTraffic i dir n) p = count_traffic i dir n p"
| "proxy_step (PClose i peer) p = close_connection i peer p"
| "proxy_step PSnapshot p = fst (prepare_snapshot p)"
| "proxy_step PStop p = proxy_stop p"

text \<open>Fresh ids have not been used; the handler of an accepted connection closes it with the address
  it was accepted from, and it is the only one that establishes it.\<close>

fun op_fits :: "proxy_op \<Rightarrow> proxy \<Rightarrow> bool" where
  "op_fits (PRegister i now g r t) p \<longleftrightarrow> hm_get (pr_conns p) i = None"
| "op_fits (PAccept i fresh now g) p \<longleftrightarrow> hm_get (pr_conns p) i = None \<and> fresh \<noteq> i"
| "op_fits (PEstablish i a) p \<longleftrightarrow> (case hm_get (pr_conns p) i of None \<Rightarrow> True | Some c \<Rightarrow> px_id c \<noteq> i)"
| "op_fits (PClose i peer) p \<longleftrightarrow> (case hm_get (pr_conns p) i of None \<Rightarrow> True | Some c \<Rightarrow> px_id c \<noteq> i \<and> px_guest c = peer)"
| "op_fits _ p \<longleftrightarrow> True"

inductive proxy_reach :: "proxy_config \<Rightarrow> proxy \<Rightarrow> bool" for cfg where
  start: "proxy_reach cfg (proxy_new cfg)"
| step: "proxy_reach cfg p \<Longrightarrow> op_fits op p \<Longrightarrow> proxy_reach cfg (proxy_step op p)"

section \<open>The tables fit together\<close>

definition proxy_ok :: "proxy \<Rightarrow> bool" where
  "proxy_ok p \<longleftrightarrow> hm_ok (pr_conns p) \<and>
     (\<forall>g i. hm_get (pr_guests p) g = Some i \<longrightarrow> (\<exists>c. hm_get (pr_conns p) i = Some c \<and> px_guest c = g)) \<and>
     (\<forall>r i. hm_get (pr_remotes p) r = Some i \<longrightarrow>
        (\<exists>c. hm_get (pr_conns p) i = Some c \<and> px_remote c = r \<and> px_id c = i))"

lemma proxy_okI:
  assumes "hm_ok (pr_conns p)"
    and "\<And>g i. hm_get (pr_guests p) g = Some i \<Longrightarrow> \<exists>c. hm_get (pr_conns p) i = Some c \<and> px_guest c = g"
    and "\<And>r i. hm_get (pr_remotes p) r = Some i \<Longrightarrow>
      \<exists>c. hm_get (pr_conns p) i = Some c \<and> px_remote c = r \<and> px_id c = i"
  shows "proxy_ok p"
  using assms by (simp add: proxy_ok_def)

lemma proxy_okD:
  assumes "proxy_ok p"
  shows "hm_ok (pr_conns p)"
    and "hm_get (pr_guests p) g = Some i \<Longrightarrow> \<exists>c. hm_get (pr_conns p) i = Some c \<and> px_guest c = g"
    and "hm_get (pr_remotes p) r = Some i \<Longrightarrow> \<exists>c. hm_get (pr_conns p) i = Some c \<and> px_remote c = r \<and> px_id c = i"
  using assms by (simp_all add: proxy_ok_def)

lemma proxy_modify_ok:
  assumes ok: "proxy_ok p" and f: "\<And>c. px_guest (f c) = px_guest c \<and> px_id (f c) = px_id c"
    and r: "\<And>c. hm_get (pr_conns p) i = Some c \<Longrightarrow> px_remote (f c) = px_remote c \<or> px_id c \<noteq> i"
  shows "proxy_ok (p\<lparr>pr_conns := hm_modify i f (pr_conns p)\<rparr>)"
proof (rule proxy_okI)
  fix g k assume "hm_get (pr_guests (p\<lparr>pr_conns := hm_modify i f (pr_conns p)\<rparr>)) g = Some k"
  then obtain c where "hm_get (pr_conns p) k = Some c" "px_guest c = g" using proxy_okD(2) [OF ok] by auto
  then show "\<exists>c. hm_get (pr_conns (p\<lparr>pr_conns := hm_modify i f (pr_conns p)\<rparr>)) k = Some c \<and> px_guest c = g"
    using f by auto
next
  fix a k assume "hm_get (pr_remotes (p\<lparr>pr_conns := hm_modify i f (pr_conns p)\<rparr>)) a = Some k"
  then obtain c where "hm_get (pr_conns p) k = Some c" "px_remote c = a" "px_id c = k"
    using proxy_okD(3) [OF ok] by auto
  then show "\<exists>c. hm_get (pr_conns (p\<lparr>pr_conns := hm_modify i f (pr_conns p)\<rparr>)) k = Some c \<and> px_remote c = a \<and> px_id c = k"
    using f r by auto
qed (use proxy_okD(1) [OF ok] in simp)

lemma proxy_step_ok:
  assumes ok: "proxy_ok p" and fits: "op_fits op p"
  shows "proxy_ok (proxy_step op p)"
proof (cases op)
  case (PRegister i now g r t)
  then have new: "hm_get (pr_conns p) i = None" using fits by simp
  show ?thesis
    using proxy_okD [OF ok] new unfolding PRegister
    by (intro proxy_okI) (auto simp: register_connection_def proxied_new_def split: if_splits dest!: proxy_okD(2,3) [OF ok])
next
  case (PUnregister i)
  show ?thesis
  proof (cases "hm_get (pr_conns p) i")
    case None
    then show ?thesis using ok by (simp add: PUnregister unregister_connection_def)
  next
    case (Some c)
    then show ?thesis
      using proxy_okD(1) [OF ok] proxy_okD(2) [OF ok] proxy_okD(3) [OF ok] unfolding PUnregister
      by (intro proxy_okI) (fastforce simp: unregister_connection_def split: if_splits)+
  qed
next
  case (PAccept i fresh now g)
  then have new: "hm_get (pr_conns p) i = None" using fits by simp
  show ?thesis
    using proxy_okD(1) [OF ok] new unfolding PAccept
    by (intro proxy_okI) (auto simp: accept_connection_def proxied_new_def split: if_splits dest!: proxy_okD(2,3) [OF ok])
next
  case (PEstablish i a)
  then show ?thesis
    using fits unfolding PEstablish proxy_step.simps establish_def by (intro proxy_modify_ok [OF ok]) auto
next
  case (PTraffic i dir n)
  show ?thesis
    unfolding PTraffic proxy_step.simps count_traffic_def
    by (intro proxy_modify_ok [OF ok]) (auto split: direction.splits)
next
  case (PClose i peer)
  then have close: "px_id c \<noteq> i \<and> px_guest c = peer" if "hm_get (pr_conns p) i = Some c" for c
    using fits that by simp
  show ?thesis
    using proxy_okD(1) [OF ok] close unfolding PClose
    by (intro proxy_okI) (fastforce simp: close_connection_def split: if_splits dest!: proxy_okD(2,3) [OF ok])+
next
  case PSnapshot
  have sel: "pr_conns (proxy_step PSnapshot p) = map (\<lambda>(i, c). (i, c\<lparr>px_state := Snapshotting\<rparr>)) (pr_conns p)"
    "pr_guests (proxy_step PSnapshot p) = pr_guests p" "pr_remotes (proxy_step PSnapshot p) = pr_remotes p"
    by (simp_all add: prepare_snapshot_def Let_def)
  show ?thesis
    unfolding PSnapshot
    by (rule proxy_okI; unfold sel hm_get_map_values)
      (use proxy_okD(1) [OF ok] in \<open>auto simp: hm_ok_def map_fst_values simp del: map_map dest!: proxy_okD(2,3) [OF ok]\<close>)
next
  case PStop
  then show ?thesis using ok by (simp add: proxy_stop_def proxy_ok_def)
qed

lemma proxy_reach_ok: "proxy_reach cfg p \<Longrightarrow> proxy_ok p"
  by (induction rule: proxy_reach.induct) (simp add: proxy_ok_def proxy_new_def, rule proxy_step_ok)


section \<open>Capture and restore\<close>

lemma fold_insert_new:
  "distinct (map fst kvs) \<Longrightarrow> fst ` set kvs \<inter> fst ` set m = {} \<Longrightarrow>
    fold (\<lambda>(k, v). hm_insert k v) kvs m = m @ kvs"
proof (induction kvs arbitrary: m)
  case (Cons kv kvs)
  obtain k v where kv: "kv = (k, v)" by fastforce
  then have "hm_insert k v m = m @ [(k, v)]"
    using Cons.prems(2) by (intro hm_insert_new) (auto simp: hm_get_None_iff)
  moreover have "fst ` set kvs \<inter> fst ` set (m @ [(k, v)]) = {}"
    using Cons.prems by (auto simp: kv)
  ultimately show ?case using Cons.IH [of "m @ [(k, v)]"] Cons.prems(1) by (simp add: kv)
qed simp

lemma restore_tables:
  fixes fresh ss p
  defines "reg \<equiv> \<lambda>((i, now), s) p. fst (register_connection i now (sv_guest s) (sv_remote s) (sv_protocol s) p)"
  defines "new \<equiv> \<lambda>((i, now), s). (i, proxied_new i now (sv_guest s) (sv_remote s) (sv_protocol s))"
  shows "pr_conns (fold reg xs p) = fold (\<lambda>(k, v). hm_insert k v) (map new xs) (pr_conns p)"
    and "pr_guests (fold reg xs p) = fold (\<lambda>(k, v). hm_insert k v) (map (\<lambda>(f, s). (sv_guest s, fst f)) xs) (pr_guests p)"
  unfolding reg_def new_def
  by (induction xs arbitrary: p) (auto simp: register_connection_def split: prod.splits)

text \<open>Captured connections are restored: restoring what \<open>prepare_snapshot\<close> returned into a new proxy
  gives the same connections (guest, remote, protocol) in the same order, under their new ids, and
  as long as every guest has one connection each is found by its guest's address.  The restored
  connections are new ones, waiting to be established: buffered bytes and counters are not
  carried over.\<close>

theorem connections_restored:
  assumes "prepare_snapshot p = (p', Inr ss)" "restore_connections fresh ss (proxy_new cfg) = (q, x)"
    and "distinct (map fst fresh)" "length fresh = length (pr_conns p)"
  shows "x = Ok () \<and>
    pr_conns q = map2 (\<lambda>(i, now) c. (i, proxied_new i now (px_guest c) (px_remote c) (px_protocol c)))
      fresh (hm_values (pr_conns p)) \<and>
    (\<forall>k < length fresh. distinct (map px_guest (hm_values (pr_conns p))) \<longrightarrow>
      get_by_guest_addr (px_guest (hm_values (pr_conns p) ! k)) q = Some (snd (pr_conns q ! k)))"
proof -
  let ?cs = "hm_values (pr_conns p)" and ?p0 = "proxy_new cfg"
  let ?new = "\<lambda>((i, now), s). (i, proxied_new i now (sv_guest s) (sv_remote s) (sv_protocol s))"
  have ss: "ss = map (\<lambda>(i, c). saved_of i (c\<lparr>px_state := Snapshotting\<rparr>)) (pr_conns p)"
    using assms(1) by (auto simp: prepare_snapshot_def Let_def)
  then have len: "length ss = length fresh" "length ?cs = length fresh" using assms(4) by (simp_all add: hm_values_def)
  have nth: "sv_guest (ss ! k) = px_guest (?cs ! k)" "sv_remote (ss ! k) = px_remote (?cs ! k)"
    "sv_protocol (ss ! k) = px_protocol (?cs ! k)" if "k < length fresh" for k
    using that assms(4) by (simp_all add: ss hm_values_def saved_of_def case_prod_beta)
  have x: "x = Ok ()" and q: "q = fold (\<lambda>((i, now), s) p.
      fst (register_connection i now (sv_guest s) (sv_remote s) (sv_protocol s) p)) (zip fresh ss) ?p0"
    using assms(2) by (simp_all add: restore_connections_def)
  have ids: "map fst (map ?new (zip fresh ss)) = map fst fresh"
    using len by (intro nth_equalityI) (auto split: prod.splits)
  have conns: "pr_conns q = map ?new (zip fresh ss)"
    using fold_insert_new [of "map ?new (zip fresh ss)" "[]"] assms(3)
    unfolding q restore_tables ids by (simp add: proxy_new_def)
  also have "\<dots> = map2 (\<lambda>(i, now) c. (i, proxied_new i now (px_guest c) (px_remote c) (px_protocol c))) fresh ?cs"
    using len by (intro nth_equalityI) (auto simp: nth split: prod.splits)
  finally have eq: "pr_conns q = \<dots>" .
  have "get_by_guest_addr (px_guest (?cs ! k)) q = Some (snd (pr_conns q ! k))"
    if k: "k < length fresh" and d: "distinct (map px_guest ?cs)" for k
  proof -
    let ?gs = "map (\<lambda>(f, s). (sv_guest s, fst f)) (zip fresh ss)"
    have gs: "?gs = zip (map px_guest ?cs) (map fst fresh)"
      using len by (intro nth_equalityI) (auto simp: nth)
    have "pr_guests q = ?gs"
      using fold_insert_new [of ?gs "[]"] d len unfolding q restore_tables by (simp add: gs proxy_new_def)
    then have "hm_get (pr_guests q) (px_guest (?cs ! k)) = Some (fst (fresh ! k))"
      using map_of_zip_nth [of "map px_guest ?cs" "map fst fresh" k] d len k unfolding gs hm_get_def by simp
    moreover have "hm_get (pr_conns q) (fst (fresh ! k)) = Some (snd (pr_conns q ! k))"
    proof -
      have "distinct (map fst (pr_conns q))" unfolding conns ids by (rule assms(3))
      moreover have "pr_conns q ! k \<in> set (pr_conns q)"
        using k len by (intro nth_mem) (simp add: conns)
      moreover have "fst (pr_conns q ! k) = fst (fresh ! k)"
        using k len by (auto simp: conns split: prod.splits)
      ultimately show ?thesis unfolding hm_get_def by (metis map_of_is_SomeI prod.collapse)
    qed
    ultimately show ?thesis by (simp add: get_by_guest_addr_def)
  qed
  then show ?thesis using x eq by blast
qed

section \<open>Forwarding is faithful\<close>

lemma read_stream_concat: "read_stream n cs = (d, rest) \<Longrightarrow> d @ concat rest = concat cs"
  by (cases cs) (auto simp: read_stream_def split: if_splits simp flip: append.assoc)

lemma read_stream_nonempty:
  assumes "read_stream n cs = (d, rest)" "list_all (\<lambda>c. c \<noteq> []) cs"
  shows "list_all (\<lambda>c. c \<noteq> []) rest" "0 < n \<Longrightarrow> d = [] \<Longrightarrow> cs = []"
  using assms by (auto simp: read_stream_def split: list.splits if_splits)

lemma flow_step_spec:
  assumes "flow_step x fl = (fl', n, go)" "list_all (\<lambda>c. c \<noteq> []) (fl_in fl)"
  shows "prefix (fl_out fl') (fl_out fl @ concat (fl_in fl))"
    and "list_all (\<lambda>c. c \<noteq> []) (fl_in fl')"
    and "go \<or> x = NoFault \<Longrightarrow> fl_out fl' @ concat (fl_in fl') = fl_out fl @ concat (fl_in fl)"
    and "go \<or> x = NoFault \<Longrightarrow> length (fl_out fl') = length (fl_out fl) + n"
    and "\<not> go \<Longrightarrow> x = NoFault \<Longrightarrow> fl_in fl' = []"
proof -
  obtain d rest where r: "read_stream 8192 (fl_in fl) = (d, rest)" by fastforce
  note c = read_stream_concat [OF r] and ne = read_stream_nonempty [OF r assms(2)]
  have "prefix (take k d) (d @ concat rest)" for k
    by (meson prefix_append take_is_prefix prefix_prefix)
  then have pre: "prefix (take k d) (concat (fl_in fl))" "prefix d (concat (fl_in fl))" for k
    unfolding c [symmetric] by auto
  show "prefix (fl_out fl') (fl_out fl @ concat (fl_in fl))"
    using assms(1) r pre by (auto simp: flow_step_def split: if_splits fault.splits)
  show "list_all (\<lambda>c. c \<noteq> []) (fl_in fl')"
    using assms r ne by (auto simp: flow_step_def split: if_splits fault.splits)
  show "go \<or> x = NoFault \<Longrightarrow> fl_out fl' @ concat (fl_in fl') = fl_out fl @ concat (fl_in fl)"
    using assms(1) r c by (auto simp: flow_step_def split: if_splits fault.splits)
  show "go \<or> x = NoFault \<Longrightarrow> length (fl_out fl') = length (fl_out fl) + n"
    using assms(1) r by (auto simp: flow_step_def split: if_splits fault.splits)
  show "\<not> go \<Longrightarrow> x = NoFault \<Longrightarrow> fl_in fl' = []"
    using assms(1) r ne by (auto simp: flow_step_def split: if_splits fault.splits)
qed

definition counted :: "forwarding \<Rightarrow> proxied \<Rightarrow> proxied" where
  "counted f c = c\<lparr>px_sent := px_sent c + of_nat (length (fl_out (fw_up f))),
     px_received := px_received c + of_nat (length (fl_out (fw_down f)))\<rparr>"

definition flow_ok :: "bool \<Rightarrow> bytes list \<Rightarrow> flow \<Rightarrow> bool" where
  "flow_ok exact stream fl \<longleftrightarrow> prefix (fl_out fl) (concat stream) \<and> list_all (\<lambda>c. c \<noteq> []) (fl_in fl) \<and>
     (exact \<longrightarrow> fl_out fl @ concat (fl_in fl) = concat stream)"

lemma flow_step_ok:
  assumes "flow_step x fl = (fl', n, go)" "flow_ok True stream fl"
  shows "flow_ok (go \<or> x = NoFault) stream fl'"
  using flow_step_spec [OF assms(1)] assms(2) unfolding flow_ok_def by auto

lemma flow_ok_weaken: "flow_ok a stream fl \<Longrightarrow> (b \<Longrightarrow> a) \<Longrightarrow> flow_ok b stream fl"
  by (auto simp: flow_ok_def)

lemma forward_inv:
  fixes acts :: "(direction \<times> fault) list"
  assumes "list_all (\<lambda>c. c \<noteq> []) (client @ remote)"
    and "fold (forward_step i) acts (p, forward_new client remote) = (q, f)"
  defines "clean \<equiv> list_all (\<lambda>(d, x). x = NoFault) acts"
  shows "flow_ok (fw_open f \<or> clean) client (fw_up f) \<and> flow_ok (fw_open f \<or> clean) remote (fw_down f) \<and>
    (fw_open f \<or> clean \<longrightarrow> hm_get (pr_conns q) i = map_option (counted f) (hm_get (pr_conns p) i)) \<and>
    (clean \<and> \<not> fw_open f \<longrightarrow> fl_in (fw_up f) = [] \<or> fl_in (fw_down f) = [])"
  using assms(2) unfolding clean_def
proof (induction acts arbitrary: q f rule: rev_induct)
  case Nil
  then show ?case
    using assms(1) by (auto simp: forward_new_def flow_ok_def counted_def option.map_ident)
next
  case (snoc a acts)
  obtain q0 f0 where run: "fold (forward_step i) acts (p, forward_new client remote) = (q0, f0)" by fastforce
  note IH = snoc.IH [OF run]
  obtain dir x where a: "a = (dir, x)" by fastforce
  have last: "forward_step i (dir, x) (q0, f0) = (q, f)" using snoc.prems run a by simp
  show ?case
  proof (cases "fw_open f0")
    case False
    then have "q = q0" "f = f0" using last by simp_all
    then show ?thesis
      using IH False a by (auto intro: flow_ok_weaken)
  next
    case True
    show ?thesis
    proof (cases dir)
      case Up
      obtain fl n go where step: "flow_step x (fw_up f0) = (fl, n, go)" by (metis prod.exhaust)
      have f: "f = f0\<lparr>fw_up := fl, fw_open := go\<rparr>" and q: "q = (if n = 0 then q0 else count_traffic i Up n q0)"
        using last True Up step by auto
      have ok: "flow_ok True client (fw_up f0)" "flow_ok True remote (fw_down f0)"
        and cnt: "hm_get (pr_conns q0) i = map_option (counted f0) (hm_get (pr_conns p) i)" using IH True by auto
      have ne: "list_all (\<lambda>c. c \<noteq> []) (fl_in (fw_up f0))" using ok by (simp add: flow_ok_def)
      have "hm_get (pr_conns q) i = map_option (counted f) (hm_get (pr_conns p) i)" if "go \<or> x = NoFault"
        using cnt flow_step_spec(4) [OF step ne that] unfolding f q
        by (cases "hm_get (pr_conns p) i") (auto simp: count_traffic_def counted_def)
      then show ?thesis
        using flow_step_ok [OF step ok(1)] ok(2) flow_step_spec(5) [OF step ne] a unfolding f
        by (auto intro: flow_ok_weaken)
    next
      case Down
      obtain fl n go where step: "flow_step x (fw_down f0) = (fl, n, go)" by (metis prod.exhaust)
      have f: "f = f0\<lparr>fw_down := fl, fw_open := go\<rparr>" and q: "q = (if n = 0 then q0 else count_traffic i Down n q0)"
        using last True Down step by auto
      have ok: "flow_ok True client (fw_up f0)" "flow_ok True remote (fw_down f0)"
        and cnt: "hm_get (pr_conns q0) i = map_option (counted f0) (hm_get (pr_conns p) i)" using IH True by auto
      have ne: "list_all (\<lambda>c. c \<noteq> []) (fl_in (fw_down f0))" using ok by (simp add: flow_ok_def)
      have "hm_get (pr_conns q) i = map_option (counted f) (hm_get (pr_conns p) i)" if "go \<or> x = NoFault"
        using cnt flow_step_spec(4) [OF step ne that] unfolding f q
        by (cases "hm_get (pr_conns p) i") (auto simp: count_traffic_def counted_def)
      then show ?thesis
        using flow_step_ok [OF step ok(2)] ok(1) flow_step_spec(5) [OF step ne] a unfolding f
        by (auto intro: flow_ok_weaken)
    qed
  qed
qed


text \<open>A client that has sent its request and closed its side never gets the answer when its end is
  noticed first: the other direction is dropped.\<close>

lemma half_close_loses_reply:
  "snd (fold (forward_step i) [(Up, NoFault), (Up, NoFault), (Down, NoFault)] (p, forward_new [[1]] [[2]])) =
     \<lparr>fw_up = \<lparr>fl_in = [], fl_out = [1]\<rparr>, fw_down = \<lparr>fl_in = [[2]], fl_out = []\<rparr>, fw_open = False\<rparr>"
  by (simp add: forward_new_def flow_step_def read_stream_def)

text \<open>The captured descriptors and the captured socket table of an accepted connection name it by
  different ids.\<close>

lemma accepted_ids_differ:
  assumes "fresh \<noteq> i"
  shows "get_descriptors (accept_connection i fresh now g (proxy_new cfg)) = [\<lparr>fd_num = 0, fd_kind_of = FDSocket i\<rparr>] \<and>
    get_socket_table (accept_connection i fresh now g (proxy_new cfg)) = [\<lparr>socket_id = fresh, socket_protocol = Tcp\<rparr>]"
  using assms by (simp add: get_descriptors_def get_socket_table_def accept_connection_def proxy_new_def
      proxied_new_def hm_insert_def hm_values_def)

section \<open>Concrete runs\<close>

definition demo_guest :: "u16 \<Rightarrow> socket_addr" where
  "demo_guest port = AddrV4 [127, 0, 0, 1] port"

definition demo_remote :: socket_addr where
  "demo_remote = AddrV4 [8, 8, 8, 8] 443"

definition demo_proxy :: proxy where
  "demo_proxy = fold proxy_step
     [PRegister ''a'' 0 (demo_guest 1) demo_remote Tcp, PAccept ''b'' ''c'' 0 (demo_guest 2)]
     (proxy_new proxy_default)"


lemma connections_restored_witness:
  "\<exists>q. restore_connections [(''x'', 9), (''y'', 9)] [saved_of ''a'' (proxied_new ''a'' 0 (demo_guest 1) demo_remote Tcp),
       saved_of ''b'' (proxied_new ''c'' 0 (demo_guest 2) any_addr Tcp)] (proxy_new proxy_default) = (q, Ok ()) \<and>
     get_by_guest_addr (demo_guest 2) q = Some (proxied_new ''y'' 9 (demo_guest 2) any_addr Tcp)"
proof -
  let ?ss = "[saved_of ''a'' (proxied_new ''a'' 0 (demo_guest 1) demo_remote Tcp),
       saved_of ''b'' (proxied_new ''c'' 0 (demo_guest 2) any_addr Tcp)]"
  have conns: "pr_conns demo_proxy = [(''a'', proxied_new ''a'' 0 (demo_guest 1) demo_remote Tcp),
      (''b'', proxied_new ''c'' 0 (demo_guest 2) any_addr Tcp)]"
    by (simp add: demo_proxy_def register_connection_def accept_connection_def proxy_new_def hm_insert_def)
  then have prep: "prepare_snapshot demo_proxy = (fst (prepare_snapshot demo_proxy), Inr ?ss)"
    by (simp add: prepare_snapshot_def Let_def saved_of_def)
  obtain q x where run: "restore_connections [(''x'', 9), (''y'', 9)] ?ss (proxy_new proxy_default) = (q, x)" by fastforce
  have "distinct (map fst [(''x'', 9 :: datetime), (''y'', 9)])" by simp
  moreover have "length [(''x'', 9 :: datetime), (''y'', 9)] = length (pr_conns demo_proxy)" by (simp add: conns)
  ultimately have r: "x = Ok () \<and> pr_conns q =
      map2 (\<lambda>(i, now) c. (i, proxied_new i now (px_guest c) (px_remote c) (px_protocol c)))
        [(''x'', 9), (''y'', 9)] (hm_values (pr_conns demo_proxy)) \<and>
    (\<forall>k < length [(''x'', 9 :: datetime), (''y'', 9)]. distinct (map px_guest (hm_values (pr_conns demo_proxy))) \<longrightarrow>
      get_by_guest_addr (px_guest (hm_values (pr_conns demo_proxy) ! k)) q = Some (snd (pr_conns q ! k)))"
    by (rule connections_restored [OF prep run])
  have d: "distinct (map px_guest (hm_values (pr_conns demo_proxy)))" and g: "px_guest (hm_values (pr_conns demo_proxy) ! 1) = demo_guest 2"
    by (simp_all add: conns hm_values_def proxied_new_def demo_guest_def)
  have "get_by_guest_addr (px_guest (hm_values (pr_conns demo_proxy) ! 1)) q = Some (snd (pr_conns q ! 1))"
    using r [THEN conjunct2, THEN conjunct2, THEN spec, of 1] by (rule mp [OF mp]) (simp, rule d)
  moreover have "pr_conns q ! 1 = (''y'', proxied_new ''y'' 9 (demo_guest 2) any_addr Tcp)"
    using r by (simp add: conns hm_values_def proxied_new_def)
  ultimately show ?thesis using run r unfolding g by simp
qed


end
