(* ===== verification/Rtp.thy ===== *)
theory Rtp
  imports Model
begin

text \<open>
  \<^verbatim>\<open>src/src/webrtc_media.rs\<close>: RTP packets and their bytes, sender reports, sessions, the packetizer
  of video frames and the media sender.  Sending a datagram is a parameter \<open>net\<close> with a state of
  its own; \<open>wire\<close> is the network that accepts everything.  A panic is \<open>None\<close>.  The fields of the
  statistics that nothing writes (jitter and round trip time) are left out.
\<close>

section \<open>Packets\<close>

record rtp_packet =
  rp_version :: u8
  rp_padding :: bool
  rp_extension :: bool
  rp_csrc :: u8
  rp_marker :: bool
  rp_type :: u8
  rp_seq :: u16
  rp_timestamp :: u32
  rp_ssrc :: u32
  rp_payload :: bytes

definition rtp_new :: "u8 \<Rightarrow> u16 \<Rightarrow> u32 \<Rightarrow> u32 \<Rightarrow> bytes \<Rightarrow> rtp_packet" where
  "rtp_new ty sq ts ssrc payload =
     \<lparr>rp_version = 2, rp_padding = False, rp_extension = False, rp_csrc = 0, rp_marker = False,
      rp_type = ty, rp_seq = sq, rp_timestamp = ts, rp_ssrc = ssrc, rp_payload = payload\<rparr>"

definition flag :: "bool \<Rightarrow> u8" where
  "flag b = (if b then 1 else 0)"

text \<open>A shift of a byte drops the bits that are shifted out.\<close>

definition first_byte :: "rtp_packet \<Rightarrow> u8" where
  "first_byte p = push_bit 6 (rp_version p) OR push_bit 5 (flag (rp_padding p)) OR
     push_bit 4 (flag (rp_extension p)) OR rp_csrc p"

definition second_byte :: "rtp_packet \<Rightarrow> u8" where
  "second_byte p = push_bit 7 (flag (rp_marker p)) OR rp_type p"

definition rtp_serialize :: "rtp_packet \<Rightarrow> bytes" where
  "rtp_serialize p =
     [first_byte p, second_byte p] @ be16 (rp_seq p) @ be32 (rp_timestamp p) @ be32 (rp_ssrc p) @ rp_payload p"

text \<open>Slicing \<^verbatim>\<open>data[header_size..]\<close> panics when the announced sources are not there.\<close>

definition rtp_deserialize :: "bytes \<Rightarrow> rtp_packet option option" where
  "rtp_deserialize d =
     (if length d < 12 then Some None
      else
        let version = drop_bit 6 (d ! 0) AND 3 in
        if version \<noteq> 2 then Some None
        else
          let csrc = d ! 0 AND 0x0F; header_size = 12 + unat csrc * 4 in
          if header_size > length d then None
          else Some (Some
            \<lparr>rp_version = version, rp_padding = (d ! 0 AND 0x20 \<noteq> 0), rp_extension = (d ! 0 AND 0x10 \<noteq> 0),
             rp_csrc = csrc, rp_marker = (d ! 1 AND 0x80 \<noteq> 0), rp_type = d ! 1 AND 0x7F,
             rp_seq = from_be16 (d ! 2) (d ! 3),
             rp_timestamp = from_be32 (d ! 4) (d ! 5) (d ! 6) (d ! 7),
             rp_ssrc = from_be32 (d ! 8) (d ! 9) (d ! 10) (d ! 11),
             rp_payload = drop header_size d\<rparr>))"

section \<open>Sender reports\<close>

datatype rtcp_packet_type =
    SenderReport | ReceiverReport | SourceDescription | Bye | ApplicationDefined
  | TransportLayerNack | PayloadSpecificFeedback

fun rtcp_code :: "rtcp_packet_type \<Rightarrow> u8" where
  "rtcp_code SenderReport = 200"
| "rtcp_code ReceiverReport = 201"
| "rtcp_code SourceDescription = 202"
| "rtcp_code Bye = 203"
| "rtcp_code ApplicationDefined = 204"
| "rtcp_code TransportLayerNack = 205"
| "rtcp_code PayloadSpecificFeedback = 206"

record sender_report =
  sr_ssrc :: u32
  sr_ntp_secs :: u32
  sr_ntp_frac :: u32
  sr_timestamp :: u32
  sr_packets :: u32
  sr_octets :: u32

definition report_serialize :: "sender_report \<Rightarrow> bytes" where
  "report_serialize r =
     [0x80, rtcp_code SenderReport] @ be16 6 @ be32 (sr_ssrc r) @ be32 (sr_ntp_secs r) @
     be32 (sr_ntp_frac r) @ be32 (sr_timestamp r) @ be32 (sr_packets r) @ be32 (sr_octets r)"

section \<open>Sessions\<close>

datatype rtp_error =
    NotConnected
  | SendError string
  | RecvError string
  | InvalidPacket string
  | RtpIoError string

record rtp_stats =
  rs_packets_sent :: u64
  rs_packets_received :: u64
  rs_bytes_sent :: u64
  rs_bytes_received :: u64
  rs_packets_lost :: u64

definition rtp_stats_default :: rtp_stats where
  "rtp_stats_default = \<lparr>rs_packets_sent = 0, rs_packets_received = 0, rs_bytes_sent = 0,
     rs_bytes_received = 0, rs_packets_lost = 0\<rparr>"

text \<open>Addresses and sockets are numbers.\<close>

record rtp_session =
  rt_id :: string
  rt_local_ssrc :: u32
  rt_remote_ssrc :: "u32 option"
  rt_type :: u8
  rt_seq :: u16
  rt_base :: u32
  rt_socket :: "nat option"
  rt_remote :: "nat option"
  rt_stats :: rtp_stats
  rt_running :: bool

definition session_new :: "uuid \<Rightarrow> u32 \<Rightarrow> u32 \<Rightarrow> u8 \<Rightarrow> rtp_session" where
  "session_new fresh ssrc base ty =
     \<lparr>rt_id = fresh, rt_local_ssrc = ssrc, rt_remote_ssrc = None, rt_type = ty, rt_seq = 0,
      rt_base = base, rt_socket = None, rt_remote = None, rt_stats = rtp_stats_default,
      rt_running = False\<rparr>"

definition set_remote :: "nat \<Rightarrow> nat \<Rightarrow> rtp_session \<Rightarrow> rtp_session" where
  "set_remote addr sock s = s\<lparr>rt_remote := Some addr, rt_socket := Some sock\<rparr>"

type_synonym 'n net = "nat \<Rightarrow> nat \<Rightarrow> bytes \<Rightarrow> 'n \<Rightarrow> 'n \<times> (string, nat) result"

definition session_packet :: "rtp_session \<Rightarrow> bytes \<Rightarrow> u32 \<Rightarrow> bool \<Rightarrow> rtp_packet" where
  "session_packet s payload ts marker =
     \<lparr>rp_version = 2, rp_padding = False, rp_extension = False, rp_csrc = 0, rp_marker = marker,
      rp_type = rt_type s, rp_seq = rt_seq s, rp_timestamp = rt_base s + ts,
      rp_ssrc = rt_local_ssrc s, rp_payload = payload\<rparr>"

definition send_packet :: "'n net \<Rightarrow> bytes \<Rightarrow> u32 \<Rightarrow> bool \<Rightarrow> rtp_session \<times> 'n \<Rightarrow>
    (rtp_session \<times> 'n) \<times> (rtp_error, unit) result" where
  "send_packet net payload ts marker w =
     (case w of (s, n) \<Rightarrow>
        (case rt_remote s of
           None \<Rightarrow> (w, Err NotConnected)
         | Some addr \<Rightarrow>
             (case rt_socket s of
                None \<Rightarrow> (w, Err NotConnected)
              | Some sock \<Rightarrow>
                  (case net sock addr (rtp_serialize (session_packet s payload ts marker)) n of
                     (n', Inl e) \<Rightarrow> ((s, n'), Err (SendError e))
                   | (n', Inr sent) \<Rightarrow>
                       ((s\<lparr>rt_seq := rt_seq s + 1,
                           rt_stats := (rt_stats s)
                             \<lparr>rs_packets_sent := rs_packets_sent (rt_stats s) + 1,
                              rs_bytes_sent := rs_bytes_sent (rt_stats s) + of_nat sent\<rparr>\<rparr>, n'),
                        Ok ())))))"

text \<open>The time since the Unix epoch in seconds and nanoseconds.  In \<^verbatim>\<open><< 32 / 1_000_000_000\<close> the
  division binds tighter than the shift.\<close>

definition session_report :: "rtp_session \<Rightarrow> u64 \<Rightarrow> u32 \<Rightarrow> sender_report" where
  "session_report s secs nanos =
     \<lparr>sr_ssrc = rt_local_ssrc s,
      sr_ntp_secs = ucast (secs + 2208988800),
      sr_ntp_frac = ucast (push_bit (32 div 1000000000) (ucast nanos :: u64)),
      sr_timestamp = rt_base s,
      sr_packets = ucast (rs_packets_sent (rt_stats s)),
      sr_octets = ucast (rs_bytes_sent (rt_stats s))\<rparr>"

definition send_sender_report :: "'n net \<Rightarrow> u64 \<Rightarrow> u32 \<Rightarrow> rtp_session \<Rightarrow> 'n \<Rightarrow>
    'n \<times> (rtp_error, unit) result" where
  "send_sender_report net secs nanos s n =
     (case rt_remote s of
        None \<Rightarrow> (n, Err NotConnected)
      | Some addr \<Rightarrow>
          (case rt_socket s of
             None \<Rightarrow> (n, Err NotConnected)
           | Some sock \<Rightarrow>
               (case net sock addr (report_serialize (session_report s secs nanos)) n of
                  (n', Inl e) \<Rightarrow> (n', Err (SendError e))
                | (n', Inr sent) \<Rightarrow> (n', Ok ()))))"

section \<open>Packets of a frame\<close>

record packetizer =
  pk_max :: nat
  pk_type :: u8
  pk_clock :: u32

definition packetizer_default :: packetizer where
  "packetizer_default = \<lparr>pk_max = 1200, pk_type = 96, pk_clock = 90000\<rparr>"

definition packetizer_new :: "u8 \<Rightarrow> u32 \<Rightarrow> packetizer" where
  "packetizer_new ty clock = \<lparr>pk_max = 1200, pk_type = ty, pk_clock = clock\<rparr>"

definition frame_packet :: "packetizer \<Rightarrow> u32 \<Rightarrow> bool \<Rightarrow> u16 \<Rightarrow> bytes \<Rightarrow> rtp_packet" where
  "frame_packet pk ts marker sq payload =
     \<lparr>rp_version = 2, rp_padding = False, rp_extension = False, rp_csrc = 0, rp_marker = marker,
      rp_type = pk_type pk, rp_seq = sq, rp_timestamp = ts, rp_ssrc = 0, rp_payload = payload\<rparr>"

text \<open>The loop does not end when the maximal size is 0; then the result is \<open>None\<close>.\<close>

partial_function (option) packetize_loop :: "packetizer \<Rightarrow> bytes \<Rightarrow> u32 \<Rightarrow> bool \<Rightarrow> nat \<Rightarrow> u16 \<Rightarrow>
    rtp_packet list \<Rightarrow> rtp_packet list option" where
  "packetize_loop pk frame ts key off sq acc =
     (if off < length frame then
        (let remaining = length frame - off;
             size = min remaining (pk_max pk);
             is_last = (remaining \<le> pk_max pk);
             payload = take size (drop off frame)
         in packetize_loop pk frame ts key (off + size) (sq + 1)
              (acc @ [frame_packet pk ts (is_last \<or> key) sq payload]))
      else Some acc)"

definition packetize :: "packetizer \<Rightarrow> bytes \<Rightarrow> u32 \<Rightarrow> bool \<Rightarrow> rtp_packet list option" where
  "packetize pk frame ts key = packetize_loop pk frame ts key 0 0 []"

section \<open>The media sender\<close>

record media_sender =
  ms_video :: rtp_session
  ms_audio :: "rtp_session option"
  ms_packetizer :: packetizer
  ms_running :: bool

definition sender_new :: "uuid \<Rightarrow> u32 \<Rightarrow> u32 \<Rightarrow> media_sender" where
  "sender_new fresh ssrc base =
     \<lparr>ms_video = session_new fresh ssrc base 96, ms_audio = None,
      ms_packetizer = packetizer_default, ms_running = False\<rparr>"

definition sender_set_remote :: "nat \<Rightarrow> nat \<Rightarrow> media_sender \<Rightarrow> media_sender" where
  "sender_set_remote addr sock m = m\<lparr>ms_video := set_remote addr sock (ms_video m)\<rparr>"

fun send_packets :: "'n net \<Rightarrow> bool \<Rightarrow> nat \<Rightarrow> nat \<Rightarrow> rtp_packet list \<Rightarrow> rtp_session \<times> 'n \<Rightarrow>
    (rtp_session \<times> 'n) \<times> (rtp_error, unit) result" where
  "send_packets net key n i [] w = (w, Ok ())"
| "send_packets net key n i (p # ps) w =
     (case send_packet net (rp_payload p) (rp_timestamp p) (i = n - 1 \<or> key) w of
        (w', Inl e) \<Rightarrow> (w', Err e)
      | (w', Inr u) \<Rightarrow> send_packets net key n (i + 1) ps w')"

definition frame_timestamp :: "u64 \<Rightarrow> u32" where
  "frame_timestamp us = ucast ((us * 90) div 1000000)"

definition send_video_frame :: "'n net \<Rightarrow> bytes \<Rightarrow> u64 \<Rightarrow> bool \<Rightarrow> media_sender \<times> 'n \<Rightarrow>
    ((media_sender \<times> 'n) \<times> (rtp_error, unit) result) option" where
  "send_video_frame net frame us key w =
     (case w of (m, n) \<Rightarrow>
        (case packetize (ms_packetizer m) frame (frame_timestamp us) key of
           None \<Rightarrow> None
         | Some ps \<Rightarrow>
             (case send_packets net key (length ps) 0 ps (ms_video m, n) of
                ((s, n'), r) \<Rightarrow> Some ((m\<lparr>ms_video := s\<rparr>, n'), r))))"

text \<open>One turn of the loop that \<open>start_rtcp\<close> spawns, on the session as it was then, which shares only
  the statistics with the current one; the loop ends when \<open>ms_running\<close> is false.\<close>

definition rtcp_turn :: "'n net \<Rightarrow> u64 \<Rightarrow> u32 \<Rightarrow> rtp_session \<Rightarrow> media_sender \<Rightarrow> 'n \<Rightarrow> ('n \<times> bool)" where
  "rtcp_turn net secs nanos s m n =
     (if ms_running m
      then (fst (send_sender_report net secs nanos (s\<lparr>rt_stats := rt_stats (ms_video m)\<rparr>) n), True)
      else (n, False))"

definition sender_stop :: "media_sender \<Rightarrow> media_sender" where
  "sender_stop m = m\<lparr>ms_running := False\<rparr>"

section \<open>The header bytes\<close>

lemma small_byte: "c AND 0x0F = c \<longleftrightarrow> c < 16" "t AND 0x7F = t \<longleftrightarrow> t < 128" for c t :: u8
proof -
  have "0x0F = (mask 4 :: u8)" "0x7F = (mask 7 :: u8)" by (simp_all add: mask_eq_exp_minus_1)
  moreover have "x AND mask n = x \<longleftrightarrow> x < 2 ^ n" if "n < 8" for x :: u8 and n
    using that and_mask_less_size [of n x] less_mask_eq [of x n] by (auto simp: word_size)
  from this [of 4] this [of 7] have "x AND mask 4 = x \<longleftrightarrow> x < 16" "x AND mask 7 = x \<longleftrightarrow> x < 128" for x :: u8
    by simp_all
  ultimately show "c AND 0x0F = c \<longleftrightarrow> c < 16" "t AND 0x7F = t \<longleftrightarrow> t < 128" by simp_all
qed

lemma second_byte_fields:
  assumes "rp_type p < 128"
  shows "second_byte p AND 0x7F = rp_type p" "second_byte p AND 0x80 \<noteq> 0 \<longleftrightarrow> rp_marker p"
proof -
  have t: "rp_type p AND 0x7F = rp_type p" using assms by (simp add: small_byte)
  have "second_byte p AND 0x7F = (push_bit 7 (flag (rp_marker p)) AND 0x7F) OR (rp_type p AND 0x7F)"
    by (simp only: second_byte_def bit.conj_disj_distrib2)
  then show "second_byte p AND 0x7F = rp_type p"
    by (cases "rp_marker p") (simp_all add: t flag_def)
  have "rp_type p AND 0x80 = (rp_type p AND 0x7F) AND 0x80" by (simp only: t)
  then have "rp_type p AND 0x80 = 0" by (simp only: and.assoc) simp
  moreover have "second_byte p AND 0x80 = (push_bit 7 (flag (rp_marker p)) AND 0x80) OR (rp_type p AND 0x80)"
    by (simp only: second_byte_def bit.conj_disj_distrib2)
  ultimately show "second_byte p AND 0x80 \<noteq> 0 \<longleftrightarrow> rp_marker p"
    by (cases "rp_marker p") (simp_all add: flag_def)
qed

lemma first_byte_fields:
  assumes "rp_version p = 2" "rp_csrc p = 0"
  shows "drop_bit 6 (first_byte p) AND 3 = 2" "first_byte p AND 0x0F = 0"
    "first_byte p AND 0x20 \<noteq> 0 \<longleftrightarrow> rp_padding p" "first_byte p AND 0x10 \<noteq> 0 \<longleftrightarrow> rp_extension p"
  using assms by (cases "rp_padding p"; cases "rp_extension p"; simp add: first_byte_def flag_def)+

section \<open>Round trip of a packet\<close>

lemma serialize_nth:
  "length (rtp_serialize p) = 12 + length (rp_payload p)"
  "rtp_serialize p ! 0 = first_byte p" "rtp_serialize p ! Suc 0 = second_byte p"
  "from_be16 (rtp_serialize p ! 2) (rtp_serialize p ! 3) = rp_seq p"
  "from_be32 (rtp_serialize p ! 4) (rtp_serialize p ! 5) (rtp_serialize p ! 6) (rtp_serialize p ! 7) = rp_timestamp p"
  "from_be32 (rtp_serialize p ! 8) (rtp_serialize p ! 9) (rtp_serialize p ! 10) (rtp_serialize p ! 11) = rp_ssrc p"
  by (simp_all add: rtp_serialize_def be16_def be32_def be_simps)

lemma serialize_drop [simp]: "drop (12 + k) (rtp_serialize p) = drop k (rp_payload p)"
proof -
  let ?h = "[first_byte p, second_byte p] @ be16 (rp_seq p) @ be32 (rp_timestamp p) @ be32 (rp_ssrc p)"
  have "rtp_serialize p = ?h @ rp_payload p" "length ?h = 12" by (simp_all add: rtp_serialize_def)
  then show ?thesis by (simp only: drop_append) simp
qed

lemma rtp_parse_plain:
  assumes "rp_version p = 2" "rp_csrc p = 0" "rp_type p < 128"
  shows "rtp_deserialize (rtp_serialize p) = Some (Some p)"
  using assms first_byte_fields [of p] second_byte_fields [of p]
  by (simp add: rtp_deserialize_def Let_def serialize_nth serialize_drop [of 0, simplified])

text \<open>RTP packets round-trip exactly when they are plain: a packet is parsed from its own bytes if
  and only if its version is 2, it announces no contributing sources and its payload type fits
  into 7 bits.\<close>

theorem rtp_roundtrip:
  "rtp_deserialize (rtp_serialize p) = Some (Some p) \<longleftrightarrow> rp_version p = 2 \<and> rp_csrc p = 0 \<and> rp_type p < 128"
proof
  assume p: "rp_version p = 2 \<and> rp_csrc p = 0 \<and> rp_type p < 128"
  then show "rtp_deserialize (rtp_serialize p) = Some (Some p)"
    by (simp add: rtp_parse_plain)
next
  assume "rtp_deserialize (rtp_serialize p) = Some (Some p)"
  then have v: "drop_bit 6 (first_byte p) AND 3 = 2"
    and len: "unat (first_byte p AND 0x0F) * 4 \<le> length (rp_payload p)"
    and eq: "p = \<lparr>rp_version = 2, rp_padding = (first_byte p AND 0x20 \<noteq> 0), rp_extension = (first_byte p AND 0x10 \<noteq> 0),
      rp_csrc = first_byte p AND 0x0F, rp_marker = (second_byte p AND 0x80 \<noteq> 0), rp_type = second_byte p AND 0x7F,
      rp_seq = rp_seq p, rp_timestamp = rp_timestamp p, rp_ssrc = rp_ssrc p,
      rp_payload = drop (unat (first_byte p AND 0x0F) * 4) (rp_payload p)\<rparr>"
    by (auto simp: rtp_deserialize_def Let_def serialize_nth split: if_splits)
  have c: "rp_csrc p = first_byte p AND 0x0F" by (fact arg_cong [OF eq, of rp_csrc, unfolded rtp_packet.select_convs])
  have t: "rp_type p = second_byte p AND 0x7F" by (fact arg_cong [OF eq, of rp_type, unfolded rtp_packet.select_convs])
  have pl: "rp_payload p = drop (unat (first_byte p AND 0x0F) * 4) (rp_payload p)"
    by (fact arg_cong [OF eq, of rp_payload, unfolded rtp_packet.select_convs])
  have "rp_version p = 2" by (fact arg_cong [OF eq, of rp_version, unfolded rtp_packet.select_convs])
  have "unat (rp_csrc p) = 0"
    using len sym [OF arg_cong [OF pl, of length, unfolded length_drop]] unfolding c by arith
  moreover have "rp_type p < 128" unfolding small_byte(2) [symmetric] t and.assoc by simp
  ultimately show "rp_version p = 2 \<and> rp_csrc p = 0 \<and> rp_type p < 128"
    using \<open>rp_version p = 2\<close> by (simp add: unat_eq_0)
qed

text \<open>What a datagram makes of the receiver: it panics exactly on a version-2 header that announces
  more sources than the datagram holds.\<close>

lemma rtp_deserialize_panics:
  "rtp_deserialize d = None \<longleftrightarrow>
     12 \<le> length d \<and> drop_bit 6 (d ! 0) AND 3 = 2 \<and> length d < 12 + unat (d ! 0 AND 0x0F) * 4"
  by (auto simp: rtp_deserialize_def Let_def)

section \<open>Packets carry the frame\<close>

definition frame_split :: "packetizer \<Rightarrow> u32 \<Rightarrow> bool \<Rightarrow> u16 \<Rightarrow> bytes \<Rightarrow> rtp_packet list \<Rightarrow> bool" where
  "frame_split pk ts key sq frame ps \<longleftrightarrow>
     concat (map rp_payload ps) = frame \<and>
     list_all (\<lambda>p. 0 < length (rp_payload p) \<and> length (rp_payload p) \<le> pk_max pk) ps \<and>
     ps = map2 (\<lambda>k d. frame_packet pk ts (Suc k = length ps \<or> key) (sq + of_nat k) d)
            [0..<length ps] (map rp_payload ps)"

lemma frame_packet_fields [simp]:
  "rp_payload (frame_packet pk ts mk sq d) = d" "rp_seq (frame_packet pk ts mk sq d) = sq"
  "rp_timestamp (frame_packet pk ts mk sq d) = ts" "rp_marker (frame_packet pk ts mk sq d) = mk"
  by (simp_all add: frame_packet_def)

lemma frame_split_Cons:
  assumes "frame_split pk ts key (sq + 1) rest ps" "0 < length d" "length d \<le> pk_max pk"
  shows "frame_split pk ts key sq (d @ rest) (frame_packet pk ts (ps = [] \<or> key) sq d # ps)"
proof -
  let ?f = "\<lambda>n k d. frame_packet pk ts (Suc k = n \<or> key) (sq + of_nat k) d"
  have ps: "ps = map2 (\<lambda>k d. frame_packet pk ts (Suc k = length ps \<or> key) (sq + 1 + of_nat k) d)
      [0..<length ps] (map rp_payload ps)"
    using assms(1) by (simp add: frame_split_def)
  also have "\<dots> = map2 (\<lambda>k d. ?f (Suc (length ps)) (Suc k) d) [0..<length ps] (map rp_payload ps)"
    by (rule map_cong) (auto simp: set_zip algebra_simps)
  also have "\<dots> = map2 (?f (Suc (length ps))) (map Suc [0..<length ps]) (map rp_payload ps)"
    by (simp add: zip_map1 comp_def case_prod_beta)
  finally have "ps = map2 (?f (Suc (length ps))) (map Suc [0..<length ps]) (map rp_payload ps)" .
  then show ?thesis
    using assms(1)[unfolded frame_split_def] assms(2,3) unfolding frame_split_def
    by (auto simp: map_Suc_upt upt_conv_Cons simp del: upt_Suc)
qed

lemma frame_split_timestamp:
  assumes "frame_split pk ts key sq frame ps" "p \<in> set ps"
  shows "rp_timestamp p = ts"
proof -
  obtain k where k: "k < length ps" "p = ps ! k" using assms(2) by (auto simp: in_set_conv_nth)
  have "ps = map2 (\<lambda>k d. frame_packet pk ts (Suc k = length ps \<or> key) (sq + of_nat k) d)
      [0..<length ps] (map rp_payload ps)"
    using assms(1) by (simp add: frame_split_def)
  from arg_cong [OF this, of "\<lambda>xs. rp_timestamp (xs ! k)"] show ?thesis using k by simp
qed

lemma packetize_loop_split:
  assumes "0 < pk_max pk" "off \<le> length frame"
  shows "\<exists>ps. packetize_loop pk frame ts key off sq acc = Some (acc @ ps) \<and> frame_split pk ts key sq (drop off frame) ps"
  using assms(2)
proof (induction "length frame - off" arbitrary: off sq acc rule: less_induct)
  case less
  show ?case
  proof (cases "off < length frame")
    case True
    define size where "size = min (length frame - off) (pk_max pk)"
    define d where "d = take size (drop off frame)"
    have size: "0 < size" "off + size \<le> length frame" "length d = size" "size \<le> pk_max pk"
      using True assms(1) by (auto simp: size_def d_def)
    define m where "m = (length frame - off \<le> pk_max pk \<or> key)"
    have "length frame - (off + size) < length frame - off" using size(1) True by arith
    from less.hyps [OF this size(2), of "sq + 1" "acc @ [frame_packet pk ts m sq d]"]
    obtain ps where ps: "packetize_loop pk frame ts key (off + size) (sq + 1) (acc @ [frame_packet pk ts m sq d]) =
        Some (acc @ frame_packet pk ts m sq d # ps)"
      and split: "frame_split pk ts key (sq + 1) (drop (off + size) frame) ps" by auto
    have "ps = [] \<longleftrightarrow> drop (off + size) frame = []"
      using split unfolding frame_split_def by (cases ps) auto
    also have "\<dots> \<longleftrightarrow> length frame - off \<le> pk_max pk" using size by (auto simp: size_def)
    finally have m: "m = (ps = [] \<or> key)" by (simp add: m_def)
    have "frame_split pk ts key sq (d @ drop (off + size) frame) (frame_packet pk ts m sq d # ps)"
      unfolding m using size by (intro frame_split_Cons [OF split]) auto
    moreover have "d @ drop (off + size) frame = drop off frame"
    proof -
      have "drop (off + size) frame = drop size (drop off frame)" by (simp add: add.commute)
      then show ?thesis by (simp only: d_def append_take_drop_id)
    qed
    moreover have "packetize_loop pk frame ts key off sq acc = Some (acc @ frame_packet pk ts m sq d # ps)"
      by (subst packetize_loop.simps) (simp add: True Let_def ps flip: size_def d_def m_def)
    ultimately show ?thesis by auto
  next
    case False
    then show ?thesis by (subst packetize_loop.simps) (simp add: frame_split_def)
  qed
qed

lemma packetize_loop_stuck:
  assumes "packetize_loop pk frame ts key off sq acc = Some r"
  shows "0 < pk_max pk \<or> length frame \<le> off"
proof (rule packetize_loop.raw_induct [OF _ assms])
  fix loop pk frame ts key off sq acc r
  assume IH: "\<And>pk frame ts key off sq acc r. loop pk frame ts key off sq acc = Some r \<Longrightarrow>
      0 < pk_max pk \<or> length frame \<le> off"
    and body: "(if off < length frame then
        (let remaining = length frame - off;
             size = min remaining (pk_max pk);
             is_last = (remaining \<le> pk_max pk);
             payload = take size (drop off frame)
         in loop pk frame ts key (off + size) (sq + 1)
              (acc @ [frame_packet pk ts (is_last \<or> key) sq payload]))
      else Some acc) = Some r"
  show "0 < pk_max pk \<or> length frame \<le> off"
  proof (cases "off < length frame")
    case True
    then have "0 < pk_max pk \<or> length frame \<le> off + min (length frame - off) (pk_max pk)"
      using body by (auto simp: Let_def dest: IH)
    then show ?thesis by auto
  qed simp
qed

lemma packetize_split:
  "packetize pk frame ts key = Some ps \<Longrightarrow> frame_split pk ts key 0 frame ps"
  using packetize_loop_stuck [of pk frame ts key 0 0 "[]" ps] packetize_loop_split [of pk 0 frame ts key 0 "[]"]
  unfolding packetize_def by (cases "pk_max pk = 0") (auto simp: packetize_loop.simps frame_split_def)

text \<open>C23. The packetizer ends exactly when it can make progress, and then it cuts the frame without loss:
  the payloads concatenate to the frame, none is empty or larger than the maximum, the sequence
  numbers count up from 0, and the marker is on the last packet, or on all of a keyframe.\<close>

theorem packetize_result:
  "case packetize pk frame ts key of
     None \<Rightarrow> pk_max pk = 0 \<and> frame \<noteq> []
   | Some ps \<Rightarrow> \<not> (pk_max pk = 0 \<and> frame \<noteq> []) \<and> frame_split pk ts key 0 frame ps"
proof (cases "pk_max pk = 0 \<and> frame \<noteq> []")
  case True
  then have "packetize pk frame ts key = None"
    using packetize_loop_stuck unfolding packetize_def by fastforce
  then show ?thesis using True by simp
next
  case False
  show ?thesis
  proof (cases "frame = []")
    case True
    then have "packetize pk frame ts key = Some []"
      unfolding packetize_def by (subst packetize_loop.simps) simp
    then show ?thesis using True by (simp add: frame_split_def)
  next
    case ne: False
    then have "0 < pk_max pk" using False by simp
    from packetize_loop_split [OF this, of 0 frame ts key 0 "[]"] show ?thesis
      using False by (auto simp: packetize_def)
  qed
qed

section \<open>Frames over a wire\<close>

text \<open>A network that delivers every datagram, in order.\<close>

definition wire :: "bytes list net" where
  "wire sock addr d w = (w @ [d], Ok (length d))"

definition sent_packet :: "rtp_session \<Rightarrow> bool \<Rightarrow> nat \<Rightarrow> nat \<Rightarrow> nat \<Rightarrow> rtp_packet \<Rightarrow> rtp_packet" where
  "sent_packet s key n i j p =
     session_packet (s\<lparr>rt_seq := rt_seq s + of_nat j\<rparr>) (rp_payload p) (rp_timestamp p) (i + j = n - 1 \<or> key)"

lemma send_packets_wire:
  assumes "rt_remote s = Some addr" "rt_socket s = Some sock"
  shows "\<exists>s'. send_packets wire key n i ps (s, w) =
      ((s', w @ map rtp_serialize (map2 (sent_packet s key n i) [0..<length ps] ps)), Ok ()) \<and>
    rt_seq s' = rt_seq s + of_nat (length ps) \<and>
    rs_packets_sent (rt_stats s') = rs_packets_sent (rt_stats s) + of_nat (length ps)"
  using assms
proof (induction ps arbitrary: i s w)
  case (Cons p ps)
  let ?d = "rtp_serialize (session_packet s (rp_payload p) (rp_timestamp p) (i = n - 1 \<or> key))"
  obtain s1 where one: "send_packet wire (rp_payload p) (rp_timestamp p) (i = n - 1 \<or> key) (s, w) = ((s1, w @ [?d]), Ok ())"
    and s1: "rt_remote s1 = Some addr" "rt_socket s1 = Some sock" "rt_seq s1 = rt_seq s + 1"
      "rt_base s1 = rt_base s" "rt_type s1 = rt_type s" "rt_local_ssrc s1 = rt_local_ssrc s"
      "rs_packets_sent (rt_stats s1) = rs_packets_sent (rt_stats s) + 1"
    using Cons.prems by (auto simp: send_packet_def wire_def)
  from Cons.IH [OF s1(1,2), of "i + 1" "w @ [?d]"] obtain s' where
    rest: "send_packets wire key n (i + 1) ps (s1, w @ [?d]) =
        ((s', (w @ [?d]) @ map rtp_serialize (map2 (sent_packet s1 key n (i + 1)) [0..<length ps] ps)), Ok ())"
    and s': "rt_seq s' = rt_seq s1 + of_nat (length ps)"
      "rs_packets_sent (rt_stats s') = rs_packets_sent (rt_stats s1) + of_nat (length ps)" by blast
  have "sent_packet s1 key n (i + 1) j = sent_packet s key n i (Suc j)" for j
    by (rule ext) (simp add: sent_packet_def session_packet_def s1 algebra_simps)
  then have "map2 (sent_packet s1 key n (i + 1)) [0..<length ps] ps =
      map2 (sent_packet s key n i) (map Suc [0..<length ps]) ps"
    by (simp add: zip_map1 comp_def case_prod_beta)
  moreover have "sent_packet s key n i 0 p = session_packet s (rp_payload p) (rp_timestamp p) (i = n - 1 \<or> key)"
    by (simp add: sent_packet_def session_packet_def)
  ultimately show ?case
    using one rest s1 s' by (simp add: map_Suc_upt upt_conv_Cons algebra_simps del: upt_Suc)
qed simp

text \<open>C22. A video frame arrives as it was sent: over a network that loses nothing, sending a frame succeeds,
  every datagram parses, the payloads of the packets concatenate to the frame, their sequence
  numbers go on from the session's (wrapping at 16 bits), all carry the frame's time stamp, the
  marker is on the last packet (on all of a keyframe), and the session goes on after them.\<close>

theorem video_frame_delivered:
  assumes "rt_remote (ms_video m) = Some addr" "rt_socket (ms_video m) = Some sock" "rt_type (ms_video m) < 128"
    and "send_video_frame wire frame us key (m, []) = Some ((m', w), r)"
  shows "r = Ok () \<and> rt_seq (ms_video m') = rt_seq (ms_video m) + of_nat (length w) \<and>
    (\<exists>ps. map rtp_deserialize w = map (Some \<circ> Some) ps \<and> concat (map rp_payload ps) = frame \<and>
      map rp_seq ps = map (\<lambda>j. rt_seq (ms_video m) + of_nat j) [0..<length ps] \<and>
      map rp_marker ps = map (\<lambda>j. Suc j = length ps \<or> key) [0..<length ps] \<and>
      list_all (\<lambda>p. rp_timestamp p = rt_base (ms_video m) + frame_timestamp us) ps)"
proof -
  let ?s = "ms_video m"
  obtain ps where ps: "packetize (ms_packetizer m) frame (frame_timestamp us) key = Some ps"
    using assms(4) by (auto simp: send_video_frame_def split: option.splits)
  let ?qs = "map2 (sent_packet ?s key (length ps) 0) [0..<length ps] ps"
  have split: "frame_split (ms_packetizer m) (frame_timestamp us) key 0 frame ps"
    using packetize_split [of "ms_packetizer m" frame "frame_timestamp us" key] ps by simp
  from send_packets_wire [OF assms(1,2), of key "length ps" 0 ps "[]"] obtain s' where
    "send_packets wire key (length ps) 0 ps (?s, []) = ((s', map rtp_serialize ?qs), Ok ())"
    and s': "rt_seq s' = rt_seq ?s + of_nat (length ps)" by auto
  then have w: "w = map rtp_serialize ?qs" "r = Ok ()" "ms_video m' = s'"
    using assms(4) ps by (auto simp: send_video_frame_def)
  have parse: "rtp_deserialize (rtp_serialize (sent_packet ?s key (length ps) 0 j p)) =
      Some (Some (sent_packet ?s key (length ps) 0 j p))" for j p
    by (rule rtp_parse_plain) (simp_all add: sent_packet_def session_packet_def assms(3))
  have ts: "rp_timestamp p = frame_timestamp us" if "p \<in> set ps" for p
    using frame_split_timestamp [OF split that] .
  have "map rp_payload ?qs = map rp_payload ps"
    by (rule nth_equalityI) (simp_all add: sent_packet_def session_packet_def)
  moreover have "map rp_seq ?qs = map (\<lambda>j. rt_seq ?s + of_nat j) [0..<length ps]"
    by (rule nth_equalityI) (simp_all add: sent_packet_def session_packet_def)
  moreover have "map rp_marker ?qs = map (\<lambda>j. Suc j = length ps \<or> key) [0..<length ps]"
    by (rule nth_equalityI) (auto simp: sent_packet_def session_packet_def)
  moreover have "list_all (\<lambda>p. rp_timestamp p = rt_base ?s + frame_timestamp us) ?qs"
    by (auto simp: list_all_iff sent_packet_def session_packet_def in_set_zip ts)
  moreover have "map rtp_deserialize w = map (Some \<circ> Some) ?qs"
    unfolding w by (auto simp: parse)
  moreover have "concat (map rp_payload ps) = frame" using split by (simp add: frame_split_def)
  ultimately show ?thesis
    using w s' by (intro conjI exI [of _ ?qs]) simp_all
qed

text \<open>Three bytes in packets of at most two.\<close>

definition demo_sender :: media_sender where
  "demo_sender = (sender_set_remote 7 3 (sender_new ''s'' 5 100))\<lparr>ms_packetizer := packetizer_default\<lparr>pk_max := 2\<rparr>\<rparr>"

lemma video_frame_delivered_witness:
  "\<exists>m' w ps. send_video_frame wire [1, 2, 3] 0 False (demo_sender, []) = Some ((m', w), Ok ()) \<and>
     map rtp_deserialize w = map (Some \<circ> Some) ps \<and> concat (map rp_payload ps) = [1, 2, 3]"
proof -
  obtain ps where "packetize (ms_packetizer demo_sender) [1, 2, 3] (frame_timestamp 0) False = Some ps"
    using packetize_loop_split [of "ms_packetizer demo_sender" 0 "[1, 2, 3]"]
    by (fastforce simp: packetize_def demo_sender_def)
  moreover obtain s' n' x where "send_packets wire False (length ps) 0 ps (ms_video demo_sender, []) = ((s', n'), x)"
    by (metis prod.exhaust)
  ultimately obtain m' w r where run: "send_video_frame wire [1, 2, 3] 0 False (demo_sender, []) = Some ((m', w), r)"
    by (simp add: send_video_frame_def)
  have "rt_remote (ms_video demo_sender) = Some 7" "rt_socket (ms_video demo_sender) = Some 3"
    "rt_type (ms_video demo_sender) < 128"
    by (simp_all add: demo_sender_def sender_set_remote_def set_remote_def sender_new_def session_new_def)
  from video_frame_delivered [OF this run] run show ?thesis by blast
qed

text \<open>Time stamps count 90 ticks a second, not the 90000 of the clock of video: frames within 11
  milliseconds get the same one.\<close>

lemma frame_timestamp_coarse:
  assumes "us < 11112"
  shows "frame_timestamp us = 0"
proof -
  have us: "unat us < 11112" using assms by (simp add: word_less_nat_alt)
  then have "unat (us * 90) = unat us * 90" by (simp add: unat_word_ariths)
  then have "unat ((us * 90) div 1000000) = 0" using us by (simp add: unat_div)
  then show ?thesis by (simp add: frame_timestamp_def unat_eq_0)
qed

text \<open>Nothing sets \<open>ms_running\<close>, so the loop of sender reports ends before its first report.\<close>

lemma no_sender_report:
  "rtcp_turn net secs nanos s (sender_set_remote addr sock (sender_new fresh ssrc base)) n = (n, False)"
  "send_video_frame net frame us key (m, n) = Some ((m', n'), r) \<Longrightarrow> ms_running m' = ms_running m"
  by (auto simp: rtcp_turn_def sender_set_remote_def sender_new_def send_video_frame_def
      split: option.splits prod.splits)

end
