(* ===== verification/Compression.thy ===== *)
theory Compression
  imports F32 Model
begin

text \<open>
  \<^verbatim>\<open>src/src/state_compression.rs\<close>: levels, statistics in single precision, the compressor with its
  size threshold and size check, and the streaming compressor.  Zstandard is a parameter: encoding
  at a level and decoding of whole buffers, and the operations of a stream encoder.  The times of the
  statistics are readings of the clock given to the call.
\<close>

section \<open>Levels and statistics\<close>

datatype compression_level = Fastest | Fast | Default | Good | Best | Maximum | Custom "32 word"

text \<open>\<^verbatim>\<open>i32::clamp\<close> compares signed.\<close>

definition clamp_i32 :: "32 word \<Rightarrow> 32 word \<Rightarrow> 32 word \<Rightarrow> 32 word" where
  "clamp_i32 lo hi x = (if x <s lo then lo else if hi <s x then hi else x)"

fun to_zstd_level :: "compression_level \<Rightarrow> 32 word" where
  "to_zstd_level Fastest = 1"
| "to_zstd_level Fast = 3"
| "to_zstd_level Default = 6"
| "to_zstd_level Good = 9"
| "to_zstd_level Best = 13"
| "to_zstd_level Maximum = 19"
| "to_zstd_level (Custom l) = clamp_i32 1 22 l"

record compression_stats =
  cst_original :: nat
  cst_compressed :: nat
  cst_ratio :: f32
  cst_saved :: nat
  cst_percent :: f32
  cst_compress_ms :: f32
  cst_decompress_ms :: f32

definition stats_new :: "nat \<Rightarrow> nat \<Rightarrow> compression_stats" where
  "stats_new original compressed =
     (let saved = original - compressed in
      \<lparr>cst_original = original, cst_compressed = compressed,
       cst_ratio = (if original > 0 then f32_div (f32_of_nat compressed) (f32_of_nat original) else 1),
       cst_saved = saved,
       cst_percent = (if original > 0
         then f32_mul (f32_div (f32_of_nat saved) (f32_of_nat original)) 100 else 0),
       cst_compress_ms = 0, cst_decompress_ms = 0\<rparr>)"

definition is_worth_it :: "compression_stats \<Rightarrow> bool" where
  "is_worth_it s \<longleftrightarrow> cst_percent s \<ge> 10"

section \<open>The compressor\<close>

datatype compress_error =
    CompressError string
  | DecompressError string
  | SizeMismatch nat nat
  | NotStarted
  | CompressIoError string

record compressed_data =
  cd_data :: bytes
  cd_compressed :: bool
  cd_original :: nat

definition compressed_size :: "compressed_data \<Rightarrow> nat" where
  "compressed_size c = length (cd_data c)"

definition compressed_ratio :: "compressed_data \<Rightarrow> f32" where
  "compressed_ratio c =
     (if cd_original c > 0 then f32_div (f32_of_nat (length (cd_data c))) (f32_of_nat (cd_original c)) else 1)"

record zstd =
  zs_encode :: "32 word \<Rightarrow> bytes \<Rightarrow> (string, bytes) result"
  zs_decode :: "bytes \<Rightarrow> (string, bytes) result"

record compressor =
  co_level :: compression_level
  co_min :: nat

definition compressor_new :: "compression_level \<Rightarrow> compressor" where
  "compressor_new l = \<lparr>co_level = l, co_min = 1024\<rparr>"

definition with_min_size :: "nat \<Rightarrow> compressor \<Rightarrow> compressor" where
  "with_min_size n c = c\<lparr>co_min := n\<rparr>"

definition state_compress :: "zstd \<Rightarrow> compressor \<Rightarrow> bytes \<Rightarrow> (compress_error, compressed_data) result" where
  "state_compress z c d =
     (if length d < co_min c then Ok \<lparr>cd_data = d, cd_compressed = False, cd_original = length d\<rparr>
      else (case zs_encode z (to_zstd_level (co_level c)) d of
              Inl e \<Rightarrow> Err (CompressError e)
            | Inr x \<Rightarrow> Ok \<lparr>cd_data = x, cd_compressed = True, cd_original = length d\<rparr>))"

definition state_decompress :: "zstd \<Rightarrow> compressor \<Rightarrow> compressed_data \<Rightarrow> (compress_error, bytes) result" where
  "state_decompress z c x =
     (if \<not> cd_compressed x then Ok (cd_data x)
      else (case zs_decode z (cd_data x) of
              Inl e \<Rightarrow> Err (DecompressError e)
            | Inr d \<Rightarrow> if length d \<noteq> cd_original x then Err (SizeMismatch (cd_original x) (length d)) else Ok d))"

definition compress_with_stats :: "zstd \<Rightarrow> compressor \<Rightarrow> f32 \<Rightarrow> bytes \<Rightarrow>
    (compress_error, compressed_data \<times> compression_stats) result" where
  "compress_with_stats z c ms d =
     (case state_compress z c d of
        Inl e \<Rightarrow> Err e
      | Inr x \<Rightarrow> Ok (x, (stats_new (length d) (length (cd_data x)))\<lparr>cst_compress_ms := ms\<rparr>))"

definition decompress_with_stats :: "zstd \<Rightarrow> compressor \<Rightarrow> f32 \<Rightarrow> compressed_data \<Rightarrow>
    (compress_error, bytes \<times> compression_stats) result" where
  "decompress_with_stats z c ms x =
     (case state_decompress z c x of
        Inl e \<Rightarrow> Err e
      | Inr d \<Rightarrow> Ok (d, (stats_new (cd_original x) (length (cd_data x)))\<lparr>cst_decompress_ms := ms\<rparr>))"

section \<open>Streams\<close>

text \<open>The encoder of the library, with a state of type \<open>'e\<close>.\<close>

record 'e encoder_ops =
  en_new :: "32 word \<Rightarrow> (string, 'e) result"
  en_write :: "bytes \<Rightarrow> 'e \<Rightarrow> 'e \<times> (string, unit) result"
  en_finish :: "'e \<Rightarrow> 'e \<times> (string, bytes) result"

record 'e streaming =
  stm_level :: compression_level
  stm_encoder :: "'e option"

definition streaming_new :: "compression_level \<Rightarrow> (compress_error, 'e streaming) result" where
  "streaming_new l = Ok \<lparr>stm_level = l, stm_encoder = None\<rparr>"

definition streaming_start :: "'e encoder_ops \<Rightarrow> 'e streaming \<Rightarrow> 'e streaming \<times> (compress_error, unit) result" where
  "streaming_start en s =
     (case en_new en (to_zstd_level (stm_level s)) of
        Inl e \<Rightarrow> (s, Err (CompressError e))
      | Inr x \<Rightarrow> (s\<lparr>stm_encoder := Some x\<rparr>, Ok ()))"

definition streaming_write :: "'e encoder_ops \<Rightarrow> bytes \<Rightarrow> 'e streaming \<Rightarrow> 'e streaming \<times> (compress_error, unit) result" where
  "streaming_write en d s =
     (case stm_encoder s of
        None \<Rightarrow> (s, Ok ())
      | Some x \<Rightarrow>
          (case en_write en d x of
             (x', Inl e) \<Rightarrow> (s\<lparr>stm_encoder := Some x'\<rparr>, Err (CompressError e))
           | (x', Inr u) \<Rightarrow> (s\<lparr>stm_encoder := Some x'\<rparr>, Ok ())))"

definition streaming_finish :: "'e encoder_ops \<Rightarrow> 'e streaming \<Rightarrow> 'e streaming \<times> (compress_error, bytes) result" where
  "streaming_finish en s =
     (case stm_encoder s of
        None \<Rightarrow> (s, Err NotStarted)
      | Some x \<Rightarrow>
          (case en_finish en x of
             (x', Inl e) \<Rightarrow> (s\<lparr>stm_encoder := Some x'\<rparr>, Err (CompressError e))
           | (x', Inr d) \<Rightarrow> (s\<lparr>stm_encoder := Some x'\<rparr>, Ok d)))"

section \<open>Levels stay in range\<close>

lemma level_bounds: "1 \<le> sint (to_zstd_level l) \<and> sint (to_zstd_level l) \<le> 22"
  by (cases l) (auto simp: clamp_i32_def word_sless_alt)

section \<open>Round trips\<close>

text \<open>What a round trip needs of Zstandard.\<close>

definition zstd_ok :: "zstd \<Rightarrow> bool" where
  "zstd_ok z \<longleftrightarrow> (\<forall>l d x. 1 \<le> sint l \<and> sint l \<le> 22 \<longrightarrow> zs_encode z l d = Inr x \<longrightarrow> zs_decode z x = Inr d)"

text \<open>What one compressor compresses any other one decompresses, with whatever level and threshold they
  were set up, and the size check never refuses it.\<close>

theorem compression_roundtrip:
  assumes "zstd_ok z" "state_compress z c d = Inr x"
  shows "state_decompress z c' x = Ok d \<and> cd_original x = length d"
proof (cases "length d < co_min c")
  case True
  then show ?thesis using assms(2) by (auto simp: state_compress_def state_decompress_def)
next
  case False
  then obtain y where y: "zs_encode z (to_zstd_level (co_level c)) d = Inr y"
    and x: "x = \<lparr>cd_data = y, cd_compressed = True, cd_original = length d\<rparr>"
    using assms(2) by (auto simp: state_compress_def split: sum.splits)
  have "zs_decode z y = Inr d" using assms(1) level_bounds y unfolding zstd_ok_def by blast
  then show ?thesis by (simp add: x state_decompress_def)
qed

section \<open>When compression is worth it\<close>

lemma f32_exp_eq:
  assumes "2 powi (e + 23) \<le> x" "x < 2 powi (e + 24)" "- 149 < e" "e < 104"
  shows "f32_exp x = e"
proof (rule antisym)
  have "0 < x" by (rule less_le_trans [OF _ assms(1)]) simp
  then show "f32_exp x \<le> e" using assms by (intro f32_exp_le_of_less) auto
  show "e \<le> f32_exp x"
  proof (rule ccontr)
    assume "\<not> e \<le> f32_exp x"
    then have less: "f32_exp x + 24 \<le> e + 23" "f32_exp x < 104" using assms(4) by auto
    have "x < 2 powi (f32_exp x + 24)" by (rule f32_exp_upper [OF \<open>0 < x\<close> less(2)])
    also have "\<dots> \<le> 2 powi (e + 23)" using less(1) by (intro power_int_increasing) auto
    finally show False using assms(1) by simp
  qed
qed

lemma f32_round_tenth: "f32_round (1 / 10) = 13421773 / 2 ^ 27"
proof -
  have e: "f32_exp (1 / 10) = - 27" by (rule f32_exp_eq) (simp_all add: power_int_def power_divide)
  have "\<lfloor>134217728 / 10 :: rat\<rfloor> = 13421772" by (rule floor_unique) simp_all
  then have "rne (134217728 / 10) = 13421773" by (simp add: rne_def Let_def)
  then show ?thesis by (simp add: f32_round_def f32_round_pos_def e power_int_minus)
qed

lemma f32_round_below_ten: "f32_round (13421772 / 2 ^ 27 * 100) < 10"
proof -
  have e: "f32_exp (83886075 / 8388608) = - 20"
    by (rule f32_exp_eq) (simp_all add: power_int_def power_divide)
  have "\<lfloor>83886075 / 8 :: rat\<rfloor> = 10485759" by (rule floor_unique) simp_all
  then have "rne (83886075 / 8) = 10485759" by (simp add: rne_def Let_def)
  then show ?thesis by (simp add: f32_round_def f32_round_pos_def e power_int_minus)
qed

text \<open>The decision is exact in spite of the roundings: for data of up to 16 MB compression counts as
  worth it exactly when it saves at least a tenth.\<close>

theorem worth_it_exact:
  assumes "0 < n" "n \<le> 2 ^ 24"
  shows "is_worth_it (stats_new n c) \<longleftrightarrow> n \<le> 10 * (n - c)"
proof -
  let ?q = "of_nat (n - c) / of_nat n :: rat"
  have conv: "f32_of_nat n = of_nat n" "f32_of_nat (n - c) = of_nat (n - c)"
    using assms(2) by (simp_all add: f32_of_nat_def f32_round_nat)
  have percent: "cst_percent (stats_new n c) = f32_round (f32_round ?q * 100)"
    using assms(1) by (simp add: stats_new_def Let_def f32_mul_def f32_div_def conv)
  show ?thesis
  proof
    assume saved: "n \<le> 10 * (n - c)"
    have "of_nat n \<le> (of_nat (10 * (n - c)) :: rat)" by (simp only: of_nat_le_iff saved)
    then have "1 / 10 \<le> ?q" using assms(1) by (simp add: field_simps)
    then have "13421773 / 2 ^ 27 \<le> f32_round ?q" using f32_round_mono f32_round_tenth by metis
    then have "10 \<le> f32_round ?q * 100" by simp
    from f32_round_mono [OF this] show "is_worth_it (stats_new n c)"
      using f32_round_nat [of 10] by (simp add: is_worth_it_def percent)
  next
    assume "is_worth_it (stats_new n c)"
    then have worth: "10 \<le> f32_round (f32_round ?q * 100)" by (simp add: is_worth_it_def percent)
    show "n \<le> 10 * (n - c)"
    proof (rule ccontr)
      assume "\<not> n \<le> 10 * (n - c)"
      then have less: "10 * (n - c) + 1 \<le> n" by simp
      have "?q \<le> 13421772 / 2 ^ 27"
      proof -
        have "of_nat (10 * (n - c) + 1) \<le> (of_nat n :: rat)" by (simp only: of_nat_le_iff less)
        moreover have "of_nat n \<le> (2 ^ 24 :: rat)"
          using assms(2) by (metis of_nat_le_iff of_nat_numeral of_nat_power)
        ultimately have "of_nat (n - c) * 2 ^ 27 \<le> (13421772 * of_nat n :: rat)" by simp
        then show ?thesis using assms(1) by (simp add: field_simps)
      qed
      moreover have "f32_round (13421772 / 2 ^ 27) = 13421772 / 2 ^ 27"
        using f32_round_pos_small [of 13421772 "- 27"] by (simp add: f32_round_def power_int_minus)
      ultimately have "f32_round ?q \<le> 13421772 / 2 ^ 27" using f32_round_mono by metis
      then have "f32_round ?q * 100 \<le> 13421772 / 2 ^ 27 * 100" by simp
      from f32_round_mono [OF this] f32_round_below_ten worth show False by linarith
    qed
  qed
qed

lemma worth_it_exact_witness: "is_worth_it (stats_new 1000 900) \<and> \<not> is_worth_it (stats_new 1000 901)"
  using worth_it_exact [of 1000 900] worth_it_exact [of 1000 901] by simp

definition demo_zstd :: zstd where
  "demo_zstd = \<lparr>zs_encode = (\<lambda>l d. Ok (0x28 # d)), zs_decode = (\<lambda>x. if x = [] then Err ''empty'' else Ok (tl x))\<rparr>"

lemma compression_roundtrip_witness:
  "state_decompress demo_zstd (compressor_new Fast)
     \<lparr>cd_data = 0x28 # replicate 2000 7, cd_compressed = True, cd_original = 2000\<rparr> = Ok (replicate 2000 7)"
proof -
  have z: "zstd_ok demo_zstd" by (simp add: zstd_ok_def demo_zstd_def)
  have run: "state_compress demo_zstd (compressor_new Best) (replicate 2000 7) =
      Inr \<lparr>cd_data = 0x28 # replicate 2000 7, cd_compressed = True, cd_original = 2000\<rparr>"
    by (simp add: state_compress_def compressor_new_def demo_zstd_def)
  show ?thesis using compression_roundtrip [OF z run] by blast
qed

section \<open>Streams compress what is written\<close>

text \<open>What is needed of the encoder; \<open>written\<close> is what it has been given.\<close>

definition encoder_ok :: "'e encoder_ops \<Rightarrow> ('e \<Rightarrow> bytes) \<Rightarrow> (bytes \<Rightarrow> (string, bytes) result) \<Rightarrow> bool" where
  "encoder_ok en written dec \<longleftrightarrow>
     (\<forall>l x. en_new en l = Inr x \<longrightarrow> written x = []) \<and>
     (\<forall>d x x' u. en_write en d x = (x', Inr u) \<longrightarrow> written x' = written x @ d) \<and>
     (\<forall>x x' y. en_finish en x = (x', Inr y) \<longrightarrow> dec y = Inr (written x))"

fun write_all :: "'e encoder_ops \<Rightarrow> bytes list \<Rightarrow> 'e streaming \<Rightarrow> 'e streaming \<times> (compress_error, unit) result" where
  "write_all en [] s = (s, Ok ())"
| "write_all en (d # ds) s =
     (case streaming_write en d s of (s', Inl e) \<Rightarrow> (s', Err e) | (s', Inr u) \<Rightarrow> write_all en ds s')"

lemma write_all_written:
  assumes "encoder_ok en written dec" "write_all en ds s = (s', Inr u)" "stm_encoder s = Some x"
  shows "\<exists>x'. stm_encoder s' = Some x' \<and> written x' = written x @ concat ds"
  using assms(2,3)
proof (induction ds arbitrary: s x)
  case (Cons d ds)
  then obtain x1 where "en_write en d x = (x1, Inr ())" "write_all en ds (s\<lparr>stm_encoder := Some x1\<rparr>) = (s', Inr u)"
    by (auto simp: streaming_write_def split: option.splits prod.splits sum.splits)
  then show ?case
    using Cons.IH [of "s\<lparr>stm_encoder := Some x1\<rparr>" x1] assms(1) by (auto simp: encoder_ok_def)
qed simp

text \<open>A started stream yields the compression of everything written to it; one that has not been
  started accepts every write, and all of it is lost.\<close>

lemma stream_roundtrip:
  assumes "encoder_ok en written dec" "streaming_start en s = (s1, Inr u)"
    and "write_all en ds s1 = (s2, Inr v)" "streaming_finish en s2 = (s3, Inr y)"
  shows "dec y = Inr (concat ds)"
proof -
  obtain x where x: "stm_encoder s1 = Some x" "written x = []"
    using assms(1,2) by (auto simp: streaming_start_def encoder_ok_def split: sum.splits)
  from write_all_written [OF assms(1,3) x(1)] obtain x' where
    "stm_encoder s2 = Some x'" "written x' = concat ds" using x(2) by auto
  then show ?thesis
    using assms(1,4) by (auto simp: streaming_finish_def encoder_ok_def split: prod.splits sum.splits)
qed

lemma write_before_start:
  "stm_encoder s = None \<Longrightarrow> write_all en ds s = (s, Ok ()) \<and> streaming_finish en s = (s, Err NotStarted)"
  by (induction ds) (simp_all add: streaming_write_def streaming_finish_def)

end
