(* ===== verification/Archive.thy ===== *)
theory Archive
  imports Model
begin

text \<open>
  \<^verbatim>\<open>src/src/state_archive.rs\<close>: export of states as packages with a checksum, and their import with
  its checks.  JSON, SHA-256 and the two codecs are parameters; the clock is an argument.
\<close>

section \<open>Packages\<close>

datatype export_format = Json | Binary

datatype archive_compression = ANone | AGzip | AZstd

record export_options =
  xo_format :: export_format
  xo_compression :: archive_compression
  xo_metadata :: bool
  xo_history :: bool
  xo_password :: "string option"

definition export_default :: export_options where
  "export_default = \<lparr>xo_format = Json, xo_compression = AGzip, xo_metadata = True, xo_history = True,
     xo_password = None\<rparr>"

record export_metadata =
  xm_export_version :: string
  xm_isa_version :: string
  xm_compression :: string
  xm_format :: string
  xm_original :: nat
  xm_compressed :: "nat option"

record 'j exported_state =
  xs_version :: u32
  xs_at :: datetime
  xs_state :: "'j state"
  xs_metadata :: export_metadata
  xs_checksum :: string

record import_result =
  ir_state :: state_id
  ir_at :: datetime
  ir_errors :: "string list"
  ir_warnings :: "string list"

datatype archive_error =
    ArSerialization string
  | ArDeserialization string
  | ArCompression string
  | ArDecompression string
  | ArValidation string
  | ArIo string

record archive =
  ar_export_version :: string
  ar_isa_version :: string

definition archive_new :: "string \<Rightarrow> archive" where
  "archive_new pkg_version = \<lparr>ar_export_version = ''1.0'', ar_isa_version = pkg_version\<rparr>"

record 'j archive_env =
  av_ser :: "'j exported_state \<Rightarrow> (string, bytes) result"
  av_de :: "bytes \<Rightarrow> (string, 'j exported_state) result"
  av_ser_batch :: "bytes list \<Rightarrow> (string, bytes) result"
  av_de_batch :: "bytes \<Rightarrow> (string, bytes list) result"
  av_sha :: "bytes \<Rightarrow> string"
  av_gzip :: "bytes \<Rightarrow> (string, bytes) result"
  av_gunzip :: "bytes \<Rightarrow> (string, bytes) result"
  av_zstd :: "bytes \<Rightarrow> (string, bytes) result"
  av_unzstd :: "bytes \<Rightarrow> (string, bytes) result"

text \<open>The \<^verbatim>\<open>Debug\<close> forms of the enums.\<close>

fun compression_debug :: "archive_compression \<Rightarrow> string" where
  "compression_debug ANone = ''None''"
| "compression_debug AGzip = ''Gzip''"
| "compression_debug AZstd = ''Zstd''"

fun format_debug :: "export_format \<Rightarrow> string" where
  "format_debug Json = ''Json''"
| "format_debug Binary = ''Binary''"

section \<open>Export\<close>

definition archive_serialize :: "'j archive_env \<Rightarrow> export_format \<Rightarrow> 'j exported_state \<Rightarrow> (archive_error, bytes) result" where
  "archive_serialize env fmt x =
     (case av_ser env x of
        Inl e \<Rightarrow> Err (ArSerialization ((case fmt of Json \<Rightarrow> ''JSON export failed: '' | Binary \<Rightarrow> ''Binary export failed: '') @ e))
      | Inr d \<Rightarrow> Ok d)"

definition archive_pack :: "'j archive_env \<Rightarrow> archive_compression \<Rightarrow> bytes \<Rightarrow> (archive_error, bytes) result" where
  "archive_pack env c d =
     (case c of
        ANone \<Rightarrow> Ok d
      | AGzip \<Rightarrow> (case av_gzip env d of Inl e \<Rightarrow> Err (ArCompression (''Gzip compression failed: '' @ e)) | Inr x \<Rightarrow> Ok x)
      | AZstd \<Rightarrow> (case av_zstd env d of Inl e \<Rightarrow> Err (ArCompression (''Zstd compression failed: '' @ e)) | Inr x \<Rightarrow> Ok x))"

definition package_new :: "archive \<Rightarrow> export_options \<Rightarrow> datetime \<Rightarrow> 'j state \<Rightarrow> 'j exported_state" where
  "package_new a opts now s =
     \<lparr>xs_version = 1, xs_at = now, xs_state = s,
      xs_metadata =
        \<lparr>xm_export_version = ar_export_version a, xm_isa_version = ar_isa_version a,
         xm_compression = compression_debug (xo_compression opts), xm_format = format_debug (xo_format opts),
         xm_original = 0, xm_compressed = None\<rparr>,
      xs_checksum = []\<rparr>"

text \<open>The package with the size and the checksum of its first serialization.\<close>

definition package_sealed :: "'j archive_env \<Rightarrow> 'j exported_state \<Rightarrow> bytes \<Rightarrow> 'j exported_state" where
  "package_sealed env x d =
     x\<lparr>xs_metadata := (xs_metadata x)\<lparr>xm_original := length d\<rparr>, xs_checksum := av_sha env d\<rparr>"

definition archive_export :: "'j archive_env \<Rightarrow> archive \<Rightarrow> export_options \<Rightarrow> datetime \<Rightarrow> 'j state \<Rightarrow>
    (archive_error, bytes) result" where
  "archive_export env a opts now s =
     (let x = package_new a opts now s in
      case archive_serialize env (xo_format opts) x of
        Inl e \<Rightarrow> Err e
      | Inr original \<Rightarrow>
          (case archive_serialize env (xo_format opts) (package_sealed env x original) of
             Inl e \<Rightarrow> Err e
           | Inr d \<Rightarrow> archive_pack env (xo_compression opts) d))"

fun export_all :: "'j archive_env \<Rightarrow> archive \<Rightarrow> export_options \<Rightarrow> (datetime \<times> 'j state) list \<Rightarrow>
    (archive_error, bytes list) result" where
  "export_all env a opts [] = Ok []"
| "export_all env a opts ((now, s) # ss) =
     (case archive_export env a opts now s of
        Inl e \<Rightarrow> Err e
      | Inr d \<Rightarrow> (case export_all env a opts ss of Inl e \<Rightarrow> Err e | Inr ds \<Rightarrow> Ok (d # ds)))"

definition export_batch :: "'j archive_env \<Rightarrow> archive \<Rightarrow> export_options \<Rightarrow> (datetime \<times> 'j state) list \<Rightarrow>
    (archive_error, bytes) result" where
  "export_batch env a opts ss =
     (case export_all env a opts ss of
        Inl e \<Rightarrow> Err e
      | Inr ds \<Rightarrow>
          (case av_ser_batch env ds of
             Inl e \<Rightarrow> Err (ArSerialization (''Batch export failed: '' @ e))
           | Inr d \<Rightarrow> Ok d))"

section \<open>Import\<close>

definition archive_unpack :: "'j archive_env \<Rightarrow> archive_compression \<Rightarrow> bytes \<Rightarrow> (archive_error, bytes) result" where
  "archive_unpack env c d =
     (case c of
        ANone \<Rightarrow> Ok d
      | AGzip \<Rightarrow> (case av_gunzip env d of Inl e \<Rightarrow> Err (ArDecompression (''Gzip decompression failed: '' @ e)) | Inr x \<Rightarrow> Ok x)
      | AZstd \<Rightarrow> (case av_unzstd env d of Inl e \<Rightarrow> Err (ArDecompression (''Zstd decompression failed: '' @ e)) | Inr x \<Rightarrow> Ok x))"

definition archive_validate :: "'j state \<Rightarrow> string list" where
  "archive_validate s =
     (if sid_str (st_id s) = [] then [''State ID is empty''] else []) @
     (if vcpus (st_vm_config s) = 0 then [''VCPUs cannot be zero''] else []) @
     (if memory_mb (st_vm_config s) = 0 then [''Memory cannot be zero''] else []) @
     concat (map (\<lambda>(i, r). if region_size r = 0 then [''Memory region '' @ dec_str i @ '' has zero size''] else [])
       (enumerate 0 (st_manifest s))) @
     (if meta_label (st_metadata s) = [] then [''State label is empty''] else [])"

definition archive_warnings :: "'j archive_env \<Rightarrow> bytes \<Rightarrow> 'j exported_state \<Rightarrow> string list" where
  "archive_warnings env d x =
     (if av_sha env d \<noteq> xs_checksum x
      then [''Checksum mismatch: expected '' @ xs_checksum x @ '', got '' @ av_sha env d] else []) @
     (if xs_version x \<noteq> 1 then [''Unknown export version: '' @ dec_str (unat (xs_version x))] else [])"

definition archive_import :: "'j archive_env \<Rightarrow> export_options \<Rightarrow> datetime \<Rightarrow> bytes \<Rightarrow>
    (archive_error, import_result) result" where
  "archive_import env opts now data =
     (case archive_unpack env (xo_compression opts) data of
        Inl e \<Rightarrow> Err e
      | Inr d \<Rightarrow>
          (case av_de env d of
             Inl e \<Rightarrow> Err (ArDeserialization
               ((case xo_format opts of Json \<Rightarrow> ''JSON import failed: '' | Binary \<Rightarrow> ''Binary import failed: '') @ e))
           | Inr x \<Rightarrow>
               Ok \<lparr>ir_state = st_id (xs_state x), ir_at = now, ir_errors = archive_validate (xs_state x),
                   ir_warnings = archive_warnings env d x\<rparr>))"

fun import_all :: "'j archive_env \<Rightarrow> export_options \<Rightarrow> (datetime \<times> bytes) list \<Rightarrow>
    (archive_error, import_result list) result" where
  "import_all env opts [] = Ok []"
| "import_all env opts ((now, d) # ds) =
     (case archive_import env opts now d of
        Inl e \<Rightarrow> Err e
      | Inr r \<Rightarrow> (case import_all env opts ds of Inl e \<Rightarrow> Err e | Inr rs \<Rightarrow> Ok (r # rs)))"

text \<open>The clock shows \<open>clock k\<close> when the package with index \<open>k\<close> is imported.\<close>

definition import_batch :: "'j archive_env \<Rightarrow> export_options \<Rightarrow> (nat \<Rightarrow> datetime) \<Rightarrow> bytes \<Rightarrow>
    (archive_error, import_result list) result" where
  "import_batch env opts clock d =
     (case av_de_batch env d of
        Inl e \<Rightarrow> Err (ArDeserialization (''Batch import failed: '' @ e))
      | Inr ds \<Rightarrow> import_all env opts (map (\<lambda>(k, d). (clock k, d)) (enumerate 0 ds)))"

section \<open>What an import reports\<close>

text \<open>JSON and the codecs give back what they were given.\<close>

definition archive_env_ok :: "'j archive_env \<Rightarrow> bool" where
  "archive_env_ok env \<longleftrightarrow>
     (\<forall>x d. av_ser env x = Inr d \<longrightarrow> av_de env d = Inr x) \<and>
     (\<forall>ds d. av_ser_batch env ds = Inr d \<longrightarrow> av_de_batch env d = Inr ds) \<and>
     (\<forall>d x. av_gzip env d = Inr x \<longrightarrow> av_gunzip env x = Inr d) \<and>
     (\<forall>d x. av_zstd env d = Inr x \<longrightarrow> av_unzstd env x = Inr d)"

lemma unpack_pack: "archive_env_ok env \<Longrightarrow> archive_pack env c d = Inr x \<Longrightarrow> archive_unpack env c x = Inr d"
  by (cases c) (auto simp: archive_pack_def archive_unpack_def archive_env_ok_def split: sum.splits)

lemma serialize_de: "archive_env_ok env \<Longrightarrow> archive_serialize env fmt x = Inr d \<Longrightarrow> av_de env d = Inr x"
  by (auto simp: archive_serialize_def archive_env_ok_def split: sum.splits)

lemma import_export:
  assumes ok: "archive_env_ok env" and run: "archive_export env a opts now s = Inr d"
  shows "\<exists>original sealed.
    archive_serialize env (xo_format opts) (package_new a opts now s) = Inr original \<and>
    archive_serialize env (xo_format opts) (package_sealed env (package_new a opts now s) original) = Inr sealed \<and>
    archive_import env opts now' d = Ok
      \<lparr>ir_state = st_id s, ir_at = now', ir_errors = archive_validate s,
       ir_warnings = (if av_sha env sealed \<noteq> av_sha env original
         then [''Checksum mismatch: expected '' @ av_sha env original @ '', got '' @ av_sha env sealed] else [])\<rparr>"
proof -
  let ?x = "package_new a opts now s"
  from run obtain original sealed where
    o: "archive_serialize env (xo_format opts) ?x = Inr original"
    and sl: "archive_serialize env (xo_format opts) (package_sealed env ?x original) = Inr sealed"
    and p: "archive_pack env (xo_compression opts) sealed = Inr d"
    by (auto simp: archive_export_def Let_def split: sum.splits)
  have "archive_import env opts now' d = Ok
      \<lparr>ir_state = st_id s, ir_at = now', ir_errors = archive_validate s,
       ir_warnings = (if av_sha env sealed \<noteq> av_sha env original
         then [''Checksum mismatch: expected '' @ av_sha env original @ '', got '' @ av_sha env sealed] else [])\<rparr>"
    using unpack_pack [OF ok p] serialize_de [OF ok sl]
    by (simp add: archive_import_def archive_warnings_def package_sealed_def package_new_def)
  then show ?thesis using o sl by blast
qed

text \<open>An untouched archive is always reported as damaged: importing what \<open>export\<close> produced
  succeeds with the id and the validation of the state, and with a mismatch of the checksum,
  because the checksum is taken of the package before it contains the checksum, and compared with
  that of the package which does.  The two serializations are assumed not to collide.\<close>

theorem untouched_archive_warned:
  assumes "archive_env_ok env" "archive_export env a opts now s = Inr d"
    and "\<And>x y. archive_serialize env (xo_format opts) (package_new a opts now s) = Inr x \<Longrightarrow>
      archive_serialize env (xo_format opts) (package_sealed env (package_new a opts now s) x) = Inr y \<Longrightarrow>
      av_sha env y = av_sha env x \<Longrightarrow> y = x"
    and "\<And>x. av_sha env x \<noteq> []"
  shows "\<exists>r w. archive_import env opts now' d = Ok r \<and> ir_state r = st_id s \<and>
    ir_errors r = archive_validate s \<and> ir_warnings r = [''Checksum mismatch: expected '' @ w]"
proof -
  from import_export [OF assms(1,2), of now'] obtain original sealed where
    o: "archive_serialize env (xo_format opts) (package_new a opts now s) = Inr original"
    and sl: "archive_serialize env (xo_format opts) (package_sealed env (package_new a opts now s) original) = Inr sealed"
    and r: "archive_import env opts now' d = Ok
      \<lparr>ir_state = st_id s, ir_at = now', ir_errors = archive_validate s,
       ir_warnings = (if av_sha env sealed \<noteq> av_sha env original
         then [''Checksum mismatch: expected '' @ av_sha env original @ '', got '' @ av_sha env sealed] else [])\<rparr>"
    by blast
  have "sealed \<noteq> original"
  proof
    assume "sealed = original"
    then have "package_sealed env (package_new a opts now s) original = package_new a opts now s"
      using serialize_de [OF assms(1) o] serialize_de [OF assms(1) sl] by simp
    from arg_cong [OF this, of xs_checksum] show False
      using assms(4) by (simp add: package_sealed_def package_new_def)
  qed
  then have "av_sha env sealed \<noteq> av_sha env original" using assms(3) [OF o sl] by blast
  then show ?thesis using r by auto
qed

text \<open>A batch is imported state by state, in order.\<close>

lemma export_all_import:
  assumes ok: "archive_env_ok env"
  shows "export_all env a opts ss = Inr ds \<Longrightarrow> length nows = length ds \<Longrightarrow>
    \<exists>rs. import_all env opts (zip nows ds) = Ok rs \<and> map ir_state rs = map (st_id \<circ> snd) ss \<and>
      map ir_errors rs = map (archive_validate \<circ> snd) ss \<and> map ir_at rs = nows"
proof (induction ss arbitrary: ds nows)
  case (Cons x ss)
  obtain now s where x: "x = (now, s)" by fastforce
  from Cons.prems(1) obtain d ds' where
    d: "archive_export env a opts now s = Inr d" "export_all env a opts ss = Inr ds'" "ds = d # ds'"
    by (auto simp: x split: sum.splits)
  then obtain n nows' where n: "nows = n # nows'" "length nows' = length ds'"
    using Cons.prems(2) by (cases nows) auto
  from import_export [OF ok d(1), of n] obtain r where
    "archive_import env opts n d = Ok r" "ir_state r = st_id s" "ir_errors r = archive_validate s" "ir_at r = n"
    by auto
  then show ?case using Cons.IH [OF d(2) n(2)] by (auto simp: x d(3) n(1))
qed simp

theorem batch_import_order:
  assumes "archive_env_ok env" "export_batch env a opts ss = Inr d"
  shows "\<exists>rs. import_batch env opts clock d = Ok rs \<and> map ir_state rs = map (st_id \<circ> snd) ss \<and>
    map ir_errors rs = map (archive_validate \<circ> snd) ss \<and> map ir_at rs = map clock [0..<length ss]"
proof -
  from assms(2) obtain ds where ds: "export_all env a opts ss = Inr ds" "av_ser_batch env ds = Inr d"
    by (auto simp: export_batch_def split: sum.splits)
  have len: "export_all env a opts ss = Inr ds \<Longrightarrow> length ds = length ss" for ss ds
    by (induction ss arbitrary: ds) (auto split: sum.splits)
  have "map (\<lambda>(k, d). (clock k, d)) (enumerate 0 ds) = zip (map clock [0..<length ds]) ds"
    by (simp add: enumerate_eq_zip zip_map1)
  moreover have "av_de_batch env d = Inr ds" using assms(1) ds(2) by (simp add: archive_env_ok_def)
  ultimately show ?thesis
    using export_all_import [OF assms(1) ds(1), of "map clock [0..<length ds]"] len [OF ds(1)]
    by (auto simp: import_batch_def)
qed

text \<open>The validation finds nothing exactly on states with an id, a label, processors, memory and no empty
  region.\<close>

lemma archive_validate_iff:
  "archive_validate s = [] \<longleftrightarrow> sid_str (st_id s) \<noteq> [] \<and> vcpus (st_vm_config s) \<noteq> 0 \<and>
     memory_mb (st_vm_config s) \<noteq> 0 \<and> (\<forall>r \<in> set (st_manifest s). region_size r \<noteq> 0) \<and>
     meta_label (st_metadata s) \<noteq> []"
proof -
  have "concat (map (\<lambda>(i, r). if region_size r = 0 then [''Memory region '' @ dec_str i @ '' has zero size''] else [])
      (enumerate n rs)) = [] \<longleftrightarrow> (\<forall>r \<in> set rs. region_size r \<noteq> 0)" for n rs
    by (induction rs arbitrary: n) auto
  from this [of 0 "st_manifest s"] show ?thesis by (simp add: archive_validate_def)
qed

section \<open>A concrete archive\<close>

definition archive_state :: "unit state" where
  "archive_state = state_new ''s'' ''ui'' () \<lparr>vcpus = 1, memory_mb = 64, kernel_image = [], rootfs_image = []\<rparr>
     \<lparr>meta_label = ''demo'', meta_created_at = 0, meta_ttl_seconds = None\<rparr>"

definition demo_package :: "unit exported_state" where
  "demo_package = package_new (archive_new ''0.1.0'') (export_default\<lparr>xo_compression := ANone\<rparr>) 7 archive_state"

definition demo_sealed :: "unit exported_state" where
  "demo_sealed = demo_package\<lparr>xs_metadata := (xs_metadata demo_package)\<lparr>xm_original := 1\<rparr>, xs_checksum := ''a1''\<rparr>"

definition demo_archive_env :: "unit archive_env" where
  "demo_archive_env =
     \<lparr>av_ser = (\<lambda>x. if x = demo_package then Ok [0] else if x = demo_sealed then Ok [1] else Err ''unsupported''),
      av_de = (\<lambda>d. if d = [0] then Ok demo_package else Ok demo_sealed),
      av_ser_batch = (\<lambda>ds. if ds = [[1]] then Ok [2] else Err ''unsupported''),
      av_de_batch = (\<lambda>d. Ok [[1]]),
      av_sha = (\<lambda>d. if d = [0] then ''a1'' else ''b2''),
      av_gzip = (\<lambda>d. Err ''none''), av_gunzip = (\<lambda>d. Err ''none''),
      av_zstd = (\<lambda>d. Err ''none''), av_unzstd = (\<lambda>d. Err ''none'')\<rparr>"

lemma demo_archive:
  "archive_env_ok demo_archive_env"
  "archive_export demo_archive_env (archive_new ''0.1.0'') (export_default\<lparr>xo_compression := ANone\<rparr>) 7 archive_state = Inr [1]"
proof -
  show "archive_env_ok demo_archive_env"
    by (auto simp: archive_env_ok_def demo_archive_env_def split: if_splits)
  have "demo_sealed \<noteq> demo_package"
    using arg_cong [of demo_sealed demo_package xs_checksum] by (auto simp: demo_sealed_def demo_package_def package_new_def)
  then have ser: "av_ser demo_archive_env demo_package = Inr [0]" "av_ser demo_archive_env demo_sealed = Inr [1]"
    by (simp_all add: demo_archive_env_def)
  have "package_sealed demo_archive_env demo_package [0] = demo_sealed"
    by (simp add: package_sealed_def demo_sealed_def demo_archive_env_def)
  then show "archive_export demo_archive_env (archive_new ''0.1.0'') (export_default\<lparr>xo_compression := ANone\<rparr>) 7 archive_state = Inr [1]"
    using ser by (simp add: archive_export_def archive_serialize_def archive_pack_def flip: demo_package_def)
qed

lemma untouched_archive_warned_witness:
  "\<exists>r w. archive_import demo_archive_env (export_default\<lparr>xo_compression := ANone\<rparr>) 9 [1] = Ok r \<and>
     ir_warnings r = [''Checksum mismatch: expected '' @ w]"
proof -
  have "\<exists>r w. archive_import demo_archive_env (export_default\<lparr>xo_compression := ANone\<rparr>) 9 [1] = Ok r \<and>
      ir_state r = st_id archive_state \<and> ir_errors r = archive_validate archive_state \<and>
      ir_warnings r = [''Checksum mismatch: expected '' @ w]"
    by (rule untouched_archive_warned [OF demo_archive])
      (auto simp: archive_serialize_def demo_archive_env_def split: if_splits sum.splits)
  then show ?thesis by blast
qed

lemma batch_import_order_witness:
  "\<exists>rs. import_batch demo_archive_env (export_default\<lparr>xo_compression := ANone\<rparr>) (\<lambda>k. 20) [2] = Ok rs \<and>
     map ir_state rs = [StateId ''s'']"
proof -
  have "export_batch demo_archive_env (archive_new ''0.1.0'') (export_default\<lparr>xo_compression := ANone\<rparr>)
      [(7, archive_state)] = Inr [2]"
    using demo_archive(2) by (simp add: export_batch_def, simp add: demo_archive_env_def)
  from batch_import_order [OF demo_archive(1) this, of "\<lambda>k. 20"] show ?thesis
    by (auto simp: archive_state_def state_new_def)
qed

end
