(* ===== verification/Encryption.thy ===== *)
theory Encryption
  imports Model
begin

text \<open>
  \<^verbatim>\<open>src/src/encryption.rs\<close>: the key manager with its cache of derived keys and its rotation, the
  encryption of states, and the storages of the master key.  SHA-256 and AES-GCM are parameters,
  random bytes are arguments.  The locale \<open>key_storage\<close> states what \<^verbatim>\<open>trait KeyStorage\<close> promises; the
  in-memory and the file storage provide it.
\<close>

section \<open>Keys\<close>

record enc_env =
  ee_sha :: "bytes \<Rightarrow> bytes"
  ee_new :: "bytes \<Rightarrow> (string, unit) result"
  ee_enc :: "bytes \<Rightarrow> bytes \<Rightarrow> bytes \<Rightarrow> (string, bytes) result"
  ee_dec :: "bytes \<Rightarrow> bytes \<Rightarrow> bytes \<Rightarrow> (string, bytes) result"

record encrypted_data =
  ed_ciphertext :: bytes
  ed_nonce :: bytes
  ed_version :: u32

datatype enc_error =
    CipherError string
  | EncryptionFailed string
  | DecryptionFailed string
  | KeyVersionMismatch u32 u32
  | EncIoError string

record key_manager =
  km_master :: bytes
  km_version :: u32
  km_cache :: "(string, bytes) hmap"

definition from_key :: "bytes \<Rightarrow> u32 \<Rightarrow> key_manager" where
  "from_key k v = \<lparr>km_master = k, km_version = v, km_cache = []\<rparr>"

definition key_manager_new :: "bytes \<Rightarrow> key_manager" where
  "key_manager_new random = \<lparr>km_master = random, km_version = 1, km_cache = []\<rparr>"

definition derivation_input :: "bytes \<Rightarrow> string \<Rightarrow> u32 \<Rightarrow> bytes" where
  "derivation_input k i v = str_bytes ''isa-state-key-derivation'' @ k @ str_bytes i @ be32 v"

definition derive_key :: "enc_env \<Rightarrow> string \<Rightarrow> key_manager \<Rightarrow> key_manager \<times> bytes" where
  "derive_key env i km =
     (case hm_get (km_cache km) i of
        Some k \<Rightarrow> (km, k)
      | None \<Rightarrow>
          let k = ee_sha env (derivation_input (km_master km) i (km_version km))
          in (km\<lparr>km_cache := hm_insert i k (km_cache km)\<rparr>, k))"

definition rotate_key :: "bytes \<Rightarrow> key_manager \<Rightarrow> key_manager \<times> bytes" where
  "rotate_key random km =
     (km\<lparr>km_master := random, km_version := km_version km + 1, km_cache := []\<rparr>, random)"

definition export_key :: "key_manager \<Rightarrow> bytes" where
  "export_key km = km_master km"

section \<open>Encryption\<close>

definition enc_encrypt :: "enc_env \<Rightarrow> string \<Rightarrow> bytes \<Rightarrow> bytes \<Rightarrow> key_manager \<Rightarrow>
    key_manager \<times> (enc_error, encrypted_data) result" where
  "enc_encrypt env i nonce plain km =
     (case derive_key env i km of
        (km', k) \<Rightarrow>
          (km',
           case ee_new env k of
             Inl e \<Rightarrow> Err (CipherError e)
           | Inr u \<Rightarrow>
               (case ee_enc env k nonce plain of
                  Inl e \<Rightarrow> Err (EncryptionFailed e)
                | Inr c \<Rightarrow> Ok \<lparr>ed_ciphertext = c, ed_nonce = nonce, ed_version = km_version km'\<rparr>)))"

definition enc_decrypt :: "enc_env \<Rightarrow> string \<Rightarrow> encrypted_data \<Rightarrow> key_manager \<Rightarrow>
    key_manager \<times> (enc_error, bytes) result" where
  "enc_decrypt env i d km =
     (if ed_version d \<noteq> km_version km then (km, Err (KeyVersionMismatch (km_version km) (ed_version d)))
      else
        (case derive_key env i km of
           (km', k) \<Rightarrow>
             (km',
              case ee_new env k of
                Inl e \<Rightarrow> Err (CipherError e)
              | Inr u \<Rightarrow>
                  (case ee_dec env k (ed_nonce d) (ed_ciphertext d) of
                     Inl e \<Rightarrow> Err (DecryptionFailed e)
                   | Inr p \<Rightarrow> Ok p))))"

datatype key_op =
    KDerive string
  | KEncrypt string bytes bytes
  | KDecrypt string encrypted_data
  | KRotate bytes

fun key_step :: "enc_env \<Rightarrow> key_op \<Rightarrow> key_manager \<Rightarrow> key_manager" where
  "key_step env (KDerive i) km = fst (derive_key env i km)"
| "key_step env (KEncrypt i n p) km = fst (enc_encrypt env i n p km)"
| "key_step env (KDecrypt i d) km = fst (enc_decrypt env i d km)"
| "key_step env (KRotate r) km = fst (rotate_key r km)"

section \<open>Storages of the master key\<close>

type_synonym memory_storage = "(bytes \<times> u32) option"

definition memory_store_key :: "bytes \<Rightarrow> u32 \<Rightarrow> memory_storage \<Rightarrow> memory_storage \<times> (enc_error, unit) result" where
  "memory_store_key k v s = (Some (k, v), Ok ())"

definition memory_load_key :: "memory_storage \<Rightarrow> (enc_error, (bytes \<times> u32) option) result" where
  "memory_load_key s = Ok s"

definition memory_delete_key :: "memory_storage \<Rightarrow> memory_storage \<times> (enc_error, unit) result" where
  "memory_delete_key s = (None, Ok ())"

text \<open>A file, its permissions and the faults of the calls on it.\<close>

record file_storage =
  kf_file :: "bytes option"
  kf_mode :: nat
  kf_write_fault :: "string option"
  kf_mode_fault :: "string option"
  kf_read_fault :: "string option"
  kf_remove_fault :: "string option"

definition file_store_key :: "bytes \<Rightarrow> u32 \<Rightarrow> file_storage \<Rightarrow> file_storage \<times> (enc_error, unit) result" where
  "file_store_key k v s =
     (case kf_write_fault s of
        Some e \<Rightarrow> (s, Err (EncIoError e))
      | None \<Rightarrow>
          let s = s\<lparr>kf_file := Some (k @ be32 v)\<rparr>
          in (case kf_mode_fault s of
                Some e \<Rightarrow> (s, Err (EncIoError e))
              | None \<Rightarrow> (s\<lparr>kf_mode := 384\<rparr>, Ok ())))"

definition file_load_key :: "file_storage \<Rightarrow> (enc_error, (bytes \<times> u32) option) result" where
  "file_load_key s =
     (case kf_file s of
        None \<Rightarrow> Ok None
      | Some d \<Rightarrow>
          (case kf_read_fault s of
             Some e \<Rightarrow> Err (EncIoError e)
           | None \<Rightarrow>
               if length d \<noteq> 36 then Err (DecryptionFailed ''Invalid key file'')
               else Ok (Some (take 32 d, from_be32 (d ! 32) (d ! 33) (d ! 34) (d ! 35)))))"

definition file_delete_key :: "file_storage \<Rightarrow> file_storage \<times> (enc_error, unit) result" where
  "file_delete_key s =
     (case kf_file s of
        None \<Rightarrow> (s, Ok ())
      | Some d \<Rightarrow>
          (case kf_remove_fault s of
             Some e \<Rightarrow> (s, Err (EncIoError e))
           | None \<Rightarrow> (s\<lparr>kf_file := None\<rparr>, Ok ())))"

section \<open>The cache is coherent\<close>

definition km_ok :: "enc_env \<Rightarrow> key_manager \<Rightarrow> bool" where
  "km_ok env km \<longleftrightarrow> (\<forall>i k. hm_get (km_cache km) i = Some k \<longrightarrow>
     k = ee_sha env (derivation_input (km_master km) i (km_version km)))"

lemma from_key_ok [simp]: "km_ok env (from_key k v)"
  by (simp add: km_ok_def from_key_def)

lemma derive_key_result:
  assumes "km_ok env km"
  shows "snd (derive_key env i km) = ee_sha env (derivation_input (km_master km) i (km_version km))"
    and "km_ok env (fst (derive_key env i km))"
    and "km_master (fst (derive_key env i km)) = km_master km"
    and "km_version (fst (derive_key env i km)) = km_version km"
  using assms by (auto simp: km_ok_def derive_key_def Let_def split: option.splits)

lemma fst_encrypt [simp]: "fst (enc_encrypt env i n p km) = fst (derive_key env i km)"
  by (simp add: enc_encrypt_def split: prod.split)

lemma fst_decrypt [simp]:
  "fst (enc_decrypt env i d km) = (if ed_version d \<noteq> km_version km then km else fst (derive_key env i km))"
  by (simp add: enc_decrypt_def split: prod.split)

lemma key_step_ok:
  assumes "km_ok env km"
  shows "km_ok env (key_step env op km)"
  using derive_key_result(2) [OF assms] assms
  by (cases op) (simp_all add: rotate_key_def, simp add: km_ok_def)

definition is_rotate :: "key_op \<Rightarrow> bool" where
  "is_rotate op \<longleftrightarrow> (case op of KRotate r \<Rightarrow> True | _ \<Rightarrow> False)"

lemma key_step_version:
  assumes "km_ok env km"
  shows "km_version (key_step env op km) = km_version km + (if is_rotate op then 1 else 0)"
    and "\<not> is_rotate op \<Longrightarrow> km_master (key_step env op km) = km_master km"
  using derive_key_result(3,4) [OF assms]
  by (cases op; simp add: is_rotate_def rotate_key_def)+

lemma key_run_all:
  "km_ok env km \<Longrightarrow> km_ok env (fold (key_step env) ops km) \<and>
    km_version (fold (key_step env) ops km) = km_version km + of_nat (length (filter is_rotate ops)) \<and>
    (list_all (\<lambda>op. \<not> is_rotate op) ops \<longrightarrow> km_master (fold (key_step env) ops km) = km_master km)"
  by (induction ops arbitrary: km) (simp_all add: key_step_ok key_step_version)

lemma key_run:
  assumes "km_ok env km"
  shows "km_ok env (fold (key_step env) ops km)"
    and "km_version (fold (key_step env) ops km) = km_version km + of_nat (length (filter is_rotate ops))"
    and "list_all (\<lambda>op. \<not> is_rotate op) ops \<Longrightarrow> km_master (fold (key_step env) ops km) = km_master km"
  using key_run_all [OF assms, of ops] by simp_all

section \<open>Data stay readable until the next rotation\<close>

definition gcm_ok :: "enc_env \<Rightarrow> bool" where
  "gcm_ok env \<longleftrightarrow> (\<forall>k n p c. ee_enc env k n p = Inr c \<longrightarrow> ee_dec env k n c = Inr p)"

lemma encrypt_decrypt:
  assumes "gcm_ok env" "km_ok env km" "km_ok env km'"
    and "km_master km' = km_master km" "km_version km' = km_version km"
    and "enc_encrypt env i n p km = (km1, Inr e)"
  shows "snd (enc_decrypt env i e km') = Ok p"
  using assms(1,4-6) derive_key_result [OF assms(2), of i] derive_key_result [OF assms(3), of i]
  by (auto simp: enc_encrypt_def enc_decrypt_def gcm_ok_def split: prod.splits sum.splits)

text \<open>C30. Encrypted data stay readable until the key is rotated: whatever keys are derived and states
  encrypted or decrypted before and after, decrypting under the same state id gives the plaintext
  back; after a rotation (fewer than 2 to the 32 of them) it is refused with the two versions.\<close>

theorem decrypts_until_rotation:
  assumes "gcm_ok env"
    and "enc_encrypt env i nonce p (fold (key_step env) ops1 (from_key master v)) = (km, Inr e)"
    and "enc_decrypt env i e (fold (key_step env) ops2 km) = (km', r)"
    and "length (filter is_rotate ops2) < 2 ^ 32"
  shows "r = (if list_all (\<lambda>op. \<not> is_rotate op) ops2 then Ok p
    else Err (KeyVersionMismatch (ed_version e + of_nat (length (filter is_rotate ops2))) (ed_version e)))"
proof -
  let ?km0 = "fold (key_step env) ops1 (from_key master v)" and ?n = "length (filter is_rotate ops2)"
  have ok0: "km_ok env ?km0" by (intro key_run(1) from_key_ok)
  have km: "km = fst (derive_key env i ?km0)" using arg_cong [OF assms(2), of fst] by simp
  note d = derive_key_result [OF ok0, of i, folded km]
  have ver: "ed_version e = km_version km"
    using assms(2) by (auto simp: enc_encrypt_def split: prod.splits sum.splits)
  note run = key_run [OF d(2), of ops2]
  show ?thesis
  proof (cases "list_all (\<lambda>op. \<not> is_rotate op) ops2")
    case True
    then have "filter is_rotate ops2 = []" by (simp add: filter_empty_conv list_all_iff)
    then have "snd (enc_decrypt env i e (fold (key_step env) ops2 km)) = Ok p"
      using run(2) run(3) [OF True] d by (intro encrypt_decrypt [OF assms(1) ok0 run(1) _ _ assms(2)]) simp_all
    then show ?thesis using assms(3) True by simp
  next
    case False
    then have "0 < ?n" by (auto simp: list_all_iff filter_empty_conv)
    then have "of_nat ?n \<noteq> (0 :: u32)" 
      using assms(4) nat_dvd_not_less [of ?n "2 ^ 32"] by (simp add: word_of_nat_eq_0_iff)
    then have "ed_version e \<noteq> km_version (fold (key_step env) ops2 km)" unfolding run(2) ver by simp
    then show ?thesis using assms(3) False run(2) ver by (auto simp: enc_decrypt_def)
  qed
qed

text \<open>Two states, or two versions of the key, never derive their keys from the same input.\<close>

lemma derivation_separates:
  "derivation_input k i v = derivation_input k j w \<longleftrightarrow> i = j \<and> v = w"
proof
  assume "derivation_input k i v = derivation_input k j w"
  then have "str_bytes i @ be32 v = str_bytes j @ be32 w" by (simp add: derivation_input_def)
  then have "str_bytes i = str_bytes j" "be32 v = be32 w" by (simp_all add: append_eq_append_conv)
  then show "i = j \<and> v = w" by (auto dest: str_bytes_inj be32_inj)
qed simp

section \<open>Backups of the master key\<close>

locale key_storage =
  fixes store :: "bytes \<Rightarrow> u32 \<Rightarrow> 's \<Rightarrow> 's \<times> (enc_error, unit) result"
    and load :: "'s \<Rightarrow> (enc_error, (bytes \<times> u32) option) result"
    and delete :: "'s \<Rightarrow> 's \<times> (enc_error, unit) result"
  assumes store_load: "length k = 32 \<Longrightarrow> store k v s = (s', Inr u) \<Longrightarrow> load s' = Inr x \<Longrightarrow> x = Some (k, v)"
    and delete_load: "delete s = (s', Inr u) \<Longrightarrow> load s' = Inr None"
begin

lemma backup_decrypts:
  assumes "gcm_ok env" "km_ok env km" "length (km_master km) = 32"
    and "enc_encrypt env i nonce p km = (km1, Inr e)"
    and "store (export_key km1) (km_version km1) s = (s', Inr u)" "load s' = Inr x"
  shows "\<exists>m v. x = Some (m, v) \<and> snd (enc_decrypt env i e (from_key m v)) = Ok p"
proof -
  have "km1 = fst (derive_key env i km)" using arg_cong [OF assms(4), of fst] by simp
  then have same: "km_master km1 = km_master km" "km_version km1 = km_version km"
    using derive_key_result [OF assms(2), of i] by simp_all
  then have "x = Some (km_master km, km_version km)"
    using store_load [OF _ assms(5,6)] assms(3) by (simp add: export_key_def)
  moreover have "snd (enc_decrypt env i e (from_key (km_master km) (km_version km))) = Ok p"
    by (rule encrypt_decrypt [OF assms(1,2) from_key_ok _ _ assms(4)]) (simp_all add: from_key_def)
  ultimately show ?thesis by blast
qed

end

interpretation memory_keys: key_storage memory_store_key memory_load_key memory_delete_key
  by unfold_locales (auto simp: memory_store_key_def memory_load_key_def memory_delete_key_def)

lemma from_be32_be32_nth: "from_be32 (be32 v ! 0) (be32 v ! 1) (be32 v ! 2) (be32 v ! 3) = v"
  by (simp add: be32_def be_simps)

interpretation file_keys: key_storage file_store_key file_load_key file_delete_key
proof
  show "x = Some (k, v)" if "length k = 32" "file_store_key k v s = (s', Inr u)" "file_load_key s' = Inr x"
    for k v s s' u x
  proof -
    have "(k @ be32 v) ! 32 = be32 v ! 0" "(k @ be32 v) ! 33 = be32 v ! 1" "(k @ be32 v) ! 34 = be32 v ! 2"
      "(k @ be32 v) ! 35 = be32 v ! 3"
      using that(1) by (simp_all add: nth_append)
    then show ?thesis
      using that from_be32_be32_nth [of v]
      by (auto simp: file_store_key_def file_load_key_def Let_def split: option.splits)
  qed
  show "file_load_key s' = Inr None" if "file_delete_key s = (s', Inr u)" for s s' u
    using that by (auto simp: file_delete_key_def file_load_key_def split: option.splits)
qed

text \<open>A backup of the master key in a file restores access: data encrypted before the key was
  exported and stored decrypt under the key that is loaded from the file, in a new manager.\<close>

theorem file_backup_decrypts:
  assumes "gcm_ok env" "km_ok env km" "length (km_master km) = 32"
    and "enc_encrypt env i nonce p km = (km1, Inr e)"
    and "file_store_key (export_key km1) (km_version km1) s = (s', Inr u)" "file_load_key s' = Inr x"
  shows "\<exists>m v. x = Some (m, v) \<and> snd (enc_decrypt env i e (from_key m v)) = Ok p"
  by (rule file_keys.backup_decrypts [OF assms])

section \<open>Concrete keys\<close>

definition demo_enc :: enc_env where
  "demo_enc = \<lparr>ee_sha = (\<lambda>d. replicate 32 (of_nat (length d))), ee_new = (\<lambda>k. Ok ()),
     ee_enc = (\<lambda>k n p. Ok (k @ p)), ee_dec = (\<lambda>k n c. if take (length k) c = k then Ok (drop (length k) c) else Err ''tag'')\<rparr>"

lemma demo_gcm: "gcm_ok demo_enc"
  by (simp add: gcm_ok_def demo_enc_def)

lemma decrypts_until_rotation_witness:
  "\<exists>km e. enc_encrypt demo_enc ''s'' [9] [1, 2] (from_key (replicate 32 5) 1) = (km, Inr e) \<and>
     snd (enc_decrypt demo_enc ''s'' e (fold (key_step demo_enc) [KDerive ''t''] km)) = Ok [1, 2] \<and>
     snd (enc_decrypt demo_enc ''s'' e (fold (key_step demo_enc) [KRotate (replicate 32 6)] km)) =
       Err (KeyVersionMismatch (ed_version e + 1) (ed_version e))"
proof -
  obtain km e where run: "enc_encrypt demo_enc ''s'' [9] [1, 2]
      (fold (key_step demo_enc) [] (from_key (replicate 32 5) 1)) = (km, Inr e)"
    by (simp add: enc_encrypt_def derive_key_def demo_enc_def from_key_def Let_def)
  note * = decrypts_until_rotation [OF demo_gcm run prod.collapse [symmetric]]
  show ?thesis
    using *[of "[KDerive ''t'']"] *[of "[KRotate (replicate 32 6)]"] run
    by (simp add: is_rotate_def)
qed

definition demo_key_file :: file_storage where
  "demo_key_file = \<lparr>kf_file = None, kf_mode = 420, kf_write_fault = None, kf_mode_fault = None,
     kf_read_fault = None, kf_remove_fault = None\<rparr>"

lemma file_backup_decrypts_witness:
  "\<exists>km e m v. enc_encrypt demo_enc ''s'' [9] [1, 2] (from_key (replicate 32 5) 1) = (km, Inr e) \<and>
     file_load_key (fst (file_store_key (export_key km) (km_version km) demo_key_file)) = Ok (Some (m, v)) \<and>
     snd (enc_decrypt demo_enc ''s'' e (from_key m v)) = Ok [1, 2]"
proof -
  obtain km e where run: "enc_encrypt demo_enc ''s'' [9] [1, 2] (from_key (replicate 32 5) 1) = (km, Inr e)"
    and km: "km_master km = replicate 32 5" "km_version km = 1"
    by (simp add: enc_encrypt_def derive_key_def demo_enc_def from_key_def Let_def)
  obtain s' where st: "file_store_key (export_key km) (km_version km) demo_key_file = (s', Inr ())"
    and kf: "kf_file s' = Some (replicate 32 5 @ be32 1)" "kf_read_fault s' = None"
    by (simp add: file_store_key_def demo_key_file_def Let_def export_key_def km)
  obtain x where ld: "file_load_key s' = Inr x"
    by (simp add: file_load_key_def kf)
  have "length (km_master (from_key (replicate 32 (5 :: byte)) 1)) = 32" by (simp add: from_key_def)
  from file_backup_decrypts [OF demo_gcm from_key_ok this run st ld] show ?thesis
    using run st ld by auto
qed

end
