(* ===== verification/Webhook.thy ===== *)
theory Webhook
  imports F32 Model
begin

text \<open>
  \<^verbatim>\<open>src/src/webhook.rs\<close>: endpoints, the events they listen to, deliveries with their retries and
  delays, and the record of deliveries.  A delivery is given the answers that its requests will get;
  what it does is the list of its requests and waits.  JSON and HMAC are parameters.
\<close>

section \<open>Events and endpoints\<close>

datatype webhook_event =
    EvCreated string string
  | EvResumed string string
  | EvDeleted string
  | EvForked string string
  | EvShared string string
  | EvSnapshot string nat

fun event_type :: "webhook_event \<Rightarrow> string" where
  "event_type (EvCreated i l) = ''state_created''"
| "event_type (EvResumed i m) = ''state_resumed''"
| "event_type (EvDeleted i) = ''state_deleted''"
| "event_type (EvForked i f) = ''state_forked''"
| "event_type (EvShared i u) = ''state_shared''"
| "event_type (EvSnapshot i n) = ''snapshot_created''"

record endpoint =
  ep_id :: uuid
  ep_url :: string
  ep_secret :: string
  ep_events :: "string list"
  ep_active :: bool
  ep_created :: datetime

definition endpoint_new :: "uuid \<Rightarrow> datetime \<Rightarrow> string \<Rightarrow> string \<Rightarrow> string list \<Rightarrow> endpoint" where
  "endpoint_new fresh now url secret evs =
     \<lparr>ep_id = fresh, ep_url = url, ep_secret = secret, ep_events = evs, ep_active = True, ep_created = now\<rparr>"

definition listens_to :: "string \<Rightarrow> endpoint \<Rightarrow> bool" where
  "listens_to ty e \<longleftrightarrow> ep_events e = [] \<or> list_ex (\<lambda>x. x = ty \<or> x = ''*'') (ep_events e)"

datatype delivery_status = DPending | DDelivered | DFailed u32 string

record delivery =
  dv_id :: uuid
  dv_endpoint :: uuid
  dv_event :: webhook_event
  dv_status :: delivery_status
  dv_attempts :: u32
  dv_created :: datetime
  dv_delivered :: "datetime option"

record webhooks =
  wh_endpoints :: "endpoint list"
  wh_deliveries :: "delivery list"
  wh_retries :: u32
  wh_delay :: u64

definition webhooks_new :: webhooks where
  "webhooks_new = \<lparr>wh_endpoints = [], wh_deliveries = [], wh_retries = 3, wh_delay = 1000\<rparr>"

definition add_endpoint :: "endpoint \<Rightarrow> webhooks \<Rightarrow> webhooks" where
  "add_endpoint e w = w\<lparr>wh_endpoints := wh_endpoints w @ [e]\<rparr>"

fun remove_first :: "uuid \<Rightarrow> endpoint list \<Rightarrow> endpoint list \<times> bool" where
  "remove_first i [] = ([], False)"
| "remove_first i (e # es) =
     (if ep_id e = i then (es, True) else (case remove_first i es of (es', b) \<Rightarrow> (e # es', b)))"

definition remove_endpoint :: "uuid \<Rightarrow> webhooks \<Rightarrow> webhooks \<times> bool" where
  "remove_endpoint i w =
     (case remove_first i (wh_endpoints w) of (es, b) \<Rightarrow> (w\<lparr>wh_endpoints := es\<rparr>, b))"

section \<open>Deliveries\<close>

definition sign_payload :: "(bytes \<Rightarrow> bytes \<Rightarrow> string) \<Rightarrow> string \<Rightarrow> string \<Rightarrow> string" where
  "sign_payload hmac payload secret = hmac (str_bytes secret) (str_bytes payload)"

definition verify_signature :: "(bytes \<Rightarrow> bytes \<Rightarrow> string) \<Rightarrow> string \<Rightarrow> string \<Rightarrow> string \<Rightarrow> bool" where
  "verify_signature hmac payload signature secret \<longleftrightarrow> signature = sign_payload hmac payload secret"

definition delivery_new :: "uuid \<Rightarrow> datetime \<Rightarrow> webhook_event \<Rightarrow> endpoint \<Rightarrow> delivery" where
  "delivery_new fresh now ev e =
     \<lparr>dv_id = fresh, dv_endpoint = ep_id e, dv_event = ev, dv_status = DPending, dv_attempts = 0,
      dv_created = now, dv_delivered = None\<rparr>"

text \<open>The endpoints that an event is sent to, with their new records; each is then delivered by a task
  of its own.\<close>

definition send_event :: "(uuid \<times> datetime) list \<Rightarrow> webhook_event \<Rightarrow> webhooks \<Rightarrow> webhooks \<times> (endpoint \<times> delivery) list" where
  "send_event fresh ev w =
     (let es = filter (\<lambda>e. ep_active e \<and> listens_to (event_type ev) e) (wh_endpoints w);
          ds = map2 (\<lambda>(i, now) e. (e, delivery_new i now ev e)) fresh es
      in (w\<lparr>wh_deliveries := wh_deliveries w @ map snd ds\<rparr>, ds))"

text \<open>What one delivery does: waits and requests.  An answer is a status, with its text, or an error.\<close>

datatype http_answer = Answer nat string | Refused string

record http_request =
  hq_url :: string
  hq_event :: string
  hq_signature :: string
  hq_delivery :: uuid
  hq_body :: string

datatype delivery_act = Wait u64 | Post http_request

text \<open>The attempts from number \<open>k\<close> on; \<open>n\<close> are left.  \<open>get_deliveries\<close> of the record is a new empty list each
  time, so the updates of the record have no effect and are left out here; the delivery itself is
  returned.\<close>

fun attempts_loop :: "http_request \<Rightarrow> u64 \<Rightarrow> datetime \<Rightarrow> (nat \<Rightarrow> http_answer) \<Rightarrow> nat \<Rightarrow> nat \<Rightarrow> delivery \<Rightarrow>
    delivery_act list \<times> delivery" where
  "attempts_loop rq base now answer k 0 d = ([], d)"
| "attempts_loop rq base now answer k (Suc n) d =
     (let d = d\<lparr>dv_attempts := of_nat k\<rparr>;
          wait = (if k > 1 then [Wait (base * 2 ^ (k - 1))] else [])
      in case answer k of
           Answer s txt \<Rightarrow>
             if http_success s
             then (wait @ [Post rq], d\<lparr>dv_status := DDelivered, dv_delivered := Some now\<rparr>)
             else (case attempts_loop rq base now answer (Suc k) n
                          (d\<lparr>dv_status := DFailed (of_nat k) (''HTTP '' @ txt)\<rparr>) of
                     (acts, d') \<Rightarrow> (wait @ Post rq # acts, d'))
         | Refused e \<Rightarrow>
             (case attempts_loop rq base now answer (Suc k) n (d\<lparr>dv_status := DFailed (of_nat k) e\<rparr>) of
                (acts, d') \<Rightarrow> (wait @ Post rq # acts, d')))"

definition deliver_with_retry :: "(webhook_event \<Rightarrow> string) \<Rightarrow> (bytes \<Rightarrow> bytes \<Rightarrow> string) \<Rightarrow> endpoint \<Rightarrow> webhook_event \<Rightarrow>
    u32 \<Rightarrow> u64 \<Rightarrow> datetime \<Rightarrow> (nat \<Rightarrow> http_answer) \<Rightarrow> delivery \<Rightarrow> delivery_act list \<times> delivery" where
  "deliver_with_retry json hmac e ev retries base now answer d =
     (let payload = json ev;
          rq = \<lparr>hq_url = ep_url e, hq_event = event_type ev,
                hq_signature = sign_payload hmac payload (ep_secret e), hq_delivery = dv_id d, hq_body = payload\<rparr>
      in attempts_loop rq base now answer 1 (unat retries) d)"

section \<open>History\<close>

definition wh_get_deliveries :: "nat \<Rightarrow> webhooks \<Rightarrow> delivery list" where
  "wh_get_deliveries n w = take n (rev (wh_deliveries w))"

record webhook_stats =
  ws_endpoints :: nat
  ws_active :: nat
  ws_total :: nat
  ws_delivered :: nat
  ws_failed :: nat
  ws_pending :: nat
  ws_rate :: f32

definition wh_get_stats :: "webhooks \<Rightarrow> webhook_stats" where
  "wh_get_stats w =
     (let ds = wh_deliveries w; n = length ds;
          ok = length (filter (\<lambda>d. dv_status d = DDelivered) ds)
      in \<lparr>ws_endpoints = length (wh_endpoints w), ws_active = length (filter ep_active (wh_endpoints w)),
          ws_total = n, ws_delivered = ok,
          ws_failed = length (filter (\<lambda>d. case dv_status d of DFailed a e \<Rightarrow> True | _ \<Rightarrow> False) ds),
          ws_pending = length (filter (\<lambda>d. dv_status d = DPending) ds),
          ws_rate = (if n > 0 then f32_mul (f32_div (f32_of_nat ok) (f32_of_nat n)) 100 else 0)\<rparr>)"

section \<open>What a delivery does\<close>

definition failing :: "http_answer \<Rightarrow> bool" where
  "failing a \<longleftrightarrow> (case a of Answer s t \<Rightarrow> \<not> http_success s | Refused e \<Rightarrow> True)"

definition attempt_acts :: "http_request \<Rightarrow> u64 \<Rightarrow> nat \<Rightarrow> delivery_act list" where
  "attempt_acts rq base k = (if k > 1 then [Wait (base * 2 ^ (k - 1))] else []) @ [Post rq]"

fun failure :: "http_answer \<Rightarrow> string" where
  "failure (Answer s txt) = ''HTTP '' @ txt"
| "failure (Refused e) = e"

lemma attempts_loop_fail:
  "failing (answer k) \<Longrightarrow> attempts_loop rq base now answer k (Suc n) d =
     (case attempts_loop rq base now answer (Suc k) n
        (d\<lparr>dv_attempts := of_nat k, dv_status := DFailed (of_nat k) (failure (answer k))\<rparr>) of
        (acts, d') \<Rightarrow> (attempt_acts rq base k @ acts, d'))"
  by (cases "answer k") (simp_all add: failing_def attempt_acts_def Let_def split: prod.split)

lemma attempts_loop_success:
  "\<not> failing (answer k) \<Longrightarrow> attempts_loop rq base now answer k (Suc n) d =
     (attempt_acts rq base k, d\<lparr>dv_attempts := of_nat k, dv_status := DDelivered, dv_delivered := Some now\<rparr>)"
  by (cases "answer k") (simp_all add: failing_def attempt_acts_def Let_def)

lemma attempts_loop_spec:
  "attempts_loop rq base now answer k n d = (acts, d') \<Longrightarrow>
   \<exists>m\<le>n. acts = concat (map (attempt_acts rq base) [k..<k + m]) \<and>
     (\<forall>j. k \<le> j \<and> Suc j < k + m \<longrightarrow> failing (answer j)) \<and>
     (if m = 0 then n = 0 \<and> d' = d
      else if failing (answer (k + m - 1))
      then m = n \<and> d' = d\<lparr>dv_attempts := of_nat (k + m - 1),
        dv_status := DFailed (of_nat (k + m - 1)) (failure (answer (k + m - 1)))\<rparr>
      else d' = d\<lparr>dv_attempts := of_nat (k + m - 1), dv_status := DDelivered, dv_delivered := Some now\<rparr>)"
proof (induction n arbitrary: k d acts)
  case (Suc n)
  show ?case
  proof (cases "failing (answer k)")
    case False
    then show ?thesis
      using Suc.prems by (intro exI [of _ 1])
        (auto simp: attempts_loop_success [of answer k, OF False] simp del: attempts_loop.simps)
  next
    case True
    let ?d = "d\<lparr>dv_attempts := of_nat k, dv_status := DFailed (of_nat k) (failure (answer k))\<rparr>"
    from Suc.prems obtain acts' where
      run: "attempts_loop rq base now answer (Suc k) n ?d = (acts', d')" "acts = attempt_acts rq base k @ acts'"
      by (auto simp: attempts_loop_fail [of answer, OF True] simp del: attempts_loop.simps split: prod.splits)
    from Suc.IH [OF run(1)] obtain m where m: "m \<le> n" "acts' = concat (map (attempt_acts rq base) [Suc k..<Suc k + m])"
      and fails: "\<forall>j. Suc k \<le> j \<and> Suc j < Suc k + m \<longrightarrow> failing (answer j)"
      and last: "if m = 0 then n = 0 \<and> d' = ?d
        else if failing (answer (Suc k + m - 1))
        then m = n \<and> d' = ?d\<lparr>dv_attempts := of_nat (Suc k + m - 1),
          dv_status := DFailed (of_nat (Suc k + m - 1)) (failure (answer (Suc k + m - 1)))\<rparr>
        else d' = ?d\<lparr>dv_attempts := of_nat (Suc k + m - 1), dv_status := DDelivered, dv_delivered := Some now\<rparr>"
      by blast
    have "acts = concat (map (attempt_acts rq base) [k..<k + Suc m])"
      using run(2) m(2) by (simp add: upt_conv_Cons del: upt_Suc)
    moreover have "failing (answer j)" if "k \<le> j" "Suc j < k + Suc m" for j
      using that True fails by (cases "j = k") auto
    ultimately show ?thesis
      using m(1) last True by (intro exI [of _ "Suc m"]) (auto split: if_splits)
  qed
qed auto

text \<open>What a delivery does, whatever the endpoint answers: it makes between one and the configured
  number of attempts (none when that is 0), all with the same signed request, waits twice as long
  before each retry, stops at the first success, and ends delivered exactly when its last attempt
  succeeded and failed with that attempt's error otherwise.\<close>

theorem delivery_attempts:
  assumes "deliver_with_retry json hmac e ev retries base now answer d = (acts, d')"
  defines "rq \<equiv> \<lparr>hq_url = ep_url e, hq_event = event_type ev,
    hq_signature = sign_payload hmac (json ev) (ep_secret e), hq_delivery = dv_id d, hq_body = json ev\<rparr>"
  shows "\<exists>m\<le>unat retries. acts = concat (map (attempt_acts rq base) [1..<Suc m]) \<and>
    (\<forall>j. 1 \<le> j \<and> j < m \<longrightarrow> failing (answer j)) \<and>
    (if m = 0 then retries = 0 \<and> d' = d
     else if failing (answer m)
     then m = unat retries \<and> d' = d\<lparr>dv_attempts := of_nat m, dv_status := DFailed (of_nat m) (failure (answer m))\<rparr>
     else d' = d\<lparr>dv_attempts := of_nat m, dv_status := DDelivered, dv_delivered := Some now\<rparr>)"
proof -
  have "attempts_loop rq base now answer 1 (unat retries) d = (acts, d')"
    using assms by (simp add: deliver_with_retry_def Let_def)
  from attempts_loop_spec [OF this] obtain m where
    "m \<le> unat retries" "acts = concat (map (attempt_acts rq base) [1..<1 + m])"
    "\<forall>j. 1 \<le> j \<and> Suc j < 1 + m \<longrightarrow> failing (answer j)"
    "if m = 0 then unat retries = 0 \<and> d' = d
     else if failing (answer (1 + m - 1))
     then m = unat retries \<and> d' = d\<lparr>dv_attempts := of_nat (1 + m - 1),
       dv_status := DFailed (of_nat (1 + m - 1)) (failure (answer (1 + m - 1)))\<rparr>
     else d' = d\<lparr>dv_attempts := of_nat (1 + m - 1), dv_status := DDelivered, dv_delivered := Some now\<rparr>"
    by blast
  then show ?thesis by (intro exI [of _ m]) (auto simp: unat_eq_0 split: if_splits)
qed

text \<open>The first retry already waits twice the base delay.\<close>

lemma delivery_waits: "concat (map (attempt_acts rq 1000) [1..<4]) = [Post rq, Wait 2000, Post rq, Wait 4000, Post rq]"
  by (simp add: attempt_acts_def upt_conv_Cons)

section \<open>The history never changes\<close>

datatype webhook_op = WAdd endpoint | WRemove uuid | WSend "(uuid \<times> datetime) list" webhook_event

fun webhook_step :: "webhook_op \<Rightarrow> webhooks \<Rightarrow> webhooks" where
  "webhook_step (WAdd e) w = add_endpoint e w"
| "webhook_step (WRemove i) w = fst (remove_endpoint i w)"
| "webhook_step (WSend fresh ev) w = fst (send_event fresh ev w)"

text \<open>The record of deliveries shows every delivery as pending with no attempts, for ever: the updates
  go to a list that is thrown away.\<close>

lemma deliveries_stay_pending:
  "list_all (\<lambda>d. dv_status d = DPending \<and> dv_attempts d = 0) (wh_deliveries (fold webhook_step ops webhooks_new))"
proof -
  have "list_all (\<lambda>d. dv_status d = DPending \<and> dv_attempts d = 0) (wh_deliveries (fold webhook_step ops w))"
    if "list_all (\<lambda>d. dv_status d = DPending \<and> dv_attempts d = 0) (wh_deliveries w)" for w
    using that
  proof (induction ops arbitrary: w)
    case (Cons op ops)
    have "list_all (\<lambda>d. dv_status d = DPending \<and> dv_attempts d = 0) (wh_deliveries (webhook_step op w))"
      using Cons.prems by (cases op) (auto simp: add_endpoint_def remove_endpoint_def send_event_def
          delivery_new_def Let_def list_all_iff split: prod.splits)
    from Cons.IH [OF this] show ?case by simp
  qed simp
  then show ?thesis by (simp add: webhooks_new_def)
qed

lemma delivery_attempts_witness:
  "\<exists>acts d'. deliver_with_retry (\<lambda>ev. ''{}'') (\<lambda>k p. ''mac'') (endpoint_new ''e'' 0 ''url'' ''s'' []) (EvDeleted ''x'') 3 1000 5
      (\<lambda>k. if k = 2 then Answer 200 ''200 OK'' else Refused ''timeout'') (delivery_new ''d'' 0 (EvDeleted ''x'') (endpoint_new ''e'' 0 ''url'' ''s'' [])) = (acts, d') \<and>
    dv_status d' = DDelivered"
proof -
  let ?e = "endpoint_new ''e'' 0 ''url'' ''s'' []" and ?answer = "\<lambda>k :: nat. if k = 2 then Answer 200 ''200 OK'' else Refused ''timeout''"
  obtain acts d' where run: "deliver_with_retry (\<lambda>ev. ''{}'') (\<lambda>k p. ''mac'') ?e (EvDeleted ''x'') 3 1000 5 ?answer
      (delivery_new ''d'' 0 (EvDeleted ''x'') ?e) = (acts, d')" by fastforce
  from delivery_attempts [OF run] obtain m :: nat where m: "m \<le> 3" "\<forall>j. 1 \<le> j \<and> j < m \<longrightarrow> failing (?answer j)"
    and res: "if m = 0 then (3 :: u32) = 0 \<and> d' = delivery_new ''d'' 0 (EvDeleted ''x'') ?e
      else if failing (?answer m) then m = unat (3 :: u32) \<and> d' = (delivery_new ''d'' 0 (EvDeleted ''x'') ?e)
        \<lparr>dv_attempts := of_nat m, dv_status := DFailed (of_nat m) (failure (?answer m))\<rparr>
      else d' = (delivery_new ''d'' 0 (EvDeleted ''x'') ?e)\<lparr>dv_attempts := of_nat m, dv_status := DDelivered, dv_delivered := Some 5\<rparr>"
    by auto
  have "\<not> failing (?answer 2)" by (simp add: failing_def http_success_def)
  then have "m \<noteq> 3" using m(2) [rule_format, of 2] by auto
  then have "dv_status d' = DDelivered" using res by (auto split: if_splits)
  then show ?thesis using run by blast
qed

end
