(* ===== verification/FirecrackerApi.thy ===== *)
theory FirecrackerApi
  imports Model
begin

text \<open>
  \<^verbatim>\<open>src/src/firecracker_api.rs\<close>: the client of the API of Firecracker and the operations on a virtual
  machine that are made of its requests.  The host (files, processes and the API behind the socket) is
  a parameter: what it answers may depend on everything that happened before, so its state is the list
  of these events.  A body is the struct that is serialized; the answers and their text are the host's.
\<close>

section \<open>Bodies of requests\<close>

datatype cpu_template = TemplateC3 | TemplateT2 | TemplateT2S | TemplateT2A | TemplateV1N1 | TemplateNone

record boot_source_config =
  bs_kernel :: string
  bs_args :: "string option"

record drive_config =
  dr_id :: string
  dr_path :: string
  dr_root :: bool
  dr_read_only :: bool
  dr_io_engine :: "string option"

record network_interface_config =
  ni_id :: string
  ni_host_dev :: string
  ni_mac :: "string option"

record machine_config =
  mc_vcpus :: u8
  mc_mem :: nat
  mc_smt :: "bool option"
  mc_template :: "cpu_template option"

record logger_config =
  lg_path :: string
  lg_level :: "string option"
  lg_show_level :: "bool option"
  lg_show_origin :: "bool option"

record metrics_config =
  mt_path :: string

record cpu_config =
  cc_count :: u8
  cc_template :: "cpu_template option"

record fc_info =
  fi_version :: string
  fi_arch :: string

record snapshot_config =
  sn_mem :: string
  sn_state :: string
  sn_type :: "string option"
  sn_version :: "string option"

record snapshot_load_config =
  sl_mem :: string
  sl_state :: string
  sl_diff :: "bool option"

datatype api_body =
    NoBody
  | BootSourceBody boot_source_config
  | DriveBody drive_config
  | NetworkBody network_interface_config
  | MachineBody machine_config
  | LoggerBody logger_config
  | MetricsBody metrics_config
  | ActionBody string
  | SnapshotBody snapshot_config
  | LoadBody snapshot_load_config

section \<open>The host\<close>

datatype api_method = ApiGet | ApiPut

record api_request =
  rq_socket :: string
  rq_method :: api_method
  rq_path :: string
  rq_body :: api_body

datatype api_reply =
    NoConnectionInTime
  | NoConnection string
  | NoHandshake string
  | NoReplyInTime
  | NoReply string
  | Reply nat "(string, bytes) result"

text \<open>The configuration file of a machine; its keys are those of the bodies.\<close>

record config_file =
  cf_boot :: boot_source_config
  cf_drives :: "drive_config list"
  cf_machine :: machine_config
  cf_networks :: "network_interface_config list"
  cf_logger :: logger_config
  cf_metrics :: metrics_config

text \<open>The one that \<^verbatim>\<open>firecracker_process.rs\<close> writes; its sections are named \<^verbatim>\<open>boot_source\<close>,
  \<^verbatim>\<open>machine_config\<close> and so on.\<close>

record process_config_file =
  pf_boot :: boot_source_config
  pf_drives :: "drive_config list"
  pf_machine :: "u8 \<times> nat \<times> bool"
  pf_networks :: "network_interface_config list"
  pf_logger :: "logger_config option"
  pf_metrics :: "metrics_config option"

datatype host_event =
    MakeDir string
  | WriteConfig string config_file
  | WriteProcessConfig string process_config_file
  | MakeFifo string
  | RemoveFile string
  | RemoveDir string
  | WritePid string nat
  | WriteZeroes string nat
  | FileExists string
  | Spawn string "string list"
  | Sleep nat
  | SocketReady string
  | ProcessExited nat
  | KillProcess nat
  | WaitProcess nat
  | Request api_request

type_synonym history = "host_event list"

text \<open>The answers: the fault of a call, if any, the number of a new process, a flag, a reply.  The last
  components are the parsers of replies (JSON), lossy decoding of text and the \<^verbatim>\<open>Debug\<close> form of
  a path, and the JSON values that the code builds.\<close>

record 'j host =
  ho_fault :: "history \<Rightarrow> host_event \<Rightarrow> string option"
  ho_spawn :: "history \<Rightarrow> host_event \<Rightarrow> (string, nat) result"
  ho_flag :: "history \<Rightarrow> host_event \<Rightarrow> bool"
  ho_reply :: "history \<Rightarrow> api_request \<Rightarrow> api_reply"
  ho_info :: "bytes \<Rightarrow> (string, fc_info) result"
  ho_cpu :: "bytes \<Rightarrow> (string, cpu_config) result"
  ho_text :: "bytes \<Rightarrow> string"
  ho_debug :: "string \<Rightarrow> string"
  ho_cpu_json :: "cpu_config \<Rightarrow> 'j"
  ho_vm_json :: "string \<Rightarrow> vm_config \<Rightarrow> 'j"

definition act :: "'j host \<Rightarrow> host_event \<Rightarrow> history \<Rightarrow> history \<times> string option" where
  "act ho e h = (h @ [e], ho_fault ho h e)"

definition ask :: "'j host \<Rightarrow> host_event \<Rightarrow> history \<Rightarrow> history \<times> bool" where
  "ask ho e h = (h @ [e], ho_flag ho h e)"

section \<open>The client\<close>

datatype fc_error =
    FcConnectionTimeout
  | FcConnectionError string
  | FcHandshakeError string
  | FcRequestError string
  | FcRequestTimeout
  | FcSendError string
  | FcBodyError string
  | FcParseError string
  | FcSerializationError string
  | FcApiError nat string
  | FcIoError string

fun fc_show :: "fc_error \<Rightarrow> string" where
  "fc_show FcConnectionTimeout = ''Connection timeout''"
| "fc_show (FcConnectionError e) = ''Connection error: '' @ e"
| "fc_show (FcHandshakeError e) = ''Handshake error: '' @ e"
| "fc_show (FcRequestError e) = ''Request error: '' @ e"
| "fc_show FcRequestTimeout = ''Request timeout''"
| "fc_show (FcSendError e) = ''Send error: '' @ e"
| "fc_show (FcBodyError e) = ''Body error: '' @ e"
| "fc_show (FcParseError e) = ''Parse error: '' @ e"
| "fc_show (FcSerializationError e) = ''Serialization error: '' @ e"
| "fc_show (FcApiError s m) = ''API error '' @ dec_str s @ '': '' @ m"
| "fc_show (FcIoError e) = ''IO error: '' @ e"

record fc_client =
  fc_socket :: string
  fc_timeout :: u64

definition fc_client_new :: "string \<Rightarrow> fc_client" where
  "fc_client_new path = \<lparr>fc_socket = path, fc_timeout = 30\<rparr>"

definition fc_with_timeout :: "string \<Rightarrow> u64 \<Rightarrow> fc_client" where
  "fc_with_timeout path secs = \<lparr>fc_socket = path, fc_timeout = secs\<rparr>"

text \<open>The text of an error reply is empty when its body cannot be read.  How long the code waits is part
  of what the host does.\<close>

definition fc_request :: "'j host \<Rightarrow> fc_client \<Rightarrow> api_method \<Rightarrow> string \<Rightarrow> api_body \<Rightarrow> history \<Rightarrow>
    history \<times> (fc_error, (string, bytes) result) result" where
  "fc_request ho c m path body h =
     (let rq = \<lparr>rq_socket = fc_socket c, rq_method = m, rq_path = path, rq_body = body\<rparr> in
      (h @ [Request rq],
       case ho_reply ho h rq of
         NoConnectionInTime \<Rightarrow> Err FcConnectionTimeout
       | NoConnection e \<Rightarrow> Err (FcConnectionError e)
       | NoHandshake e \<Rightarrow> Err (FcHandshakeError e)
       | NoReplyInTime \<Rightarrow> Err FcRequestTimeout
       | NoReply e \<Rightarrow> Err (FcSendError e)
       | Reply status text \<Rightarrow>
           if http_success status then Ok text
           else Err (FcApiError status (ho_text ho (case text of Inl e \<Rightarrow> [] | Inr d \<Rightarrow> d)))))"

definition fc_get :: "'j host \<Rightarrow> (bytes \<Rightarrow> (string, 'a) result) \<Rightarrow> fc_client \<Rightarrow> string \<Rightarrow> history \<Rightarrow>
    history \<times> (fc_error, 'a) result" where
  "fc_get ho parse c path h =
     (case fc_request ho c ApiGet path NoBody h of
        (h', Inl e) \<Rightarrow> (h', Err e)
      | (h', Inr (Inl e)) \<Rightarrow> (h', Err (FcBodyError e))
      | (h', Inr (Inr d)) \<Rightarrow> (h', map_err FcParseError (parse d)))"

definition fc_put :: "'j host \<Rightarrow> fc_client \<Rightarrow> string \<Rightarrow> api_body \<Rightarrow> history \<Rightarrow> history \<times> (fc_error, unit) result" where
  "fc_put ho c path body h =
     (case fc_request ho c ApiPut path body h of
        (h', Inl e) \<Rightarrow> (h', Err e)
      | (h', Inr text) \<Rightarrow> (h', Ok ()))"

definition get_info :: "'j host \<Rightarrow> fc_client \<Rightarrow> history \<Rightarrow> history \<times> (fc_error, fc_info) result" where
  "get_info ho c h = fc_get ho (ho_info ho) c ''/'' h"

definition get_cpu_config :: "'j host \<Rightarrow> fc_client \<Rightarrow> history \<Rightarrow> history \<times> (fc_error, cpu_config) result" where
  "get_cpu_config ho c h = fc_get ho (ho_cpu ho) c ''/cpu-config'' h"

definition configure_boot_source :: "'j host \<Rightarrow> boot_source_config \<Rightarrow> fc_client \<Rightarrow> history \<Rightarrow> history \<times> (fc_error, unit) result" where
  "configure_boot_source ho b c h = fc_put ho c ''/boot-source'' (BootSourceBody b) h"

definition configure_drive :: "'j host \<Rightarrow> drive_config \<Rightarrow> fc_client \<Rightarrow> history \<Rightarrow> history \<times> (fc_error, unit) result" where
  "configure_drive ho d c h = fc_put ho c (''/drives/'' @ dr_id d) (DriveBody d) h"

definition configure_network :: "'j host \<Rightarrow> network_interface_config \<Rightarrow> fc_client \<Rightarrow> history \<Rightarrow> history \<times> (fc_error, unit) result" where
  "configure_network ho n c h = fc_put ho c (''/network-interfaces/'' @ ni_id n) (NetworkBody n) h"

definition configure_machine :: "'j host \<Rightarrow> machine_config \<Rightarrow> fc_client \<Rightarrow> history \<Rightarrow> history \<times> (fc_error, unit) result" where
  "configure_machine ho m c h = fc_put ho c ''/machine-config'' (MachineBody m) h"

definition configure_logger :: "'j host \<Rightarrow> logger_config \<Rightarrow> fc_client \<Rightarrow> history \<Rightarrow> history \<times> (fc_error, unit) result" where
  "configure_logger ho l c h = fc_put ho c ''/logger'' (LoggerBody l) h"

definition configure_metrics :: "'j host \<Rightarrow> metrics_config \<Rightarrow> fc_client \<Rightarrow> history \<Rightarrow> history \<times> (fc_error, unit) result" where
  "configure_metrics ho m c h = fc_put ho c ''/metrics'' (MetricsBody m) h"

definition fc_start_vm :: "'j host \<Rightarrow> fc_client \<Rightarrow> history \<Rightarrow> history \<times> (fc_error, unit) result" where
  "fc_start_vm ho c h = fc_put ho c ''/actions'' (ActionBody ''InstanceStart'') h"

definition fc_pause_vm :: "'j host \<Rightarrow> fc_client \<Rightarrow> history \<Rightarrow> history \<times> (fc_error, unit) result" where
  "fc_pause_vm ho c h = fc_put ho c ''/vm'' (ActionBody ''Pause'') h"

definition fc_resume_vm :: "'j host \<Rightarrow> fc_client \<Rightarrow> history \<Rightarrow> history \<times> (fc_error, unit) result" where
  "fc_resume_vm ho c h = fc_put ho c ''/vm'' (ActionBody ''Resume'') h"

definition fc_stop_vm :: "'j host \<Rightarrow> fc_client \<Rightarrow> history \<Rightarrow> history \<times> (fc_error, unit) result" where
  "fc_stop_vm ho c h = fc_put ho c ''/actions'' (ActionBody ''SendCtrlAltDel'') h"

definition create_full_snapshot :: "'j host \<Rightarrow> snapshot_config \<Rightarrow> fc_client \<Rightarrow> history \<Rightarrow> history \<times> (fc_error, unit) result" where
  "create_full_snapshot ho s c h = fc_put ho c ''/snapshot/create'' (SnapshotBody s) h"

definition load_snapshot :: "'j host \<Rightarrow> snapshot_load_config \<Rightarrow> fc_client \<Rightarrow> history \<Rightarrow> history \<times> (fc_error, unit) result" where
  "load_snapshot ho s c h = fc_put ho c ''/snapshot/load'' (LoadBody s) h"

section \<open>A machine behind a socket\<close>

record fc_configuration =
  fv_vcpus :: u8
  fv_memory_mb :: u32
  fv_kernel :: string
  fv_rootfs :: string
  fv_boot_args :: string

definition default_boot_args :: string where
  "default_boot_args = ''console=ttyS0 reboot=k panic=1 pci=off''"

definition fc_configuration_default :: fc_configuration where
  "fc_configuration_default =
     \<lparr>fv_vcpus = 2, fv_memory_mb = 512, fv_kernel = ''/tmp/vmlinux.bin'', fv_rootfs = ''/tmp/rootfs.ext4'',
      fv_boot_args = default_boot_args\<rparr>"

record fc_vm =
  fm_client :: fc_client
  fm_id :: string
  fm_config :: fc_configuration

definition fc_vm_new :: "string \<Rightarrow> string \<Rightarrow> fc_configuration \<Rightarrow> fc_vm" where
  "fc_vm_new socket i cfg = \<lparr>fm_client = fc_client_new socket, fm_id = i, fm_config = cfg\<rparr>"

text \<open>The requests of \<open>and_then\<close> are made in order, up to the first that fails.\<close>

definition and_then :: "(history \<Rightarrow> history \<times> ('e, unit) result) \<Rightarrow> (history \<Rightarrow> history \<times> ('e, unit) result) \<Rightarrow>
    history \<Rightarrow> history \<times> ('e, unit) result" where
  "and_then f g h = (case f h of (h', Inl e) \<Rightarrow> (h', Err e) | (h', Inr u) \<Rightarrow> g h')"

text \<open>Identifiers are ASCII, so that the slice of eight bytes does not panic.\<close>

definition tap_device :: "string \<Rightarrow> string" where
  "tap_device i = ''tap-'' @ take 8 i"

definition fc_initialize :: "'j host \<Rightarrow> fc_vm \<Rightarrow> history \<Rightarrow> history \<times> (fc_error, unit) result" where
  "fc_initialize ho m =
     (let c = fm_client m; cfg = fm_config m in
      and_then (configure_machine ho
          \<lparr>mc_vcpus = fv_vcpus cfg, mc_mem = unat (fv_memory_mb cfg), mc_smt = Some False, mc_template = None\<rparr> c)
     (and_then (configure_boot_source ho \<lparr>bs_kernel = fv_kernel cfg, bs_args = Some (fv_boot_args cfg)\<rparr> c)
     (and_then (configure_drive ho
          \<lparr>dr_id = ''rootfs'', dr_path = fv_rootfs cfg, dr_root = True, dr_read_only = False, dr_io_engine = None\<rparr> c)
        (configure_network ho \<lparr>ni_id = ''eth0'', ni_host_dev = tap_device (fm_id m), ni_mac = None\<rparr> c))))"

definition fc_boot :: "'j host \<Rightarrow> fc_vm \<Rightarrow> history \<Rightarrow> history \<times> (fc_error, unit) result" where
  "fc_boot ho m = fc_start_vm ho (fm_client m)"

definition fc_snapshot :: "'j host \<Rightarrow> string \<Rightarrow> string \<Rightarrow> fc_vm \<Rightarrow> history \<Rightarrow> history \<times> (fc_error, unit) result" where
  "fc_snapshot ho mem_path state_path m =
     and_then (fc_pause_vm ho (fm_client m))
     (and_then (create_full_snapshot ho
          \<lparr>sn_mem = mem_path, sn_state = state_path, sn_type = Some ''Full'', sn_version = None\<rparr> (fm_client m))
        (fc_resume_vm ho (fm_client m)))"

definition fc_restore :: "'j host \<Rightarrow> string \<Rightarrow> string \<Rightarrow> fc_vm \<Rightarrow> history \<Rightarrow> history \<times> (fc_error, unit) result" where
  "fc_restore ho mem_path state_path m =
     load_snapshot ho \<lparr>sl_mem = mem_path, sl_state = state_path, sl_diff = Some False\<rparr> (fm_client m)"

end
