(* ===== verification/Firecracker.thy ===== *)
theory Firecracker
  imports FirecrackerApi StateStore "HOL-Library.Sublist"
begin

text \<open>
  \<^verbatim>\<open>src/src/firecracker.rs\<close>: the handle of a virtual machine with its life cycle (boot, pause, resume,
  snapshot, restore, stop) and the manager of the machines.  Every operation takes the history of the
  host and returns it extended by what the operation did.  Logging and the copying of the process's
  output are left out; fresh identifiers and the clock are arguments.
\<close>

section \<open>Handles\<close>

record fc_settings =
  fs_binary :: string
  fs_jailer :: string
  fs_workspace :: string
  fs_use_jailer :: bool
  fs_iface :: string
  fs_seccomp :: bool
  fs_log_level :: string

definition fc_settings_default :: fc_settings where
  "fc_settings_default =
     \<lparr>fs_binary = ''/usr/bin/firecracker'', fs_jailer = ''/usr/bin/jailer'', fs_workspace = ''/tmp/isa-workspace'',
      fs_use_jailer = False, fs_iface = ''eth0'', fs_seccomp = True, fs_log_level = ''Info''\<rparr>"

datatype vm_status = VmNotStarted | VmStarting | VmRunning | VmPaused | VmSnapshotting | VmStopped | VmFailed string

datatype vm_error = VmIoError string | VmApiError string | VmNotFound string | VmSerializationError string

record vm_handle =
  vm_id :: uuid
  vm_cfg :: vm_config
  vm_stat :: vm_status
  vm_socket :: string
  vm_settings :: fc_settings
  vm_dir :: string
  vm_client :: "fc_client option"
  vm_process :: "nat option"
  vm_config_path :: string
  vm_log_path :: string
  vm_fifo_path :: string

definition vm_new :: "uuid \<Rightarrow> vm_config \<Rightarrow> fc_settings \<Rightarrow> vm_handle" where
  "vm_new i cfg fs =
     (let dir = path_join (fs_workspace fs) i in
      \<lparr>vm_id = i, vm_cfg = cfg, vm_stat = VmNotStarted, vm_socket = path_join dir ''firecracker.sock'',
       vm_settings = fs, vm_dir = dir, vm_client = None, vm_process = None,
       vm_config_path = path_join dir ''config.json'', vm_log_path = path_join dir ''firecracker.log'',
       vm_fifo_path = path_join dir ''log.fifo''\<rparr>)"

section \<open>Booting\<close>

definition vm_config_file :: "vm_handle \<Rightarrow> config_file" where
  "vm_config_file vm =
     \<lparr>cf_boot = \<lparr>bs_kernel = kernel_image (vm_cfg vm), bs_args = Some default_boot_args\<rparr>,
      cf_drives = [\<lparr>dr_id = ''rootfs'', dr_path = rootfs_image (vm_cfg vm), dr_root = True,
        dr_read_only = False, dr_io_engine = None\<rparr>],
      cf_machine = \<lparr>mc_vcpus = vcpus (vm_cfg vm), mc_mem = unat (memory_mb (vm_cfg vm)),
        mc_smt = Some False, mc_template = None\<rparr>,
      cf_networks = [\<lparr>ni_id = ''eth0'', ni_host_dev = tap_device (vm_id vm), ni_mac = None\<rparr>],
      cf_logger = \<lparr>lg_path = ''log.fifo'', lg_level = Some (fs_log_level (vm_settings vm)),
        lg_show_level = Some True, lg_show_origin = Some False\<rparr>,
      cf_metrics = \<lparr>mt_path = ''metrics.fifo''\<rparr>\<rparr>"

definition write_config_file :: "'j host \<Rightarrow> vm_handle \<Rightarrow> history \<Rightarrow> history \<times> (vm_error, unit) result" where
  "write_config_file ho vm h =
     (case act ho (WriteConfig (vm_config_path vm) (vm_config_file vm)) h of
        (h, Some e) \<Rightarrow> (h, Err (VmIoError (''Failed to write config: '' @ e)))
      | (h, None) \<Rightarrow> (h, Ok ()))"

text \<open>The turns of the loop that waits for the socket: \<open>Inr\<close> when it accepts a connection, \<open>Inl True\<close> when
  the process has exited, \<open>Inl False\<close> after the last turn.\<close>

fun await_socket :: "'j host \<Rightarrow> string \<Rightarrow> nat \<Rightarrow> nat \<Rightarrow> history \<Rightarrow> history \<times> (bool, unit) result" where
  "await_socket ho sock pid 0 h = (h, Err False)"
| "await_socket ho sock pid (Suc n) h =
     (case ask ho (SocketReady sock) (h @ [Sleep 100]) of
        (h, True) \<Rightarrow> (h, Ok ())
      | (h, False) \<Rightarrow>
          (case ask ho (ProcessExited pid) h of
             (h, True) \<Rightarrow> (h, Err True)
           | (h, False) \<Rightarrow> await_socket ho sock pid n h))"

definition max_attempts :: nat where
  "max_attempts = 50"

definition vm_boot :: "'j host \<Rightarrow> vm_handle \<Rightarrow> history \<Rightarrow> history \<times> vm_handle \<times> (vm_error, unit) result" where
  "vm_boot ho vm h =
     (case act ho (MakeDir (vm_dir vm)) h of
        (h, Some e) \<Rightarrow> (h, vm, Err (VmIoError (''Failed to create state dir: '' @ e)))
      | (h, None) \<Rightarrow>
          (case write_config_file ho vm h of
             (h, Inl e) \<Rightarrow> (h, vm, Err e)
           | (h, Inr u) \<Rightarrow>
               let h = fst (act ho (MakeFifo (vm_fifo_path vm)) h);
                   h = fst (act ho (RemoveFile (vm_socket vm)) h);
                   spawn = Spawn (fs_binary (vm_settings vm))
                     [''--api-sock'', vm_socket vm, ''--config-file'', vm_config_path vm]
               in (case ho_spawn ho h spawn of
                     Inl e \<Rightarrow> (h @ [spawn], vm, Err (VmIoError (''Failed to spawn Firecracker: '' @ e @
                       '' - ensure firecracker binary is installed at '' @ fs_binary (vm_settings vm))))
                   | Inr pid \<Rightarrow>
                       (case await_socket ho (vm_socket vm) pid max_attempts (h @ [spawn]) of
                          (h, Inl True) \<Rightarrow> (h, vm, Err (VmIoError ''Firecracker process exited during startup''))
                        | (h, Inl False) \<Rightarrow> (h, vm, Err (VmIoError (''Firecracker API socket not ready after '' @
                            dec_str (max_attempts * 100) @ ''ms - check logs at '' @ ho_debug ho (vm_log_path vm))))
                        | (h, Inr u) \<Rightarrow>
                            let c = fc_client_new (vm_socket vm)
                            in (fst (get_info ho c h),
                                vm\<lparr>vm_client := Some c, vm_stat := VmRunning, vm_process := Some pid\<rparr>, Ok ())))))"

section \<open>Pause, resume and snapshot\<close>

text \<open>The request is made only when there is a client.\<close>

definition with_client :: "(fc_client \<Rightarrow> history \<Rightarrow> history \<times> (fc_error, unit) result) \<Rightarrow> string \<Rightarrow> vm_handle \<Rightarrow>
    history \<Rightarrow> history \<times> (vm_error, unit) result" where
  "with_client f msg vm h =
     (case vm_client vm of
        None \<Rightarrow> (h, Ok ())
      | Some c \<Rightarrow> (case f c h of (h, r) \<Rightarrow> (h, map_err (\<lambda>e. VmApiError (msg @ fc_show e)) r)))"

definition vm_pause :: "'j host \<Rightarrow> vm_handle \<Rightarrow> history \<Rightarrow> history \<times> vm_handle \<times> (vm_error, unit) result" where
  "vm_pause ho vm h =
     (case with_client (fc_pause_vm ho) ''Failed to pause VM: '' vm h of
        (h, Inl e) \<Rightarrow> (h, vm, Err e)
      | (h, Inr u) \<Rightarrow> (h, vm\<lparr>vm_stat := VmPaused\<rparr>, Ok ()))"

definition vm_resume :: "'j host \<Rightarrow> vm_handle \<Rightarrow> history \<Rightarrow> history \<times> vm_handle \<times> (vm_error, unit) result" where
  "vm_resume ho vm h =
     (case with_client (fc_resume_vm ho) ''Failed to resume VM: '' vm h of
        (h, Inl e) \<Rightarrow> (h, vm, Err e)
      | (h, Inr u) \<Rightarrow> (h, vm\<lparr>vm_stat := VmRunning\<rparr>, Ok ()))"

record 'j vm_snapshot =
  vs_id :: uuid
  vs_mem :: string
  vs_state :: string
  vs_cpu :: "'j cpu_state"
  vs_manifest :: "memory_region list"
  vs_created :: datetime

definition capture_cpu_state :: "'j host \<Rightarrow> vm_handle \<Rightarrow> history \<Rightarrow> history \<times> 'j cpu_state" where
  "capture_cpu_state ho vm h =
     (let fallback = \<lparr>arch = ''x86_64'', registers = ho_vm_json ho (vm_id vm) (vm_cfg vm)\<rparr> in
      case vm_client vm of
        None \<Rightarrow> (h, fallback)
      | Some c \<Rightarrow>
          (case get_cpu_config ho c h of
             (h, Inl e) \<Rightarrow> (h, fallback)
           | (h, Inr cpu) \<Rightarrow> (h, \<lparr>arch = ''x86_64'', registers = ho_cpu_json ho cpu\<rparr>)))"

definition memory_manifest :: "memory_region list" where
  "memory_manifest =
     [\<lparr>region_id = ''stack-0'', region_base = 0x7fff00000000, region_size = 8 * 1024 * 1024,
       region_flags = \<lparr>flag_read = True, flag_write = True, flag_execute = False\<rparr>, region_temperature = Hot\<rparr>,
      \<lparr>region_id = ''heap-0'', region_base = 0x40000000, region_size = 256 * 1024 * 1024,
       region_flags = \<lparr>flag_read = True, flag_write = True, flag_execute = False\<rparr>, region_temperature = Warm\<rparr>]"

definition take_snapshot :: "'j host \<Rightarrow> uuid \<Rightarrow> datetime \<Rightarrow> vm_handle \<Rightarrow> history \<Rightarrow>
    history \<times> vm_handle \<times> (vm_error, 'j vm_snapshot) result" where
  "take_snapshot ho fresh now vm h =
     (let vm = vm\<lparr>vm_stat := VmSnapshotting\<rparr>; dir = path_join (vm_dir vm) ''snapshots'';
          mem = path_join dir (fresh @ ''.mem''); st = path_join dir (fresh @ ''.state'') in
      case act ho (MakeDir dir) h of
        (h, Some e) \<Rightarrow> (h, vm, Err (VmIoError (''Failed to create snapshot dir: '' @ e)))
      | (h, None) \<Rightarrow>
          (case with_client (\<lambda>c. fc_snapshot ho mem st (fc_vm_new (vm_socket vm) (vm_id vm) fc_configuration_default))
                  ''Failed to create snapshot: '' vm h of
             (h, Inl e) \<Rightarrow> (h, vm, Err e)
           | (h, Inr u) \<Rightarrow>
               (case capture_cpu_state ho vm h of
                  (h, cpu) \<Rightarrow>
                    (h, vm\<lparr>vm_stat := VmRunning\<rparr>,
                     Ok \<lparr>vs_id = fresh, vs_mem = mem, vs_state = st, vs_cpu = cpu,
                         vs_manifest = memory_manifest, vs_created = now\<rparr>))))"

section \<open>Stop and restore\<close>

definition vm_stop :: "'j host \<Rightarrow> vm_handle \<Rightarrow> history \<Rightarrow> history \<times> vm_handle \<times> (vm_error, unit) result" where
  "vm_stop ho vm h =
     (let h = (case vm_client vm of None \<Rightarrow> h | Some c \<Rightarrow> fst (fc_stop_vm ho c h));
          h = (case vm_process vm of
                 None \<Rightarrow> h
               | Some pid \<Rightarrow>
                   (case ask ho (ProcessExited pid) h of
                      (h, True) \<Rightarrow> h
                    | (h, False) \<Rightarrow> fst (act ho (KillProcess pid) h)))
      in (fst (act ho (RemoveFile (vm_socket vm)) h), vm\<lparr>vm_stat := VmStopped\<rparr>, Ok ()))"

definition restore_from_snapshot :: "'j host \<Rightarrow> 'j vm_snapshot \<Rightarrow> vm_handle \<Rightarrow> history \<Rightarrow>
    history \<times> vm_handle \<times> (vm_error, unit) result" where
  "restore_from_snapshot ho s vm h =
     (let vm = vm\<lparr>vm_client := Some (fc_client_new (vm_socket vm))\<rparr>;
          m = fc_vm_new (vm_socket vm) (vm_id vm)
            \<lparr>fv_vcpus = vcpus (vm_cfg vm), fv_memory_mb = memory_mb (vm_cfg vm),
             fv_kernel = kernel_image (vm_cfg vm), fv_rootfs = rootfs_image (vm_cfg vm),
             fv_boot_args = default_boot_args\<rparr>
      in (case fc_initialize ho m h of
            (h, Inl e) \<Rightarrow> (h, vm, Err (VmApiError (''Failed to initialize VM: '' @ fc_show e)))
          | (h, Inr u) \<Rightarrow>
              (case fc_restore ho (vs_mem s) (vs_state s) m h of
                 (h, Inl e) \<Rightarrow> (h, vm, Err (VmApiError (''Failed to restore snapshot: '' @ fc_show e)))
               | (h, Inr u) \<Rightarrow> (h, vm\<lparr>vm_stat := VmRunning\<rparr>, Ok ()))))"

section \<open>The manager\<close>

record vm_manager =
  vmm_settings :: fc_settings
  vmm_vms :: "(uuid, vm_handle) hmap"

definition vm_manager_new :: "fc_settings \<Rightarrow> vm_manager" where
  "vm_manager_new fs = \<lparr>vmm_settings = fs, vmm_vms = []\<rparr>"

definition create_vm :: "uuid \<Rightarrow> vm_config \<Rightarrow> vm_manager \<Rightarrow> vm_manager \<times> uuid" where
  "create_vm fresh cfg m =
     (m\<lparr>vmm_vms := hm_insert fresh (vm_new fresh cfg (vmm_settings m)) (vmm_vms m)\<rparr>, fresh)"

definition get_vm :: "uuid \<Rightarrow> vm_manager \<Rightarrow> vm_handle option" where
  "get_vm i m = hm_get (vmm_vms m) i"

text \<open>An operation on the handle in the map.\<close>

definition on_vm :: "(vm_handle \<Rightarrow> history \<Rightarrow> history \<times> vm_handle \<times> (vm_error, 'a) result) \<Rightarrow> uuid \<Rightarrow> vm_manager \<Rightarrow>
    history \<Rightarrow> history \<times> vm_manager \<times> (vm_error, 'a) result" where
  "on_vm f i m h =
     (case hm_get (vmm_vms m) i of
        None \<Rightarrow> (h, m, Err (VmNotFound (''VM '' @ i @ '' not found'')))
      | Some vm \<Rightarrow> (case f vm h of (h, vm', r) \<Rightarrow> (h, m\<lparr>vmm_vms := hm_insert i vm' (vmm_vms m)\<rparr>, r)))"

definition boot_vm :: "'j host \<Rightarrow> uuid \<Rightarrow> vm_manager \<Rightarrow> history \<Rightarrow> history \<times> vm_manager \<times> (vm_error, unit) result" where
  "boot_vm ho = on_vm (vm_boot ho)"

definition snapshot_vm :: "'j host \<Rightarrow> uuid \<Rightarrow> datetime \<Rightarrow> uuid \<Rightarrow> vm_manager \<Rightarrow> history \<Rightarrow>
    history \<times> vm_manager \<times> (vm_error, 'j vm_snapshot) result" where
  "snapshot_vm ho fresh now = on_vm (take_snapshot ho fresh now)"

definition restore_vm :: "'j host \<Rightarrow> 'j vm_snapshot \<Rightarrow> uuid \<Rightarrow> vm_manager \<Rightarrow> history \<Rightarrow>
    history \<times> vm_manager \<times> (vm_error, unit) result" where
  "restore_vm ho s = on_vm (restore_from_snapshot ho s)"

definition stop_vm :: "'j host \<Rightarrow> uuid \<Rightarrow> vm_manager \<Rightarrow> history \<Rightarrow> history \<times> vm_manager \<times> (vm_error, unit) result" where
  "stop_vm ho = on_vm (\<lambda>vm h. case vm_stop ho vm h of (h, vm, r) \<Rightarrow> (fst (act ho (RemoveDir (vm_dir vm)) h), vm, r))"

section \<open>What the API was asked\<close>

definition accepted :: "'j host \<Rightarrow> history \<Rightarrow> api_request \<Rightarrow> bool" where
  "accepted ho h rq \<longleftrightarrow> (case ho_reply ho h rq of Reply s t \<Rightarrow> http_success s | _ \<Rightarrow> False)"

definition put_request :: "string \<Rightarrow> string \<Rightarrow> api_body \<Rightarrow> api_request" where
  "put_request sock path body = \<lparr>rq_socket = sock, rq_method = ApiPut, rq_path = path, rq_body = body\<rparr>"

fun request_of :: "host_event \<Rightarrow> api_request option" where
  "request_of (Request rq) = Some rq"
| "request_of e = None"

definition requests :: "history \<Rightarrow> api_request list" where
  "requests h = List.map_filter request_of h"

text \<open>What the accepted requests to a socket have made of the guest.\<close>

fun paused_by :: "'j host \<Rightarrow> string \<Rightarrow> history \<Rightarrow> bool" where
  "paused_by ho sock [] = False"
| "paused_by ho sock (e # h) =
     (case e of
        Request rq \<Rightarrow>
          if accepted ho (rev h) rq \<and> rq = put_request sock ''/vm'' (ActionBody ''Pause'') then True
          else if accepted ho (rev h) rq \<and> rq = put_request sock ''/vm'' (ActionBody ''Resume'') then False
          else paused_by ho sock h
      | _ \<Rightarrow> paused_by ho sock h)"

definition guest_paused :: "'j host \<Rightarrow> string \<Rightarrow> history \<Rightarrow> bool" where
  "guest_paused ho sock h = paused_by ho sock (rev h)"

lemma requests_simps [simp]:
  "requests [] = []" "requests (h @ h') = requests h @ requests h'"
  "requests (e # h) = (case request_of e of None \<Rightarrow> requests h | Some rq \<Rightarrow> rq # requests h)"
  by (simp_all add: requests_def map_filter_def split: option.split)

lemma guest_paused_snoc:
  "guest_paused ho sock (h @ [e]) =
     (case e of
        Request rq \<Rightarrow>
          if accepted ho h rq \<and> rq = put_request sock ''/vm'' (ActionBody ''Pause'') then True
          else if accepted ho h rq \<and> rq = put_request sock ''/vm'' (ActionBody ''Resume'') then False
          else guest_paused ho sock h
      | _ \<Rightarrow> guest_paused ho sock h)"
  by (cases e) (auto simp: guest_paused_def)

lemma fc_put_result:
  assumes "fc_put ho c path body h = (h', r)"
  shows "h' = h @ [Request (put_request (fc_socket c) path body)]"
    and "(r = Ok ()) = accepted ho h (put_request (fc_socket c) path body)"
  using assms by (auto simp: fc_put_def fc_request_def put_request_def accepted_def Let_def
      split: api_reply.splits if_splits)

lemma fc_get_history: "fst (fc_get ho parse c path h) =
    h @ [Request \<lparr>rq_socket = fc_socket c, rq_method = ApiGet, rq_path = path, rq_body = NoBody\<rparr>]"
  by (auto simp: fc_get_def fc_request_def Let_def split: prod.splits sum.splits)

lemma get_keeps_paused [simp]:
  "guest_paused ho sock (fst (fc_get ho parse c path h)) = guest_paused ho sock h"
  by (simp add: fc_get_history guest_paused_snoc put_request_def)

section \<open>A snapshot\<close>

abbreviation pause_request :: "string \<Rightarrow> api_request" where
  "pause_request sock \<equiv> put_request sock ''/vm'' (ActionBody ''Pause'')"

abbreviation resume_request :: "string \<Rightarrow> api_request" where
  "resume_request sock \<equiv> put_request sock ''/vm'' (ActionBody ''Resume'')"

definition snapshot_request_of :: "uuid \<Rightarrow> vm_handle \<Rightarrow> api_request" where
  "snapshot_request_of fresh vm =
     (let dir = path_join (vm_dir vm) ''snapshots'' in
      put_request (vm_socket vm) ''/snapshot/create''
        (SnapshotBody \<lparr>sn_mem = path_join dir (fresh @ ''.mem''), sn_state = path_join dir (fresh @ ''.state''),
           sn_type = Some ''Full'', sn_version = None\<rparr>))"

lemma fc_snapshot_result:
  assumes "fc_snapshot ho mem st m h = (h', r)"
  defines "sock \<equiv> fc_socket (fm_client m)"
  defines "create \<equiv> put_request sock ''/snapshot/create''
    (SnapshotBody \<lparr>sn_mem = mem, sn_state = st, sn_type = Some ''Full'', sn_version = None\<rparr>)"
  shows "\<exists>sent. prefix sent [pause_request sock, create, resume_request sock] \<and> sent \<noteq> [] \<and>
    h' = h @ map Request sent \<and>
    (if r = Ok () then sent = [pause_request sock, create, resume_request sock] \<and> \<not> guest_paused ho sock h'
     else guest_paused ho sock h' = (length sent \<ge> 2 \<or> guest_paused ho sock h))"
proof -
  obtain h1 r1 where p: "fc_pause_vm ho (fm_client m) h = (h1, r1)" by fastforce
  note p' = fc_put_result [OF p [unfolded fc_pause_vm_def], folded sock_def]
  show ?thesis
  proof (cases r1)
    case (Inl e)
    then show ?thesis
      using assms(1) p p' by (intro exI [of _ "[pause_request sock]"])
        (auto simp: fc_snapshot_def and_then_def guest_paused_snoc put_request_def)
  next
    case (Inr u)
    obtain h2 r2 where c: "create_full_snapshot ho \<lparr>sn_mem = mem, sn_state = st, sn_type = Some ''Full'',
        sn_version = None\<rparr> (fm_client m) h1 = (h2, r2)" by fastforce
    note c' = fc_put_result [OF c [unfolded create_full_snapshot_def], folded sock_def, folded create_def]
    have acc: "accepted ho h (pause_request sock)" using p'(2) Inr by simp
    have paused: "guest_paused ho sock h1" using p'(1) acc by (simp add: guest_paused_snoc)
    have paused2: "guest_paused ho sock h2"
      using c'(1) paused by (simp add: guest_paused_snoc create_def put_request_def)
    show ?thesis
    proof (cases r2)
      case (Inl e)
      then show ?thesis
        using assms(1) p p' Inr c c' paused2 by (intro exI [of _ "[pause_request sock, create]"])
          (auto simp: fc_snapshot_def and_then_def)
    next
      case (Inr u')
      obtain h3 r3 where q: "fc_resume_vm ho (fm_client m) h2 = (h3, r3)" by fastforce
      note q' = fc_put_result [OF q [unfolded fc_resume_vm_def], folded sock_def]
      have "h' = h3" "r = r3"
        using assms(1) p \<open>r1 = Inr u\<close> c Inr q by (simp_all add: fc_snapshot_def and_then_def)
      moreover have "guest_paused ho sock h3 = (r3 \<noteq> Ok ())"
        using q' paused2 by (auto simp: guest_paused_snoc put_request_def)
      ultimately show ?thesis
        using p'(1) c'(1) q'(1) by (intro exI [of _ "[pause_request sock, create, resume_request sock]"]) auto
    qed
  qed
qed

text \<open>C4. What a snapshot of a machine with a client does to the guest and to its handle, whatever the API
  answers: its requests are a part of pause, create, resume from the front.  When it succeeds, all
  three were accepted, the guest runs and the handle says so.  When it fails, the handle says
  snapshotting from then on, and the guest is paused if the request after the pause was reached: nothing
  resumes it.\<close>

theorem snapshot_outcome:
  assumes "take_snapshot ho fresh now vm h = (h', vm', r)" "vm_client vm \<noteq> None"
  defines "rqs \<equiv> [pause_request (vm_socket vm), snapshot_request_of fresh vm, resume_request (vm_socket vm)]"
  shows "\<exists>sent. prefix sent rqs \<and>
    (case r of
       Inr s \<Rightarrow> take 3 (requests (drop (length h) h')) = rqs \<and> vm_stat vm' = VmRunning \<and>
         \<not> guest_paused ho (vm_socket vm) h'
     | Inl e \<Rightarrow> requests (drop (length h) h') = sent \<and> vm_stat vm' = VmSnapshotting \<and>
         (guest_paused ho (vm_socket vm) h' \<longleftrightarrow> length sent \<ge> 2 \<or> guest_paused ho (vm_socket vm) h))"
proof -
  let ?sock = "vm_socket vm" and ?dir = "path_join (vm_dir vm) ''snapshots''"
  let ?m = "fc_vm_new ?sock (vm_id vm) fc_configuration_default"
  define h1 where "h1 = h @ [MakeDir ?dir]"
  have p1: "guest_paused ho ?sock h1 = guest_paused ho ?sock h" by (simp add: h1_def guest_paused_snoc)
  show ?thesis
  proof (cases "ho_fault ho h (MakeDir ?dir)")
    case (Some e)
    then show ?thesis
      using assms(1) p1 by (intro exI [of _ "[]"]) (auto simp: take_snapshot_def act_def Let_def h1_def)
  next
    case None
    obtain c where c: "vm_client vm = Some c" using assms(2) by auto
    obtain h2 r2 where run: "fc_snapshot ho (path_join ?dir (fresh @ ''.mem'')) (path_join ?dir (fresh @ ''.state'')) ?m h1 = (h2, r2)"
      by fastforce
    have sock: "fc_socket (fm_client ?m) = ?sock" by (simp add: fc_vm_new_def fc_client_new_def)
    from fc_snapshot_result [OF run, unfolded sock] obtain sent where
      sent: "prefix sent rqs" "h2 = h1 @ map Request sent"
      and out: "if r2 = Ok () then sent = rqs \<and> \<not> guest_paused ho ?sock h2
        else guest_paused ho ?sock h2 = (length sent \<ge> 2 \<or> guest_paused ho ?sock h1)"
      unfolding rqs_def snapshot_request_of_def Let_def by blast
    have rq: "requests (map Request xs) = xs" for xs by (induction xs) simp_all
    show ?thesis
    proof (cases r2)
      case (Inl e)
      then show ?thesis
        using assms(1) None c run sent out p1 by (intro exI [of _ sent])
          (auto simp: take_snapshot_def act_def Let_def h1_def with_client_def map_err_def rq)
    next
      case (Inr u)
      define h3 where "h3 = fst (get_cpu_config ho c h2)"
      have "r = Ok \<lparr>vs_id = fresh, vs_mem = path_join ?dir (fresh @ ''.mem''),
          vs_state = path_join ?dir (fresh @ ''.state''), vs_cpu = snd (capture_cpu_state ho (vm\<lparr>vm_stat := VmSnapshotting\<rparr>) h2),
          vs_manifest = memory_manifest, vs_created = now\<rparr>" "h' = h3" "vm_stat vm' = VmRunning"
        using assms(1) None c run Inr by (auto simp: take_snapshot_def act_def Let_def h1_def with_client_def
            map_err_def capture_cpu_state_def h3_def split: prod.splits sum.splits)
      moreover have "\<not> guest_paused ho ?sock h3" using out Inr by (simp add: h3_def get_cpu_config_def)
      moreover have "requests (drop (length h) h3) = rqs @
          [\<lparr>rq_socket = fc_socket c, rq_method = ApiGet, rq_path = ''/cpu-config'', rq_body = NoBody\<rparr>]"
        using sent out Inr by (simp add: h3_def get_cpu_config_def fc_get_history h1_def rq)
      ultimately show ?thesis by (intro exI [of _ "[]"]) (simp add: rqs_def)
    qed
  qed
qed

text \<open>A restore never resumes the guest: an accepted restore ends with the handle running, although no
  request to resume was made.\<close>

lemma fc_initialize_requests:
  assumes "fc_initialize ho m h = (h', r)"
  shows "\<exists>es. h' = h @ es \<and> list_all (\<lambda>e. \<exists>path body. e = Request (put_request (fc_socket (fm_client m)) path body) \<and>
    path \<noteq> ''/vm'') es"
proof -
  have put: "\<exists>es. fst (fc_put ho c path body h) = h @ es \<and>
      list_all (\<lambda>e. \<exists>p b. e = Request (put_request (fc_socket c) p b) \<and> p \<noteq> ''/vm'') es"
    if "path \<noteq> ''/vm''" for c path body h
    using fc_put_result(1) [of ho c path body h] that by (cases "fc_put ho c path body h") auto
  have chain: "\<exists>es. fst (and_then f g h) = h @ es \<and> list_all P es"
    if f: "\<And>h. \<exists>es. fst (f h) = h @ es \<and> list_all P es" and g: "\<And>h. \<exists>es. fst (g h) = h @ es \<and> list_all P es"
    for f g :: "history \<Rightarrow> history \<times> (fc_error, unit) result" and P h
  proof -
    obtain h1 r1 where 1: "f h = (h1, r1)" by fastforce
    obtain es1 where "h1 = h @ es1" "list_all P es1" using f [of h] 1 by auto
    moreover obtain es2 where "fst (g h1) = h1 @ es2" "list_all P es2" using g [of h1] by auto
    ultimately show ?thesis
      by (cases r1) (auto simp: and_then_def 1 intro: exI [of _ "es1 @ es2"])
  qed
  have "\<exists>es. fst (fc_initialize ho m h) = h @ es \<and>
      list_all (\<lambda>e. \<exists>p b. e = Request (put_request (fc_socket (fm_client m)) p b) \<and> p \<noteq> ''/vm'') es"
    unfolding fc_initialize_def Let_def configure_machine_def configure_boot_source_def configure_drive_def
      configure_network_def
    by (intro chain put) simp_all
  then show ?thesis using assms by simp
qed

section \<open>Machines do not interfere\<close>

datatype 'j vm_op =
    VCreate uuid vm_config
  | VBoot uuid
  | VPause uuid
  | VResume uuid
  | VSnapshot uuid datetime uuid
  | VRestore "'j vm_snapshot" uuid
  | VStop uuid

fun vm_target :: "'j vm_op \<Rightarrow> uuid" where
  "vm_target (VCreate i cfg) = i"
| "vm_target (VBoot i) = i"
| "vm_target (VPause i) = i"
| "vm_target (VResume i) = i"
| "vm_target (VSnapshot fresh now i) = i"
| "vm_target (VRestore s i) = i"
| "vm_target (VStop i) = i"

fun vm_step :: "'j host \<Rightarrow> 'j vm_op \<Rightarrow> history \<times> vm_manager \<Rightarrow> history \<times> vm_manager" where
  "vm_step ho (VCreate i cfg) (h, m) = (h, fst (create_vm i cfg m))"
| "vm_step ho (VBoot i) (h, m) = (case boot_vm ho i m h of (h, m, r) \<Rightarrow> (h, m))"
| "vm_step ho (VPause i) (h, m) = (case on_vm (vm_pause ho) i m h of (h, m, r) \<Rightarrow> (h, m))"
| "vm_step ho (VResume i) (h, m) = (case on_vm (vm_resume ho) i m h of (h, m, r) \<Rightarrow> (h, m))"
| "vm_step ho (VSnapshot fresh now i) (h, m) = (case snapshot_vm ho fresh now i m h of (h, m, r) \<Rightarrow> (h, m))"
| "vm_step ho (VRestore s i) (h, m) = (case restore_vm ho s i m h of (h, m, r) \<Rightarrow> (h, m))"
| "vm_step ho (VStop i) (h, m) = (case stop_vm ho i m h of (h, m, r) \<Rightarrow> (h, m))"

text \<open>Where the files and the socket of a machine are.\<close>

definition socket_of :: "fc_settings \<Rightarrow> uuid \<Rightarrow> string" where
  "socket_of fs i = path_join (path_join (fs_workspace fs) i) ''firecracker.sock''"

text \<open>The process of a machine is one that a boot of this machine has started.\<close>

definition spawned_for :: "'j host \<Rightarrow> fc_settings \<Rightarrow> uuid \<Rightarrow> nat \<Rightarrow> history \<Rightarrow> bool" where
  "spawned_for ho fs i pid h \<longleftrightarrow> (\<exists>k < length h. \<exists>bin cfg.
     h ! k = Spawn bin [''--api-sock'', socket_of fs i, ''--config-file'', cfg] \<and>
     ho_spawn ho (take k h) (h ! k) = Ok pid)"

fun own_event :: "'j host \<Rightarrow> fc_settings \<Rightarrow> uuid \<Rightarrow> history \<Rightarrow> host_event \<Rightarrow> bool" where
  "own_event ho fs i h (Request rq) = (rq_socket rq = socket_of fs i)"
| "own_event ho fs i h (KillProcess pid) = spawned_for ho fs i pid h"
| "own_event ho fs i h (RemoveFile f) = (f = socket_of fs i)"
| "own_event ho fs i h (RemoveDir d) = (d = path_join (fs_workspace fs) i)"
| "own_event ho fs i h (WriteConfig f c) = (f = path_join (path_join (fs_workspace fs) i) ''config.json'')"
| "own_event ho fs i h e = True"

definition vm_fits :: "'j host \<Rightarrow> fc_settings \<Rightarrow> history \<Rightarrow> uuid \<Rightarrow> vm_handle \<Rightarrow> bool" where
  "vm_fits ho fs h i vm \<longleftrightarrow> vm_id vm = i \<and> vm_settings vm = fs \<and> vm_dir vm = path_join (fs_workspace fs) i \<and>
     vm_socket vm = socket_of fs i \<and> vm_config_path vm = path_join (vm_dir vm) ''config.json'' \<and>
     (\<forall>c. vm_client vm = Some c \<longrightarrow> fc_socket c = vm_socket vm) \<and>
     (\<forall>pid. vm_process vm = Some pid \<longrightarrow> vm_client vm \<noteq> None \<and> spawned_for ho fs i pid h)"

definition vms_fit :: "'j host \<Rightarrow> fc_settings \<Rightarrow> history \<Rightarrow> vm_manager \<Rightarrow> bool" where
  "vms_fit ho fs h m \<longleftrightarrow> vmm_settings m = fs \<and> (\<forall>i vm. hm_get (vmm_vms m) i = Some vm \<longrightarrow> vm_fits ho fs h i vm)"

lemma spawned_for_append:
  assumes "spawned_for ho fs i pid h"
  shows "spawned_for ho fs i pid (h @ es)"
proof -
  obtain k bin cfg where "k < length h" "h ! k = Spawn bin [''--api-sock'', socket_of fs i, ''--config-file'', cfg]"
    "ho_spawn ho (take k h) (h ! k) = Ok pid" using assms by (auto simp: spawned_for_def)
  then show ?thesis unfolding spawned_for_def by (intro exI [of _ k]) (auto simp: nth_append)
qed

lemma vm_fits_append: "vm_fits ho fs h i vm \<Longrightarrow> vm_fits ho fs (h @ es) i vm"
  by (auto simp: vm_fits_def intro: spawned_for_append)

text \<open>What an operation adds to the history: events of its own machine only.\<close>

definition adds :: "'j host \<Rightarrow> fc_settings \<Rightarrow> uuid \<Rightarrow> history \<Rightarrow> history \<Rightarrow> bool" where
  "adds ho fs i h h' \<longleftrightarrow> (\<exists>es. h' = h @ es \<and> (\<forall>e \<in> set es. own_event ho fs i h e))"

lemma adds_refl [simp]: "adds ho fs i h h"
  by (simp add: adds_def)

lemma adds_snoc: "own_event ho fs i h e \<Longrightarrow> adds ho fs i h h' \<Longrightarrow> adds ho fs i h (h' @ [e])"
  unfolding adds_def by (elim exE) (rule_tac x = "es @ [e]" in exI, auto)

lemma adds_put: "fc_socket c = socket_of fs i \<Longrightarrow> adds ho fs i h h' \<Longrightarrow> adds ho fs i h (fst (fc_put ho c path body h'))"
  using fc_put_result(1) [of ho c path body h']
  by (cases "fc_put ho c path body h'") (simp add: adds_snoc put_request_def)

lemma adds_get: "fc_socket c = socket_of fs i \<Longrightarrow> adds ho fs i h h' \<Longrightarrow> adds ho fs i h (fst (fc_get ho parse c path h'))"
  by (simp add: fc_get_history adds_snoc)

lemma adds_and_then:
  assumes "\<And>h'. adds ho fs i h h' \<Longrightarrow> adds ho fs i h (fst (f h'))" "\<And>h'. adds ho fs i h h' \<Longrightarrow> adds ho fs i h (fst (g h'))"
    and "adds ho fs i h h'"
  shows "adds ho fs i h (fst (and_then f g h'))"
proof (cases "f h'")
  case (Pair h1 r1)
  then have "adds ho fs i h h1" using assms(1) [OF assms(3)] by simp
  then show ?thesis using assms(2) [of h1] Pair by (cases r1) (simp_all add: and_then_def)
qed

lemma fits_adds: "vm_fits ho fs h i vm \<Longrightarrow> adds ho fs i h h' \<Longrightarrow> vm_fits ho fs h' i vm"
  by (auto simp: adds_def vm_fits_append)

lemma fits_status [simp]: "vm_fits ho fs h i (vm\<lparr>vm_stat := s\<rparr>) = vm_fits ho fs h i vm"
  by (simp add: vm_fits_def)

text \<open>An operation keeps to its machine.\<close>

definition keeps_to :: "'j host \<Rightarrow> fc_settings \<Rightarrow> uuid \<Rightarrow> (vm_handle \<Rightarrow> history \<Rightarrow> history \<times> vm_handle \<times> 'r) \<Rightarrow> bool" where
  "keeps_to ho fs i f \<longleftrightarrow> (\<forall>vm h h' vm' r. f vm h = (h', vm', r) \<longrightarrow> vm_fits ho fs h i vm \<longrightarrow>
     adds ho fs i h h' \<and> vm_fits ho fs h' i vm')"

lemma keeps_toI:
  assumes "\<And>vm h h' vm' r. f vm h = (h', vm', r) \<Longrightarrow> vm_fits ho fs h i vm \<Longrightarrow>
    adds ho fs i h h' \<and> vm_fits ho fs h' i vm'"
  shows "keeps_to ho fs i f"
  using assms by (auto simp: keeps_to_def)

lemma pause_keeps_to: "keeps_to ho fs i (vm_pause ho)"
proof (rule keeps_toI)
  fix vm h h' vm' r assume *: "vm_pause ho vm h = (h', vm', r)" and fits: "vm_fits ho fs h i vm"
  have "adds ho fs i h (fst (fc_pause_vm ho c h))" if "vm_client vm = Some c" for c
    unfolding fc_pause_vm_def using that fits by (intro adds_put) (auto simp: vm_fits_def)
  then have "adds ho fs i h h'" "vm' = vm \<or> vm' = vm\<lparr>vm_stat := VmPaused\<rparr>"
    using * by (auto simp: vm_pause_def with_client_def map_err_def split: prod.splits sum.splits option.splits)
  then show "adds ho fs i h h' \<and> vm_fits ho fs h' i vm'" using fits by (auto intro: fits_adds)
qed

lemma resume_keeps_to: "keeps_to ho fs i (vm_resume ho)"
proof (rule keeps_toI)
  fix vm h h' vm' r assume *: "vm_resume ho vm h = (h', vm', r)" and fits: "vm_fits ho fs h i vm"
  have "adds ho fs i h (fst (fc_resume_vm ho c h))" if "vm_client vm = Some c" for c
    unfolding fc_resume_vm_def using that fits by (intro adds_put) (auto simp: vm_fits_def)
  then have "adds ho fs i h h'" "vm' = vm \<or> vm' = vm\<lparr>vm_stat := VmRunning\<rparr>"
    using * by (auto simp: vm_resume_def with_client_def map_err_def split: prod.splits sum.splits option.splits)
  then show "adds ho fs i h h' \<and> vm_fits ho fs h' i vm'" using fits by (auto intro: fits_adds)
qed

lemma stop_keeps_to: "keeps_to ho fs i (\<lambda>vm h. case vm_stop ho vm h of (h, vm, r) \<Rightarrow> (fst (act ho (RemoveDir (vm_dir vm)) h), vm, r))"
proof (rule keeps_toI)
  fix vm h h' vm' r assume *: "(case vm_stop ho vm h of (h, vm, r) \<Rightarrow> (fst (act ho (RemoveDir (vm_dir vm)) h), vm, r)) = (h', vm', r)"
    and fits: "vm_fits ho fs h i vm"
  define h1 where "h1 = (case vm_client vm of None \<Rightarrow> h | Some c \<Rightarrow> fst (fc_stop_vm ho c h))"
  have 1: "adds ho fs i h h1"
    unfolding h1_def fc_stop_vm_def using fits by (auto simp: vm_fits_def intro!: adds_put split: option.split)
  define h2 where "h2 = (case vm_process vm of None \<Rightarrow> h1
    | Some pid \<Rightarrow> (case ask ho (ProcessExited pid) h1 of (h, True) \<Rightarrow> h | (h, False) \<Rightarrow> fst (act ho (KillProcess pid) h)))"
  have 2: "adds ho fs i h h2"
    using 1 fits by (auto simp: h2_def act_def ask_def vm_fits_def simp del: append_assoc
        intro!: adds_snoc split: option.split bool.split)
  have "h' = h2 @ [RemoveFile (vm_socket vm)] @ [RemoveDir (vm_dir vm)]" "vm' = vm\<lparr>vm_stat := VmStopped\<rparr>"
    using * [unfolded vm_stop_def Let_def, folded h1_def, folded h2_def] by (simp_all add: act_def)
  moreover have "adds ho fs i h (h2 @ [RemoveFile (vm_socket vm)])"
    using fits 2 by (intro adds_snoc) (simp_all add: vm_fits_def)
  then have "adds ho fs i h ((h2 @ [RemoveFile (vm_socket vm)]) @ [RemoveDir (vm_dir vm)])"
    using fits 2 by (intro adds_snoc) (simp_all add: vm_fits_def)
  ultimately show "adds ho fs i h h' \<and> vm_fits ho fs h' i vm'" using fits by (auto intro: fits_adds)
qed

lemma snapshot_keeps_to: "keeps_to ho fs i (take_snapshot ho fresh now)"
proof (rule keeps_toI)
  fix vm h h' vm' r assume *: "take_snapshot ho fresh now vm h = (h', vm', r)" and fits: "vm_fits ho fs h i vm"
  let ?dir = "path_join (vm_dir vm) ''snapshots''"
  let ?f = "fc_snapshot ho (path_join ?dir (fresh @ ''.mem'')) (path_join ?dir (fresh @ ''.state''))
    (fc_vm_new (vm_socket vm) (vm_id vm) fc_configuration_default)"
  have 1: "adds ho fs i h (h @ [MakeDir ?dir])" by (intro adds_snoc) simp_all
  have 2: "adds ho fs i h (fst (?f (h @ [MakeDir ?dir])))"
    unfolding fc_snapshot_def fc_pause_vm_def create_full_snapshot_def fc_resume_vm_def using fits
    by (intro adds_and_then adds_put 1) (simp_all add: fc_vm_new_def fc_client_new_def vm_fits_def)
  have 3: "adds ho fs i h (fst (get_cpu_config ho c h2))" if "adds ho fs i h h2" "vm_client vm = Some c" for c h2
    unfolding get_cpu_config_def using that fits by (intro adds_get) (auto simp: vm_fits_def)
  have "adds ho fs i h h' \<and> (\<exists>s. vm' = vm\<lparr>vm_stat := s\<rparr>)"
    using * 1 2 3 [OF 1] 3 [OF 2]
    by (auto simp: take_snapshot_def Let_def act_def with_client_def capture_cpu_state_def map_err_def
        split: prod.splits sum.splits option.splits)
  then show "adds ho fs i h h' \<and> vm_fits ho fs h' i vm'" using fits by (auto intro: fits_adds)
qed

lemma restore_keeps_to: "keeps_to ho fs i (restore_from_snapshot ho s)"
proof (rule keeps_toI)
  fix vm h h' vm' r assume *: "restore_from_snapshot ho s vm h = (h', vm', r)" and fits: "vm_fits ho fs h i vm"
  define c where "c = fc_client_new (vm_socket vm)"
  define m where "m = fc_vm_new (vm_socket vm) (vm_id vm)
            \<lparr>fv_vcpus = vcpus (vm_cfg vm), fv_memory_mb = memory_mb (vm_cfg vm),
             fv_kernel = kernel_image (vm_cfg vm), fv_rootfs = rootfs_image (vm_cfg vm),
             fv_boot_args = default_boot_args\<rparr>"
  have sock: "fc_socket (fm_client m) = socket_of fs i"
    using fits by (simp add: m_def fc_vm_new_def fc_client_new_def vm_fits_def)
  obtain h1 r1 where init: "fc_initialize ho m h = (h1, r1)" by fastforce
  have "adds ho fs i h (fst (fc_initialize ho m h))"
    unfolding fc_initialize_def Let_def configure_machine_def configure_boot_source_def configure_drive_def
      configure_network_def
    by (intro adds_and_then adds_put) (simp_all add: sock)
  then have 1: "adds ho fs i h h1" by (simp add: init)
  have 2: "adds ho fs i h (fst (fc_restore ho (vs_mem s) (vs_state s) m h1))"
    unfolding fc_restore_def load_snapshot_def by (intro adds_put 1 sock)
  have "adds ho fs i h h'" "vm' = vm\<lparr>vm_client := Some c\<rparr> \<or> vm' = vm\<lparr>vm_client := Some c, vm_stat := VmRunning\<rparr>"
    using * [unfolded restore_from_snapshot_def Let_def, simplified, folded m_def c_def] init 1 2
    by (auto split: prod.splits sum.splits)
  moreover have "vm_fits ho fs h i (vm\<lparr>vm_client := Some c\<rparr>)" "vm_fits ho fs h i (vm\<lparr>vm_client := Some c, vm_stat := VmRunning\<rparr>)"
    using fits by (auto simp: vm_fits_def c_def fc_client_new_def)
  ultimately show "adds ho fs i h h' \<and> vm_fits ho fs h' i vm'" by (auto intro: fits_adds)
qed

lemma await_socket_adds:
  "adds ho fs i h h' \<Longrightarrow> adds ho fs i h (fst (await_socket ho sock pid n h')) \<and>
    prefix h' (fst (await_socket ho sock pid n h'))"
proof (induction n arbitrary: h')
  case (Suc n)
  let ?h1 = "(h' @ [Sleep 100]) @ [SocketReady sock]"
  have 1: "adds ho fs i h ?h1" "adds ho fs i h (?h1 @ [ProcessExited pid])"
    using Suc.prems by (intro adds_snoc; simp)+
  have 2: "prefix h' (?h1 @ [ProcessExited pid])" by simp
  show ?case
    using 1(1) Suc.IH [OF 1(2)] 1(2) prefix_order.trans [OF 2]
    by (auto simp: ask_def split: bool.split)
qed simp

lemma boot_keeps_to: "keeps_to ho fs i (vm_boot ho)"
proof (rule keeps_toI)
  fix vm h h' vm' r assume *: "vm_boot ho vm h = (h', vm', r)" and fits: "vm_fits ho fs h i vm"
  define h1 where "h1 = h @ [MakeDir (vm_dir vm)] @ [WriteConfig (vm_config_path vm) (vm_config_file vm)]"
  define h2 where "h2 = (h1 @ [MakeFifo (vm_fifo_path vm)]) @ [RemoveFile (vm_socket vm)]"
  define spawn where "spawn = Spawn (fs_binary (vm_settings vm))
                     [''--api-sock'', vm_socket vm, ''--config-file'', vm_config_path vm]"
  have 0: "adds ho fs i h (h @ [MakeDir (vm_dir vm)])" by (intro adds_snoc) simp_all
  then have "adds ho fs i h ((h @ [MakeDir (vm_dir vm)]) @ [WriteConfig (vm_config_path vm) (vm_config_file vm)])"
    using fits by (intro adds_snoc) (simp_all add: vm_fits_def)
  then have 1: "adds ho fs i h h1" by (simp add: h1_def)
  have 2: "adds ho fs i h h2" unfolding h2_def using fits
    by (intro adds_snoc 1) (simp_all add: vm_fits_def)
  have 3: "adds ho fs i h (h2 @ [spawn])" using 2 by (intro adds_snoc) (simp_all add: spawn_def)
  note boot = * [unfolded vm_boot_def write_config_file_def Let_def, simplified, folded spawn_def]
  consider
      (failed) "adds ho fs i h h'" "vm' = vm"
    | (booted) pid where "adds ho fs i h h'" "prefix (h2 @ [spawn]) h'" "ho_spawn ho h2 spawn = Ok pid"
        "vm' = vm\<lparr>vm_client := Some (fc_client_new (vm_socket vm)), vm_stat := VmRunning, vm_process := Some pid\<rparr>"
  proof (cases "ho_spawn ho h2 spawn")
    case (Inl e)
    show ?thesis
      using boot 0 1 3 Inl by (intro that(1)) (auto simp: act_def h1_def h2_def split: option.splits)
  next
    case (Inr pid)
    obtain h3 r3 where w: "await_socket ho (vm_socket vm) pid max_attempts (h2 @ [spawn]) = (h3, r3)" by fastforce
    have 4: "adds ho fs i h h3" "prefix (h2 @ [spawn]) h3"
      using await_socket_adds [OF 3, of "vm_socket vm" pid max_attempts] w by simp_all
    let ?c = "fc_client_new (vm_socket vm)"
    have 5: "adds ho fs i h (fst (get_info ho ?c h3))" "prefix h3 (fst (get_info ho ?c h3))"
      using 4(1) fits unfolding get_info_def
      by (auto simp: fc_client_new_def vm_fits_def fc_get_history intro: adds_get adds_snoc)
    show ?thesis
    proof (cases "vm' = vm")
      case True
      have "adds ho fs i h h'"
        using boot True 0 1 4 5 Inr w
        by (auto simp: act_def h1_def h2_def split: option.splits sum.splits bool.splits)
      then show ?thesis using True by (rule that(1))
    next
      case False
      then have "h' = fst (get_info ho ?c h3)"
        "vm' = vm\<lparr>vm_client := Some ?c, vm_stat := VmRunning, vm_process := Some pid\<rparr>"
        using boot Inr w by (auto simp: act_def h1_def h2_def split: option.splits sum.splits bool.splits)
      then show ?thesis using 4(2) 5 Inr by (intro that(2)) (auto intro: prefix_order.trans)
    qed
  qed
  then show "adds ho fs i h h' \<and> vm_fits ho fs h' i vm'"
  proof cases
    case failed
    then show ?thesis using fits by (auto intro: fits_adds)
  next
    case booted
    have "spawned_for ho fs i pid (h2 @ [spawn])"
      using fits booted(3) by (auto simp: spawned_for_def spawn_def vm_fits_def intro!: exI [of _ "length h2"])
    then have "spawned_for ho fs i pid h'" using booted(2) spawned_for_append unfolding prefix_def by blast
    then show ?thesis using booted fits by (auto simp: vm_fits_def fc_client_new_def)
  qed
qed

lemma fits_new [simp]: "vm_fits ho fs h i (vm_new i cfg fs)"
  by (simp add: vm_fits_def vm_new_def socket_of_def Let_def)

lemma on_vm_keeps_to:
  assumes "keeps_to ho fs i f" "on_vm f i m h = (h', m', r)" "vms_fit ho fs h m"
  shows "adds ho fs i h h' \<and> vms_fit ho fs h' m' \<and> (\<forall>j. j \<noteq> i \<longrightarrow> get_vm j m' = get_vm j m)"
proof (cases "hm_get (vmm_vms m) i")
  case None
  then show ?thesis using assms(2,3) by (simp add: on_vm_def)
next
  case (Some vm)
  obtain vm' r' where f: "f vm h = (h', vm', r')" "m' = m\<lparr>vmm_vms := hm_insert i vm' (vmm_vms m)\<rparr>"
    using assms(2) Some by (auto simp: on_vm_def split: prod.splits)
  have "vm_fits ho fs h i vm" using assms(3) Some by (simp add: vms_fit_def)
  then have "adds ho fs i h h'" "vm_fits ho fs h' i vm'" using assms(1) f(1) unfolding keeps_to_def by blast+
  then show ?thesis using assms(3) f(2) by (auto simp: vms_fit_def get_vm_def intro: fits_adds)
      (auto simp: adds_def intro: vm_fits_append)
qed

lemma vm_step_isolated:
  assumes "vm_step ho op (h, m) = (h', m')" "vms_fit ho fs h m"
  shows "adds ho fs (vm_target op) h h' \<and> vms_fit ho fs h' m' \<and> (\<forall>j. j \<noteq> vm_target op \<longrightarrow> get_vm j m' = get_vm j m)"
  using assms(1)
proof (cases op)
  case (VCreate i cfg)
  then show ?thesis using assms by (auto simp: create_vm_def vms_fit_def get_vm_def split: if_splits)
qed (auto split: prod.splits dest!: on_vm_keeps_to [OF boot_keeps_to _ assms(2)] on_vm_keeps_to [OF pause_keeps_to _ assms(2)]
    on_vm_keeps_to [OF resume_keeps_to _ assms(2)] on_vm_keeps_to [OF snapshot_keeps_to _ assms(2)]
    on_vm_keeps_to [OF restore_keeps_to _ assms(2)] on_vm_keeps_to [OF stop_keeps_to _ assms(2)]
    simp: boot_vm_def snapshot_vm_def restore_vm_def stop_vm_def)

lemma vm_run_fits: "vms_fit ho fs (fst (fold (vm_step ho) ops (h0, vm_manager_new fs))) (snd (fold (vm_step ho) ops (h0, vm_manager_new fs)))"
proof (induction ops rule: rev_induct)
  case Nil
  then show ?case by (simp add: vms_fit_def vm_manager_new_def)
next
  case (snoc op ops)
  obtain h m where "fold (vm_step ho) ops (h0, vm_manager_new fs) = (h, m)" by fastforce
  then show ?case using snoc vm_step_isolated [of ho op h m _ _ fs] by (cases "vm_step ho op (h, m)") simp
qed

text \<open>C3. Machines do not interfere: after any run of the manager's operations, an operation on one machine
  leaves the handles of all others as they are, writes and removes only its own files, sends requests
  only to its own socket, and kills no process but one that a boot of this machine has started.\<close>

theorem machines_isolated:
  assumes "fold (vm_step ho) ops (h0, vm_manager_new fs) = (h, m)" "vm_step ho op (h, m) = (h', m')"
  shows "\<exists>es. h' = h @ es \<and> (\<forall>e \<in> set es. own_event ho fs (vm_target op) h e) \<and>
    (\<forall>j. j \<noteq> vm_target op \<longrightarrow> get_vm j m' = get_vm j m)"
  using vm_step_isolated [OF assms(2), of fs] vm_run_fits [of ho fs ops h0] assms(1) by (auto simp: adds_def)

section \<open>Examples\<close>

text \<open>A host that does all it is asked, with one kind of request refused.\<close>

definition host_refusing :: "string \<Rightarrow> unit host" where
  "host_refusing path =
     \<lparr>ho_fault = (\<lambda>h e. None), ho_spawn = (\<lambda>h e. Ok (length h)),
      ho_flag = (\<lambda>h e. case e of SocketReady s \<Rightarrow> True | _ \<Rightarrow> False),
      ho_reply = (\<lambda>h rq. Reply (if rq_path rq = path then 400 else 204) (Ok [])),
      ho_info = (\<lambda>b. Err ''''), ho_cpu = (\<lambda>b. Err ''''), ho_text = (\<lambda>b. ''''), ho_debug = (\<lambda>p. p),
      ho_cpu_json = (\<lambda>c. ()), ho_vm_json = (\<lambda>i c. ())\<rparr>"

definition example_config :: vm_config where
  "example_config = \<lparr>vcpus = 2, memory_mb = 512, kernel_image = ''vmlinux'', rootfs_image = ''rootfs''\<rparr>"

definition example_handle :: vm_handle where
  "example_handle = (vm_new ''a1'' example_config fc_settings_default)\<lparr>vm_client := Some (fc_client_new ''s''), vm_socket := ''s''\<rparr>"

lemma snapshot_outcome_witness:
  "case take_snapshot (host_refusing ''/snapshot/create'') ''n'' 0 example_handle [] of (h', vm', r) \<Rightarrow>
     guest_paused (host_refusing ''/snapshot/create'') ''s'' h' \<and> vm_stat vm' = VmSnapshotting"
proof -
  let ?ho = "host_refusing ''/snapshot/create''"
  obtain h' vm' r where run: "take_snapshot ?ho ''n'' 0 example_handle [] = (h', vm', r)" by (metis prod_cases3)
  have "isl r \<and> length (requests h') = 2"
    using run by (auto simp: take_snapshot_def Let_def act_def with_client_def fc_snapshot_def and_then_def fc_pause_vm_def
        create_full_snapshot_def fc_put_def fc_request_def host_refusing_def example_handle_def http_success_def
        vm_new_def fc_vm_new_def fc_client_new_def map_err_def)
  then show ?thesis using snapshot_outcome [OF run] run
    by (cases r) (auto simp: example_handle_def fc_client_new_def)
qed

lemma await_ready: "ho_flag ho (h @ [Sleep 100]) (SocketReady sock) \<Longrightarrow>
    await_socket ho sock pid max_attempts h = (h @ [Sleep 100, SocketReady sock], Ok ())"
  using await_socket.simps(2) [of ho sock pid 49 h] by (simp add: max_attempts_def ask_def)

lemma boot_example:
  "\<exists>h'. vm_boot (host_refusing '''') vm h = (h', vm\<lparr>vm_client := Some (fc_client_new (vm_socket vm)),
     vm_stat := VmRunning, vm_process := Some (length h + 4)\<rparr>, Ok ())"
  by (simp add: vm_boot_def act_def await_ready write_config_file_def host_refusing_def Let_def)

lemma machines_isolated_witness:
  "case fold (vm_step (host_refusing '''')) [VCreate ''a1'' example_config, VCreate ''b2'' example_config, VBoot ''a1'']
      ([], vm_manager_new fc_settings_default) of (h, m) \<Rightarrow>
    (case vm_step (host_refusing '''') (VStop ''a1'') (h, m) of (h', m') \<Rightarrow>
       KillProcess 4 \<in> set h' \<and> get_vm ''b2'' m' = get_vm ''b2'' m \<and> get_vm ''b2'' m \<noteq> None)"
proof -
  let ?ho = "host_refusing ''''"
  obtain h m where run: "fold (vm_step ?ho) [VCreate ''a1'' example_config, VCreate ''b2'' example_config, VBoot ''a1'']
      ([], vm_manager_new fc_settings_default) = (h, m)" by fastforce
  obtain h' m' where step: "vm_step ?ho (VStop ''a1'') (h, m) = (h', m')" by fastforce
  have "(h, m) = fold (vm_step ?ho) [VCreate ''a1'' example_config, VCreate ''b2'' example_config, VBoot ''a1'']
      ([], vm_manager_new fc_settings_default)" "(h', m') = vm_step ?ho (VStop ''a1'') (h, m)" using run step by simp_all
  then have "KillProcess 4 \<in> set h' \<and> get_vm ''b2'' m \<noteq> None"
    by (simp add: create_vm_def vm_manager_new_def boot_vm_def stop_vm_def on_vm_def vm_boot_def vm_stop_def act_def ask_def
        write_config_file_def host_refusing_def vm_new_def get_vm_def await_ready
        fc_stop_vm_def fc_put_def fc_request_def get_info_def fc_get_def Let_def)
  then show ?thesis using machines_isolated [OF run step] run step by auto
qed

end
