(* ===== verification/VmProcess.thy ===== *)
theory VmProcess
  imports FirecrackerApi StateStore
begin

text \<open>
  \<^verbatim>\<open>src/src/firecracker_process.rs\<close>: the second manager of Firecracker processes.  It shares the host of
  \<open>FirecrackerApi\<close>.  The clock (milliseconds) is a function of what has happened; the loop that waits for
  the socket reads it, so whether it returns depends on it: \<open>None\<close> is a loop that never does.  A panic is
  the error \<open>FpPanic\<close>.
\<close>

section \<open>Machines\<close>

record process_config =
  pc_binary :: string
  pc_jailer :: string
  pc_workspace :: string
  pc_use_jailer :: bool
  pc_kernel :: string
  pc_rootfs :: string
  pc_vcpus :: u8
  pc_memory_mb :: u32

definition process_config_default :: process_config where
  "process_config_default =
     \<lparr>pc_binary = ''/usr/bin/firecracker'', pc_jailer = ''/usr/bin/jailer'', pc_workspace = ''/tmp/isa-firecracker'',
      pc_use_jailer = False, pc_kernel = ''/tmp/vmlinux.bin'', pc_rootfs = ''/tmp/rootfs.ext4'', pc_vcpus = 2,
      pc_memory_mb = 512\<rparr>"

datatype process_status = PsNotStarted | PsStarting | PsRunning | PsStopping | PsStopped | PsFailed

datatype process_error =
    FpIoError string
  | FpSpawnError string
  | FpKillError string
  | FpTimeout string
  | FpSerializationError string
  | FpPanic

record process_vm =
  pv_id :: string
  pv_config :: process_config
  pv_socket :: string
  pv_pid_file :: string
  pv_dir :: string
  pv_child :: "nat option"
  pv_status :: process_status

definition process_vm_new :: "string \<Rightarrow> process_config \<Rightarrow> process_vm" where
  "process_vm_new i cfg =
     (let dir = path_join (pc_workspace cfg) i in
      \<lparr>pv_id = i, pv_config = cfg, pv_socket = path_join dir ''firecracker.sock'',
       pv_pid_file = path_join dir ''firecracker.pid'', pv_dir = dir, pv_child = None, pv_status = PsNotStarted\<rparr>)"

section \<open>Starting\<close>

text \<open>A missing image is replaced by a file of zeroes.\<close>

definition ensure_file :: "'j host \<Rightarrow> string \<Rightarrow> nat \<Rightarrow> history \<Rightarrow> history" where
  "ensure_file ho path n h =
     (case ask ho (FileExists path) h of
        (h, True) \<Rightarrow> h
      | (h, False) \<Rightarrow> fst (act ho (WriteZeroes path n) h))"

text \<open>The slice of the first eight bytes of the identifier panics on a shorter one.\<close>

definition generate_config :: "'j host \<Rightarrow> process_vm \<Rightarrow> history \<Rightarrow> history \<times> (process_error, process_config_file) result" where
  "generate_config ho vm h =
     (let cfg = pv_config vm;
          h = ensure_file ho (pc_rootfs cfg) (1024 * 1024) (ensure_file ho (pc_kernel cfg) 1024 h)
      in if length (pv_id vm) < 8 then (h, Err FpPanic)
         else (h, Ok
           \<lparr>pf_boot = \<lparr>bs_kernel = pc_kernel cfg, bs_args = Some ''console=ttyS0 reboot=k panic=1 pci=off''\<rparr>,
            pf_drives = [\<lparr>dr_id = ''rootfs'', dr_path = pc_rootfs cfg, dr_root = True, dr_read_only = False,
              dr_io_engine = Some ''Sync''\<rparr>],
            pf_machine = (pc_vcpus cfg, unat (pc_memory_mb cfg), False),
            pf_networks = [\<lparr>ni_id = ''eth0'', ni_host_dev = ''tap-'' @ take 8 (pv_id vm), ni_mac = None\<rparr>],
            pf_logger = Some \<lparr>lg_path = path_join (pv_dir vm) ''firecracker.log'', lg_level = Some ''Info'',
              lg_show_level = Some True, lg_show_origin = Some False\<rparr>,
            pf_metrics = Some \<lparr>mt_path = path_join (pv_dir vm) ''firecracker.metrics''\<rparr>\<rparr>))"

partial_function (option) wait_for_socket :: "'j host \<Rightarrow> (history \<Rightarrow> nat) \<Rightarrow> string \<Rightarrow> nat \<Rightarrow> nat \<Rightarrow> history \<Rightarrow>
    (history \<times> (process_error, unit) result) option" where
  "wait_for_socket ho clock sock start timeout h =
     (if clock h - start < timeout then
        (case ask ho (FileExists sock) h of
           (h, ready) \<Rightarrow>
             if ready then Some (h @ [Sleep 50], Ok ())
             else wait_for_socket ho clock sock start timeout (h @ [Sleep 100]))
      else Some (h, Err (FpTimeout (''Socket '' @ ho_debug ho sock @ '' not ready within '' @
        dec_str (timeout div 1000) @ ''s''))))"

definition process_args :: "process_vm \<Rightarrow> string list" where
  "process_args vm =
     (if pc_use_jailer (pv_config vm) then
        [''--id'', pv_id vm, ''--exec-file'', pc_binary (pv_config vm), ''--api-sock'', pv_socket vm]
      else [''--api-sock'', pv_socket vm, ''--config-file'', path_join (pv_dir vm) ''config.json''])"

definition process_start :: "'j host \<Rightarrow> (history \<Rightarrow> nat) \<Rightarrow> process_vm \<Rightarrow> history \<Rightarrow>
    (history \<times> process_vm \<times> (process_error, unit) result) option" where
  "process_start ho clock vm h =
     (case act ho (MakeDir (pv_dir vm)) h of
        (h, Some e) \<Rightarrow> Some (h, vm, Err (FpIoError (''Failed to create state dir: '' @ e)))
      | (h, None) \<Rightarrow>
          (case generate_config ho vm h of
             (h, Inl e) \<Rightarrow> Some (h, vm, Err e)
           | (h, Inr cfg) \<Rightarrow>
               (case act ho (WriteProcessConfig (path_join (pv_dir vm) ''config.json'') cfg) h of
                  (h, Some e) \<Rightarrow> Some (h, vm, Err (FpIoError (''Failed to write config: '' @ e)))
                | (h, None) \<Rightarrow>
                    let spawn = Spawn (pc_binary (pv_config vm)) (process_args vm)
                    in (case ho_spawn ho h spawn of
                          Inl e \<Rightarrow> Some (h @ [spawn], vm, Err (FpSpawnError (''Failed to spawn firecracker: '' @ e)))
                        | Inr pid \<Rightarrow>
                            let vm = vm\<lparr>pv_child := Some pid, pv_status := PsStarting\<rparr>;
                                h = fst (act ho (WritePid (pv_pid_file vm) pid) (h @ [spawn]))
                            in (case wait_for_socket ho clock (pv_socket vm) (clock h) 5000 h of
                                  None \<Rightarrow> None
                                | Some (h, Inl e) \<Rightarrow> Some (h, vm, Err e)
                                | Some (h, Inr u) \<Rightarrow> Some (h, vm\<lparr>pv_status := PsRunning\<rparr>, Ok ()))))))"

section \<open>Stopping\<close>

definition process_stop :: "'j host \<Rightarrow> process_vm \<Rightarrow> history \<Rightarrow> history \<times> process_vm \<times> (process_error, unit) result" where
  "process_stop ho vm h =
     (let vm = vm\<lparr>pv_status := PsStopping\<rparr> in
      case pv_child vm of
        None \<Rightarrow> (fst (act ho (RemoveFile (pv_pid_file vm)) h), vm\<lparr>pv_status := PsStopped\<rparr>, Ok ())
      | Some pid \<Rightarrow>
          (let vm = vm\<lparr>pv_child := None\<rparr> in
           case act ho (KillProcess pid) h of
             (h, Some e) \<Rightarrow> (h, vm, Err (FpKillError (''Failed to kill firecracker: '' @ e)))
           | (h, None) \<Rightarrow>
               (fst (act ho (RemoveFile (pv_pid_file vm)) (h @ [WaitProcess pid])), vm\<lparr>pv_status := PsStopped\<rparr>, Ok ())))"

section \<open>The manager\<close>

record process_manager =
  pm_vms :: "(string, process_vm) hmap"
  pm_config :: process_config

definition process_manager_new :: "process_config \<Rightarrow> process_manager" where
  "process_manager_new cfg = \<lparr>pm_vms = [], pm_config = cfg\<rparr>"

text \<open>The machine that an insertion replaces is dropped; dropping a running one blocks on its \<^verbatim>\<open>stop\<close> from
  within the runtime, which panics before \<^verbatim>\<open>stop\<close> has begun.\<close>

definition create_and_start_vm :: "'j host \<Rightarrow> (history \<Rightarrow> nat) \<Rightarrow> string \<Rightarrow> string option \<Rightarrow> process_manager \<Rightarrow> history \<Rightarrow>
    (history \<times> process_manager \<times> (process_error, string) result) option" where
  "create_and_start_vm ho clock fresh wanted m h =
     (let i = (case wanted of None \<Rightarrow> fresh | Some i \<Rightarrow> i) in
      case process_start ho clock (process_vm_new i (pm_config m)) h of
        None \<Rightarrow> None
      | Some (h, vm, Inl e) \<Rightarrow> Some (h, m, Err e)
      | Some (h, vm, Inr u) \<Rightarrow>
          let m' = m\<lparr>pm_vms := hm_insert i vm (pm_vms m)\<rparr> in
          (case hm_get (pm_vms m) i of
             None \<Rightarrow> Some (h, m', Ok i)
           | Some old \<Rightarrow> Some (h, m', if pv_status old = PsRunning then Err FpPanic else Ok i)))"

definition stop_and_remove_vm :: "'j host \<Rightarrow> string \<Rightarrow> process_manager \<Rightarrow> history \<Rightarrow>
    history \<times> process_manager \<times> (process_error, unit) result" where
  "stop_and_remove_vm ho i m h =
     (case hm_get (pm_vms m) i of
        None \<Rightarrow> (h, m, Err (FpIoError (''VM '' @ i @ '' not found'')))
      | Some vm \<Rightarrow> (case process_stop ho vm h of (h, vm, r) \<Rightarrow> (h, m\<lparr>pm_vms := hm_remove i (pm_vms m)\<rparr>, r)))"

definition get_vm_status :: "string \<Rightarrow> process_manager \<Rightarrow> process_status option" where
  "get_vm_status i m = map_option pv_status (hm_get (pm_vms m) i)"

definition list_vms :: "process_manager \<Rightarrow> string list" where
  "list_vms m = map fst (pm_vms m)"

section \<open>Starting returns\<close>

text \<open>A clock that never goes back and on which a sleep of 100 ms takes them.\<close>

definition clock_runs :: "(history \<Rightarrow> nat) \<Rightarrow> bool" where
  "clock_runs clock \<longleftrightarrow> (\<forall>h e. clock h \<le> clock (h @ [e])) \<and> (\<forall>h. clock h + 100 \<le> clock (h @ [Sleep 100]))"

definition sleeps :: "host_event list \<Rightarrow> nat" where
  "sleeps es = length (filter (\<lambda>e. e = Sleep 100) es)"

lemma sleeps_simps [simp]: "sleeps [] = 0" "sleeps (e # es) = (if e = Sleep 100 then Suc (sleeps es) else sleeps es)"
  "sleeps (es @ es') = sleeps es + sleeps es'"
  by (simp_all add: sleeps_def)

lemma wait_for_socket_returns:
  assumes "clock_runs clock" "start \<le> clock h"
  shows "\<exists>es r. wait_for_socket ho clock sock start timeout h = Some (h @ es, r) \<and>
    100 * sleeps es < timeout - (clock h - start) + 100 \<and>
    (\<forall>e \<in> set es. e = FileExists sock \<or> e = Sleep 100 \<or> e = Sleep 50) \<and>
    (r = Ok () \<or> (\<exists>s. r = Err (FpTimeout s)))"
  using assms(2)
proof (induction "timeout - (clock h - start)" arbitrary: h rule: less_induct)
  case less
  let ?h = "(h @ [FileExists sock]) @ [Sleep 100]"
  show ?case
  proof (cases "clock h - start < timeout \<and> \<not> ho_flag ho h (FileExists sock)")
    case False
    then show ?thesis by (subst wait_for_socket.simps) (auto simp: ask_def)
  next
    case True
    have step: "clock h + 100 \<le> clock ?h"
      using assms(1) unfolding clock_runs_def by (meson le_trans add_le_mono1)
    then have "timeout - (clock ?h - start) < timeout - (clock h - start)" "start \<le> clock ?h" using True less.prems by linarith+
    from less.hyps [OF this] obtain es r where
      IH: "wait_for_socket ho clock sock start timeout ?h = Some (?h @ es, r)"
        "100 * sleeps es < timeout - (clock ?h - start) + 100"
        "\<forall>e \<in> set es. e = FileExists sock \<or> e = Sleep 100 \<or> e = Sleep 50" "r = Ok () \<or> (\<exists>s. r = Err (FpTimeout s))" by blast
    have "wait_for_socket ho clock sock start timeout h = Some (?h @ es, r)"
      by (subst wait_for_socket.simps) (use True IH(1) in \<open>simp add: ask_def\<close>)
    moreover have "clock h - start + 100 \<le> clock ?h - start" using step less.prems by linarith
    then have "100 * sleeps es < timeout - (clock h - start)"
      using IH(2) True [THEN conjunct1] by (cases "sleeps es") linarith+
    ultimately show ?thesis using IH(3,4) by (intro exI [of _ "[FileExists sock, Sleep 100] @ es"] exI [of _ r]) auto
  qed
qed

text \<open>What a start adds to the history, and how it ends.\<close>

definition spawns :: "'j host \<Rightarrow> history \<Rightarrow> host_event list \<Rightarrow> nat \<Rightarrow> bool" where
  "spawns ho h es pid \<longleftrightarrow> (\<exists>xs ys bin args. es = xs @ Spawn bin args # ys \<and>
     ho_spawn ho (h @ xs) (Spawn bin args) = Ok pid)"

fun is_spawn :: "host_event \<Rightarrow> bool" where
  "is_spawn (Spawn bin args) = True"
| "is_spawn e = False"

lemma spawns_nowhere: "\<forall>e \<in> set es. \<not> is_spawn e \<Longrightarrow> \<not> spawns ho h es pid"
  by (auto simp: spawns_def)

lemma spawns_last:
  assumes "\<forall>e \<in> set es. \<not> is_spawn e"
  shows "spawns ho h (es @ [Spawn bin args]) pid \<longleftrightarrow> ho_spawn ho (h @ es) (Spawn bin args) = Ok pid"
proof
  assume "spawns ho h (es @ [Spawn bin args]) pid"
  then obtain xs ys bin' args' where split: "es @ [Spawn bin args] = xs @ Spawn bin' args' # ys"
    "ho_spawn ho (h @ xs) (Spawn bin' args') = Ok pid" by (auto simp: spawns_def)
  have "ys = []"
  proof (rule ccontr)
    assume "ys \<noteq> []"
    then have "butlast (es @ [Spawn bin args]) = xs @ Spawn bin' args' # butlast ys" using split(1) by (simp add: butlast_append)
    then show False using assms by simp
  qed
  then show "ho_spawn ho (h @ es) (Spawn bin args) = Ok pid" using split by simp
qed (auto simp: spawns_def)

lemma generate_config_history:
  "\<exists>es. fst (generate_config ho vm h) = h @ es \<and> sleeps es = 0 \<and> (\<forall>e \<in> set es. \<exists>p n. e = FileExists p \<or> e = WriteZeroes p n)"
  by (simp add: generate_config_def ensure_file_def ask_def act_def Let_def split: bool.split)

lemma process_start_cases:
  assumes "clock_runs clock"
  obtains es e where "process_start ho clock vm h = Some (h @ es, vm, Err e)" "sleeps es = 0" "\<forall>p. KillProcess p \<notin> set es"
      "\<forall>pid. \<not> spawns ho h es pid" "\<forall>s. e \<noteq> FpTimeout s"
  | es pid s where "process_start ho clock vm h = Some (h @ es, vm\<lparr>pv_child := Some pid, pv_status := PsStarting\<rparr>, Err (FpTimeout s))"
      "sleeps es \<le> 50" "spawns ho h es pid" "\<forall>p. KillProcess p \<notin> set es"
  | es pid where "process_start ho clock vm h = Some (h @ es, vm\<lparr>pv_child := Some pid, pv_status := PsRunning\<rparr>, Ok ())"
      "sleeps es \<le> 50" "spawns ho h es pid" "\<forall>p. KillProcess p \<notin> set es"
proof -
  let ?mk = "MakeDir (pv_dir vm)"
  obtain g h2 r where gen: "generate_config ho vm (h @ [?mk]) = (h2, r)" and h2: "h2 = (h @ [?mk]) @ g"
    "sleeps g = 0" "\<forall>e \<in> set g. \<exists>p n. e = FileExists p \<or> e = WriteZeroes p n"
    using generate_config_history [of ho vm "h @ [?mk]"] by (metis fst_conv surj_pair)
  have g: "\<forall>e \<in> set g. \<not> is_spawn e" "\<forall>p. KillProcess p \<notin> set g"
    using h2(3) by force+
  show thesis
  proof (cases "ho_fault ho h ?mk")
    case (Some e)
    then show thesis by (intro that(1) [of "[?mk]"]) (auto simp: process_start_def act_def intro!: spawns_nowhere)
  next
    case made: None
    show thesis
    proof (cases r)
      case (Inl e)
      then have "e = FpPanic" using gen by (auto simp: generate_config_def Let_def split: if_splits)
      then show thesis using made Inl gen h2 g
        by (intro that(1) [of "?mk # g" e]) (auto simp: process_start_def act_def intro!: spawns_nowhere)
    next
      case (Inr cfg)
      define wr where "wr = WriteProcessConfig (path_join (pv_dir vm) ''config.json'') cfg"
      define sp where "sp = Spawn (pc_binary (pv_config vm)) (process_args vm)"
      let ?pre = "?mk # g @ [wr]"
      have pre: "h2 @ [wr] = h @ ?pre" "\<forall>e \<in> set ?pre. \<not> is_spawn e" "sleeps ?pre = 0" "\<forall>p. KillProcess p \<notin> set ?pre"
        using h2 g by (auto simp: wr_def)
      show thesis
      proof (cases "ho_fault ho h2 wr")
        case (Some e)
        then show thesis using made Inr gen pre
          by (intro that(1) [of ?pre]) (auto simp: process_start_def act_def wr_def intro!: spawns_nowhere)
      next
        case written: None
        note start = process_start_def act_def wr_def Let_def sp_def
        show thesis
        proof (cases "ho_spawn ho (h2 @ [wr]) sp")
          case (Inl e)
          have "\<not> spawns ho h (?pre @ [sp]) pid" for pid
            using spawns_last [OF pre(2), of ho h] Inl pre(1) by (simp add: sp_def)
          then show thesis using made Inr gen pre written Inl
            by (intro that(1) [of "?pre @ [sp]"]) (auto simp: start)
        next
          case spawned: (Inr pid)
          define wp where "wp = WritePid (pv_pid_file vm) pid"
          let ?h3 = "((h2 @ [wr]) @ [sp]) @ [wp]"
          obtain es r where wait: "wait_for_socket ho clock (pv_socket vm) (clock ?h3) 5000 ?h3 = Some (?h3 @ es, r)"
            and es: "100 * sleeps es < 5000 + 100" "\<forall>e \<in> set es. e = FileExists (pv_socket vm) \<or> e = Sleep 100 \<or> e = Sleep 50"
              "r = Ok () \<or> (\<exists>s. r = Err (FpTimeout s))"
            using wait_for_socket_returns [OF assms, of "clock ?h3" ?h3 ho "pv_socket vm" 5000] by auto
          let ?es = "?pre @ [sp, wp] @ es"
          have all: "sleeps ?es \<le> 50" "\<forall>p. KillProcess p \<notin> set ?es" "spawns ho h ?es pid"
          proof -
            show "sleeps ?es \<le> 50" using h2(2) es(1) by (simp add: sp_def wp_def wr_def)
            show "\<forall>p. KillProcess p \<notin> set ?es" using pre(4) es(2) by (auto simp: sp_def wp_def)
            show "spawns ho h ?es pid" unfolding spawns_def sp_def
              using spawned [unfolded pre(1) sp_def]
              by (intro exI [of _ ?pre] exI [of _ "wp # es"] exI [of _ "pc_binary (pv_config vm)"] exI [of _ "process_args vm"]) simp
          qed
          from es(3) show thesis
          proof
            assume "r = Ok ()"
            then show thesis using made Inr gen pre(1) written spawned wait all
              by (intro that(3) [of ?es pid]) (auto simp: start wp_def)
          next
            assume "\<exists>s. r = Err (FpTimeout s)"
            then show thesis using made Inr gen pre(1) written spawned wait all
              by (elim exE) (intro that(2) [of ?es pid], auto simp: start wp_def)
          qed
        qed
      qed
    qed
  qed
qed

section \<open>Properties\<close>

text \<open>C19. A start returns, whatever the host answers, after at most 50 turns of its loop.\<close>

theorem process_start_returns:
  assumes "clock_runs clock"
  shows "\<exists>es vm' r. process_start ho clock vm h = Some (h @ es, vm', r) \<and> sleeps es \<le> 50"
  by (cases rule: process_start_cases [OF assms, of ho vm h]) simp_all

text \<open>A machine whose socket does not appear in time is lost: its process has been started and is not
  killed, and the manager does not know it.  Every other failure comes before a process is started.\<close>

theorem timed_out_machine_lost:
  assumes "clock_runs clock" "create_and_start_vm ho clock fresh wanted m h = Some (h', m', Err e)" "e \<noteq> FpPanic"
  shows "m' = m \<and> (\<exists>es. h' = h @ es \<and> (\<forall>p. KillProcess p \<notin> set es) \<and>
    ((\<exists>pid. spawns ho h es pid) \<longleftrightarrow> (\<exists>s. e = FpTimeout s)))"
proof -
  define i where "i = (case wanted of None \<Rightarrow> fresh | Some i \<Rightarrow> i)"
  show ?thesis
    using assms(2,3)
    by (cases rule: process_start_cases [OF assms(1), of ho "process_vm_new i (pm_config m)" h])
      (auto simp: create_and_start_vm_def i_def Let_def split: option.splits if_splits)
qed

text \<open>Runs of the manager, from empty.\<close>

datatype process_op =
    PStart string "string option"
  | PStop string

definition process_step :: "'j host \<Rightarrow> (history \<Rightarrow> nat) \<Rightarrow> process_op \<Rightarrow> history \<times> process_manager \<Rightarrow> history \<times> process_manager" where
  "process_step ho clock op hm =
     (case op of
        PStart fresh wanted \<Rightarrow>
          (case create_and_start_vm ho clock fresh wanted (snd hm) (fst hm) of None \<Rightarrow> hm | Some (h, m, r) \<Rightarrow> (h, m))
      | PStop i \<Rightarrow> (case stop_and_remove_vm ho i (snd hm) (fst hm) of (h, m, r) \<Rightarrow> (h, m)))"

definition all_run :: "process_manager \<Rightarrow> bool" where
  "all_run m \<longleftrightarrow> (\<forall>i vm. hm_get (pm_vms m) i = Some vm \<longrightarrow> pv_status vm = PsRunning \<and> (\<exists>pid. pv_child vm = Some pid))"

lemma process_step_all_run:
  assumes "clock_runs clock" "all_run (snd hm)"
  shows "all_run (snd (process_step ho clock op hm))"
proof (cases op)
  case (PStart fresh wanted)
  define i where "i = (case wanted of None \<Rightarrow> fresh | Some i \<Rightarrow> i)"
  show ?thesis
    using assms(2) PStart
    by (cases rule: process_start_cases [OF assms(1), of ho "process_vm_new i (pm_config (snd hm))" "fst hm"])
      (auto simp: process_step_def create_and_start_vm_def all_run_def i_def Let_def split: option.splits if_splits)
next
  case (PStop i)
  then show ?thesis using assms(2)
    by (auto simp: process_step_def stop_and_remove_vm_def all_run_def split: option.splits prod.splits if_splits)
qed

text \<open>The machines that the manager lists run, each with a process; stopping one kills it and takes it off the list, even when the kill fails.\<close>

theorem listed_machine_stops:
  assumes "clock_runs clock" "(h, m) = fold (process_step ho clock) ops ([], process_manager_new cfg)"
    and "i \<in> set (list_vms m)" "stop_and_remove_vm ho i m h = (h', m', r)"
  shows "get_vm_status i m = Some PsRunning \<and> i \<notin> set (list_vms m') \<and>
    (\<exists>pid. KillProcess pid \<in> set (drop (length h) h') \<and> (r = Ok () \<longleftrightarrow> ho_fault ho h (KillProcess pid) = None))"
proof -
  have "all_run (snd (fold (process_step ho clock) ops ([], process_manager_new cfg)))"
    by (induction ops rule: rev_induct)
      (simp_all add: process_step_all_run [OF assms(1)], simp add: all_run_def process_manager_new_def)
  then have "all_run m" by (simp flip: assms(2))
  moreover obtain vm where vm: "hm_get (pm_vms m) i = Some vm"
    using assms(3) by (auto simp: list_vms_def hm_get_def dest: weak_map_of_SomeI)
  ultimately obtain pid where pid: "pv_status vm = PsRunning" "pv_child vm = Some pid" unfolding all_run_def by blast
  have "i \<notin> fst ` set (hm_remove i (pm_vms m))"
    using hm_get_remove [of i "pm_vms m" i] by (simp add: hm_get_def map_of_eq_None_iff)
  then show ?thesis using assms(4) vm pid
    by (auto simp: stop_and_remove_vm_def process_stop_def act_def Let_def get_vm_status_def list_vms_def
        split: option.splits intro!: exI [of _ pid])
qed

section \<open>Examples\<close>

text \<open>A clock that only sleeping moves, and hosts on which the socket never appears or is there at once.\<close>

fun slept :: "history \<Rightarrow> nat" where
  "slept [] = 0"
| "slept (Sleep n # h) = n + slept h"
| "slept (e # h) = slept h"

lemma slept_append: "slept (h @ h') = slept h + slept h'"
  by (induction h rule: slept.induct) simp_all

lemma slept_runs: "clock_runs slept"
  by (simp add: clock_runs_def slept_append)

definition process_host :: "bool \<Rightarrow> unit host" where
  "process_host ready =
     \<lparr>ho_fault = (\<lambda>h e. None), ho_spawn = (\<lambda>h e. Ok 7), ho_flag = (\<lambda>h e. ready),
      ho_reply = (\<lambda>h rq. NoReplyInTime), ho_info = (\<lambda>b. Err ''''), ho_cpu = (\<lambda>b. Err ''''), ho_text = (\<lambda>b. ''''),
      ho_debug = (\<lambda>p. p), ho_cpu_json = (\<lambda>c. ()), ho_vm_json = (\<lambda>i c. ())\<rparr>"

lemma process_start_returns_witness:
  "\<exists>es vm' r. process_start (process_host False) slept (process_vm_new ''vm-00000001'' process_config_default) [] =
     Some (es, vm', r) \<and> sleeps es \<le> 50"
  using process_start_returns [OF slept_runs, of "process_host False" "process_vm_new ''vm-00000001'' process_config_default" "[]"]
  by simp

lemma timed_out_machine_lost_witness:
  "case create_and_start_vm (process_host False) slept '''' (Some ''vm-00000001'') (process_manager_new process_config_default) [] of
     Some (h', m', Inl e) \<Rightarrow> m' = process_manager_new process_config_default \<and> (\<exists>s. e = FpTimeout s) \<and>
       (\<exists>pid. spawns (process_host False) [] h' pid)
   | _ \<Rightarrow> False"
proof -
  let ?vm = "process_vm_new ''vm-00000001'' process_config_default"
  have never: "wait_for_socket (process_host False) slept sock start 5000 h \<noteq> Some (h', Ok ())" for sock start h h'
  proof (induction "Suc (start + 5000) - slept h" arbitrary: h rule: less_induct)
    case less
    have "slept (h @ [FileExists sock, Sleep 100]) = slept h + 100" by (simp add: slept_append)
    then show ?case using less [of "h @ [FileExists sock, Sleep 100]"]
      by (subst wait_for_socket.simps) (auto simp: ask_def process_host_def)
  qed
  have "\<exists>h' s. wait_for_socket (process_host False) slept sock (slept h) 5000 h = Some (h', Err (FpTimeout s))" for sock h
    using wait_for_socket_returns [OF slept_runs order_refl, where ho = "process_host False" and sock = sock and timeout = 5000 and h = h] never by blast
  then obtain w s where wait: "\<And>sock h. wait_for_socket (process_host False) slept sock (slept h) 5000 h =
      Some (w sock h, Err (FpTimeout (s sock h)))" by metis
  have "\<exists>h' m' s. create_and_start_vm (process_host False) slept '''' (Some ''vm-00000001'') (process_manager_new process_config_default) [] =
      Some (h', m', Err (FpTimeout s))"
    using wait by (simp add: create_and_start_vm_def process_start_def act_def ask_def generate_config_def ensure_file_def Let_def
        process_vm_new_def process_manager_new_def) (simp add: process_host_def Let_def)
  then obtain h' m' s where run: "create_and_start_vm (process_host False) slept '''' (Some ''vm-00000001'')
      (process_manager_new process_config_default) [] = Some (h', m', Err (FpTimeout s))" by blast
  show ?thesis using timed_out_machine_lost [OF slept_runs run] by (auto simp: run)
qed

lemma listed_machine_stops_witness:
  "case fold (process_step (process_host True) slept) [PStart ''vm-00000001'' None] ([], process_manager_new process_config_default) of
     (h, m) \<Rightarrow>
       (case stop_and_remove_vm (process_host True) ''vm-00000001'' m h of (h', m', r) \<Rightarrow>
          ''vm-00000001'' \<notin> set (list_vms m') \<and> (\<exists>pid. KillProcess pid \<in> set h'))"
proof -
  obtain h m where run: "(h, m) = fold (process_step (process_host True) slept) [PStart ''vm-00000001'' None]
    ([], process_manager_new process_config_default)" by (metis surj_pair)
  obtain h' m' r where stop: "stop_and_remove_vm (process_host True) ''vm-00000001'' m h = (h', m', r)" by (metis prod_cases3)
  have wait: "wait_for_socket (process_host True) slept sock (slept h) 5000 h = Some ((h @ [FileExists sock]) @ [Sleep 50], Ok ())" for sock h
    by (subst wait_for_socket.simps) (simp add: ask_def, simp add: process_host_def)
  have "''vm-00000001'' \<in> set (list_vms m)"
    using run wait by (simp add: process_step_def create_and_start_vm_def process_start_def act_def ask_def generate_config_def
        ensure_file_def Let_def process_vm_new_def process_manager_new_def) (simp add: process_host_def Let_def list_vms_def hm_insert_def)
  then show ?thesis unfolding run [symmetric] using listed_machine_stops [OF slept_runs run _ stop] stop
    by (auto dest: in_set_dropD)
qed

end
