(* ===== verification/Api.thy ===== *)
theory Api
  imports Firecracker SocketProxy Deterministic Validation
begin

text \<open>
  \<^verbatim>\<open>src/src/api.rs\<close>: the handlers of the HTTP API over the store, the virtual machines, the socket proxy
  and the log.  A handler takes the history of the host and the shared state and returns both with its
  answer.  Fresh identifiers and the readings of the clock are arguments (\<open>fresh_ids\<close>); routing and
  the metrics are left out.  \<open>ApiPanic\<close> is a handler that panics (chrono's dates), which ends the
  connection without an answer.  Multiplications of \<^verbatim>\<open>u64\<close> wrap, as in a release build.
\<close>

section \<open>The shared state\<close>

record 'j app_state =
  ap_store :: "memory_backend state_store"
  ap_vms :: vm_manager
  ap_memory :: snapshot_manager
  ap_logger :: "'j det_logger"
  ap_proxy :: proxy

definition det_config_default :: det_config where
  "det_config_default = \<lparr>dc_max_entries = 1000000, dc_strict = True, dc_timestamps = True\<rparr>"

definition app_new :: "'j app_state" where
  "app_new =
     \<lparr>ap_store = store_new (1024 * 1024 * 1024) [], ap_vms = vm_manager_new fc_settings_default,
      ap_memory = manager_new, ap_logger = set_recording True (det_logger_new det_config_default),
      ap_proxy = proxy_new proxy_default\<rparr>"

datatype api_error = ApiFail nat string | ApiPanic

record fresh_ids =
  af_vm :: uuid
  af_snapshot :: uuid
  af_state :: uuid
  af_stream :: uuid
  af_now :: datetime
  af_created :: datetime
  af_expiry_from :: datetime
  af_stored :: datetime

section \<open>Errors as text\<close>

fun vm_show :: "vm_error \<Rightarrow> string" where
  "vm_show (VmIoError e) = ''IO error: '' @ e"
| "vm_show (VmApiError e) = ''API error: '' @ e"
| "vm_show (VmNotFound e) = ''Not found: '' @ e"
| "vm_show (VmSerializationError e) = ''Serialization error: '' @ e"

text \<open>An error of the store as the answer of a handler; its panic is the handler's.\<close>

fun store_fail :: "nat \<Rightarrow> string \<Rightarrow> store_error \<Rightarrow> api_error" where
  "store_fail code msg (SsIoError e) = ApiFail code (msg @ ''IO error: '' @ e)"
| "store_fail code msg (SsSerializationError e) = ApiFail code (msg @ ''Serialization error: '' @ e)"
| "store_fail code msg (SsNotFound e) = ApiFail code (msg @ ''Not found: '' @ e)"
| "store_fail code msg (SsAlreadyExists e) = ApiFail code (msg @ ''Already exists: '' @ e)"
| "store_fail code msg (SsCorrupted e) = ApiFail code (msg @ ''Corrupted data: '' @ e)"
| "store_fail code msg SsPanic = ApiPanic"

section \<open>Times to live\<close>

definition char_digit :: "char \<Rightarrow> bool" where
  "char_digit c \<longleftrightarrow> is_digit (of_char c)"

definition parse_ttl :: "string option \<Rightarrow> (api_error, u64 option) result" where
  "parse_ttl ttl =
     (case ttl of
        None \<Rightarrow> Ok None
      | Some s \<Rightarrow>
          if s = [] then Ok None
          else
            let num = takeWhile char_digit s; unit = dropWhile char_digit s in
            if num = [] then Err (ApiFail 400 ''Invalid TTL format: missing number'')
            else
              (case parse_u64 (ustr_of num) of
                 None \<Rightarrow> Err (ApiFail 400 ''Invalid TTL format: invalid number'')
               | Some n \<Rightarrow>
                   (case unit_factor (ustr_of unit) of
                      None \<Rightarrow> Err (ApiFail 400 (''Invalid TTL unit: '' @ unit))
                    | Some f \<Rightarrow> Ok (Some (of_nat n * of_nat f)))))"

section \<open>The handlers\<close>

definition demo_vm_config :: vm_config where
  "demo_vm_config =
     \<lparr>vcpus = 2, memory_mb = 512, kernel_image = ''/tmp/vmlinux.bin'', rootfs_image = ''/tmp/rootfs.ext4''\<rparr>"

definition create_snapshot :: "'j host \<Rightarrow> 'j store_env \<Rightarrow> fresh_ids \<Rightarrow> snapshot_request \<Rightarrow> history \<Rightarrow> 'j app_state \<Rightarrow>
    history \<times> 'j app_state \<times> (api_error, snapshot_response) result" where
  "create_snapshot ho env fr rq h a =
     (if snap_label rq = [] then (h, a, Err (ApiFail 400 ''label is required''))
      else
        (case parse_ttl (snap_ttl rq) of
           Inl e \<Rightarrow> (h, a, Err e)
         | Inr ttl \<Rightarrow>
             let (vms, i) = create_vm (af_vm fr) demo_vm_config (ap_vms a) in
             (case boot_vm ho i vms h of
                (h, vms, Inl e) \<Rightarrow> (h, a\<lparr>ap_vms := vms\<rparr>, Err (ApiFail 500 (''Failed to boot VM: '' @ vm_show e)))
              | (h, vms, Inr u) \<Rightarrow>
                  (case snapshot_vm ho (af_snapshot fr) (af_now fr) i vms h of
                     (h, vms, Inl e) \<Rightarrow>
                       (h, a\<lparr>ap_vms := vms\<rparr>, Err (ApiFail 500 (''Failed to snapshot VM: '' @ vm_show e)))
                   | (h, vms, Inr s) \<Rightarrow>
                       let obj =
                         \<lparr>st_id = StateId (af_state fr), st_vm_config = demo_vm_config, st_cpu = vs_cpu s,
                          st_manifest = vs_manifest s, st_fds = get_descriptors (ap_proxy a),
                          st_sockets = get_socket_table (ap_proxy a), st_devices = [],
                          st_log = get_event_log (ap_logger a), st_ui = \<lparr>stream_id = af_stream fr\<rparr>,
                          st_metadata = \<lparr>meta_label = snap_label rq, meta_created_at = af_created fr,
                            meta_ttl_seconds = ttl\<rparr>\<rparr>
                       in (case store_state memory_ops env (af_expiry_from fr) (af_stored fr) obj (ap_store a) of
                             (st, Inl e) \<Rightarrow>
                               (h, a\<lparr>ap_vms := vms, ap_store := st\<rparr>, Err (store_fail 500 ''Failed to store state: '' e))
                           | (st, Inr stored) \<Rightarrow>
                               (h, a\<lparr>ap_vms := vms, ap_store := st\<rparr>, Ok \<lparr>snap_state_id = af_state fr\<rparr>))))))"

definition resume_state :: "'j host \<Rightarrow> 'j store_env \<Rightarrow> fresh_ids \<Rightarrow> resume_request \<Rightarrow> history \<Rightarrow> 'j app_state \<Rightarrow>
    history \<times> 'j app_state \<times> (api_error, resume_response) result" where
  "resume_state ho env fr rq h a =
     (if res_state_id rq = [] then (h, a, Err (ApiFail 400 ''state_id is required''))
      else
        (case get_state memory_ops env (StateId (res_state_id rq)) (ap_store a) of
           (st, Inl e) \<Rightarrow> (h, a\<lparr>ap_store := st\<rparr>, Err (store_fail 404 ''State not found: '' e))
         | (st, Inr s) \<Rightarrow>
             let a = a\<lparr>ap_store := st\<rparr>; (vms, i) = create_vm (af_vm fr) (st_vm_config s) (ap_vms a) in
             (case boot_vm ho i vms h of
                (h, vms, Inl e) \<Rightarrow> (h, a\<lparr>ap_vms := vms\<rparr>, Err (ApiFail 500 (''Failed to boot VM: '' @ vm_show e)))
              | (h, vms, Inr u) \<Rightarrow>
                  (h, a\<lparr>ap_vms := vms, ap_logger := set_recording False (ap_logger a)\<rparr>,
                   Ok \<lparr>resp_accepted = True,
                       resp_region = (case res_region rq of None \<Rightarrow> ''nearest'' | Some r \<Rightarrow> r),
                       resp_mode = (case res_mode rq of None \<Rightarrow> ''collaborative'' | Some m \<Rightarrow> m)\<rparr>))))"

definition fork_of :: "fresh_ids \<Rightarrow> fork_request \<Rightarrow> 'j state \<Rightarrow> 'j state" where
  "fork_of fr rq s =
     \<lparr>st_id = StateId (af_state fr), st_vm_config = st_vm_config s, st_cpu = st_cpu s, st_manifest = st_manifest s,
      st_fds = st_fds s, st_sockets = st_sockets s, st_devices = st_devices s, st_log = st_log s,
      st_ui = \<lparr>stream_id = af_stream fr\<rparr>,
      st_metadata =
        \<lparr>meta_label = (case fork_label rq of None \<Rightarrow> ''fork-of-'' @ meta_label (st_metadata s) | Some l \<Rightarrow> l),
         meta_created_at = af_created fr, meta_ttl_seconds = meta_ttl_seconds (st_metadata s)\<rparr>\<rparr>"

definition fork_state :: "'j store_env \<Rightarrow> fresh_ids \<Rightarrow> fork_request \<Rightarrow> 'j app_state \<Rightarrow>
    'j app_state \<times> (api_error, fork_response) result" where
  "fork_state env fr rq a =
     (if fork_state_id rq = [] then (a, Err (ApiFail 400 ''state_id is required''))
      else
        (case get_state memory_ops env (StateId (fork_state_id rq)) (ap_store a) of
           (st, Inl e) \<Rightarrow> (a\<lparr>ap_store := st\<rparr>, Err (store_fail 404 ''State not found: '' e))
         | (st, Inr s) \<Rightarrow>
             (case store_state memory_ops env (af_expiry_from fr) (af_stored fr) (fork_of fr rq s) st of
                (st, Inl e) \<Rightarrow> (a\<lparr>ap_store := st\<rparr>, Err (store_fail 500 ''Failed to store forked state: '' e))
              | (st, Inr stored) \<Rightarrow> (a\<lparr>ap_store := st\<rparr>, Ok \<lparr>fork_new_state_id = af_state fr\<rparr>))))"

record status_response =
  sr_status :: string
  sr_states :: nat
  sr_entries :: nat
  sr_timestamp :: datetime

definition get_status :: "datetime \<Rightarrow> 'j app_state \<Rightarrow> status_response" where
  "get_status now a =
     \<lparr>sr_status = ''healthy'', sr_states = length (list_states (ap_store a)), sr_entries = entry_count (ap_logger a),
      sr_timestamp = now\<rparr>"

text \<open>The identifier is the string at \<^verbatim>\<open>state_id\<close> in the JSON body, if there is one.\<close>

definition api_delete_state :: "string option \<Rightarrow> 'j app_state \<Rightarrow> 'j app_state \<times> (api_error, string) result" where
  "api_delete_state wanted a =
     (case wanted of
        None \<Rightarrow> (a, Err (ApiFail 400 ''state_id is required''))
      | Some i \<Rightarrow>
          (case delete_state memory_ops (StateId i) (ap_store a) of
             (st, Inl e) \<Rightarrow> (a\<lparr>ap_store := st\<rparr>, Err (store_fail 500 ''Failed to delete state: '' e))
           | (st, Inr u) \<Rightarrow> (a\<lparr>ap_store := st\<rparr>, Ok i)))"

record listed_state =
  ls_id :: string
  ls_label :: string
  ls_created :: datetime
  ls_size :: nat
  ls_expires :: "datetime option"

definition api_list_states :: "'j app_state \<Rightarrow> nat \<times> listed_state list" where
  "api_list_states a =
     (let ss = map (\<lambda>s. \<lparr>ls_id = sid_str (ss_id s), ls_label = meta_label (ss_meta s), ls_created = ss_created s,
                         ls_size = ss_size s, ls_expires = ss_expires s\<rparr>) (list_states (ap_store a))
      in (length ss, ss))"

section \<open>The two parsers of times to live\<close>

lemma ustr_of_digits:
  "takeWhile is_digit (ustr_of s) = ustr_of (takeWhile char_digit s)"
  "dropWhile is_digit (ustr_of s) = ustr_of (dropWhile char_digit s)"
  by (simp_all add: ustr_of_def takeWhile_map dropWhile_map comp_def char_digit_def [abs_def])

text \<open>The handlers' parser and the validation agree on every text: validation accepts what the handlers
  parse and that lies between one minute and 365 days, and gives the same number of seconds.\<close>

theorem parse_ttl_agrees:
  "validate_ttl (Some (ustr_of t)) = Ok (Some s) \<longleftrightarrow>
    (\<exists>n. parse_ttl (Some t) = Ok (Some n) \<and> unat n = s \<and> 60 \<le> s \<and> s \<le> 365 * 86400)"
proof -
  have wraps: "unat (of_nat a * of_nat b :: u64) = (a * b) mod 2 ^ 64" for a b
    by (simp add: unat_of_nat flip: of_nat_mult)
  show ?thesis
    unfolding ttl_checks [OF refl refl] ustr_of_digits
    by (auto simp: parse_ttl_def parse_u64_def wraps ustr_of_def Let_def split: option.splits if_splits)
qed

section \<open>What a boot asks\<close>

definition loads_snapshot :: "api_request \<Rightarrow> bool" where
  "loads_snapshot rq \<longleftrightarrow> (\<exists>l. rq_body rq = LoadBody l)"

lemma await_socket_requests: "await_socket ho sock pid n h = (h', r) \<Longrightarrow> requests h' = requests h"
  by (induction n arbitrary: h) (auto simp: ask_def split: if_splits bool.splits)

lemma boot_requests:
  assumes "vm_boot ho vm h = (h', vm', r)"
  shows "filter loads_snapshot (requests h') = filter loads_snapshot (requests h) \<and> vm_cfg vm' = vm_cfg vm"
proof -
  have info: "filter loads_snapshot (requests (fst (get_info ho c h3))) = filter loads_snapshot (requests h3)" for c h3
    by (simp add: get_info_def fc_get_history loads_snapshot_def)
  show ?thesis using assms
    by (auto simp: vm_boot_def write_config_file_def act_def Let_def info
        split: option.splits sum.splits prod.splits bool.splits dest!: await_socket_requests)
qed

lemma boot_created:
  assumes "create_vm i cfg m = (vms, j)" "boot_vm ho j vms h = (h', m', r)"
  shows "filter loads_snapshot (requests h') = filter loads_snapshot (requests h) \<and>
    (\<exists>vm. get_vm i m' = Some vm \<and> vm_cfg vm = cfg \<and> (r = Ok () \<longrightarrow> vm_stat vm = VmRunning)) \<and>
    (\<forall>j. j \<noteq> i \<longrightarrow> get_vm j m' = get_vm j m)"
proof -
  obtain h1 vm r1 where b: "vm_boot ho (vm_new i cfg (vmm_settings m)) h = (h1, vm, r1)" by (metis prod_cases3)
  have "r1 = Ok () \<longrightarrow> vm_stat vm = VmRunning" using b
    by (auto simp: vm_boot_def Let_def split: option.splits sum.splits prod.splits bool.splits)
  moreover have "h' = h1" "r = r1" "m' = m\<lparr>vmm_vms := hm_insert i vm (hm_insert i (vm_new i cfg (vmm_settings m)) (vmm_vms m))\<rparr>"
    using assms b by (auto simp: boot_vm_def on_vm_def create_vm_def)
  ultimately show ?thesis using boot_requests [OF b] by (simp add: get_vm_def vm_new_def Let_def)
qed

section \<open>Snapshot, then resume\<close>

text \<open>A run of the store from its beginning is well addressed.\<close>

lemma store_run_good:
  assumes "env_ok env (\<lambda>_. True)" "list_all (op_addressed (env_sha env) (\<lambda>_. True)) os"
  shows "store_good env (\<lambda>_. True) (\<lambda>_. True) hm_get (fold (store_step memory_ops env) os (store_new limit []))"
proof -
  have "store_good env (\<lambda>_. True) (\<lambda>_. True) hm_get (store_new limit [])" by (rule store_new_good) simp_all
  from memory.run_good [OF this assms(1)] assms(2) show ?thesis by blast
qed

lemma snapshot_vm_manifest: "snapshot_vm ho fresh now i m h = (h', m', Inr s) \<Longrightarrow> vs_manifest s = memory_manifest"
  by (auto simp: snapshot_vm_def on_vm_def take_snapshot_def Let_def
      split: option.splits sum.splits prod.splits)

lemma create_snapshot_stored:
  assumes "create_snapshot ho env fr rq h a = (h', a', Inr resp)"
  obtains obj ttl e where "parse_ttl (snap_ttl rq) = Ok ttl" "st_id obj = StateId (af_state fr)" "st_vm_config obj = demo_vm_config"
    "st_manifest obj = memory_manifest" "st_metadata obj = \<lparr>meta_label = snap_label rq, meta_created_at = af_created fr, meta_ttl_seconds = ttl\<rparr>"
    "store_state memory_ops env (af_expiry_from fr) (af_stored fr) obj (ap_store a) = (ap_store a', Inr e)"
    "snap_state_id resp = af_state fr" "snap_label rq \<noteq> []"
proof -
  obtain ttl where ttl: "parse_ttl (snap_ttl rq) = Ok ttl" "snap_label rq \<noteq> []"
    using assms by (auto simp: create_snapshot_def split: if_splits sum.splits)
  obtain vms i where c: "create_vm (af_vm fr) demo_vm_config (ap_vms a) = (vms, i)" by fastforce
  obtain h1 vms1 where b: "boot_vm ho i vms h = (h1, vms1, Inr ())"
    using assms ttl c by (auto simp: create_snapshot_def Let_def split: sum.splits prod.splits)
  obtain h2 vms2 s where t: "snapshot_vm ho (af_snapshot fr) (af_now fr) i vms1 h1 = (h2, vms2, Inr s)"
    using assms ttl c b by (auto simp: create_snapshot_def Let_def split: sum.splits prod.splits)
  define obj where "obj = \<lparr>st_id = StateId (af_state fr), st_vm_config = demo_vm_config, st_cpu = vs_cpu s,
                          st_manifest = vs_manifest s, st_fds = get_descriptors (ap_proxy a),
                          st_sockets = get_socket_table (ap_proxy a), st_devices = [],
                          st_log = get_event_log (ap_logger a), st_ui = \<lparr>stream_id = af_stream fr\<rparr>,
                          st_metadata = \<lparr>meta_label = snap_label rq, meta_created_at = af_created fr,
                            meta_ttl_seconds = ttl\<rparr>\<rparr>"
  obtain st e where "store_state memory_ops env (af_expiry_from fr) (af_stored fr) obj (ap_store a) = (st, Inr e)"
      "a' = a\<lparr>ap_vms := vms2, ap_store := st\<rparr>" "resp = \<lparr>snap_state_id = af_state fr\<rparr>"
    using assms ttl c b t by (auto simp: create_snapshot_def Let_def simp flip: obj_def split: sum.splits prod.splits)
  then show thesis
    using ttl snapshot_vm_manifest [OF t] by (intro that [of ttl obj]) (simp_all add: obj_def)
qed

text \<open>C18. A snapshot can be resumed: after a snapshot has been accepted, and after any run of other operations of
  the store, a request to resume it finds the state and starts a machine of the snapshot's
  configuration; it can only fail in booting that machine.  But the machine is a fresh one: no snapshot is loaded.\<close>

theorem snapshot_then_resume:
  assumes "env_ok env (\<lambda>_. True)" "list_all (op_addressed (env_sha env) (\<lambda>_. True)) (os1 @ os2)"
    and "ap_store a = fold (store_step memory_ops env) os1 (store_new limit [])"
    and "create_snapshot ho env fr rq h a = (h1, a1, Inr resp)" "snap_state_id resp \<noteq> []"
    and "\<And>s d d'. st_id s = StateId (snap_state_id resp) \<Longrightarrow> env_ser env s = Inr d \<Longrightarrow> env_sha env d' = env_sha env d \<Longrightarrow> d' = d"
    and "list_all (\<lambda>op. \<not> touches (StateId (snap_state_id resp)) op) os2"
    and "ap_store a2 = fold (store_step memory_ops env) os2 (ap_store a1)"
    and "res_state_id rq2 = snap_state_id resp" "resume_state ho env fr2 rq2 h2 a2 = (h3, a3, r)"
  shows "(r = Ok \<lparr>resp_accepted = True, resp_region = (case res_region rq2 of None \<Rightarrow> ''nearest'' | Some r \<Rightarrow> r),
              resp_mode = (case res_mode rq2 of None \<Rightarrow> ''collaborative'' | Some m \<Rightarrow> m)\<rparr> \<or>
          (\<exists>e. r = Err (ApiFail 500 (''Failed to boot VM: '' @ vm_show e)))) \<and>
    (\<exists>vm. get_vm (af_vm fr2) (ap_vms a3) = Some vm \<and> vm_cfg vm = demo_vm_config) \<and>
    filter loads_snapshot (requests h3) = filter loads_snapshot (requests h2)"
proof -
  obtain obj ttl e where obj: "st_id obj = StateId (af_state fr)" "st_vm_config obj = demo_vm_config"
    "store_state memory_ops env (af_expiry_from fr) (af_stored fr) obj (ap_store a) = (ap_store a1, Inr e)"
    "snap_state_id resp = af_state fr" by (rule create_snapshot_stored [OF assms(4)])
  obtain d where d: "env_ser env obj = Inr d" using obj(3) by (auto simp: store_state_def split: sum.splits)
  have good: "store_good env (\<lambda>_. True) (\<lambda>_. True) hm_get (ap_store a)"
    using store_run_good [OF assms(1), of os1 limit] assms(2,3) by simp
  obtain st s where get: "get_state memory_ops env (st_id obj) (fold (store_step memory_ops env) os2 (ap_store a1)) = (st, s)"
    by fastforce
  have "s = Ok obj"
    using memory.stored_then_fetched [OF good assms(1) _ _ d _ obj(3) get] assms(2,6,7) obj(1,4) d by auto
  obtain vms i where c: "create_vm (af_vm fr2) demo_vm_config (ap_vms a2) = (vms, i)" by fastforce
  obtain h4 vms4 r4 where b: "boot_vm ho i vms h2 = (h4, vms4, r4)" by (metis prod_cases3)
  have "i = af_vm fr2" using c by (simp add: create_vm_def)
  then show ?thesis
    using assms(5,8,9,10) get \<open>s = Ok obj\<close> obj b c boot_created [OF c b]
    by (cases r4) (auto simp: resume_state_def Let_def)
qed

section \<open>Forks and refused snapshots\<close>

text \<open>A fork is a copy: after an accepted fork and any run of other operations of the store, the state under
  the new identifier is the original's, but for the identifier, the stream, the label and the date.\<close>

theorem fork_reads_back:
  assumes "env_ok env (\<lambda>_. True)" "list_all (op_addressed (env_sha env) (\<lambda>_. True)) (os1 @ os2)"
    and "ap_store a = fold (store_step memory_ops env) os1 (store_new limit [])"
    and "get_state memory_ops env (StateId (fork_state_id rq)) (ap_store a) = (st0, Inr s)"
    and "fork_state env fr rq a = (a', Inr resp)"
    and "\<And>x d d'. st_id x = StateId (fork_new_state_id resp) \<Longrightarrow> env_ser env x = Inr d \<Longrightarrow> env_sha env d' = env_sha env d \<Longrightarrow> d' = d"
    and "list_all (\<lambda>op. \<not> touches (StateId (fork_new_state_id resp)) op) os2"
    and "get_state memory_ops env (StateId (fork_new_state_id resp)) (fold (store_step memory_ops env) os2 (ap_store a')) = (st', r)"
  shows "r = Ok (s\<lparr>st_id := StateId (fork_new_state_id resp), st_ui := \<lparr>stream_id = af_stream fr\<rparr>,
    st_metadata := (st_metadata s)\<lparr>meta_created_at := af_created fr,
      meta_label := (case fork_label rq of None \<Rightarrow> ''fork-of-'' @ meta_label (st_metadata s) | Some l \<Rightarrow> l)\<rparr>\<rparr>)"
proof -
  obtain e where st: "store_state memory_ops env (af_expiry_from fr) (af_stored fr) (fork_of fr rq s) st0 = (ap_store a', Inr e)"
    and id: "fork_new_state_id resp = af_state fr"
    using assms(4,5) by (auto simp: fork_state_def split: if_splits sum.splits prod.splits)
  have idf: "st_id (fork_of fr rq s) = StateId (af_state fr)" by (simp add: fork_of_def)
  obtain d where d: "env_ser env (fork_of fr rq s) = Inr d" using st by (auto simp: store_state_def split: sum.splits)
  have "store_good env (\<lambda>_. True) (\<lambda>_. True) hm_get (fold (store_step memory_ops env) (os1 @ [OpGet (StateId (fork_state_id rq))]) (store_new limit []))"
    using assms(1,2) by (intro store_run_good) simp_all
  then have good: "store_good env (\<lambda>_. True) (\<lambda>_. True) hm_get st0" using assms(3,4) by simp
  have "r = Ok (fork_of fr rq s)"
    using memory.stored_then_fetched [OF good assms(1) _ _ d _ st, of os2 st' r] assms(2,6,7,8) id idf d by auto
  then show ?thesis by (simp add: fork_of_def id)
qed

lemma store_state_refused: "store_state ops env t1 t2 s st = (st', Inl e) \<Longrightarrow> store_index st' = store_index st"
  by (auto simp: store_state_def Let_def split: sum.splits prod.splits option.splits)

lemma created_stays:
  assumes "boot_vm ho i vms h = (h', vms', r)" "get_vm i vms \<noteq> None"
  shows "get_vm i vms' \<noteq> None"
  using assms by (auto simp: boot_vm_def on_vm_def get_vm_def split: option.splits prod.splits)

lemma snapshot_stays:
  assumes "snapshot_vm ho fresh now i vms h = (h', vms', r)" "get_vm i vms \<noteq> None"
  shows "get_vm i vms' \<noteq> None"
  using assms by (auto simp: snapshot_vm_def on_vm_def get_vm_def split: option.splits prod.splits)

text \<open>A refused snapshot lists no state and leaves the log and the connections; one refused for its label or its
  time to live has touched nothing.  Any other leaves the machine it was made for with the manager.\<close>

theorem refused_snapshot:
  assumes "create_snapshot ho env fr rq h a = (h', a', Inl e)"
  shows "list_states (ap_store a') = list_states (ap_store a) \<and> ap_logger a' = ap_logger a \<and> ap_proxy a' = ap_proxy a \<and>
    (if snap_label rq = [] \<or> (\<exists>x. parse_ttl (snap_ttl rq) = Inl x) then h' = h \<and> a' = a
     else get_vm (af_vm fr) (ap_vms a') \<noteq> None)"
proof -
  obtain vms i where c: "create_vm (af_vm fr) demo_vm_config (ap_vms a) = (vms, i)" by fastforce
  then have "i = af_vm fr" "get_vm i vms \<noteq> None" by (auto simp: create_vm_def get_vm_def)
  then show ?thesis
    using assms c
    by (auto simp: create_snapshot_def list_states_def Let_def split: if_splits sum.splits prod.splits
        dest!: store_state_refused created_stays snapshot_stays)
qed

section \<open>Examples\<close>

definition snapshot_ids :: fresh_ids where
  "snapshot_ids = \<lparr>af_vm = ''v1'', af_snapshot = ''n1'', af_state = ''s1'', af_stream = ''u1'', af_now = 0, af_created = 1,
     af_expiry_from = 2, af_stored = 3\<rparr>"

definition fork_ids :: fresh_ids where
  "fork_ids = snapshot_ids\<lparr>af_vm := ''v2'', af_state := ''s2'', af_stream := ''u2'', af_created := 9\<rparr>"

definition snapped_state :: "unit state" where
  "snapped_state =
     \<lparr>st_id = StateId ''s1'', st_vm_config = demo_vm_config, st_cpu = \<lparr>arch = ''x86_64'', registers = ()\<rparr>,
      st_manifest = memory_manifest, st_fds = [], st_sockets = [], st_devices = [], st_log = \<lparr>log_events = []\<rparr>,
      st_ui = \<lparr>stream_id = ''u1''\<rparr>,
      st_metadata = \<lparr>meta_label = ''first'', meta_created_at = 1, meta_ttl_seconds = Some 86400\<rparr>\<rparr>"

definition fork_request_example :: fork_request where
  "fork_request_example = \<lparr>fork_state_id = ''s1'', fork_label = None\<rparr>"

definition api_env :: "unit store_env" where
  "api_env =
     \<lparr>env_ser = (\<lambda>s. if s = snapped_state then Ok [1]
        else if s = fork_of fork_ids fork_request_example snapped_state then Ok [2] else Err ''unsupported''),
      env_de = (\<lambda>d. Ok (if d = [1] then snapped_state else fork_of fork_ids fork_request_example snapped_state)),
      env_sha = (\<lambda>d. if d = [1] then ''a1'' else if d = [2] then ''b2'' else ''c3''),
      env_add_seconds = (\<lambda>t n. Some (t + n * 1000000000))\<rparr>"

lemma api_env_ok: "env_ok api_env (\<lambda>_. True)"
  by (simp add: env_ok_def api_env_def fork_of_def snapped_state_def fork_ids_def snapshot_ids_def)

lemma api_env_no_collision: "env_ser api_env x = Inr d \<Longrightarrow> env_sha api_env d' = env_sha api_env d \<Longrightarrow> d' = d"
  by (auto simp: api_env_def split: if_splits)

lemma ttl_example: "parse_ttl (Some ''24h'') = Ok (Some 86400)"
  by (simp add: parse_ttl_def char_digit_def is_digit_def parse_u64_def digits_value_def ustr_of_def unit_factor_def Let_def)

lemma taken_example:
  assumes "vm_client vm = Some c"
  shows "\<exists>h' vm' s. take_snapshot (host_refusing '''') n now vm h = (h', vm', Ok s) \<and> vs_cpu s = \<lparr>arch = ''x86_64'', registers = ()\<rparr>"
  using assms
  by (simp add: take_snapshot_def Let_def act_def with_client_def fc_snapshot_def and_then_def fc_pause_vm_def fc_resume_vm_def
      create_full_snapshot_def fc_put_def fc_request_def host_refusing_def http_success_def map_err_def capture_cpu_state_def
      get_cpu_config_def fc_get_def split: prod.splits sum.splits)

lemma vm_client_updated: "vm_client (vm\<lparr>vm_client := c, vm_stat := s, vm_process := p\<rparr>) = c"
  by simp

lemma snapshot_example:
  "\<exists>h vms st e. create_snapshot (host_refusing '''') api_env snapshot_ids \<lparr>snap_label = ''first'', snap_ttl = Some ''24h''\<rparr> [] app_new =
     (h, app_new\<lparr>ap_vms := vms, ap_store := st\<rparr>, Ok \<lparr>snap_state_id = ''s1''\<rparr>) \<and>
     store_state memory_ops api_env 2 3 snapped_state (ap_store app_new) = (st, Inr e)"
proof -
  let ?vm = "vm_new ''v1'' demo_vm_config fc_settings_default"
  let ?vm1 = "?vm\<lparr>vm_client := Some (fc_client_new (vm_socket ?vm)), vm_stat := VmRunning, vm_process := Some 4\<rparr>"
  obtain h1 where boot: "vm_boot (host_refusing '''') ?vm [] = (h1, ?vm1, Ok ())" using boot_example [of ?vm "[]"] by auto
  obtain h2 vm2 s where snap: "take_snapshot (host_refusing '''') ''n1'' 0 ?vm1 h1 = (h2, vm2, Ok s)"
      "vs_cpu s = \<lparr>arch = ''x86_64'', registers = ()\<rparr>" using taken_example [of ?vm1, OF vm_client_updated] by blast
  have man: "vs_manifest s = memory_manifest"
    using snap(1) by (auto simp: take_snapshot_def Let_def split: option.splits sum.splits prod.splits)
  obtain st e where store: "store_state memory_ops api_env 2 3 snapped_state (ap_store app_new) = (st, Inr e)"
    by (auto simp: store_state_def api_env_def memory_ops_def mem_put_def snapped_state_def Let_def split: prod.splits)
  show ?thesis
    using store boot snap man ttl_example
    by (simp add: create_snapshot_def create_vm_def boot_vm_def on_vm_def snapshot_vm_def app_new_def vm_manager_new_def
        snapshot_ids_def snapped_state_def proxy_new_def det_logger_new_def set_recording_def get_event_log_def
        get_descriptors_def get_socket_table_def hm_values_def)
qed

lemma snapshot_then_resume_witness:
  "\<exists>h1 a1 h3 a3 r vm. create_snapshot (host_refusing '''') api_env snapshot_ids \<lparr>snap_label = ''first'', snap_ttl = Some ''24h''\<rparr> [] app_new =
       (h1, a1, Ok \<lparr>snap_state_id = ''s1''\<rparr>) \<and>
     resume_state (host_refusing '''') api_env fork_ids \<lparr>res_state_id = ''s1'', res_mode = None, res_region = None\<rparr> []
       (a1\<lparr>ap_store := fold (store_step memory_ops api_env) [OpIncrement (StateId ''s1''), OpDelete (StateId ''zz'')] (ap_store a1)\<rparr>) =
       (h3, a3, r) \<and> get_vm ''v2'' (ap_vms a3) = Some vm \<and> vm_cfg vm = demo_vm_config"
proof -
  let ?os = "[OpIncrement (StateId ''s1''), OpDelete (StateId ''zz'')]"
  obtain h1 vms st where snap: "create_snapshot (host_refusing '''') api_env snapshot_ids
      \<lparr>snap_label = ''first'', snap_ttl = Some ''24h''\<rparr> [] app_new = (h1, app_new\<lparr>ap_vms := vms, ap_store := st\<rparr>, Ok \<lparr>snap_state_id = ''s1''\<rparr>)"
    using snapshot_example by blast
  let ?a1 = "(app_new :: unit app_state)\<lparr>ap_vms := vms, ap_store := st\<rparr>"
  let ?a2 = "?a1\<lparr>ap_store := fold (store_step memory_ops api_env) ?os (ap_store ?a1)\<rparr>"
  obtain h3 a3 r where res: "resume_state (host_refusing '''') api_env fork_ids
      \<lparr>res_state_id = ''s1'', res_mode = None, res_region = None\<rparr> [] ?a2 = (h3, a3, r)" by (metis prod_cases3)
  have "\<exists>vm. get_vm (af_vm fork_ids) (ap_vms a3) = Some vm \<and> vm_cfg vm = demo_vm_config"
    by (rule snapshot_then_resume [OF api_env_ok _ _ snap _ _ _ _ _ res, of "[]" ?os "1024 * 1024 * 1024", THEN conjunct2, THEN conjunct1])
      (auto simp: app_new_def dest: api_env_no_collision)
  then show ?thesis using snap res by (auto simp: fork_ids_def)
qed

lemma fork_reads_back_witness:
  "\<exists>a a' st' f. fork_state api_env fork_ids fork_request_example a = (a', Ok \<lparr>fork_new_state_id = ''s2''\<rparr>) \<and>
     get_state memory_ops api_env (StateId ''s2'') (ap_store a') = (st', Ok f) \<and> st_manifest f = memory_manifest \<and>
     meta_label (st_metadata f) = ''fork-of-first''"
proof -
  let ?a = "(app_new :: unit app_state)\<lparr>ap_store := fold (store_step memory_ops api_env) [OpStore 2 3 snapped_state] (store_new (1024 * 1024 * 1024) [])\<rparr>"
  have st: "get_state memory_ops api_env (StateId (fork_state_id fork_request_example)) (ap_store ?a) = (ap_store ?a, Inr snapped_state)"
    by (simp add: get_state_def store_state_def api_env_def memory_ops_def mem_put_def fetch_content_def cache_content_def
        fork_request_example_def snapped_state_def store_new_def hm_len_def Let_def map_err_def)
  have "\<exists>a'. fork_state api_env fork_ids fork_request_example ?a = (a', Ok \<lparr>fork_new_state_id = ''s2''\<rparr>)"
    using st by (simp add: fork_state_def store_state_def api_env_def memory_ops_def mem_put_def Let_def
        fork_request_example_def fork_ids_def snapshot_ids_def fork_of_def snapped_state_def)
  then obtain a' where fork: "fork_state api_env fork_ids fork_request_example ?a = (a', Ok \<lparr>fork_new_state_id = ''s2''\<rparr>)" by blast
  obtain st' r where get: "get_state memory_ops api_env (StateId ''s2'') (fold (store_step memory_ops api_env) [] (ap_store a')) = (st', r)"
    by fastforce
  let ?f = "snapped_state\<lparr>st_id := StateId ''s2'', st_ui := \<lparr>stream_id = af_stream fork_ids\<rparr>,
    st_metadata := (st_metadata snapped_state)\<lparr>meta_created_at := af_created fork_ids, meta_label := ''fork-of-first''\<rparr>\<rparr>"
  have "r = Ok ?f"
    using fork_reads_back [OF api_env_ok _ _ st fork, of "[OpStore 2 3 snapped_state]" "[]" "1024 * 1024 * 1024" st' r]
      get api_env_no_collision by (simp add: fork_request_example_def snapped_state_def)
  then have "get_state memory_ops api_env (StateId ''s2'') (ap_store a') = (st', Ok ?f)" using get by simp
  moreover have "st_manifest ?f = memory_manifest" "meta_label (st_metadata ?f) = ''fork-of-first''"
    by (simp_all add: snapped_state_def)
  ultimately show ?thesis using fork by blast
qed

lemma refused_snapshot_witness:
  "\<exists>h' a' e. create_snapshot (host_refusing '''') api_env snapshot_ids \<lparr>snap_label = ''other'', snap_ttl = Some ''24h''\<rparr> [] app_new =
     (h', a', Inl e) \<and> list_states (ap_store a') = list_states (ap_store (app_new :: unit app_state)) \<and> get_vm ''v1'' (ap_vms a') \<noteq> None"
proof -
  obtain h' a' r where run: "create_snapshot (host_refusing '''') api_env snapshot_ids
    \<lparr>snap_label = ''other'', snap_ttl = Some ''24h''\<rparr> [] app_new = (h', a', r)" by (metis prod_cases3)
  obtain e where "r = Inl e"
  proof (cases r)
    case (Inr resp)
    then show thesis using run by (auto elim!: create_snapshot_stored simp: store_state_def api_env_def
          snapped_state_def fork_of_def fork_request_example_def split: if_splits sum.splits)
  qed
  from refused_snapshot [OF run [unfolded this]] show ?thesis using run ttl_example \<open>r = Inl e\<close>
    by (auto simp: snapshot_ids_def)
qed

end
