(* ===== verification/Uffd.thy ===== *)
theory Uffd
  imports Model
begin

text \<open>
  \<^verbatim>\<open>src/src/userfaultfd.rs\<close> (Linux, 64 bits): the wrapper of a userfaultfd descriptor and the loop that
  handles faults.  The kernel is a parameter with a state \<open>'k\<close>: it answers the creation, the ioctls
  (the number of the request and its argument), reads and polls.  A message is the buffer of bytes the kernel
  has written, little-endian.  The module reads a field \<^verbatim>\<open>end\<close> of \<^verbatim>\<open>userfaultfd_range\<close>, which
  is taken to be its second word.
\<close>

section \<open>Data\<close>

record uffd =
  uf_fd :: int
  uf_page_size :: u64

datatype uffd_event =
    PageFaultEvent (pf_addr: u64) (pf_ip: u64) (pf_flags: u32)
  | UnmapEvent u64 u64
  | RemapEvent u64 u64 u64
  | RemoveEvent u64 u64
  | CopyEvent u64 u64 u64

datatype uffd_error =
    CreateError string
  | ApiError string
  | ApiMismatch u64 u64
  | RegisterError string
  | UnregisterError string
  | ReadError string
  | InvalidEventSize
  | CopyError string
  | ZeroFillError string
  | WakeError string
  | PollError string
  | InvalidPageSize nat u64
  | PartialCopy u64 u64

record uffd_range =
  ur_start :: u64
  ur_len :: u64

datatype uffd_arg =
    RegisterArg uffd_range u64
  | RangeArg uffd_range
  | CopyArg bytes u64 u64 u64
  | ZeroArg uffd_range u64
  | ApiArg u64

definition uffdio_register :: u64 where "uffdio_register = 0xc018"
definition uffdio_unregister :: u64 where "uffdio_unregister = 0x2018"
definition uffdio_copy :: u64 where "uffdio_copy = 0xc020"
definition uffdio_zeropage :: u64 where "uffdio_zeropage = 0xc020"
definition uffdio_wake :: u64 where "uffdio_wake = 0x2018"
definition uffdio_api :: u64 where "uffdio_api = 0xc010"
definition uffd_api :: u64 where "uffd_api = 0xaa"
definition mode_missing :: u64 where "mode_missing = 1"

text \<open>The kernel.  An ioctl that succeeds gives back the word that it has written into its argument (the
  count of \<^verbatim>\<open>uffdio_copy\<close>, the version of \<^verbatim>\<open>uffdio_api\<close>); a read the number of bytes and the buffer.\<close>

datatype uffd_read = WouldBlock | ReadFailed string | ReadBytes nat bytes
datatype uffd_poll = PollFailed string | PollTimeout | PollReady bool

record 'k uffd_kernel =
  uk_create :: "'k \<Rightarrow> 'k \<times> (string, int \<times> u64) result"
  uk_ioctl :: "u64 \<Rightarrow> uffd_arg \<Rightarrow> 'k \<Rightarrow> 'k \<times> (string, u64) result"
  uk_read :: "nat \<Rightarrow> 'k \<Rightarrow> 'k \<times> uffd_read"
  uk_poll :: "u32 \<Rightarrow> 'k \<Rightarrow> 'k \<times> uffd_poll"

section \<open>The descriptor\<close>

definition uffd_new :: "'k uffd_kernel \<Rightarrow> 'k \<Rightarrow> 'k \<times> (uffd_error, uffd) result" where
  "uffd_new kn k =
     (case uk_create kn k of
        (k, Inl e) \<Rightarrow> (k, Err (CreateError e))
      | (k, Inr (fd, ps)) \<Rightarrow> (k, Ok \<lparr>uf_fd = fd, uf_page_size = ps\<rparr>))"

definition align_down :: "u64 \<Rightarrow> u64 \<Rightarrow> u64" where
  "align_down ps a = and a (not (ps - 1))"

definition align_up :: "u64 \<Rightarrow> u64 \<Rightarrow> u64" where
  "align_up ps n = and (n + ps - 1) (not (ps - 1))"

definition aligned_range :: "uffd \<Rightarrow> u64 \<Rightarrow> u64 \<Rightarrow> uffd_range" where
  "aligned_range u start n = \<lparr>ur_start = align_down (uf_page_size u) start, ur_len = align_up (uf_page_size u) n\<rparr>"

definition uffd_register :: "'k uffd_kernel \<Rightarrow> uffd \<Rightarrow> u64 \<Rightarrow> u64 \<Rightarrow> 'k \<Rightarrow> 'k \<times> (uffd_error, unit) result" where
  "uffd_register kn u start n k =
     (case uk_ioctl kn uffdio_register (RegisterArg (aligned_range u start n) mode_missing) k of
        (k, Inl e) \<Rightarrow> (k, Err (RegisterError e))
      | (k, Inr w) \<Rightarrow> (k, Ok ()))"

definition uffd_unregister :: "'k uffd_kernel \<Rightarrow> uffd \<Rightarrow> u64 \<Rightarrow> u64 \<Rightarrow> 'k \<Rightarrow> 'k \<times> (uffd_error, unit) result" where
  "uffd_unregister kn u start n k =
     (case uk_ioctl kn uffdio_unregister (RangeArg (aligned_range u start n)) k of
        (k, Inl e) \<Rightarrow> (k, Err (UnregisterError e))
      | (k, Inr w) \<Rightarrow> (k, Ok ()))"

definition uffd_copy_page :: "'k uffd_kernel \<Rightarrow> uffd \<Rightarrow> u64 \<Rightarrow> bytes \<Rightarrow> 'k \<Rightarrow> 'k \<times> (uffd_error, unit) result" where
  "uffd_copy_page kn u dst d k =
     (if length d \<noteq> unat (uf_page_size u) then (k, Err (InvalidPageSize (length d) (uf_page_size u)))
      else
        (case uk_ioctl kn uffdio_copy (CopyArg d (align_down (uf_page_size u) dst) (uf_page_size u) 0) k of
           (k, Inl e) \<Rightarrow> (k, Err (CopyError e))
         | (k, Inr n) \<Rightarrow>
             if n \<noteq> uf_page_size u then (k, Err (PartialCopy n (uf_page_size u))) else (k, Ok ())))"

definition uffd_zerofill_page :: "'k uffd_kernel \<Rightarrow> uffd \<Rightarrow> u64 \<Rightarrow> 'k \<Rightarrow> 'k \<times> (uffd_error, unit) result" where
  "uffd_zerofill_page kn u dst k =
     (case uk_ioctl kn uffdio_zeropage
        (ZeroArg \<lparr>ur_start = align_down (uf_page_size u) dst, ur_len = uf_page_size u\<rparr> 0) k of
        (k, Inl e) \<Rightarrow> (k, Err (ZeroFillError e))
      | (k, Inr w) \<Rightarrow> (k, Ok ()))"

definition uffd_wake :: "'k uffd_kernel \<Rightarrow> uffd \<Rightarrow> u64 \<Rightarrow> u64 \<Rightarrow> 'k \<Rightarrow> 'k \<times> (uffd_error, unit) result" where
  "uffd_wake kn u start n k =
     (case uk_ioctl kn uffdio_wake (RangeArg (aligned_range u start n)) k of
        (k, Inl e) \<Rightarrow> (k, Err (WakeError e))
      | (k, Inr w) \<Rightarrow> (k, Ok ()))"

datatype uffd_mode = ModeMissing | ModeWriteProtect | ModeMinor

definition uffd_set_mode :: "'k uffd_kernel \<Rightarrow> uffd \<Rightarrow> uffd_mode \<Rightarrow> 'k \<Rightarrow> 'k \<times> (uffd_error, unit) result" where
  "uffd_set_mode kn u mode k =
     (case uk_ioctl kn uffdio_api (ApiArg uffd_api) k of
        (k, Inl e) \<Rightarrow> (k, Err (ApiError e))
      | (k, Inr v) \<Rightarrow> if v \<noteq> uffd_api then (k, Err (ApiMismatch v uffd_api)) else (k, Ok ()))"

definition uffd_poll :: "'k uffd_kernel \<Rightarrow> u32 option \<Rightarrow> 'k \<Rightarrow> 'k \<times> (uffd_error, bool) result" where
  "uffd_poll kn timeout k =
     (case uk_poll kn (case timeout of None \<Rightarrow> 0 | Some t \<Rightarrow> t) k of
        (k, PollFailed e) \<Rightarrow> (k, Err (PollError e))
      | (k, PollTimeout) \<Rightarrow> (k, Ok False)
      | (k, PollReady inp) \<Rightarrow> (k, Ok inp))"

section \<open>Messages\<close>

text \<open>\<^verbatim>\<open>uffd_msg\<close>: two words of 32 bits and a union of 96 bytes.\<close>

definition uffd_msg_size :: nat where
  "uffd_msg_size = 104"

fun le_val :: "bytes \<Rightarrow> nat" where
  "le_val [] = 0"
| "le_val (b # bs) = unat b + 256 * le_val bs"

lemma le_val_replicate [simp]: "le_val (replicate n 0) = 0"
  by (induction n) simp_all

lemma le_val_append: "le_val (xs @ ys) = le_val xs + 256 ^ length xs * le_val ys"
  by (induction xs) (simp_all add: algebra_simps)

definition le32_at :: "nat \<Rightarrow> bytes \<Rightarrow> u32" where
  "le32_at i m = of_nat (le_val (take 4 (drop i m)))"

definition le64_at :: "nat \<Rightarrow> bytes \<Rightarrow> u64" where
  "le64_at i m = of_nat (le_val (take 8 (drop i m)))"

definition decode_msg :: "bytes \<Rightarrow> uffd_event option" where
  "decode_msg m =
     (let ev = le32_at 0 m in
      if ev = 1 then Some (PageFaultEvent (le64_at 16 m) (le64_at 24 m) (le32_at 8 m))
      else if ev = 2 then Some (UnmapEvent (le64_at 8 m) (le64_at 16 m))
      else if ev = 3 then Some (RemapEvent (le64_at 8 m) (le64_at 16 m) (le64_at 24 m))
      else if ev = 4 then Some (RemoveEvent (le64_at 8 m) (le64_at 16 m))
      else if ev = 5 then Some (CopyEvent (le64_at 8 m) (le64_at 16 m) (le64_at 24 m))
      else None)"

definition read_event :: "'k uffd_kernel \<Rightarrow> 'k \<Rightarrow> 'k \<times> (uffd_error, uffd_event option) result" where
  "read_event kn k =
     (case uk_read kn uffd_msg_size k of
        (k, WouldBlock) \<Rightarrow> (k, Ok None)
      | (k, ReadFailed e) \<Rightarrow> (k, Err (ReadError e))
      | (k, ReadBytes n m) \<Rightarrow>
          if n \<noteq> uffd_msg_size then (k, Err InvalidEventSize) else (k, Ok (decode_msg m)))"

section \<open>The handler of faults\<close>

text \<open>The handler with its state: the descriptor and the flag, which \<^verbatim>\<open>stop\<close> clears.\<close>

definition handler_new :: "'k uffd_kernel \<Rightarrow> 'k \<Rightarrow> 'k \<times> (uffd_error, uffd) result" where
  "handler_new kn k =
     (case uffd_new kn k of
        (k, Inl e) \<Rightarrow> (k, Err e)
      | (k, Inr u) \<Rightarrow> (case uffd_set_mode kn u ModeMissing k of (k, Inl e) \<Rightarrow> (k, Err e) | (k, Inr v) \<Rightarrow> (k, Ok u)))"

text \<open>One turn of the loop; the flag says that the loop goes on.  The content that \<open>handler\<close> would give for an
  address is never asked for.\<close>

definition handler_turn :: "'k uffd_kernel \<Rightarrow> uffd \<Rightarrow> (u64 \<Rightarrow> (uffd_error, bytes) result) \<Rightarrow> 'k \<Rightarrow> 'k \<times> bool" where
  "handler_turn kn u handler k =
     (case uk_poll kn 1000 k of
        (k, PollReady True) \<Rightarrow>
          (case read_event kn k of
             (k, Inl e) \<Rightarrow> (k, False)
           | (k, Inr None) \<Rightarrow> (k, True)
           | (k, Inr (Some (PageFaultEvent addr ip flags))) \<Rightarrow>
               (fst (uffd_zerofill_page kn u (align_down (uf_page_size u) addr) k), True)
           | (k, Inr (Some ev)) \<Rightarrow> (k, True))
      | (k, p) \<Rightarrow> (k, True))"

text \<open>The loop: \<open>None\<close> when it never ends.  Whether the flag is still set is read off the state.\<close>

partial_function (option) handler_loop :: "'k uffd_kernel \<Rightarrow> uffd \<Rightarrow> (u64 \<Rightarrow> (uffd_error, bytes) result) \<Rightarrow>
    ('k \<Rightarrow> bool) \<Rightarrow> 'k \<Rightarrow> 'k option" where
  "handler_loop kn u handler running k =
     (if running k then
        (case handler_turn kn u handler k of
           (k', goes_on) \<Rightarrow> if goes_on then handler_loop kn u handler running k' else Some k')
      else Some k)"

section \<open>Aligned ranges\<close>

lemma align_down_unat:
  assumes "p < 64"
  shows "unat (align_down (2 ^ p) a) = 2 ^ p * (unat a div 2 ^ p)"
proof -
  have "and a (not (mask p)) = push_bit p (drop_bit p a)" by (rule bit_eqI) (auto simp: bit_simps)
  then have "align_down (2 ^ p) a = a - take_bit p a"
    unfolding align_down_def mask_eq_exp_minus_1 [symmetric] using bits_ident [of p a] by (simp add: eq_diff_eq)
  moreover have "unat (take_bit p a) = unat a mod 2 ^ p" unfolding unsigned_take_bit_eq by (simp add: take_bit_eq_mod)
  moreover have "take_bit p a \<le> a" by (simp add: word_le_nat_alt calculation(2))
  ultimately show ?thesis by (simp add: unat_sub minus_mod_eq_mult_div)
qed

lemma align_up_unat:
  assumes "p < 64" "unat n + 2 ^ p \<le> 2 ^ 64"
  shows "unat (align_up (2 ^ p) n) = 2 ^ p * ((unat n + 2 ^ p - 1) div 2 ^ p)"
proof -
  have "(2 :: nat) ^ p - 1 < 2 ^ 64" using assms(2) zero_less_power [of "2 :: nat" p] by simp
  moreover have "(2 ^ p - 1 :: u64) = of_nat (2 ^ p - 1)" by (simp add: of_nat_diff)
  ultimately have "unat (2 ^ p - 1 :: u64) = 2 ^ p - 1" using unat_of_nat [of "2 ^ p - 1", where 'a = 64] by auto
  moreover have "unat n + (2 ^ p - 1) < 2 ^ 64" using assms(2) zero_less_power [of "2 :: nat" p] by linarith
  ultimately have "unat (n + (2 ^ p - 1)) = unat n + (2 ^ p - 1)"
    using unat_add_lem [of n "2 ^ p - 1"] by simp
  then have "unat (n + 2 ^ p - 1) = unat n + 2 ^ p - 1" by (simp add: add_diff_eq)
  then show ?thesis using align_down_unat [OF assms(1), of "n + 2 ^ p - 1"] by (simp add: align_up_def align_down_def)
qed

text \<open>The start of a region and its length are rounded on their own.  So the range that is registered covers
  the region exactly when it starts on a page boundary, or its last part fits into the page that
  it starts in; otherwise its last page is left out.\<close>

theorem region_covered_iff:
  assumes "uf_page_size u = 2 ^ p" "p < 64" "n \<noteq> 0" "unat start + unat n + 2 ^ p \<le> 2 ^ 64"
  defines "r \<equiv> aligned_range u start n"
  shows "(\<forall>a. unat start \<le> a \<and> a < unat start + unat n \<longrightarrow> unat (ur_start r) \<le> a \<and> a < unat (ur_start r) + unat (ur_len r)) \<longleftrightarrow>
    unat start mod 2 ^ p = 0 \<or> unat n mod 2 ^ p \<noteq> 0 \<and> unat start mod 2 ^ p + unat n mod 2 ^ p \<le> 2 ^ p"
proof -
  define q s m where "q = (2 :: nat) ^ p" and "s = unat start" and "m = unat n"
  have q: "q > 0" by (simp add: q_def)
  have m: "m > 0" using assms(3) by (simp add: m_def unat_gt_0)
  have r: "unat (ur_start r) = q * (s div q)" "unat (ur_len r) = q * ((m + q - 1) div q)"
    using align_down_unat [OF assms(2), of start] align_up_unat [OF assms(2), of n] assms(1,4)
    by (simp_all add: r_def aligned_range_def q_def s_def m_def)
  have s: "s = q * (s div q) + s mod q" by simp
  have up: "q * ((m + q - 1) div q) = (if m mod q = 0 then m else m - m mod q + q)"
  proof (cases "m mod q = 0")
    case True
    then obtain j where "m = q * j" by (auto simp: mod_eq_0_iff_dvd)
    moreover have "(q * j + (q - 1)) div q = j" using q by (intro div_nat_eqI) (auto simp: add_mult_distrib2)
    ultimately show ?thesis using q by simp
  next
    case False
    have "(q * d + e + q - 1) div q = d + 1" if "0 < e" "e < q" for d e
      by (rule div_nat_eqI) (use that in \<open>simp_all add: algebra_simps\<close>)
    from this [of "m mod q" "m div q"] have "(m + q - 1) div q = m div q + 1" using False q by simp
    then show ?thesis using False by (simp add: add_mult_distrib2 minus_mod_eq_mult_div)
  qed
  have "(\<forall>a. s \<le> a \<and> a < s + m \<longrightarrow> q * (s div q) \<le> a \<and> a < q * (s div q) + q * ((m + q - 1) div q)) \<longleftrightarrow>
      s mod q + m \<le> q * ((m + q - 1) div q)" (is "?all \<longleftrightarrow> ?fits")
  proof
    assume ?all
    then have "s + m - 1 < q * (s div q) + q * ((m + q - 1) div q)" using m by simp
    then show ?fits using s m by linarith
  next
    assume ?fits
    then show ?all using s by linarith
  qed
  then show ?thesis
    using up m mod_less_divisor [OF q, of m] by (auto simp: r q_def [symmetric] s_def [symmetric] m_def [symmetric])
qed

section \<open>What the loop does with a message\<close>

text \<open>A message of the size that the module expects is answered: the page that contains the faulting
  address, and it alone, is filled with zeroes, whatever content the handler's owner supplies.\<close>

theorem fault_zero_filled:
  assumes "uk_poll kn 1000 k = (k1, PollReady True)" "uk_read kn uffd_msg_size k1 = (k2, ReadBytes uffd_msg_size m)"
    and "decode_msg m = Some (PageFaultEvent addr ip flags)" "uf_page_size u = 2 ^ p" "p < 64"
  shows "\<exists>page. handler_turn kn u handler k =
      (fst (uk_ioctl kn uffdio_zeropage (ZeroArg \<lparr>ur_start = page, ur_len = uf_page_size u\<rparr> 0) k2), True) \<and>
    unat page mod 2 ^ p = 0 \<and> unat page \<le> unat addr \<and> unat addr < unat page + 2 ^ p"
proof -
  let ?page = "align_down (2 ^ p) addr"
  have idem: "align_down (2 ^ p) ?page = ?page" by (simp add: align_down_def and.assoc)
  have "handler_turn kn u handler k =
      (fst (uk_ioctl kn uffdio_zeropage (ZeroArg \<lparr>ur_start = ?page, ur_len = uf_page_size u\<rparr> 0) k2), True)"
    using assms(1-4) idem
    by (simp add: handler_turn_def read_event_def uffd_zerofill_page_def split: prod.split sum.split)
  moreover have page: "unat ?page = 2 ^ p * (unat addr div 2 ^ p)" by (rule align_down_unat [OF assms(5)])
  then have "unat ?page mod 2 ^ p = 0" by simp
  moreover have "unat ?page \<le> unat addr" unfolding page by (rule times_div_less_eq_dividend)
  moreover have "unat addr < unat ?page + 2 ^ p"
    unfolding page by (subst add.commute, rule dividend_less_times_div) simp
  moreover note \<open>handler_turn kn u handler k = _\<close>
  ultimately show ?thesis by (intro exI [of _ ?page] conjI)
qed

text \<open>The kernel's messages have 32 bytes, and a read returns as many whole ones as fit into the buffer.\<close>

definition delivers_kernel_messages :: "'k uffd_kernel \<Rightarrow> bool" where
  "delivers_kernel_messages kn \<longleftrightarrow>
     (\<forall>k k' n m. uk_read kn uffd_msg_size k = (k', ReadBytes n m) \<longrightarrow> n \<in> {32, 64, 96})"

text \<open>With a kernel that delivers such messages no fault is ever answered: the loop makes no ioctl at all, and
  it ends at the first message.\<close>

theorem kernel_message_ends_handler:
  assumes "delivers_kernel_messages kn"
  shows "handler_turn (kn\<lparr>uk_ioctl := other\<rparr>) u handler k = handler_turn kn u handler k \<and>
    (running k \<and> uk_poll kn 1000 k = (k1, PollReady True) \<and> uk_read kn uffd_msg_size k1 = (k2, ReadBytes n m) \<longrightarrow>
      handler_loop kn u handler running k = Some k2)"
proof
  have size: "n \<noteq> uffd_msg_size" if "uk_read kn uffd_msg_size k = (k', ReadBytes n m)" for k k' n m
    using assms that unfolding delivers_kernel_messages_def uffd_msg_size_def by force
  then have no_event: "read_event kn k \<noteq> (k', Ok (Some ev))" for k k' ev
    by (auto simp: read_event_def split: prod.split uffd_read.split)
  have read: "read_event (kn\<lparr>uk_ioctl := other\<rparr>) k = read_event kn k" for k by (simp add: read_event_def)
  obtain k1 p where poll: "uk_poll kn 1000 k = (k1, p)" by fastforce
  obtain k2 r where ev: "read_event kn k1 = (k2, r)" by fastforce
  have "(\<exists>e. r = Inl e) \<or> r = Inr None" using no_event [of k1 k2] ev by (cases r; cases "projr r") auto
  then show "handler_turn (kn\<lparr>uk_ioctl := other\<rparr>) u handler k = handler_turn kn u handler k"
    using ev by (auto simp: handler_turn_def read poll split: uffd_poll.split bool.split)
  show "running k \<and> uk_poll kn 1000 k = (k1, PollReady True) \<and> uk_read kn uffd_msg_size k1 = (k2, ReadBytes n m) \<longrightarrow>
      handler_loop kn u handler running k = Some k2" for k1 k2
    using size by (subst handler_loop.simps) (auto simp: handler_turn_def read_event_def)
qed

section \<open>Examples\<close>

text \<open>A kernel that counts its ioctls and has one message of the given size to read.\<close>

definition demo_kernel :: "nat \<Rightarrow> bytes \<Rightarrow> nat uffd_kernel" where
  "demo_kernel n m =
     \<lparr>uk_create = (\<lambda>k. (k, Ok (3, 4096))), uk_ioctl = (\<lambda>rq a k. (k + 1, Ok 0)),
      uk_read = (\<lambda>s k. (k, ReadBytes n m)), uk_poll = (\<lambda>t k. (k, PollReady True))\<rparr>"

definition demo_uffd :: uffd where
  "demo_uffd = \<lparr>uf_fd = 3, uf_page_size = 4096\<rparr>"

lemma region_covered_iff_witness:
  "\<exists>a. 4000 \<le> a \<and> a < 4000 + 4096 \<and>
     \<not> (unat (ur_start (aligned_range demo_uffd 4000 4096)) \<le> a \<and>
        a < unat (ur_start (aligned_range demo_uffd 4000 4096)) + unat (ur_len (aligned_range demo_uffd 4000 4096)))"
  using region_covered_iff [of demo_uffd 12 4096 4000] by (auto simp: demo_uffd_def)

lemma fault_zero_filled_witness:
  "\<exists>page. handler_turn (demo_kernel 104 (1 # replicate 16 0 @ [0x12, 0x34] @ replicate 85 0)) demo_uffd (\<lambda>a. Ok []) 0 = (1, True) \<and>
     unat page mod 4096 = 0 \<and> unat page \<le> (0x341200 :: nat) \<and> 0x341200 < unat (page :: u64) + 4096"
proof -
  let ?m = "1 # replicate 16 0 @ [0x12, 0x34] @ replicate 85 0"
  have m: "decode_msg ?m = Some (PageFaultEvent 0x341200 0 0)"
    by (simp add: decode_msg_def le32_at_def le64_at_def le_val_append Let_def)
  show ?thesis
    using fault_zero_filled [OF _ _ m, of "demo_kernel 104 ?m" 0 0 0 demo_uffd 12 "\<lambda>a. Ok []"]
    by (auto simp: demo_kernel_def demo_uffd_def uffd_msg_size_def)
qed

lemma kernel_message_ends_handler_witness:
  "handler_loop (demo_kernel 32 []) demo_uffd (\<lambda>a. Ok []) (\<lambda>k. True) 0 = Some 0"
proof -
  have "delivers_kernel_messages (demo_kernel 32 [])" by (simp add: delivers_kernel_messages_def demo_kernel_def)
  from kernel_message_ends_handler [OF this, of "\<lambda>rq a k. (k, Ok 0)" demo_uffd "\<lambda>a. Ok []" 0 "\<lambda>k. True" 0 0 32 "[]"]
  show ?thesis by (simp add: demo_kernel_def)
qed

end
