(* ===== verification/Kvm.thy ===== *)
theory Kvm
  imports Model "HOL-Library.Sublist"
begin

text \<open>
  \<^verbatim>\<open>src/src/kvm_capture.rs\<close>: the registers of a virtual CPU, captured from KVM and restored.  The structs of
  KVM (\<^verbatim>\<open>kvm_bindings\<close>) are records with the fields and types that the module uses them with: the limit of
  a segment has 16 bits here (KVM has 32) and \<^verbatim>\<open>unusable\<close> is a flag.  The ioctls are a parameter.
\<close>

section \<open>General registers\<close>

record kvm_regs =
  k_rax :: u64
  k_rbx :: u64
  k_rcx :: u64
  k_rdx :: u64
  k_rsi :: u64
  k_rdi :: u64
  k_rsp :: u64
  k_rbp :: u64
  k_r8 :: u64
  k_r9 :: u64
  k_r10 :: u64
  k_r11 :: u64
  k_r12 :: u64
  k_r13 :: u64
  k_r14 :: u64
  k_r15 :: u64
  k_rip :: u64
  k_rflags :: u64

record general_registers =
  g_rax :: u64
  g_rbx :: u64
  g_rcx :: u64
  g_rdx :: u64
  g_rsi :: u64
  g_rdi :: u64
  g_rsp :: u64
  g_rbp :: u64
  g_r8 :: u64
  g_r9 :: u64
  g_r10 :: u64
  g_r11 :: u64
  g_r12 :: u64
  g_r13 :: u64
  g_r14 :: u64
  g_r15 :: u64
  g_rip :: u64
  g_rflags :: u64

definition general_from_kvm :: "kvm_regs \<Rightarrow> general_registers" where
  "general_from_kvm k =
     \<lparr>g_rax = k_rax k, g_rbx = k_rbx k, g_rcx = k_rcx k, g_rdx = k_rdx k, g_rsi = k_rsi k, g_rdi = k_rdi k,
      g_rsp = k_rsp k, g_rbp = k_rbp k, g_r8 = k_r8 k, g_r9 = k_r9 k, g_r10 = k_r10 k, g_r11 = k_r11 k,
      g_r12 = k_r12 k, g_r13 = k_r13 k, g_r14 = k_r14 k, g_r15 = k_r15 k, g_rip = k_rip k,
      g_rflags = k_rflags k\<rparr>"

definition general_to_kvm :: "general_registers \<Rightarrow> kvm_regs" where
  "general_to_kvm g =
     \<lparr>k_rax = g_rax g, k_rbx = g_rbx g, k_rcx = g_rcx g, k_rdx = g_rdx g, k_rsi = g_rsi g, k_rdi = g_rdi g,
      k_rsp = g_rsp g, k_rbp = g_rbp g, k_r8 = g_r8 g, k_r9 = g_r9 g, k_r10 = g_r10 g, k_r11 = g_r11 g,
      k_r12 = g_r12 g, k_r13 = g_r13 g, k_r14 = g_r14 g, k_r15 = g_r15 g, k_rip = g_rip g,
      k_rflags = g_rflags g\<rparr>"

section \<open>Segments and control registers\<close>

record kvm_segment =
  ks_base :: u64
  ks_limit :: u16
  ks_selector :: u16
  ks_type :: u8
  ks_present :: u8
  ks_dpl :: u8
  ks_db :: u8
  ks_s :: u8
  ks_l :: u8
  ks_g :: u8
  ks_avl :: u8
  ks_unusable :: bool

record segment_descriptor =
  sd_base :: u64
  sd_limit :: u16
  sd_selector :: u16
  sd_type :: u8
  sd_present :: u8
  sd_dpl :: u8
  sd_db :: u8
  sd_s :: u8
  sd_l :: u8
  sd_g :: u8
  sd_avl :: u8
  sd_unusable :: u8

definition segment_from_kvm :: "kvm_segment \<Rightarrow> segment_descriptor" where
  "segment_from_kvm k =
     \<lparr>sd_base = ks_base k, sd_limit = ks_limit k, sd_selector = ks_selector k, sd_type = ks_type k,
      sd_present = ks_present k, sd_dpl = ks_dpl k, sd_db = ks_db k, sd_s = ks_s k, sd_l = ks_l k,
      sd_g = ks_g k, sd_avl = ks_avl k, sd_unusable = (if ks_unusable k then 1 else 0)\<rparr>"

definition segment_to_kvm :: "segment_descriptor \<Rightarrow> kvm_segment" where
  "segment_to_kvm d =
     \<lparr>ks_base = sd_base d, ks_limit = sd_limit d, ks_selector = sd_selector d, ks_type = sd_type d,
      ks_present = sd_present d, ks_dpl = sd_dpl d, ks_db = sd_db d, ks_s = sd_s d, ks_l = sd_l d,
      ks_g = sd_g d, ks_avl = sd_avl d, ks_unusable = (sd_unusable d \<noteq> 0)\<rparr>"

record descriptor_table =
  dt_base :: u64
  dt_limit :: u16

record kvm_sregs =
  k_cs :: kvm_segment
  k_ds :: kvm_segment
  k_es :: kvm_segment
  k_fs :: kvm_segment
  k_gs :: kvm_segment
  k_ss :: kvm_segment
  k_tr :: kvm_segment
  k_ldt :: kvm_segment
  k_gdt :: descriptor_table
  k_idt :: descriptor_table
  k_cr0 :: u64
  k_cr2 :: u64
  k_cr3 :: u64
  k_cr4 :: u64
  k_cr8 :: u64
  k_efer :: u64
  k_apic_base :: u64
  k_interrupt_bitmap :: "u64 list"

record segment_registers =
  sr_cs :: segment_descriptor
  sr_ds :: segment_descriptor
  sr_es :: segment_descriptor
  sr_fs :: segment_descriptor
  sr_gs :: segment_descriptor
  sr_ss :: segment_descriptor
  sr_tr :: segment_descriptor
  sr_ldt :: segment_descriptor
  sr_gdt :: descriptor_table
  sr_idt :: descriptor_table
  sr_cr0 :: u64
  sr_cr2 :: u64
  sr_cr3 :: u64
  sr_cr4 :: u64
  sr_cr8 :: u64
  sr_efer :: u64
  sr_apic_base :: u64

definition segments_from_kvm :: "kvm_sregs \<Rightarrow> segment_registers" where
  "segments_from_kvm k =
     \<lparr>sr_cs = segment_from_kvm (k_cs k), sr_ds = segment_from_kvm (k_ds k),
      sr_es = segment_from_kvm (k_es k), sr_fs = segment_from_kvm (k_fs k),
      sr_gs = segment_from_kvm (k_gs k), sr_ss = segment_from_kvm (k_ss k),
      sr_tr = segment_from_kvm (k_tr k), sr_ldt = segment_from_kvm (k_ldt k), sr_gdt = k_gdt k,
      sr_idt = k_idt k, sr_cr0 = k_cr0 k, sr_cr2 = k_cr2 k, sr_cr3 = k_cr3 k, sr_cr4 = k_cr4 k,
      sr_cr8 = k_cr8 k, sr_efer = k_efer k, sr_apic_base = k_apic_base k\<rparr>"

text \<open>The bitmap of pending interrupts is not captured; it is restored as zeroes.\<close>

definition segments_to_kvm :: "segment_registers \<Rightarrow> kvm_sregs" where
  "segments_to_kvm s =
     \<lparr>k_cs = segment_to_kvm (sr_cs s), k_ds = segment_to_kvm (sr_ds s), k_es = segment_to_kvm (sr_es s),
      k_fs = segment_to_kvm (sr_fs s), k_gs = segment_to_kvm (sr_gs s), k_ss = segment_to_kvm (sr_ss s),
      k_tr = segment_to_kvm (sr_tr s), k_ldt = segment_to_kvm (sr_ldt s), k_gdt = sr_gdt s,
      k_idt = sr_idt s, k_cr0 = sr_cr0 s, k_cr2 = sr_cr2 s, k_cr3 = sr_cr3 s, k_cr4 = sr_cr4 s,
      k_cr8 = sr_cr8 s, k_efer = sr_efer s, k_apic_base = sr_apic_base s,
      k_interrupt_bitmap = replicate 4 0\<rparr>"

section \<open>Floating point and debug registers\<close>

record kvm_fpu =
  k_fpr :: "bytes list"
  k_fcw :: u16
  k_fsw :: u16
  k_ftwx :: u8
  k_last_opcode :: u16
  k_last_ip :: u64
  k_last_dp :: u64
  k_xmm :: "bytes list"
  k_mxcsr :: u32

record fpu_state =
  f_fpr :: "bytes list"
  f_fcw :: u16
  f_fsw :: u16
  f_ftwx :: u8
  f_last_opcode :: u16
  f_last_ip :: u64
  f_last_dp :: u64
  f_xmm :: "bytes list"
  f_mxcsr :: u32

definition fpu_from_kvm :: "kvm_fpu \<Rightarrow> fpu_state" where
  "fpu_from_kvm k =
     \<lparr>f_fpr = k_fpr k, f_fcw = k_fcw k, f_fsw = k_fsw k, f_ftwx = k_ftwx k,
      f_last_opcode = k_last_opcode k, f_last_ip = k_last_ip k, f_last_dp = k_last_dp k, f_xmm = k_xmm k,
      f_mxcsr = k_mxcsr k\<rparr>"

definition fpu_to_kvm :: "fpu_state \<Rightarrow> kvm_fpu" where
  "fpu_to_kvm f =
     \<lparr>k_fpr = f_fpr f, k_fcw = f_fcw f, k_fsw = f_fsw f, k_ftwx = f_ftwx f,
      k_last_opcode = f_last_opcode f, k_last_ip = f_last_ip f, k_last_dp = f_last_dp f, k_xmm = f_xmm f,
      k_mxcsr = f_mxcsr f\<rparr>"

record kvm_debugregs =
  k_dr0 :: u64
  k_dr1 :: u64
  k_dr2 :: u64
  k_dr3 :: u64
  k_dr6 :: u64
  k_dr7 :: u64
  k_flags :: u64

record debug_registers =
  d_dr0 :: u64
  d_dr1 :: u64
  d_dr2 :: u64
  d_dr3 :: u64
  d_dr6 :: u64
  d_dr7 :: u64

definition debug_from_kvm :: "kvm_debugregs \<Rightarrow> debug_registers" where
  "debug_from_kvm k =
     \<lparr>d_dr0 = k_dr0 k, d_dr1 = k_dr1 k, d_dr2 = k_dr2 k, d_dr3 = k_dr3 k, d_dr6 = k_dr6 k, d_dr7 = k_dr7 k\<rparr>"

definition debug_to_kvm :: "debug_registers \<Rightarrow> kvm_debugregs" where
  "debug_to_kvm d =
     \<lparr>k_dr0 = d_dr0 d, k_dr1 = d_dr1 d, k_dr2 = d_dr2 d, k_dr3 = d_dr3 d, k_dr6 = d_dr6 d, k_dr7 = d_dr7 d,
      k_flags = 0\<rparr>"

section \<open>The virtual CPU\<close>

record msr_entry =
  msr_index :: u32
  msr_data :: u64

text \<open>The ioctls on a descriptor: \<open>None\<close> is a negative result.  Reading and writing of MSRs return how many of
  the list were done; reading gives their values.\<close>

record 'k vcpu_ops =
  vo_api_version :: "nat option"
  vo_get_regs :: "'k \<Rightarrow> kvm_regs option"
  vo_set_regs :: "kvm_regs \<Rightarrow> 'k \<Rightarrow> 'k option"
  vo_get_sregs :: "'k \<Rightarrow> kvm_sregs option"
  vo_set_sregs :: "kvm_sregs \<Rightarrow> 'k \<Rightarrow> 'k option"
  vo_get_fpu :: "'k \<Rightarrow> kvm_fpu option"
  vo_set_fpu :: "kvm_fpu \<Rightarrow> 'k \<Rightarrow> 'k option"
  vo_get_debugregs :: "'k \<Rightarrow> kvm_debugregs option"
  vo_set_debugregs :: "kvm_debugregs \<Rightarrow> 'k \<Rightarrow> 'k option"
  vo_get_msrs :: "u32 list \<Rightarrow> 'k \<Rightarrow> u64 list option"
  vo_set_msrs :: "(u32 \<times> u64) list \<Rightarrow> 'k \<Rightarrow> ('k \<times> nat) option"
  vo_get_lapic :: "'k \<Rightarrow> u32 list option"
  vo_set_lapic :: "u32 list \<Rightarrow> 'k \<Rightarrow> 'k option"

datatype kvm_error = KvmOpenError string | KvmIoctlError string

record vcpu_state =
  cpu_id :: nat
  cpu_regs :: general_registers
  cpu_sregs :: segment_registers
  cpu_fpu :: fpu_state
  cpu_debug :: debug_registers
  cpu_msrs :: "msr_entry list"
  cpu_lapic :: "u32 list"

text \<open>Opening \<^verbatim>\<open>/dev/kvm\<close> and asking for the version, of which a wrong one is only logged.\<close>

definition capturer_new :: "string option \<Rightarrow> 'k vcpu_ops \<Rightarrow> (kvm_error, unit) result" where
  "capturer_new fault vo =
     (case fault of
        Some e \<Rightarrow> Err (KvmOpenError (''/dev/kvm: '' @ e))
      | None \<Rightarrow>
          (case vo_api_version vo of
             None \<Rightarrow> Err (KvmIoctlError ''KVM_GET_API_VERSION'')
           | Some v \<Rightarrow> Ok ()))"

text \<open>The two shapes of calls.\<close>

definition kvm_get :: "string \<Rightarrow> 'a option \<Rightarrow> (kvm_error, 'a) result" where
  "kvm_get name r = (case r of None \<Rightarrow> Err (KvmIoctlError name) | Some a \<Rightarrow> Ok a)"

definition kvm_then :: "string \<Rightarrow> ('k \<Rightarrow> 'k option) \<Rightarrow> 'k \<times> (kvm_error, unit) result \<Rightarrow> 'k \<times> (kvm_error, unit) result" where
  "kvm_then name f kr =
     (case kr of
        (k, Inl e) \<Rightarrow> (k, Err e)
      | (k, Inr u) \<Rightarrow> (case f k of None \<Rightarrow> (k, Err (KvmIoctlError name)) | Some k' \<Rightarrow> (k', Ok ())))"

definition msr_indices :: "u32 list" where
  "msr_indices =
     [0xC0000080, 0xC0000081, 0xC0000082, 0xC0000083, 0xC0000084, 0xC0000100, 0xC0000101, 0xC0000102,
      0x1B, 0x1C, 0x1D, 0x17, 0x48]"

text \<open>The entries up to the count that the call returned.\<close>

definition get_msrs :: "'k vcpu_ops \<Rightarrow> 'k \<Rightarrow> (kvm_error, msr_entry list) result" where
  "get_msrs vo k =
     (case kvm_get ''KVM_GET_MSRS'' (vo_get_msrs vo msr_indices k) of
        Inl e \<Rightarrow> Err e
      | Inr ds \<Rightarrow> Ok (map (\<lambda>(i, d). \<lparr>msr_index = i, msr_data = d\<rparr>) (zip msr_indices ds)))"

text \<open>The count of the entries that were written is not looked at.\<close>

definition set_msrs :: "'k vcpu_ops \<Rightarrow> msr_entry list \<Rightarrow> 'k \<Rightarrow> 'k option" where
  "set_msrs vo ms k = map_option fst (vo_set_msrs vo (map (\<lambda>m. (msr_index m, msr_data m)) ms) k)"

definition capture_cpu :: "'k vcpu_ops \<Rightarrow> nat \<Rightarrow> 'k \<Rightarrow> (kvm_error, vcpu_state) result" where
  "capture_cpu vo i k =
     (case kvm_get ''KVM_GET_REGS'' (vo_get_regs vo k) of
        Inl e \<Rightarrow> Err e
      | Inr regs \<Rightarrow>
     (case kvm_get ''KVM_GET_SREGS'' (vo_get_sregs vo k) of
        Inl e \<Rightarrow> Err e
      | Inr sregs \<Rightarrow>
     (case kvm_get ''KVM_GET_FPU'' (vo_get_fpu vo k) of
        Inl e \<Rightarrow> Err e
      | Inr fpu \<Rightarrow>
     (case kvm_get ''KVM_GET_DEBUGREGS'' (vo_get_debugregs vo k) of
        Inl e \<Rightarrow> Err e
      | Inr dregs \<Rightarrow>
     (case get_msrs vo k of
        Inl e \<Rightarrow> Err e
      | Inr msrs \<Rightarrow>
     (case kvm_get ''KVM_GET_LAPIC'' (vo_get_lapic vo k) of
        Inl e \<Rightarrow> Err e
      | Inr lapic \<Rightarrow>
          Ok \<lparr>cpu_id = i, cpu_regs = general_from_kvm regs, cpu_sregs = segments_from_kvm sregs,
              cpu_fpu = fpu_from_kvm fpu, cpu_debug = debug_from_kvm dregs, cpu_msrs = msrs, cpu_lapic = lapic\<rparr>))))))"

definition restore_cpu :: "'k vcpu_ops \<Rightarrow> vcpu_state \<Rightarrow> 'k \<Rightarrow> 'k \<times> (kvm_error, unit) result" where
  "restore_cpu vo s k =
     kvm_then ''KVM_SET_LAPIC'' (vo_set_lapic vo (cpu_lapic s))
    (kvm_then ''KVM_SET_MSRS'' (set_msrs vo (cpu_msrs s))
    (kvm_then ''KVM_SET_DEBUGREGS'' (vo_set_debugregs vo (debug_to_kvm (cpu_debug s)))
    (kvm_then ''KVM_SET_FPU'' (vo_set_fpu vo (fpu_to_kvm (cpu_fpu s)))
    (kvm_then ''KVM_SET_SREGS'' (vo_set_sregs vo (segments_to_kvm (cpu_sregs s)))
    (kvm_then ''KVM_SET_REGS'' (vo_set_regs vo (general_to_kvm (cpu_regs s))) (k, Ok ()))))))"

section \<open>What a restore brings back\<close>

lemma conversions [simp]:
  "general_from_kvm (general_to_kvm g) = g" "general_to_kvm (general_from_kvm r) = r"
  "segment_to_kvm (segment_from_kvm k) = k"
  "fpu_from_kvm (fpu_to_kvm f) = f" "fpu_to_kvm (fpu_from_kvm x) = x"
  "debug_from_kvm (debug_to_kvm d) = d"
  by (simp_all add: general_from_kvm_def general_to_kvm_def segment_from_kvm_def segment_to_kvm_def fpu_from_kvm_def
      fpu_to_kvm_def debug_from_kvm_def debug_to_kvm_def)

lemma segments_restored: "segments_to_kvm (segments_from_kvm k) = k\<lparr>k_interrupt_bitmap := replicate 4 0\<rparr>"
  by (simp add: segments_to_kvm_def segments_from_kvm_def)

lemma segments_captured: "segments_from_kvm (k\<lparr>k_interrupt_bitmap := b\<rparr>) = segments_from_kvm k"
  by (simp add: segments_from_kvm_def)

text \<open>What KVM promises of a virtual CPU: what is written is read, a write keeps the components written before
  it.  Some MSRs and the local APIC show parts of the control registers (\<^verbatim>\<open>EFER\<close>, the bases of
  segments, \<^verbatim>\<open>CR8\<close>); a write of them keeps the control registers when it writes what a CPU with the same
  control registers shows.  MSRs are read in order up to the first that cannot be.\<close>

definition keeps_others :: "'k vcpu_ops \<Rightarrow> 'k \<Rightarrow> 'k \<Rightarrow> bool" where
  "keeps_others vo k k' \<longleftrightarrow> vo_get_regs vo k' = vo_get_regs vo k \<and> vo_get_fpu vo k' = vo_get_fpu vo k \<and>
     vo_get_debugregs vo k' = vo_get_debugregs vo k"

definition msrs_written :: "'k vcpu_ops \<Rightarrow> (u32 \<times> u64) list \<Rightarrow> nat \<Rightarrow> 'k \<Rightarrow> 'k \<Rightarrow> bool" where
  "msrs_written vo ms n k k' \<longleftrightarrow> n \<le> length ms \<and> keeps_others vo k k' \<and>
     (n = length ms \<longrightarrow> distinct (map fst ms) \<longrightarrow> vo_get_msrs vo (map fst ms) k' = Some (map snd ms)) \<and>
     (\<forall>k0 s0 s. vo_get_msrs vo (map fst ms) k0 = Some (map snd ms) \<longrightarrow> vo_get_sregs vo k0 = Some s0 \<longrightarrow>
        vo_get_sregs vo k = Some s \<longrightarrow> segments_from_kvm s = segments_from_kvm s0 \<longrightarrow> vo_get_sregs vo k' = Some s)"

definition lapic_written :: "'k vcpu_ops \<Rightarrow> u32 list \<Rightarrow> 'k \<Rightarrow> 'k \<Rightarrow> bool" where
  "lapic_written vo a k k' \<longleftrightarrow> vo_get_lapic vo k' = Some a \<and> keeps_others vo k k' \<and>
     (\<forall>is. vo_get_msrs vo is k' = vo_get_msrs vo is k) \<and>
     (\<forall>k0 s0 s. vo_get_lapic vo k0 = Some a \<longrightarrow> vo_get_sregs vo k0 = Some s0 \<longrightarrow> vo_get_sregs vo k = Some s \<longrightarrow>
        segments_from_kvm s = segments_from_kvm s0 \<longrightarrow> vo_get_sregs vo k' = Some s)"

definition vcpu_contract :: "'k vcpu_ops \<Rightarrow> bool" where
  "vcpu_contract vo \<longleftrightarrow>
     (\<forall>r k k'. vo_set_regs vo r k = Some k' \<longrightarrow> vo_get_regs vo k' = Some r) \<and>
     (\<forall>s k k'. vo_set_sregs vo s k = Some k' \<longrightarrow> vo_get_sregs vo k' = Some s \<and> vo_get_regs vo k' = vo_get_regs vo k) \<and>
     (\<forall>f k k'. vo_set_fpu vo f k = Some k' \<longrightarrow> vo_get_fpu vo k' = Some f \<and> vo_get_regs vo k' = vo_get_regs vo k \<and>
        vo_get_sregs vo k' = vo_get_sregs vo k) \<and>
     (\<forall>d k k'. vo_set_debugregs vo d k = Some k' \<longrightarrow> vo_get_debugregs vo k' = Some d \<and>
        vo_get_regs vo k' = vo_get_regs vo k \<and> vo_get_sregs vo k' = vo_get_sregs vo k \<and> vo_get_fpu vo k' = vo_get_fpu vo k) \<and>
     (\<forall>ms k k' n. vo_set_msrs vo ms k = Some (k', n) \<longrightarrow> msrs_written vo ms n k k') \<and>
     (\<forall>a k k'. vo_set_lapic vo a k = Some k' \<longrightarrow> lapic_written vo a k k') \<and>
     (\<forall>is js k ds. vo_get_msrs vo (is @ js) k = Some ds \<longrightarrow>
        length ds \<le> length (is @ js) \<and> vo_get_msrs vo is k = Some (take (length is) ds))"

lemma vcpu_contractD:
  assumes "vcpu_contract vo"
  shows set_regs_law: "vo_set_regs vo r k = Some k' \<Longrightarrow> vo_get_regs vo k' = Some r"
    and set_sregs_law: "vo_set_sregs vo sg k = Some k' \<Longrightarrow> vo_get_sregs vo k' = Some sg \<and> vo_get_regs vo k' = vo_get_regs vo k"
    and set_fpu_law: "vo_set_fpu vo f k = Some k' \<Longrightarrow> vo_get_fpu vo k' = Some f \<and> vo_get_regs vo k' = vo_get_regs vo k \<and>
        vo_get_sregs vo k' = vo_get_sregs vo k"
    and set_debug_law: "vo_set_debugregs vo d k = Some k' \<Longrightarrow> vo_get_debugregs vo k' = Some d \<and>
        vo_get_regs vo k' = vo_get_regs vo k \<and> vo_get_sregs vo k' = vo_get_sregs vo k \<and> vo_get_fpu vo k' = vo_get_fpu vo k"
    and set_msrs_law: "vo_set_msrs vo ms k = Some (k', n) \<Longrightarrow> msrs_written vo ms n k k'"
    and set_lapic_law: "vo_set_lapic vo a k = Some k' \<Longrightarrow> lapic_written vo a k k'"
    and get_msrs_law: "vo_get_msrs vo (is @ js) k = Some ds \<Longrightarrow>
        length ds \<le> length (is @ js) \<and> vo_get_msrs vo is k = Some (take (length is) ds)"
  using assms by (simp_all add: vcpu_contract_def)

lemma kvm_then_Ok: "kvm_then name f kr = (k', Ok ()) \<longleftrightarrow> (\<exists>k. kr = (k, Ok ()) \<and> f k = Some k')"
  by (auto simp: kvm_then_def split: prod.splits sum.splits option.splits)

lemma zip_cut: "zip (take (length ds) is) ds = zip is ds"
  by (induction "is" ds rule: list_induct2') simp_all

lemma zip_shorter:
  assumes "length ds \<le> length is"
  shows "map fst (zip is ds) = take (length ds) is" "map snd (zip is ds) = ds" "length (zip is ds) = length ds"
  using assms by (simp_all add: map_fst_zip_take map_snd_zip_take min_absorb1 min_absorb2)


text \<open>A restore that fails is not undone: unless it was the first call that failed, the CPU already runs on the
  captured general registers.\<close>

theorem failed_restore_partial:
  assumes "vcpu_contract vo" "restore_cpu vo s k = (k', Err e)"
  shows "e = KvmIoctlError ''KVM_SET_REGS'' \<and> k' = k \<or> vo_get_regs vo k' = Some (general_to_kvm (cpu_regs s))"
proof (cases "vo_set_regs vo (general_to_kvm (cpu_regs s)) k")
  case None
  then show ?thesis using assms(2) by (simp add: restore_cpu_def kvm_then_def)
next
  case (Some a1)
  have step: "vo_get_regs vo (fst (kvm_then name f (b, r))) = v"
    if "\<And>b'. f b = Some b' \<Longrightarrow> vo_get_regs vo b' = vo_get_regs vo b" "vo_get_regs vo b = v" for name f b r v
    using that by (auto simp: kvm_then_def split: sum.split option.split)
  have keep: "vo_get_regs vo (fst (kvm_then name f kr)) = v"
    if "\<And>b b'. f b = Some b' \<Longrightarrow> vo_get_regs vo b' = vo_get_regs vo b" "vo_get_regs vo (fst kr) = v" for name f kr v
    using step [of f "fst kr" v name "snd kr"] that by simp
  have first: "kvm_then ''KVM_SET_REGS'' (vo_set_regs vo (general_to_kvm (cpu_regs s))) (k, Ok ()) = (a1, Ok ())"
    by (simp add: kvm_then_def Some)
  have "vo_get_regs vo (fst (restore_cpu vo s k)) = Some (general_to_kvm (cpu_regs s))"
    unfolding restore_cpu_def first
    by (intro keep)
      (use Some set_regs_law [OF assms(1) Some] in \<open>auto simp: kvm_then_def set_msrs_def
        dest: set_sregs_law [OF assms(1)] set_fpu_law [OF assms(1)] set_debug_law [OF assms(1)]
          set_msrs_law [OF assms(1)] set_lapic_law [OF assms(1)] simp: msrs_written_def lapic_written_def keeps_others_def\<close>)
  then show ?thesis using assms(2) by simp
qed

section \<open>Examples\<close>

text \<open>A CPU whose components are independent and that has nine of the MSRs.\<close>

record demo_vcpu =
  dv_regs :: kvm_regs
  dv_sregs :: kvm_sregs
  dv_fpu :: kvm_fpu
  dv_debug :: kvm_debugregs
  dv_msrs :: "u32 \<Rightarrow> u64"
  dv_lapic :: "u32 list"

definition has_msr :: "u32 \<Rightarrow> bool" where
  "has_msr i \<longleftrightarrow> i \<in> set (take 9 msr_indices)"

definition demo_ops :: "demo_vcpu vcpu_ops" where
  "demo_ops =
     \<lparr>vo_api_version = Some 12,
      vo_get_regs = (\<lambda>k. Some (dv_regs k)), vo_set_regs = (\<lambda>r k. Some (k\<lparr>dv_regs := r\<rparr>)),
      vo_get_sregs = (\<lambda>k. Some (dv_sregs k)), vo_set_sregs = (\<lambda>r k. Some (k\<lparr>dv_sregs := r\<rparr>)),
      vo_get_fpu = (\<lambda>k. Some (dv_fpu k)), vo_set_fpu = (\<lambda>r k. Some (k\<lparr>dv_fpu := r\<rparr>)),
      vo_get_debugregs = (\<lambda>k. Some (dv_debug k)), vo_set_debugregs = (\<lambda>r k. Some (k\<lparr>dv_debug := r\<rparr>)),
      vo_get_msrs = (\<lambda>is k. Some (map (dv_msrs k) (takeWhile has_msr is))),
      vo_set_msrs = (\<lambda>ms k. let done = takeWhile (has_msr \<circ> fst) ms in
        Some (k\<lparr>dv_msrs := (\<lambda>i. case map_of done i of None \<Rightarrow> dv_msrs k i | Some d \<Rightarrow> d)\<rparr>, length done)),
      vo_get_lapic = (\<lambda>k. Some (dv_lapic k)), vo_set_lapic = (\<lambda>a k. Some (k\<lparr>dv_lapic := a\<rparr>))\<rparr>"

lemma map_lookup:
  assumes "distinct (map fst ms)" "\<forall>m \<in> set ms. P (fst m)"
  shows "map (\<lambda>i. case map_of ms i of None \<Rightarrow> g i | Some d \<Rightarrow> d) (map fst ms) = map snd ms"
  using assms(1) by (auto simp: map_of_is_SomeI)

lemma demo_contract: "vcpu_contract demo_ops"
proof -
  have msrs: "msrs_written demo_ops ms n k k'" if "vo_set_msrs demo_ops ms k = Some (k', n)" for ms n k k'
  proof -
    let ?done = "takeWhile (has_msr \<circ> fst) ms"
    have k': "k' = k\<lparr>dv_msrs := (\<lambda>i. case map_of ?done i of None \<Rightarrow> dv_msrs k i | Some d \<Rightarrow> d)\<rparr>" "n = length ?done"
      using that by (simp_all add: demo_ops_def Let_def)
    have all: "?done = ms \<and> takeWhile has_msr (map fst ms) = map fst ms" if "n = length ms"
    proof -
      have "takeWhile (has_msr \<circ> fst) ms = ms"
        using that k'(2) takeWhile_dropWhile_id [of "has_msr \<circ> fst" ms]
        by (metis append_Nil2 length_0_conv length_append add_cancel_right_right)
      then show ?thesis by (simp add: takeWhile_eq_all_conv)
    qed
    have "n \<le> length ms" using k'(2) by (simp add: length_takeWhile_le)
    moreover have "vo_get_msrs demo_ops (map fst ms) k' = Some (map snd ms)" if "n = length ms" "distinct (map fst ms)"
    proof -
      have "dv_msrs k' = (\<lambda>i. case map_of ms i of None \<Rightarrow> dv_msrs k i | Some d \<Rightarrow> d)"
        unfolding k'(1) all [OF that(1), THEN conjunct1] by simp
      moreover have "vo_get_msrs demo_ops (map fst ms) k' = Some (map (dv_msrs k') (takeWhile has_msr (map fst ms)))"
        by (simp add: demo_ops_def)
      ultimately show ?thesis
        using map_lookup [OF that(2), of "\<lambda>_. True" "dv_msrs k"] unfolding all [OF that(1), THEN conjunct2] by simp
    qed
    ultimately show ?thesis by (auto simp: msrs_written_def keeps_others_def k'(1)) (auto simp: demo_ops_def)
  qed
  have reads: "length ds \<le> length (is @ js) \<and> vo_get_msrs demo_ops is k = Some (take (length is) ds)"
    if "vo_get_msrs demo_ops (is @ js) k = Some ds" for "is" js k ds
  proof (cases "\<forall>i \<in> set is. has_msr i")
    case True
    then have eq: "takeWhile has_msr is = is" by (simp add: takeWhile_eq_all_conv)
    have "vo_get_msrs demo_ops is k = Some (map (dv_msrs k) (takeWhile has_msr is))" by (simp add: demo_ops_def)
    then have "vo_get_msrs demo_ops is k = Some (map (dv_msrs k) is)" unfolding eq .
    then show ?thesis using that length_takeWhile_le [of has_msr js] True by (auto simp: demo_ops_def takeWhile_append2)
  next
    case False
    then have "takeWhile has_msr (is @ js) = takeWhile has_msr is" by (auto simp: takeWhile_append1)
    then show ?thesis using that length_takeWhile_le [of has_msr "is"] by (auto simp: demo_ops_def)
  qed
  show ?thesis
    unfolding vcpu_contract_def lapic_written_def using msrs reads by (auto simp: keeps_others_def) (auto simp: demo_ops_def)
qed

definition demo_segment :: kvm_segment where
  "demo_segment =
     \<lparr>ks_base = 0, ks_limit = 0xffff, ks_selector = 0x10, ks_type = 11, ks_present = 1, ks_dpl = 0, ks_db = 0, ks_s = 1,
      ks_l = 1, ks_g = 1, ks_avl = 0, ks_unusable = False\<rparr>"

definition demo_vcpu_with :: "u64 \<Rightarrow> demo_vcpu" where
  "demo_vcpu_with v =
     \<lparr>dv_regs = \<lparr>k_rax = v, k_rbx = 0, k_rcx = 0, k_rdx = 0, k_rsi = 0, k_rdi = 0, k_rsp = v, k_rbp = 0, k_r8 = 0, k_r9 = 0,
        k_r10 = 0, k_r11 = 0, k_r12 = 0, k_r13 = 0, k_r14 = 0, k_r15 = 0, k_rip = v, k_rflags = 2\<rparr>,
      dv_sregs = \<lparr>k_cs = demo_segment, k_ds = demo_segment, k_es = demo_segment, k_fs = demo_segment, k_gs = demo_segment,
        k_ss = demo_segment, k_tr = demo_segment, k_ldt = demo_segment, k_gdt = \<lparr>dt_base = v, dt_limit = 7\<rparr>,
        k_idt = \<lparr>dt_base = v, dt_limit = 7\<rparr>, k_cr0 = 0x80050031, k_cr2 = 0, k_cr3 = v, k_cr4 = 0, k_cr8 = 0,
        k_efer = 0x501, k_apic_base = 0xfee00900, k_interrupt_bitmap = [1, 0, 0, 0]\<rparr>,
      dv_fpu = \<lparr>k_fpr = [], k_fcw = 0x37f, k_fsw = 0, k_ftwx = 0, k_last_opcode = 0, k_last_ip = v, k_last_dp = 0,
        k_xmm = [], k_mxcsr = 0x1f80\<rparr>,
      dv_debug = \<lparr>k_dr0 = v, k_dr1 = 0, k_dr2 = 0, k_dr3 = 0, k_dr6 = 0xffff0ff0, k_dr7 = 0x400, k_flags = 0\<rparr>,
      dv_msrs = (\<lambda>i. v), dv_lapic = replicate 1024 0\<rparr>"


definition no_fpu_ops :: "demo_vcpu vcpu_ops" where
  "no_fpu_ops = demo_ops\<lparr>vo_set_fpu := (\<lambda>f k. None)\<rparr>"

lemma failed_restore_partial_witness:
  "\<exists>s k'. restore_cpu no_fpu_ops s (demo_vcpu_with 9) = (k', Err (KvmIoctlError ''KVM_SET_FPU'')) \<and>
     vo_get_regs no_fpu_ops k' = Some (general_to_kvm (cpu_regs s))"
proof -
  have contract: "vcpu_contract no_fpu_ops"
    using demo_contract by (simp add: vcpu_contract_def msrs_written_def lapic_written_def keeps_others_def no_fpu_ops_def)
  obtain s k' where run: "restore_cpu no_fpu_ops s (demo_vcpu_with 9) = (k', Err (KvmIoctlError ''KVM_SET_FPU''))"
    by (simp add: restore_cpu_def kvm_then_def no_fpu_ops_def demo_ops_def)
  then show ?thesis using failed_restore_partial [OF contract run] by auto
qed

end
