(* ===== verification/Tracer.thy ===== *)
theory Tracer
  imports Model
begin

text \<open>
  \<^verbatim>\<open>src/src/syscall_intercept.rs\<close> (the tracer over ptrace) and \<^verbatim>\<open>src/src/syscall_interceptor_real.rs\<close> (the
  interceptor with a thread of its own).  The kernel is a parameter with a state \<open>'k\<close>: it spawns processes, answers
  requests of ptrace, waits and registers.  The tracer for eBPF, which only loads programs from elsewhere, and JSON
  export are left out.
\<close>

section \<open>Names of system calls\<close>

definition syscall_names_0 :: "string list" where
  "syscall_names_0 =
     [''read'', ''write'', ''open'', ''close'', ''stat'', ''fstat'', ''lstat'', ''poll'', ''lseek'', ''mmap'',
      ''mprotect'', ''munmap'', ''brk'', ''rt_sigaction'', ''rt_sigprocmask'', ''rt_sigreturn'', ''ioctl'',
      ''pread64'', ''pwrite64'', ''readv'', ''writev'', ''access'', ''pipe'', ''select'', ''sched_yield'',
      ''mremap'', ''msync'', ''mincore'', ''madvise'', ''shmget'', ''shmat'', ''shmctl'', ''dup'', ''dup2'',
      ''pause'', ''nanosleep'', ''getitimer'', ''alarm'', ''setitimer'', ''getpid'', ''sendfile'', ''socket'',
      ''connect'', ''accept'', ''sendto'', ''recvfrom'', ''sendmsg'', ''recvmsg'', ''shutdown'', ''bind'',
      ''listen'', ''getsockname'', ''getpeername'', ''socketpair'', ''setsockopt'', ''getsockopt'', ''clone'',
      ''fork'', ''vfork'', ''execve'', ''exit'', ''wait4'', ''kill'', ''uname'', ''semget'', ''semop'',
      ''semctl'', ''shmdt'', ''msgget'', ''msgsnd'', ''msgrcv'', ''msgctl'', ''fcntl'', ''flock'', ''fsync'',
      ''fdatasync'', ''truncate'', ''ftruncate'', ''getdents'', ''getcwd'', ''chdir'', ''fchdir'', ''rename'',
      ''mkdir'', ''rmdir'', ''creat'', ''link'', ''unlink'', ''symlink'', ''readlink'', ''chmod'', ''fchmod'',
      ''chown'', ''fchown'', ''lchown'', ''umask'', ''gettimeofday'', ''getrlimit'', ''getrusage'',
      ''sysinfo'', ''times'', ''ptrace'', ''getuid'', ''syslog'', ''getgid'', ''setuid'', ''setgid'',
      ''geteuid'', ''getegid'', ''setpgid'', ''getppid'', ''getpgrp'', ''setsid'', ''setreuid'', ''setregid'',
      ''getgroups'', ''setgroups'', ''setresuid'', ''getresuid'', ''setresgid'']"

definition syscall_names_120 :: "string list" where
  "syscall_names_120 =
     [''getresgid'', ''getpgid'', ''setfsuid'', ''setfsgid'', ''getsid'', ''capget'', ''capset'',
      ''rt_sigpending'', ''rt_sigtimedwait'', ''rt_sigqueueinfo'', ''rt_sigsuspend'', ''sigaltstack'',
      ''utime'', ''mknod'', ''uselib'', ''personality'', ''ustat'', ''statfs'', ''fstatfs'', ''sysfs'',
      ''getpriority'', ''setpriority'', ''sched_setparam'', ''sched_getparam'', ''sched_setscheduler'',
      ''sched_getscheduler'', ''sched_get_priority_max'', ''sched_get_priority_min'',
      ''sched_rr_get_interval'', ''mlock'', ''munlock'', ''mlockall'', ''munlockall'', ''vhangup'',
      ''modify_ldt'', ''pivot_root'', ''_sysctl'', ''prctl'', ''arch_prctl'', ''adjtimex'', ''setrlimit'',
      ''chroot'', ''sync'', ''acct'', ''settimeofday'', ''mount'', ''umount2'', ''swapon'', ''swapoff'',
      ''reboot'', ''sethostname'', ''setdomainname'', ''iopl'', ''ioperm'', ''create_module'',
      ''init_module'', ''delete_module'', ''get_kernel_syms'', ''query_module'', ''quotactl'', ''nfsservctl'',
      ''getpmsg'', ''putpmsg'', ''afs_syscall'', ''tuxcall'', ''security'', ''gettid'', ''readahead'',
      ''setxattr'', ''lsetxattr'', ''fsetxattr'', ''getxattr'', ''lgetxattr'', ''fgetxattr'', ''listxattr'',
      ''llistxattr'', ''flistxattr'', ''removexattr'', ''lremovexattr'', ''fremovexattr'', ''tkill'',
      ''time'', ''futex'', ''sched_setaffinity'', ''sched_getaffinity'', ''set_thread_area'', ''io_setup'',
      ''io_destroy'', ''io_getevents'', ''io_submit'', ''io_cancel'', ''get_thread_area'', ''lookup_dcookie'',
      ''epoll_create'', ''epoll_ctl_old'', ''epoll_wait_old'', ''remap_file_pages'', ''getdents64'',
      ''set_tid_address'', ''restart_syscall'', ''semtimedop'', ''fadvise64'', ''timer_create'',
      ''timer_settime'', ''timer_gettime'', ''timer_getoverrun'', ''timer_delete'', ''clock_settime'',
      ''clock_gettime'', ''clock_getres'', ''clock_nanosleep'', ''exit_group'', ''epoll_wait'', ''epoll_ctl'',
      ''tgkill'', ''utimes'', ''vserver'', ''mbind'', ''set_mempolicy'', ''get_mempolicy'']"

definition syscall_names_240 :: "string list" where
  "syscall_names_240 =
     [''mq_open'', ''mq_unlink'', ''mq_timedsend'', ''mq_timedreceive'', ''mq_notify'', ''mq_getsetattr'',
      ''kexec_load'', ''waitid'', ''add_key'', ''request_key'', ''keyctl'', ''ioprio_set'', ''ioprio_get'',
      ''inotify_init'', ''inotify_add_watch'', ''inotify_rm_watch'', ''migrate_pages'', ''openat'',
      ''mkdirat'', ''mknodat'', ''fchownat'', ''futimesat'', ''newfstatat'', ''unlinkat'', ''renameat'',
      ''linkat'', ''symlinkat'', ''readlinkat'', ''fchmodat'', ''faccessat'', ''pselect6'', ''ppoll'',
      ''unshare'', ''set_robust_list'', ''get_robust_list'', ''splice'', ''tee'', ''sync_file_range'',
      ''vmsplice'', ''move_pages'', ''utimensat'', ''epoll_pwait'', ''signalfd'', ''timerfd_create'',
      ''eventfd'', ''fallocate'', ''timerfd_settime'', ''timerfd_gettime'', ''accept4'', ''signalfd4'',
      ''eventfd2'', ''epoll_create1'', ''dup3'', ''pipe2'', ''inotify_init1'', ''preadv'', ''pwritev'',
      ''rt_tgsigqueueinfo'', ''perf_event_open'', ''recvmmsg'', ''fanotify_init'', ''fanotify_mark'',
      ''prlimit64'', ''name_to_handle_at'', ''open_by_handle_at'', ''clock_adjtime'', ''syncfs'',
      ''sendmmsg'', ''setns'', ''getcpu'', ''process_vm_readv'', ''process_vm_writev'', ''kcmp'',
      ''finit_module'', ''sched_setattr'', ''sched_getattr'', ''renameat2'', ''seccomp'', ''getrandom'',
      ''memfd_create'', ''kexec_file_load'', ''bpf'', ''execveat'', ''userfaultfd'', ''membarrier'',
      ''mlock2'', ''copy_file_range'', ''preadv2'', ''pwritev2'', ''pkey_mprotect'', ''pkey_alloc'',
      ''pkey_free'', ''statx'', ''io_pgetevents'', ''rseq'']"

definition syscall_names_424 :: "string list" where
  "syscall_names_424 =
     [''pidfd_send_signal'', ''io_uring_setup'', ''io_uring_enter'', ''io_uring_register'', ''open_tree'',
      ''move_mount'', ''fsopen'', ''fsconfig'', ''fsmount'', ''fspick'', ''pidfd_open'', ''clone3'',
      ''close_range'', ''openat2'', ''pidfd_getfd'', ''faccessat2'', ''process_madvise'', ''epoll_pwait2'',
      ''mount_setattr'', ''quotactl_fd'', ''landlock_create_ruleset'', ''landlock_add_rule'',
      ''landlock_restrict_self'', ''memfd_secret'', ''process_mrelease'', ''futex_waitv'',
      ''set_mempolicy_home_node'']"

definition syscall_table :: "(int, string) hmap" where
  "syscall_table =
     zip [0..334] (syscall_names_0 @ syscall_names_120 @ syscall_names_240) @ zip [424..450] syscall_names_424"

definition get_syscall_name :: "u64 \<Rightarrow> string" where
  "get_syscall_name n =
     (case hm_get syscall_table (uint n) of None \<Rightarrow> ''syscall_'' @ dec_str (unat n) | Some s \<Rightarrow> s)"

text \<open>The table of the interceptor.\<close>

definition known_syscalls :: "(int \<times> string) list" where
  "known_syscalls =
     [(0, ''read''), (1, ''write''), (2, ''open''), (3, ''close''), (4, ''stat''), (5, ''fstat''),
      (6, ''lstat''), (7, ''poll''), (8, ''lseek''), (9, ''mmap''), (10, ''mprotect''), (11, ''munmap''),
      (12, ''brk''), (13, ''rt_sigaction''), (14, ''rt_sigprocmask''), (15, ''rt_sigreturn''),
      (16, ''ioctl''), (17, ''pread64''), (18, ''pwrite64''), (19, ''readv''), (20, ''writev''),
      (21, ''access''), (22, ''pipe''), (23, ''select''), (24, ''sched_yield''), (25, ''mremap''),
      (26, ''msync''), (27, ''mincore''), (28, ''madvise''), (32, ''dup''), (33, ''dup2''), (34, ''pause''),
      (35, ''nanosleep''), (39, ''getpid''), (41, ''socket''), (42, ''connect''), (43, ''accept''),
      (44, ''sendto''), (45, ''recvfrom''), (46, ''sendmsg''), (47, ''recvmsg''), (49, ''bind''),
      (50, ''listen''), (56, ''clone''), (57, ''fork''), (58, ''vfork''), (59, ''execve''), (60, ''exit''),
      (61, ''wait4''), (62, ''kill''), (63, ''uname''), (87, ''waitpid''), (101, ''ptrace''),
      (102, ''getuid''), (104, ''getgid''), (157, ''prctl''), (158, ''arch_prctl''), (217, ''getdents64''),
      (218, ''set_tid_address''), (228, ''clock_gettime''), (231, ''exit_group''), (257, ''openat''),
      (302, ''prlimit64''), (318, ''getrandom''), (334, ''rseq'')]"

definition syscall_name :: "u64 \<Rightarrow> string" where
  "syscall_name n = (case map_of known_syscalls (uint n) of None \<Rightarrow> ''unknown'' | Some s \<Rightarrow> s)"

section \<open>The kernel\<close>

record user_regs =
  rg_orig_rax :: u64
  rg_rax :: u64
  rg_rdi :: u64
  rg_rsi :: u64
  rg_rdx :: u64
  rg_r10 :: u64
  rg_r8 :: u64
  rg_r9 :: u64
  rg_rip :: u64
  rg_rsp :: u64

datatype wait_status = WaitFailed | WaitExited | WaitSignaled | WaitStopped u32 | WaitOther

datatype ptrace_request = PtraceSetOptions | PtraceAttach | PtraceSyscall | PtraceDetach | KillChild

record 'k ptrace_os =
  po_spawn :: "string \<Rightarrow> string list \<Rightarrow> 'k \<Rightarrow> 'k \<times> (string, u32) result"
  po_request :: "ptrace_request \<Rightarrow> u32 \<Rightarrow> 'k \<Rightarrow> 'k \<times> bool"
  po_wait :: "u32 \<Rightarrow> 'k \<Rightarrow> 'k \<times> wait_status"
  po_regs :: "u32 \<Rightarrow> 'k \<Rightarrow> user_regs option"
  po_now :: "'k \<Rightarrow> u64"

section \<open>The tracer\<close>

record tracer_config =
  tc_entry :: bool
  tc_exit :: bool
  tc_signals :: bool
  tc_processes :: bool
  tc_args :: bool
  tc_return :: bool
  tc_memory :: bool
  tc_max_buffered :: nat
  tc_ebpf :: bool

definition tracer_config_default :: tracer_config where
  "tracer_config_default =
     \<lparr>tc_entry = True, tc_exit = True, tc_signals = True, tc_processes = True, tc_args = True, tc_return = True,
      tc_memory = False, tc_max_buffered = 100000, tc_ebpf = False\<rparr>"

datatype syscall_event_type = EntryEvent | ExitEvent | SignalEvent | ProcessEvent

record syscall_info =
  si_number :: u64
  si_name :: string
  si_args :: "u64 list"
  si_return :: u64
  si_error :: "u64 option"
  si_time :: u64
  si_tid :: u32
  si_pid :: u32
  si_ip :: u64
  si_sp :: u64
  si_type :: syscall_event_type

datatype tracer_error = TrSpawnError string | TrNoProcess | TrPtraceError string | TrWaitError | TrPanic

record tracer =
  tr_config :: tracer_config
  tr_child :: "u32 option"
  tr_pid :: "u32 option"
  tr_buffer :: "syscall_info list"
  tr_running :: bool
  tr_expecting_exit :: bool

definition tracer_new :: "tracer_config \<Rightarrow> tracer" where
  "tracer_new cfg =
     \<lparr>tr_config = cfg, tr_child = None, tr_pid = None, tr_buffer = [], tr_running = False, tr_expecting_exit = False\<rparr>"

text \<open>The wait for the first stop ignores how it ends.\<close>

definition spawn_traced :: "'k ptrace_os \<Rightarrow> string \<Rightarrow> string list \<Rightarrow> tracer \<Rightarrow> 'k \<Rightarrow> 'k \<times> tracer \<times> (tracer_error, u32) result" where
  "spawn_traced os program args t k =
     (let t = t\<lparr>tr_running := True\<rparr> in
      case po_spawn os program args k of
        (k, Inl e) \<Rightarrow> (k, t, Err (TrSpawnError e))
      | (k, Inr pid) \<Rightarrow>
          let t = t\<lparr>tr_child := Some pid, tr_pid := Some pid\<rparr>; k = fst (po_wait os pid k)
          in (case po_request os PtraceSetOptions pid k of
                (k, False) \<Rightarrow> (k, t, Err (TrPtraceError ''SETOPTIONS''))
              | (k, True) \<Rightarrow> (k, t, Ok pid)))"

definition attach_to_process :: "'k ptrace_os \<Rightarrow> u32 \<Rightarrow> tracer \<Rightarrow> 'k \<Rightarrow> 'k \<times> tracer \<times> (tracer_error, unit) result" where
  "attach_to_process os pid t k =
     (case po_request os PtraceAttach pid k of
        (k, False) \<Rightarrow> (k, t, Err (TrPtraceError ''ATTACH''))
      | (k, True) \<Rightarrow>
          (case po_request os PtraceSetOptions pid (fst (po_wait os pid k)) of
             (k, False) \<Rightarrow> (k, t, Err (TrPtraceError ''SETOPTIONS''))
           | (k, True) \<Rightarrow> (k, t\<lparr>tr_pid := Some pid, tr_running := True\<rparr>, Ok ())))"

text \<open>A full buffer drops its first event; the buffer of size 0 has none to drop and panics (\<open>None\<close>).\<close>

definition push_bounded :: "nat \<Rightarrow> 'a \<Rightarrow> 'a list \<Rightarrow> 'a list option" where
  "push_bounded n x xs =
     (if n \<le> length xs then (case xs of [] \<Rightarrow> None | y # ys \<Rightarrow> Some (ys @ [x])) else Some (xs @ [x]))"

definition signal_info :: "u32 \<Rightarrow> u32 \<Rightarrow> u64 \<Rightarrow> syscall_info" where
  "signal_info pid sig now =
     \<lparr>si_number = 0, si_name = ''signal'', si_args = [0, 0, 0, 0, 0, 0], si_return = ucast sig, si_error = None,
      si_time = now, si_tid = pid, si_pid = pid, si_ip = 0, si_sp = 0, si_type = SignalEvent\<rparr>"

definition exit_info :: "u32 \<Rightarrow> user_regs \<Rightarrow> u64 \<Rightarrow> syscall_info" where
  "exit_info pid r now =
     \<lparr>si_number = rg_orig_rax r, si_name = get_syscall_name (rg_orig_rax r), si_args = [0, 0, 0, 0, 0, 0],
      si_return = rg_rax r,
      si_error = (if rg_rax r > 0xffffffffffff0000 then Some (- (xor (rg_rax r) 0xffffffffffffffff)) else None),
      si_time = now, si_tid = pid, si_pid = pid, si_ip = rg_rip r, si_sp = rg_rsp r, si_type = ExitEvent\<rparr>"

definition entry_info :: "u32 \<Rightarrow> user_regs \<Rightarrow> u64 \<Rightarrow> syscall_info" where
  "entry_info pid r now =
     \<lparr>si_number = rg_orig_rax r, si_name = get_syscall_name (rg_orig_rax r),
      si_args = [rg_rdi r, rg_rsi r, rg_rdx r, rg_r10 r, rg_r8 r, rg_r9 r], si_return = 0, si_error = None,
      si_time = now, si_tid = pid, si_pid = pid, si_ip = rg_rip r, si_sp = rg_rsp r, si_type = EntryEvent\<rparr>"

definition buffer_event :: "syscall_info \<Rightarrow> tracer \<Rightarrow> tracer \<times> (tracer_error, syscall_info option) result" where
  "buffer_event i t =
     (case push_bounded (tc_max_buffered (tr_config t)) i (tr_buffer t) of
        None \<Rightarrow> (t, Err TrPanic)
      | Some b \<Rightarrow> (t\<lparr>tr_buffer := b\<rparr>, Ok (Some i)))"

definition next_syscall :: "'k ptrace_os \<Rightarrow> tracer \<Rightarrow> 'k \<Rightarrow> 'k \<times> tracer \<times> (tracer_error, syscall_info option) result" where
  "next_syscall os t k =
     (case tr_pid t of
        None \<Rightarrow> (k, t, Err TrNoProcess)
      | Some pid \<Rightarrow>
          (case po_request os PtraceSyscall pid k of
             (k, False) \<Rightarrow> (k, t, Err (TrPtraceError ''SYSCALL''))
           | (k, True) \<Rightarrow>
               (case po_wait os pid k of
                  (k, WaitFailed) \<Rightarrow> (k, t, Err TrWaitError)
                | (k, WaitExited) \<Rightarrow> (k, t\<lparr>tr_running := False\<rparr>, Ok None)
                | (k, WaitSignaled) \<Rightarrow> (k, t\<lparr>tr_running := False\<rparr>, Ok None)
                | (k, WaitOther) \<Rightarrow> (k, t, Ok None)
                | (k, WaitStopped sig) \<Rightarrow>
                    if and sig 0x80 = 0 then
                      (if tc_signals (tr_config t) then (k, buffer_event (signal_info pid sig (po_now os k)) t)
                       else (k, t, Ok None))
                    else
                      (let t = t\<lparr>tr_expecting_exit := \<not> tr_expecting_exit t\<rparr> in
                       case po_regs os pid k of
                         None \<Rightarrow> (k, t, Err (TrPtraceError ''GETREGS''))
                       | Some r \<Rightarrow>
                           let i = (if tr_expecting_exit t then exit_info pid r (po_now os k)
                                    else entry_info pid r (po_now os k))
                           in if tc_entry (tr_config t) \<and> si_type i = EntryEvent \<or>
                                 tc_exit (tr_config t) \<and> si_type i = ExitEvent
                              then (k, buffer_event i t) else (k, t, Ok (Some i))))))"

definition get_syscalls :: "tracer \<Rightarrow> syscall_info list" where
  "get_syscalls t = tr_buffer t"

definition syscall_count :: "tracer \<Rightarrow> nat" where
  "syscall_count t = length (tr_buffer t)"

definition stop_tracing :: "'k ptrace_os \<Rightarrow> tracer \<Rightarrow> 'k \<Rightarrow> 'k \<times> tracer" where
  "stop_tracing os t k =
     (let k = (case tr_pid t of None \<Rightarrow> k | Some pid \<Rightarrow> fst (po_request os PtraceDetach pid k));
          k = (case tr_child t of None \<Rightarrow> k | Some pid \<Rightarrow> fst (po_request os KillChild pid k))
      in (k, t\<lparr>tr_running := False, tr_child := None, tr_pid := None\<rparr>))"

section \<open>The interceptor with a thread\<close>

datatype interceptor_error = IcSpawnError string | IcPtraceError string

definition spawn_and_trace :: "'k ptrace_os \<Rightarrow> string \<Rightarrow> string list \<Rightarrow> string \<Rightarrow> 'k \<Rightarrow> 'k \<times> (interceptor_error, u32) result" where
  "spawn_and_trace os command args os_error k =
     (case po_spawn os command args k of
        (k, Inl e) \<Rightarrow> (k, Err (IcSpawnError (''Failed to spawn: '' @ e)))
      | (k, Inr pid) \<Rightarrow>
          (case po_request os PtraceSetOptions pid (fst (po_wait os pid k)) of
             (k, False) \<Rightarrow> (k, Err (IcPtraceError (''Failed to set options: '' @ os_error)))
           | (k, True) \<Rightarrow>
               (case po_request os PtraceSyscall pid k of
                  (k, False) \<Rightarrow> (k, Err (IcPtraceError (''Failed to continue: '' @ os_error)))
                | (k, True) \<Rightarrow> (k, Ok pid))))"

text \<open>The state of the thread.  Recording an event asks for the runtime of the current thread, which panics
  in a thread that has none.\<close>

record trace_thread =
  th_entry :: bool
  th_number :: u64
  th_args :: "u64 list"
  th_events :: "deterministic_event list"

definition thread_new :: trace_thread where
  "thread_new = \<lparr>th_entry = True, th_number = 0, th_args = [0, 0, 0, 0, 0, 0], th_events = []\<rparr>"

datatype turn_result = GoOn | EndLoop | ThreadPanic

definition trace_turn :: "'k ptrace_os \<Rightarrow> bool \<Rightarrow> u32 \<Rightarrow> trace_thread \<Rightarrow> 'k \<Rightarrow> 'k \<times> trace_thread \<times> turn_result" where
  "trace_turn os has_runtime pid th k =
     (case po_wait os pid k of
        (k, WaitFailed) \<Rightarrow> (k, th, EndLoop)
      | (k, WaitExited) \<Rightarrow> (k, th, EndLoop)
      | (k, WaitSignaled) \<Rightarrow> (k, th, EndLoop)
      | (k, WaitOther) \<Rightarrow> (k, th, GoOn)
      | (k, WaitStopped sig) \<Rightarrow>
          let continue = (\<lambda>th. case po_request os PtraceSyscall pid k of (k, okay) \<Rightarrow> (k, th, if okay then GoOn else EndLoop))
          in if and sig 0x80 = 0 then continue th
             else if \<not> th_entry th then continue (th\<lparr>th_entry := True\<rparr>)
             else
               (case po_regs os pid k of
                  None \<Rightarrow> continue (th\<lparr>th_entry := False\<rparr>)
                | Some r \<Rightarrow>
                    let th = th\<lparr>th_number := rg_rax r,
                                th_args := [rg_rdi r, rg_rsi r, rg_rdx r, rg_r10 r, rg_r8 r, rg_r9 r]\<rparr>
                    in if has_runtime
                       then continue (th\<lparr>th_events := th_events th @ [Syscall (syscall_name (rg_rax r))], th_entry := False\<rparr>)
                       else (k, th, ThreadPanic)))"

text \<open>The turns of the loop while the flag is set, with fuel for their number.\<close>

fun trace_loop :: "'k ptrace_os \<Rightarrow> bool \<Rightarrow> ('k \<Rightarrow> bool) \<Rightarrow> u32 \<Rightarrow> nat \<Rightarrow> trace_thread \<Rightarrow> 'k \<Rightarrow> 'k \<times> trace_thread" where
  "trace_loop os has_runtime running pid 0 th k = (k, th)"
| "trace_loop os has_runtime running pid (Suc n) th k =
     (if running k then
        (case trace_turn os has_runtime pid th k of
           (k, th, GoOn) \<Rightarrow> trace_loop os has_runtime running pid n th k
         | (k, th, r) \<Rightarrow> (k, th))
      else (k, th))"

section \<open>The two tables\<close>

text \<open>One pass over both sorted tables.\<close>

fun tables_agree :: "(int \<times> string) list \<Rightarrow> (int \<times> string) list \<Rightarrow> bool" where
  "tables_agree K [] = (K = [])"
| "tables_agree [] (p # T) = True"
| "tables_agree ((j, t) # K) ((i, s) # T) =
     (if i = j then (t = s \<or> j = 87) \<and> tables_agree K T else tables_agree ((j, t) # K) T)"

lemma tables_agree_in: "tables_agree K T \<Longrightarrow> (j, t) \<in> set K \<Longrightarrow> j = 87 \<or> (j, t) \<in> set T"
  by (induction K T rule: tables_agree.induct) (auto split: if_splits)

lemma tables_checked: "tables_agree known_syscalls syscall_table"
  by code_simp

lemma table_facts: "list_all (\<lambda>(n, s). s \<noteq> ''unknown'' \<and> (n = 87 \<longrightarrow> s \<noteq> ''waitpid'')) syscall_table"
  by code_simp

lemma known_facts: "list_all (\<lambda>(n, s). s \<noteq> ''unknown'' \<and> (n = 87 \<longrightarrow> s = ''waitpid'')) known_syscalls"
  by code_simp

lemma names_lengths: "length syscall_names_0 = 120" "length syscall_names_120 = 120" "length syscall_names_240 = 95"
    "length syscall_names_424 = 27"
  by (simp_all add: syscall_names_0_def syscall_names_120_def syscall_names_240_def syscall_names_424_def)

lemma table_keys: "map fst syscall_table = [0..334] @ [424..450]"
  by (simp add: syscall_table_def names_lengths)

text \<open>The two modules name a call alike exactly when the interceptor knows it, but for number 87, which it takes
  for \<^verbatim>\<open>waitpid\<close> and the tracer for \<^verbatim>\<open>unlink\<close>.\<close>

theorem syscall_names_agree:
  "syscall_name n = get_syscall_name n \<longleftrightarrow> uint n \<in> fst ` set known_syscalls \<and> n \<noteq> 87"
proof -
  have dist: "distinct (map fst syscall_table)" by (simp add: table_keys)
  have 87: "uint n = 87 \<longleftrightarrow> n = 87" using word_uint_eq_iff [of n 87] by simp
  show ?thesis
  proof (cases "map_of known_syscalls (uint n)")
    case None
    have "get_syscall_name n \<noteq> ''unknown''"
      using table_facts by (auto simp: get_syscall_name_def list_all_iff split: option.split dest!: hm_get_Some_in)
    moreover have "uint n \<notin> fst ` set known_syscalls" using None by (simp add: map_of_eq_None_iff)
    ultimately show ?thesis using None by (simp add: syscall_name_def)
  next
    case (Some s)
    have mem: "(uint n, s) \<in> set known_syscalls" using Some by (rule map_of_SomeD)
    have key: "uint n \<in> fst ` set known_syscalls" using mem by force
    show ?thesis
    proof (cases "n = 87")
      case True
      then have "s = ''waitpid''" using known_facts mem 87 by (auto simp: list_all_iff)
      moreover have "get_syscall_name n \<noteq> ''waitpid''"
        using table_facts True 87
        by (auto simp: get_syscall_name_def list_all_iff split: option.split dest!: hm_get_Some_in)
      ultimately show ?thesis using Some True by (simp add: syscall_name_def)
    next
      case False
      then have "(uint n, s) \<in> set syscall_table" using tables_agree_in [OF tables_checked mem] 87 by simp
      then have "hm_get syscall_table (uint n) = Some s" using dist by (simp add: hm_get_def)
      then show ?thesis using Some False key by (simp add: syscall_name_def get_syscall_name_def)
    qed
  qed
qed

section \<open>Runs of the tracer\<close>

fun trace_run :: "'k ptrace_os \<Rightarrow> nat \<Rightarrow> tracer \<Rightarrow> 'k \<Rightarrow> 'k \<times> tracer \<times> syscall_info list" where
  "trace_run os 0 t k = (k, t, [])"
| "trace_run os (Suc n) t k =
     (case next_syscall os t k of
        (k, t, r) \<Rightarrow>
          (case trace_run os n t k of
             (k, t, is) \<Rightarrow> (k, t, (case r of Inr (Some i) \<Rightarrow> i # is | _ \<Rightarrow> is))))"

definition is_recorded :: "tracer_config \<Rightarrow> syscall_info \<Rightarrow> bool" where
  "is_recorded cfg i \<longleftrightarrow> si_type i = SignalEvent \<or> tc_entry cfg \<and> si_type i = EntryEvent \<or> tc_exit cfg \<and> si_type i = ExitEvent"

definition last_n :: "nat \<Rightarrow> 'a list \<Rightarrow> 'a list" where
  "last_n n xs = drop (length xs - n) xs"

lemma push_last_n:
  assumes "0 < n"
  shows "push_bounded n x (last_n n xs) = Some (last_n n (xs @ [x]))"
proof (cases "n \<le> length xs")
  case True
  then obtain y ys where y: "drop (length xs - n) xs = y # ys" "length ys = n - 1"
    using assms by (cases "drop (length xs - n) xs") (auto dest: arg_cong [where f = length])
  then have "drop (Suc (length xs - n)) xs = ys" by (metis drop_Suc drop_drop list.sel(3) plus_1_eq_Suc drop0 drop_Suc_Cons)
  then show ?thesis using y True assms by (simp add: push_bounded_def last_n_def Suc_diff_le)
next
  case False
  then show ?thesis by (simp add: push_bounded_def last_n_def)
qed

text \<open>What one call does to a tracer: nothing, or a signal, or a stop at a system call.\<close>

lemma next_syscall_cases:
  assumes "next_syscall os t k = (k', t', r)" "0 < tc_max_buffered (tr_config t)" "tr_buffer t = last_n (tc_max_buffered (tr_config t)) xs"
    and "\<forall>pid k. tr_pid t = Some pid \<longrightarrow> po_regs os pid k \<noteq> None"
  obtains (quiet) "tr_expecting_exit t' = tr_expecting_exit t" "tr_buffer t' = tr_buffer t" "tr_config t' = tr_config t"
      "tr_pid t' = tr_pid t" "\<forall>i. r \<noteq> Ok (Some i)"
  | (signal) i where "r = Ok (Some i)" "si_type i = SignalEvent" "tr_expecting_exit t' = tr_expecting_exit t"
      "tr_buffer t' = last_n (tc_max_buffered (tr_config t)) (xs @ [i])" "tr_config t' = tr_config t" "tr_pid t' = tr_pid t"
  | (call) i where "r = Ok (Some i)" "si_type i = (if tr_expecting_exit t then EntryEvent else ExitEvent)"
      "tr_expecting_exit t' \<longleftrightarrow> \<not> tr_expecting_exit t"
      "tr_buffer t' = last_n (tc_max_buffered (tr_config t)) (xs @ (if is_recorded (tr_config t) i then [i] else []))"
      "tr_config t' = tr_config t" "tr_pid t' = tr_pid t"
proof -
  have buffered: "buffer_event i u = (u\<lparr>tr_buffer := last_n (tc_max_buffered (tr_config t)) (xs @ [i])\<rparr>, Ok (Some i))"
    if "tr_buffer u = tr_buffer t" "tr_config u = tr_config t" for i u
    using push_last_n [OF assms(2), of i xs] assms(3) that by (simp add: buffer_event_def)
  have same: "last_n (tc_max_buffered (tr_config t)) (xs @ []) = tr_buffer t" using assms(3) by simp
  show thesis
  proof (cases "tr_pid t")
    case None
    then show thesis using assms(1) by (intro quiet) (auto simp: next_syscall_def)
  next
    case (Some pid)
    obtain k1 okay where req: "po_request os PtraceSyscall pid k = (k1, okay)" by fastforce
    obtain k2 st where wait: "po_wait os pid k1 = (k2, st)" by fastforce
    show thesis
    proof (cases "okay \<and> (\<exists>sig. st = WaitStopped sig)")
      case False
      then show thesis using assms(1) Some req wait
        by (intro quiet) (auto simp: next_syscall_def split: wait_status.splits bool.splits)
    next
      case True
      then obtain sig where st: "okay" "st = WaitStopped sig" by blast
      obtain rg where rg: "po_regs os pid k2 = Some rg" using assms(4) Some by blast
      show thesis
      proof (cases "and sig 0x80 = 0")
        case True
        let ?i = "signal_info pid sig (po_now os k2)"
        show thesis
        proof (cases "tc_signals (tr_config t)")
          case False
          then show thesis using assms(1) Some req wait st True by (intro quiet) (auto simp: next_syscall_def)
        next
          case True
          then show thesis using assms(1) Some req wait st \<open>and sig 0x80 = 0\<close>
            by (intro signal [of ?i]) (auto simp: next_syscall_def buffered signal_info_def)
        qed
      next
        case False
        let ?i = "if tr_expecting_exit t then entry_info pid rg (po_now os k2) else exit_info pid rg (po_now os k2)"
        show thesis
          using assms(1) Some req wait st False rg same
          by (intro call [of ?i])
            (auto simp: next_syscall_def buffered Let_def is_recorded_def entry_info_def exit_info_def split: if_splits)
      qed
    qed
  qed
qed

lemma trace_run_facts:
  assumes "trace_run os n t k = (k', t', evs)" "0 < tc_max_buffered (tr_config t)" "tr_buffer t = last_n (tc_max_buffered (tr_config t)) xs"
    and "\<forall>pid k. tr_pid t = Some pid \<longrightarrow> po_regs os pid k \<noteq> None"
  shows "tr_buffer t' = last_n (tc_max_buffered (tr_config t)) (xs @ filter (is_recorded (tr_config t)) evs) \<and>
    (\<forall>j < length (filter (\<lambda>i. si_type i \<noteq> SignalEvent) evs). si_type (filter (\<lambda>i. si_type i \<noteq> SignalEvent) evs ! j) =
       (if even j = tr_expecting_exit t then EntryEvent else ExitEvent))"
  using assms
proof (induction n arbitrary: t k k' evs xs)
  case 0
  then show ?case by simp
next
  case (Suc n)
  obtain k1 t1 r where nxt: "next_syscall os t k = (k1, t1, r)" by (metis prod_cases3)
  obtain evs' where run: "trace_run os n t1 k1 = (k', t', evs')" and evs': "evs = (case r of Inr (Some i) \<Rightarrow> i # evs' | _ \<Rightarrow> evs')"
    using Suc.prems(1) nxt by (auto split: prod.splits)
  show ?case
  proof (cases rule: next_syscall_cases [OF nxt Suc.prems(2,3,4)])
    case 1
    then have "evs = evs'" using evs' by (cases r; cases "projr r") auto
    then show ?thesis using Suc.IH [OF run, of xs] Suc.prems(2-4) 1 by simp
  next
    case (2 i)
    then show ?thesis using Suc.IH [OF run, of "xs @ [i]"] Suc.prems(2-4) evs' by (simp add: is_recorded_def)
  next
    case (3 i)
    have IH: "tr_buffer t' = last_n (tc_max_buffered (tr_config t)) ((xs @ (if is_recorded (tr_config t) i then [i] else [])) @
          filter (is_recorded (tr_config t)) evs')"
      "\<forall>j < length (filter (\<lambda>i. si_type i \<noteq> SignalEvent) evs'). si_type (filter (\<lambda>i. si_type i \<noteq> SignalEvent) evs' ! j) =
       (if even j = (\<not> tr_expecting_exit t) then EntryEvent else ExitEvent)"
      using Suc.IH [OF run, of "xs @ (if is_recorded (tr_config t) i then [i] else [])"] Suc.prems(2-4) 3(3-6) by simp_all
    have calls: "filter (\<lambda>i. si_type i \<noteq> SignalEvent) evs = i # filter (\<lambda>i. si_type i \<noteq> SignalEvent) evs'"
      using evs' 3(1,2) by simp
    have "filter (is_recorded (tr_config t)) evs = (if is_recorded (tr_config t) i then [i] else []) @ filter (is_recorded (tr_config t)) evs'"
      using evs' 3(1) by simp
    moreover have "si_type ((i # filter (\<lambda>i. si_type i \<noteq> SignalEvent) evs') ! j) = (if even j = tr_expecting_exit t then EntryEvent else ExitEvent)"
      if "j < Suc (length (filter (\<lambda>i. si_type i \<noteq> SignalEvent) evs'))" for j
      using IH(2) 3(2) that by (cases j) auto
    ultimately show ?thesis unfolding calls using IH(1) by simp
  qed
qed

lemma negated_number:
  assumes "1 \<le> e" "e \<le> 4095"
  shows "(- of_nat e :: u64) > 0xffffffffffff0000" "- xor (- of_nat e :: u64) 0xffffffffffffffff = - of_nat (e - 1)"
    "(- of_nat (e - 1) :: u64) \<noteq> of_nat e"
proof -
  have nz: "e mod 18446744073709551616 = e" using assms by simp
  have u: "uint (- of_nat e :: u64) = 18446744073709551616 - int e"
    using assms by (simp add: uint_word_ariths unsigned_of_nat take_bit_eq_mod nz zmod_zminus1_eq_if flip: of_nat_mod)
  show "(- of_nat e :: u64) > 0xffffffffffff0000" using u assms by (simp add: word_less_def)
  have ones: "(0xffffffffffffffff :: u64) = - 1" by simp
  have "- xor (- of_nat e :: u64) 0xffffffffffffffff = - not (- of_nat e)" unfolding ones by (simp add: xor.commute)
  also have "\<dots> = - (of_nat e - 1)" by (simp add: not_eq_complement)
  finally show "- xor (- of_nat e :: u64) 0xffffffffffffffff = - of_nat (e - 1)" using assms by (simp add: of_nat_diff)
  have "of_nat e + of_nat (e - 1) \<noteq> (0::u64)"
  proof -
    have "(of_nat (e + (e - 1)) :: u64) \<noteq> 0"
      using assms by (simp only: word_of_nat_eq_0_iff) (auto dest: dvd_imp_le)
    then show ?thesis by simp
  qed
  then show "(- of_nat (e - 1) :: u64) \<noteq> of_nat e" by (metis neg_eq_iff_add_eq_0 add.commute)
qed

lemma spawn_traced_state:
  assumes "spawn_traced os program args (tracer_new cfg) k = (k', t, Ok pid)"
  shows "tr_config t = cfg" "tr_pid t = Some pid" "tr_buffer t = []" "\<not> tr_expecting_exit t"
  using assms by (auto simp: spawn_traced_def tracer_new_def Let_def split: prod.splits sum.splits bool.splits)


text \<open>The stops at system calls alternate, and the first is an entry.  The tracer reports each as the opposite:
  the entries, from the first, as exits, and the exits as entries.\<close>

theorem event_types_swapped:
  assumes "spawn_traced os program args (tracer_new cfg) k = (k1, t, Ok pid)" "\<And>k. po_regs os pid k \<noteq> None"
    and "0 < tc_max_buffered cfg" "trace_run os n t k1 = (k2, t2, evs)"
    and "j < length (filter (\<lambda>i. si_type i \<noteq> SignalEvent) evs)"
  shows "si_type (filter (\<lambda>i. si_type i \<noteq> SignalEvent) evs ! j) = (if even j then ExitEvent else EntryEvent)"
  using trace_run_facts [OF assms(4), of "[]"] assms(2,3,5) spawn_traced_state [OF assms(1)]
  by (simp add: last_n_def)

text \<open>A process that stops at a system call at every turn, for the witnesses.\<close>

definition stopping_os :: "u64 ptrace_os" where
  "stopping_os =
     \<lparr>po_spawn = (\<lambda>_ _ k. (k, Inr 7)), po_request = (\<lambda>_ _ k. (k + 1, True)), po_wait = (\<lambda>_ k. (k, WaitStopped 0x85)),
      po_regs = (\<lambda>_ k. Some \<lparr>rg_orig_rax = 1, rg_rax = - 2, rg_rdi = 1, rg_rsi = 0, rg_rdx = 0, rg_r10 = 0, rg_r8 = 0,
        rg_r9 = 0, rg_rip = 0, rg_rsp = 0\<rparr>), po_now = (\<lambda>k. k)\<rparr>"

definition demo_tracer :: "tracer" where
  "demo_tracer = fst (snd (spawn_traced stopping_os ''ls'' [] (tracer_new (tracer_config_default\<lparr>tc_max_buffered := 2\<rparr>)) 0))"

lemma demo_spawned:
  "spawn_traced stopping_os ''ls'' [] (tracer_new (tracer_config_default\<lparr>tc_max_buffered := 2\<rparr>)) 0 = (1, demo_tracer, Ok 7)"
  by (simp add: demo_tracer_def spawn_traced_def stopping_os_def)

lemma stopping_regs: "po_regs stopping_os pid k \<noteq> None"
  by (simp add: stopping_os_def)

definition demo_run :: "nat \<Rightarrow> u64 \<times> tracer \<times> syscall_info list" where
  "demo_run n = trace_run stopping_os n demo_tracer 1"

lemma demo_calls:
  "trace_run stopping_os n demo_tracer 1 = (fst (demo_run n), fst (snd (demo_run n)), snd (snd (demo_run n)))"
  by (simp add: demo_run_def)

lemma demo_events: "map (\<lambda>i. (si_time i, si_type i)) (snd (snd (demo_run 3))) = [(2, ExitEvent), (3, EntryEvent), (4, ExitEvent)]"
  by (simp add: demo_run_def demo_tracer_def stopping_os_def numeral_3_eq_3 next_syscall_def spawn_traced_def tracer_new_def Let_def
      buffer_event_def push_bounded_def tracer_config_default_def entry_info_def exit_info_def split: option.split)


theorem event_types_swapped_witness: "si_type (filter (\<lambda>i. si_type i \<noteq> SignalEvent) (snd (snd (demo_run 3))) ! 0) = ExitEvent"
proof -
  have "0 < length (filter (\<lambda>i. si_type i \<noteq> SignalEvent) (snd (snd (demo_run 3))))" using demo_events by auto
  then show ?thesis using event_types_swapped [OF demo_spawned stopping_regs _ demo_calls, of 0 3] by simp
qed

text \<open>The error of a failed call: the kernel returns the negated number, and the tracer reports that number
  less one, negated: never the number itself.\<close>

theorem error_code_off:
  assumes "rg_rax r = - of_nat e" "1 \<le> e" "e \<le> 4095"
  shows "si_error (exit_info pid r now) = Some (- of_nat (e - 1)) \<and> si_error (exit_info pid r now) \<noteq> Some (of_nat e)"
  using negated_number [OF assms(2,3)] assms(1) by (simp add: exit_info_def)

theorem error_code_off_witness:
  "si_error (exit_info 7 \<lparr>rg_orig_rax = 2, rg_rax = - 2, rg_rdi = 1, rg_rsi = 0, rg_rdx = 0, rg_r10 = 0, rg_r8 = 0,
     rg_r9 = 0, rg_rip = 0, rg_rsp = 0\<rparr> 0) = Some (- 1)"
  using error_code_off [of "\<lparr>rg_orig_rax = 2, rg_rax = - 2, rg_rdi = 1, rg_rsi = 0, rg_rdx = 0, rg_r10 = 0, rg_r8 = 0,
     rg_r9 = 0, rg_rip = 0, rg_rsp = 0\<rparr>" 2 7 0] by simp

text \<open>The thread of the interceptor has no runtime: it panics at the first entry whose registers it can read,
  and no event is ever is_recorded.\<close>

theorem thread_records_nothing:
  "th_events (snd (trace_loop os False running pid n thread_new k)) = []"
proof -
  have "th_events (snd (trace_loop os False running pid n th k)) = th_events th" for th
  proof (induction n arbitrary: th k)
    case (Suc n)
    have "th_events (fst (snd (trace_turn os False pid th k))) = th_events th"
      by (simp add: trace_turn_def Let_def split: prod.split wait_status.split option.split)
    then show ?case using Suc.IH by (auto split: prod.split turn_result.split)
  qed simp
  then show ?thesis by (simp add: thread_new_def)
qed

end
