(* ===== verification/Text.thy ===== *)
theory Text
  imports Model
begin

text \<open>
  Operations of the standard library on text that several modules share: splitting at white space
  (\<^verbatim>\<open>split_whitespace\<close>), reading unsigned numbers (\<^verbatim>\<open>parse::<u16>()\<close> and the like), removing prefixes and suffixes, and
  lines of a text.  A character is a code point below 256; white space is what Unicode says of those.
\<close>

definition white_space :: "char \<Rightarrow> bool" where
  "white_space c \<longleftrightarrow> (let n = of_char c :: nat in 9 \<le> n \<and> n \<le> 13 \<or> n = 32 \<or> n = 0x85 \<or> n = 0xA0)"

fun words_from :: "string \<Rightarrow> string \<Rightarrow> string list" where
  "words_from w [] = (if w = [] then [] else [w])"
| "words_from w (c # s) =
     (if white_space c then (if w = [] then words_from [] s else w # words_from [] s) else words_from (w @ [c]) s)"

definition split_whitespace :: "string \<Rightarrow> string list" where
  "split_whitespace s = words_from [] s"

text \<open>A word is what splitting at white space can return.\<close>

definition word_ok :: "string \<Rightarrow> bool" where
  "word_ok w \<longleftrightarrow> w \<noteq> [] \<and> \<not> (\<exists>c \<in> set w. white_space c)"

lemma words_from_word:
  assumes "\<not> (\<exists>c \<in> set w. white_space c)" "a @ w \<noteq> []" "white_space c"
  shows "words_from a (w @ c # s) = (a @ w) # words_from [] s"
  using assms(1,2)
proof (induction w arbitrary: a)
  case Nil
  then show ?case using assms(3) by simp
next
  case (Cons d w)
  then show ?case using Cons.IH [of "a @ [d]"] by simp
qed

lemma split_word: "word_ok w \<Longrightarrow> white_space c \<Longrightarrow> words_from [] (w @ c # s) = w # words_from [] s"
  using words_from_word [of w "[]" c s] by (simp add: word_ok_def)

lemma split_last_word: "word_ok w \<Longrightarrow> words_from [] w = [w]"
proof -
  have "words_from a w = [a @ w]" if "\<not> (\<exists>c \<in> set w. white_space c)" "a @ w \<noteq> []" for a
    using that by (induction w arbitrary: a) auto
  then show "word_ok w \<Longrightarrow> words_from [] w = [w]" by (simp add: word_ok_def)
qed

lemma words_are_ok:
  assumes "x \<in> set (words_from a s)" "\<not> (\<exists>c \<in> set a. white_space c)"
  shows "word_ok x"
  using assms
proof (induction a s rule: words_from.induct)
  case (2 w c s)
  show ?case
  proof (cases "white_space c")
    case True
    then show ?thesis using 2 by (cases "w = []") (auto simp: word_ok_def)
  next
    case False
    then show ?thesis using 2 by auto
  qed
qed (auto simp: word_ok_def split: if_splits)

section \<open>Numbers\<close>

definition digit_of :: "char \<Rightarrow> nat option" where
  "digit_of c = (let n = of_char c :: nat in if 48 \<le> n \<and> n \<le> 57 then Some (n - 48) else None)"

fun digits_from :: "nat \<Rightarrow> string \<Rightarrow> nat option" where
  "digits_from n [] = Some n"
| "digits_from n (c # s) = (case digit_of c of None \<Rightarrow> None | Some d \<Rightarrow> digits_from (n * 10 + d) s)"

text \<open>\<^verbatim>\<open>parse\<close> of an unsigned integer below a bound: an optional plus sign and digits.\<close>

definition parse_uint :: "nat \<Rightarrow> string \<Rightarrow> nat option" where
  "parse_uint bound s =
     (let ds = (case s of c # cs \<Rightarrow> if c = CHR ''+'' then cs else s | [] \<Rightarrow> s) in
      if ds = [] then None
      else (case digits_from 0 ds of None \<Rightarrow> None | Some n \<Rightarrow> if n < bound then Some n else None))"

lemma less_10_cases: "d < 10 \<Longrightarrow> d = 0 \<or> d = 1 \<or> d = 2 \<or> d = 3 \<or> d = 4 \<or> d = 5 \<or> d = 6 \<or> d = 7 \<or> d = 8 \<or> d = (9::nat)"
  by arith

lemma digit_char_facts:
  assumes "d < 10"
  shows "digit_of (digit_char d) = Some d" "\<not> white_space (digit_char d)" "digit_char d \<noteq> CHR ''+''"
  using less_10_cases [OF assms] by (auto simp: digit_of_def digit_char_def white_space_def Let_def)

lemma digits_from_append: "digits_from n (s @ t) = (case digits_from n s of None \<Rightarrow> None | Some m \<Rightarrow> digits_from m t)"
  by (induction s arbitrary: n) (auto split: option.split)

lemma dec_str_facts:
  shows "digits_from 0 (dec_str n) = Some n" "word_ok (dec_str n)" "hd (dec_str n) \<noteq> CHR ''+''"
proof (induction n rule: dec_str.induct)
  case (1 n)
  {
    case 1 then show ?case
      using "1.IH"(1) by (subst dec_str.simps) (auto simp: digits_from_append digit_char_facts)
  next
    case 2 then show ?case
      using "1.IH"(2) by (subst dec_str.simps) (auto simp: word_ok_def digit_char_facts)
  next
    case 3 then show ?case
      using "1.IH"(2,3) by (subst dec_str.simps) (auto simp: word_ok_def digit_char_facts)
  }
qed

lemma parse_dec_str: "parse_uint b (dec_str n) = (if n < b then Some n else None)"
proof -
  obtain c cs where "dec_str n = c # cs" using dec_str_facts(2) [of n] by (cases "dec_str n") (auto simp: word_ok_def)
  then show ?thesis using dec_str_facts [of n] by (simp add: parse_uint_def)
qed

section \<open>Prefixes, suffixes and lines\<close>

definition starts_with :: "string \<Rightarrow> string \<Rightarrow> bool" where
  "starts_with p s \<longleftrightarrow> take (length p) s = p"

lemma starts_with_simps [simp]:
  "starts_with [] s" "\<not> starts_with (c # p) []" "starts_with (c # p) (d # s) \<longleftrightarrow> c = d \<and> starts_with p s"
  by (auto simp: starts_with_def)

lemma starts_with_append [simp]: "starts_with p (p @ s)"
  by (simp add: starts_with_def)

text \<open>\<^verbatim>\<open>trim_start_matches\<close> with a text, and \<^verbatim>\<open>trim_end_matches\<close> with a character.\<close>

function trim_start :: "string \<Rightarrow> string \<Rightarrow> string" where
  "trim_start p s = (if p \<noteq> [] \<and> starts_with p s then trim_start p (drop (length p) s) else s)"
  by auto
termination
  by (relation "measure (length \<circ> snd)") (auto simp: starts_with_def intro: diff_less)

declare trim_start.simps [simp del]

definition trim_end :: "char \<Rightarrow> string \<Rightarrow> string" where
  "trim_end c s = rev (dropWhile (\<lambda>d. d = c) (rev s))"

definition line_end :: string where
  "line_end = [CHR 0x0D, CHR 0x0A]"

definition text_line :: "string \<Rightarrow> string" where
  "text_line s = s @ line_end"

text \<open>The lines of a text whose lines end in carriage return and line feed.\<close>

fun lines_from :: "string \<Rightarrow> string \<Rightarrow> string list" where
  "lines_from l [] = []"
| "lines_from l (c # s) = (if c = CHR 0x0A then butlast l # lines_from [] s else lines_from (l @ [c]) s)"

definition crlf_lines :: "string \<Rightarrow> string list" where
  "crlf_lines s = lines_from [] s"

definition line_ok :: "string \<Rightarrow> bool" where
  "line_ok s \<longleftrightarrow> CHR 0x0A \<notin> set s"

lemma lines_from_line: "line_ok l \<Longrightarrow> lines_from a (text_line l @ s) = (a @ l) # lines_from [] s"
  by (induction l arbitrary: a) (auto simp: line_ok_def text_line_def line_end_def)

lemma crlf_lines_concat: "list_all line_ok ls \<Longrightarrow> crlf_lines (concat (map text_line ls)) = ls"
  by (induction ls) (auto simp: crlf_lines_def lines_from_line)

lemma line_ok_append [simp]: "line_ok (s @ t) \<longleftrightarrow> line_ok s \<and> line_ok t"
  by (auto simp: line_ok_def)

lemma line_ok_Nil [simp]: "line_ok []"
  by (simp add: line_ok_def)

lemma line_ok_Cons [simp]: "line_ok (c # s) \<longleftrightarrow> c \<noteq> CHR 0x0A \<and> line_ok s"
  by (auto simp: line_ok_def)

lemma word_line_ok: "word_ok w \<Longrightarrow> line_ok w"
  by (auto simp: word_ok_def line_ok_def white_space_def)

lemma dec_line_ok [simp]: "line_ok (dec_str n)"
  by (rule word_line_ok [OF dec_str_facts(2)])


section \<open>HTTP\<close>

text \<open>\<^verbatim>\<open>StatusCode::is_success\<close>.\<close>

definition success_status :: "nat \<Rightarrow> bool" where
  "success_status n \<longleftrightarrow> 200 \<le> n \<and> n < 300"

end
