(* ===== verification/Webrtc.thy ===== *)
theory Webrtc
  imports Text F32
begin

text \<open>
  \<^verbatim>\<open>src/src/webrtc_transport.rs\<close>: the transport that a viewer connects to, with its session descriptions (SDP), its
  ICE candidates, its tracks and its channels.  The receiving ends of the video and the audio channel are dropped when
  \<^verbatim>\<open>start_media\<close> returns, so only whether the sending end is there is state; the channel of
  input events has both ends in the transport and is the list of the events that wait in it.
  \<^verbatim>\<open>local_sdp\<close> and \<^verbatim>\<open>remote_sdp\<close> are taken to be behind locks, as their uses are.
\<close>

section \<open>Data\<close>

datatype ice_server =
    Stun string
  | Turn (turn_url: string) (turn_username: string) (turn_password: string)

definition ice_urls :: "ice_server \<Rightarrow> string list" where
  "ice_urls s = (case s of Stun url \<Rightarrow> [url] | Turn url u p \<Rightarrow> [url])"

record transport_config =
  tp_ice_servers :: "ice_server list"
  tp_bundle :: bool
  tp_rtcp :: bool
  tp_ice_timeout :: u64
  tp_connection_timeout :: u64
  tp_max_retransmits :: "16 word"

definition transport_config_default :: transport_config where
  "transport_config_default =
     \<lparr>tp_ice_servers = [Stun ''stun:stun.l.google.com:19302'', Stun ''stun:stun1.l.google.com:19302''],
      tp_bundle = True, tp_rtcp = True, tp_ice_timeout = 30, tp_connection_timeout = 60, tp_max_retransmits = 0\<rparr>"

datatype sdp_type = Offer | Answer | PrAnswer | Rollback

record sdp_session =
  sdp_kind :: sdp_type
  sdp_text :: string
  sdp_media :: "string option"

datatype ice_state = IceNew | IceChecking | IceConnected | IceCompleted | IceFailed | IceDisconnected | IceClosed

datatype peer_state = PeerNew | PeerConnecting | PeerConnected | PeerDisconnected | PeerFailed | PeerClosed

datatype candidate_type = HostCandidate | Srflx | Prflx | Relay

record ice_candidate =
  ic_foundation :: string
  ic_component :: "16 word"
  ic_protocol :: string
  ic_priority :: u64
  ic_address :: string
  ic_port :: "16 word"
  ic_type :: candidate_type
  ic_related_address :: "string option"
  ic_related_port :: "16 word option"

datatype track_kind = AudioTrack | VideoTrack | DataTrack

record media_track =
  mt_id :: string
  mt_kind :: track_kind
  mt_codec :: string
  mt_ssrc :: u32
  mt_payload_type :: byte

record video_frame =
  vf_timestamp :: u64
  vf_data :: bytes
  vf_keyframe :: bool
  vf_width :: u32
  vf_height :: u32

record audio_frame =
  au_timestamp :: u64
  au_data :: bytes
  au_samples :: "16 word"

datatype touch_phase = TouchStarted | TouchMoved | TouchEnded | TouchCancelled

datatype input_event =
    KeyboardInput u32 bool byte
  | MouseMotion "32 word" "32 word" "32 word" "32 word"
  | MouseButton byte bool "32 word" "32 word"
  | TouchInput u64 touch_phase rat rat

datatype webrtc_error = InvalidSdpType string | SendError string

section \<open>Candidates\<close>

definition candidate_type_str :: "candidate_type \<Rightarrow> string" where
  "candidate_type_str t =
     (case t of HostCandidate \<Rightarrow> ''host'' | Srflx \<Rightarrow> ''srflx'' | Prflx \<Rightarrow> ''prflx'' | Relay \<Rightarrow> ''relay'')"

definition candidate_line :: "ice_candidate \<Rightarrow> string" where
  "candidate_line c =
     ''a=candidate:'' @ ic_foundation c @ '' '' @ dec_str (unat (ic_component c)) @ '' '' @ ic_protocol c @ '' '' @
     dec_str (unat (ic_priority c)) @ '' '' @ ic_address c @ '' '' @ dec_str (unat (ic_port c)) @ '' typ '' @
     candidate_type_str (ic_type c) @
     (case ic_related_address c of
        None \<Rightarrow> ''''
      | Some rel \<Rightarrow>
          '' raddr '' @ rel @ '' rport '' @
          dec_str (unat (case ic_related_port c of None \<Rightarrow> 0 | Some p \<Rightarrow> p)))"

definition to_sdp :: "ice_candidate \<Rightarrow> string" where
  "to_sdp c = text_line (candidate_line c)"

definition from_sdp :: "string \<Rightarrow> ice_candidate option" where
  "from_sdp line =
     (if \<not> starts_with ''a=candidate:'' line then None
      else
        let parts = split_whitespace (drop 12 line) in
        if length parts < 8 then None
        else
          (case parse_uint (2 ^ 16) (parts ! 1) of
             None \<Rightarrow> None
           | Some component \<Rightarrow>
               (case parse_uint (2 ^ 64) (parts ! 3) of
                  None \<Rightarrow> None
                | Some priority \<Rightarrow>
                    (case parse_uint (2 ^ 16) (parts ! 5) of
                       None \<Rightarrow> None
                     | Some port \<Rightarrow>
                         Some
                           \<lparr>ic_foundation = parts ! 0, ic_component = of_nat component, ic_protocol = parts ! 2,
                            ic_priority = of_nat priority, ic_address = parts ! 4, ic_port = of_nat port,
                            ic_type =
                              (if parts ! 7 = ''host'' then HostCandidate
                               else if parts ! 7 = ''srflx'' then Srflx
                               else if parts ! 7 = ''prflx'' then Prflx
                               else if parts ! 7 = ''relay'' then Relay
                               else HostCandidate),
                            ic_related_address = None, ic_related_port = None\<rparr>))))"

section \<open>The transport\<close>

record transport =
  tr_cfg :: transport_config
  tr_peer :: uuid
  tr_remote_peer :: "uuid option"
  tr_state :: peer_state
  tr_ice :: ice_state
  tr_local_candidates :: "ice_candidate list"
  tr_remote_candidates :: "ice_candidate list"
  tr_local_tracks :: "media_track list"
  tr_remote_tracks :: "media_track list"
  tr_video :: bool
  tr_audio :: bool
  tr_input :: "input_event list option"
  tr_local_sdp :: "sdp_session option"
  tr_remote_sdp :: "sdp_session option"

definition transport_new :: "uuid \<Rightarrow> transport_config \<Rightarrow> transport" where
  "transport_new fresh cfg =
     \<lparr>tr_cfg = cfg, tr_peer = fresh, tr_remote_peer = None, tr_state = PeerNew, tr_ice = IceNew,
      tr_local_candidates = [], tr_remote_candidates = [], tr_local_tracks = [], tr_remote_tracks = [],
      tr_video = False, tr_audio = False, tr_input = None, tr_local_sdp = None, tr_remote_sdp = None\<rparr>"

text \<open>The text of a session description, line by line.\<close>

definition session_lines :: "transport \<Rightarrow> string list" where
  "session_lines t =
     [''v=0'', ''o=- '' @ tr_peer t @ '' 2 IN IP4 127.0.0.1'', ''s=-'', ''t=0 0'', ''a=msid-semantic: WMS *'',
      ''a=group:BUNDLE''] @
     (if tp_rtcp (tr_cfg t) then [''a=rtcp-mux'', ''a=rtcp-rsize''] else [])"

definition video_codec_lines :: "string list" where
  "video_codec_lines =
     [''a=rtpmap:96 VP8/90000'', ''a=rtcp-fb:96 goog-remb'', ''a=rtcp-fb:96 transport-cc'', ''a=rtcp-fb:96 ccm fir'',
      ''a=rtcp-fb:96 nack'', ''a=rtcp-fb:96 nack pli'',
      ''a=rtpmap:97 H264/90000'',
      ''a=fmtp:97 level-asymmetry-allowed=1;packetization-mode=1;profile-level-id=42e01f'',
      ''a=rtcp-fb:97 goog-remb'', ''a=rtcp-fb:97 transport-cc'', ''a=rtcp-fb:97 ccm fir'', ''a=rtcp-fb:97 nack'',
      ''a=rtcp-fb:97 nack pli'',
      ''a=rtpmap:98 VP9/90000'', ''a=rtcp-fb:98 goog-remb'', ''a=rtcp-fb:98 transport-cc'', ''a=rtcp-fb:98 ccm fir'',
      ''a=rtcp-fb:98 nack'', ''a=rtcp-fb:98 nack pli'',
      ''a=rtpmap:99 H264/90000'',
      ''a=fmtp:99 level-asymmetry-allowed=1;packetization-mode=0;profile-level-id=42e01f'',
      ''a=rtpmap:100 red/90000'', ''a=rtpmap:101 ulpfec/90000'', ''a=rtpmap:102 rtx/90000'', ''a=fmtp:102 apt=97'',
      ''a=rtpmap:121 rtx/90000'', ''a=fmtp:121 apt=98'', ''a=rtpmap:127 rtx/90000'', ''a=fmtp:127 apt=120'',
      ''a=rtpmap:120 rtx/90000'', ''a=fmtp:120 apt=96'', ''a=rtpmap:125 rtx/90000'', ''a=fmtp:125 apt=99'']"

definition video_ssrc_lines :: "transport \<Rightarrow> string list" where
  "video_ssrc_lines t =
     (case List.find (\<lambda>m. mt_kind m = VideoTrack) (tr_local_tracks t) of
        None \<Rightarrow> []
      | Some m \<Rightarrow>
          (let ssrc = dec_str (unat (mt_ssrc m)) in
           [''a=ssrc:'' @ ssrc @ '' cname:isa-webrtc'',
            ''a=ssrc:'' @ ssrc @ '' msid:'' @ tr_peer t @ '' '' @ mt_id m,
            ''a=ssrc:'' @ ssrc @ '' mslabel:'' @ tr_peer t,
            ''a=ssrc:'' @ ssrc @ '' label:'' @ mt_id m]))"

definition video_lines :: "transport \<Rightarrow> sdp_type \<Rightarrow> string list" where
  "video_lines t ty =
     [''m=video 9 UDP/TLS/RTP/SAVPF 96 97 98 99 100 101 102 121 127 120 125'', ''c=IN IP4 0.0.0.0'',
      (if ty = Offer then ''a=sendonly'' else ''a=recvonly'')] @
     video_codec_lines @ video_ssrc_lines t @ map candidate_line (tr_local_candidates t) @
     [''a=end-of-candidates'', ''a=ice-ufrag:isa12345'', ''a=ice-pwd:abcdefghijklmnopqrstuvwxyz123456'',
      ''a=fingerprint:sha-256 00:11:22:33:44:55:66:77:88:99:AA:BB:CC:DD:EE:FF:00:11:22:33:44:55:66:77:88:99:AA:BB:CC:DD:EE:FF'',
      (if ty = Offer then ''a=setup:actpass'' else ''a=setup:active''), ''a=mid:0'']"

definition audio_lines :: "transport \<Rightarrow> sdp_type \<Rightarrow> string list" where
  "audio_lines t ty =
     [''m=audio 9 UDP/TLS/RTP/SAVPF 111 103 104 9 0 8 106 105 13 110 112 113 126'', ''c=IN IP4 0.0.0.0'',
      (if ty = Offer then ''a=sendonly'' else ''a=recvonly''),
      ''a=rtpmap:111 opus/48000/2'', ''a=fmtp:111 minptime=10;useinbandfec=1'', ''a=rtcp-fb:111 transport-cc'',
      ''a=rtpmap:103 ISAC/16000'', ''a=rtpmap:104 ISAC/32000'', ''a=rtpmap:9 G722/8000'', ''a=rtpmap:0 PCMU/8000'',
      ''a=rtpmap:8 PCMA/8000'', ''a=rtpmap:106 CN/32000'', ''a=rtpmap:105 CN/16000'', ''a=rtpmap:13 CN/8000''] @
     (case List.find (\<lambda>m. mt_kind m = AudioTrack) (tr_local_tracks t) of
        None \<Rightarrow> []
      | Some m \<Rightarrow>
          [''a=ssrc:'' @ dec_str (unat (mt_ssrc m)) @ '' cname:isa-webrtc'',
           ''a=ssrc:'' @ dec_str (unat (mt_ssrc m)) @ '' msid:'' @ tr_peer t @ '' '' @ mt_id m]) @
     [''a=mid:1'']"

definition has_kind :: "track_kind \<Rightarrow> transport \<Rightarrow> bool" where
  "has_kind k t \<longleftrightarrow> list_ex (\<lambda>m. mt_kind m = k) (tr_local_tracks t)"

definition sdp_lines :: "transport \<Rightarrow> sdp_type \<Rightarrow> string list" where
  "sdp_lines t ty =
     session_lines t @ (if has_kind VideoTrack t then video_lines t ty else []) @
     (if has_kind AudioTrack t then audio_lines t ty else [])"

definition generate_sdp :: "transport \<Rightarrow> sdp_type \<Rightarrow> string" where
  "generate_sdp t ty = concat (map text_line (sdp_lines t ty))"

definition create_offer :: "uuid \<Rightarrow> transport \<Rightarrow> transport \<times> sdp_session" where
  "create_offer fresh t =
     (let s = \<lparr>sdp_kind = Offer, sdp_text = generate_sdp t Offer, sdp_media = Some fresh\<rparr>
      in (t\<lparr>tr_local_sdp := Some s\<rparr>, s))"

definition create_answer :: "sdp_session \<Rightarrow> transport \<Rightarrow> transport \<times> (webrtc_error, sdp_session) result" where
  "create_answer off t =
     (if sdp_kind off \<noteq> Offer then (t, Err (InvalidSdpType ''Expected Offer''))
      else
        let s = \<lparr>sdp_kind = Answer, sdp_text = generate_sdp t Answer, sdp_media = sdp_media off\<rparr>
        in (t\<lparr>tr_local_sdp := Some s\<rparr>, Ok s))"

definition set_local_description :: "sdp_session \<Rightarrow> transport \<Rightarrow> transport" where
  "set_local_description s t = t\<lparr>tr_local_sdp := Some s\<rparr>"

definition set_remote_description :: "sdp_session \<Rightarrow> transport \<Rightarrow> transport" where
  "set_remote_description s t = t\<lparr>tr_remote_sdp := Some s\<rparr>"

definition add_ice_candidate :: "ice_candidate \<Rightarrow> transport \<Rightarrow> transport" where
  "add_ice_candidate c t = t\<lparr>tr_remote_candidates := tr_remote_candidates t @ [c]\<rparr>"

definition add_track :: "media_track \<Rightarrow> transport \<Rightarrow> transport" where
  "add_track m t = t\<lparr>tr_local_tracks := tr_local_tracks t @ [m]\<rparr>"

text \<open>A send to a channel whose receiving end has been dropped fails.\<close>

definition send_video :: "video_frame \<Rightarrow> transport \<Rightarrow> (webrtc_error, unit) result" where
  "send_video f t = (if tr_video t then Err (SendError ''channel closed'') else Ok ())"

definition send_audio :: "audio_frame \<Rightarrow> transport \<Rightarrow> (webrtc_error, unit) result" where
  "send_audio f t = (if tr_audio t then Err (SendError ''channel closed'') else Ok ())"

definition channel_size :: nat where
  "channel_size = 100"

text \<open>\<open>None\<close>: the call waits, for room in the channel or for an event.\<close>

definition send_input :: "input_event \<Rightarrow> transport \<Rightarrow> (transport \<times> (webrtc_error, unit) result) option" where
  "send_input e t =
     (case tr_input t of
        None \<Rightarrow> Some (t, Ok ())
      | Some q \<Rightarrow> if length q < channel_size then Some (t\<lparr>tr_input := Some (q @ [e])\<rparr>, Ok ()) else None)"

definition recv_input :: "transport \<Rightarrow> (transport \<times> input_event option) option" where
  "recv_input t =
     (case tr_input t of
        None \<Rightarrow> Some (t, None)
      | Some [] \<Rightarrow> None
      | Some (e # q) \<Rightarrow> Some (t\<lparr>tr_input := Some q\<rparr>, Some e))"

definition start_media :: "transport \<Rightarrow> transport" where
  "start_media t =
     t\<lparr>tr_video := True, tr_audio := True, tr_input := Some [], tr_state := PeerConnected, tr_ice := IceConnected\<rparr>"

definition stop_media :: "transport \<Rightarrow> transport" where
  "stop_media t = t\<lparr>tr_video := False, tr_audio := False, tr_input := None, tr_state := PeerDisconnected\<rparr>"

definition close_transport :: "transport \<Rightarrow> transport" where
  "close_transport t = t\<lparr>tr_state := PeerClosed, tr_ice := IceClosed\<rparr>"

definition simulated_candidates :: "ice_candidate list" where
  "simulated_candidates =
     [\<lparr>ic_foundation = ''1'', ic_component = 1, ic_protocol = ''udp'', ic_priority = 2130706431,
       ic_address = ''127.0.0.1'', ic_port = 8080, ic_type = HostCandidate, ic_related_address = None,
       ic_related_port = None\<rparr>,
      \<lparr>ic_foundation = ''2'', ic_component = 1, ic_protocol = ''udp'', ic_priority = 1694498815,
       ic_address = ''203.0.113.1'', ic_port = 9090, ic_type = Srflx, ic_related_address = Some ''192.168.1.100'',
       ic_related_port = Some 8080\<rparr>]"

definition gather_ice_candidates :: "transport \<Rightarrow> transport \<times> ice_candidate list" where
  "gather_ice_candidates t =
     (t\<lparr>tr_local_candidates := simulated_candidates, tr_ice := IceCompleted\<rparr>, simulated_candidates)"

record webrtc_stats =
  ws_peer :: uuid
  ws_remote_peer :: "uuid option"
  ws_state :: peer_state
  ws_ice :: ice_state
  ws_local_tracks :: nat
  ws_remote_tracks :: nat
  ws_local_candidates :: nat

definition transport_stats :: "transport \<Rightarrow> webrtc_stats" where
  "transport_stats t =
     \<lparr>ws_peer = tr_peer t, ws_remote_peer = tr_remote_peer t, ws_state = tr_state t, ws_ice = tr_ice t,
      ws_local_tracks = length (tr_local_tracks t), ws_remote_tracks = length (tr_remote_tracks t),
      ws_local_candidates = length (tr_local_candidates t)\<rparr>"

section \<open>Candidates are read back\<close>

lemma type_word: "word_ok (candidate_type_str ty)"
  by (cases ty) (simp_all add: candidate_type_str_def word_ok_def white_space_def Let_def)

lemma blank_white: "white_space CHR '' ''"
  by (simp add: white_space_def)

lemma candidate_words:
  assumes "word_ok (ic_foundation c)" "word_ok (ic_protocol c)" "word_ok (ic_address c)"
    and "\<And>d s. sfx = d # s \<Longrightarrow> white_space d"
  shows "\<exists>ws. split_whitespace (drop 12 (candidate_line c @ sfx)) =
    [ic_foundation c, dec_str (unat (ic_component c)), ic_protocol c, dec_str (unat (ic_priority c)), ic_address c,
     dec_str (unat (ic_port c)), ''typ'', candidate_type_str (ic_type c)] @ ws"
proof -
  define rest where "rest = (case ic_related_address c of None \<Rightarrow> '''' | Some rel \<Rightarrow>
      '' raddr '' @ rel @ '' rport '' @ dec_str (unat (case ic_related_port c of None \<Rightarrow> 0 | Some p \<Rightarrow> p))) @ sfx"
  have sp: "white_space d" if "rest = d # s" for d s
    using that assms(4) by (cases "ic_related_address c") (auto simp: rest_def white_space_def)
  have kind: "\<exists>ws. words_from [] (candidate_type_str (ic_type c) @ rest) = candidate_type_str (ic_type c) # ws"
    using sp split_word [OF type_word] split_last_word [OF type_word] by (cases rest) auto
  have line: "drop 12 (candidate_line c @ sfx) =
      ic_foundation c @ CHR '' '' # dec_str (unat (ic_component c)) @ CHR '' '' # ic_protocol c @ CHR '' '' #
      dec_str (unat (ic_priority c)) @ CHR '' '' # ic_address c @ CHR '' '' # dec_str (unat (ic_port c)) @ CHR '' '' #
      ''typ'' @ CHR '' '' # candidate_type_str (ic_type c) @ rest"
    by (simp add: candidate_line_def rest_def)
  show ?thesis
    unfolding split_whitespace_def line
    by (simp only: split_word [OF _ blank_white] assms(1-3) dec_str_facts(2) append_Cons append_Nil)
      (use kind in \<open>simp add: white_space_def\<close>)
qed

lemma parsed_fields:
  assumes "from_sdp l = Some c"
  shows "8 \<le> length (split_whitespace (drop 12 l)) \<and> ic_foundation c = split_whitespace (drop 12 l) ! 0 \<and>
    ic_protocol c = split_whitespace (drop 12 l) ! 2 \<and> ic_address c = split_whitespace (drop 12 l) ! 4"
  using assms by (auto simp: from_sdp_def Let_def split: if_splits option.splits)

definition bare :: "ice_candidate \<Rightarrow> ice_candidate" where
  "bare c = c\<lparr>ic_related_address := None, ic_related_port := None\<rparr>"

definition candidate_ok :: "ice_candidate \<Rightarrow> bool" where
  "candidate_ok c \<longleftrightarrow> word_ok (ic_foundation c) \<and> word_ok (ic_protocol c) \<and> word_ok (ic_address c)"

lemma parsed_line:
  assumes "candidate_ok c" "\<And>d s. sfx = d # s \<Longrightarrow> white_space d"
  shows "from_sdp (candidate_line c @ sfx) = Some (bare c)"
proof -
  obtain ws where "split_whitespace (drop 12 (candidate_line c @ sfx)) =
    [ic_foundation c, dec_str (unat (ic_component c)), ic_protocol c, dec_str (unat (ic_priority c)), ic_address c,
     dec_str (unat (ic_port c)), ''typ'', candidate_type_str (ic_type c)] @ ws"
    using candidate_words [of c sfx] assms unfolding candidate_ok_def by blast
  moreover have "starts_with ''a=candidate:'' (candidate_line c @ sfx)" by (simp add: candidate_line_def)
  moreover have "unat (ic_component c) < 2 ^ 16" "unat (ic_port c) < 2 ^ 16" "unat (ic_priority c) < 2 ^ 64"
    using unsigned_less [of "ic_component c", where 'a = nat] unsigned_less [of "ic_port c", where 'a = nat]
      unsigned_less [of "ic_priority c", where 'a = nat] by simp_all
  ultimately show ?thesis
    by (cases "ic_type c") (simp_all add: from_sdp_def Let_def parse_dec_str candidate_type_str_def bare_def)
qed

text \<open>C27. A candidate is read back from its own line, but for its related address, exactly when its three texts
  are words.\<close>

theorem candidate_roundtrip:
  "from_sdp (to_sdp c) = Some (c\<lparr>ic_related_address := None, ic_related_port := None\<rparr>) \<longleftrightarrow>
    word_ok (ic_foundation c) \<and> word_ok (ic_protocol c) \<and> word_ok (ic_address c)"
proof
  assume parsed: "from_sdp (to_sdp c) = Some (c\<lparr>ic_related_address := None, ic_related_port := None\<rparr>)"
  let ?ps = "split_whitespace (drop 12 (to_sdp c))"
  have ok: "word_ok (?ps ! i)" if "i < length ?ps" for i
    using words_are_ok [of "?ps ! i" "[]"] nth_mem [OF that] by (simp add: split_whitespace_def)
  show "word_ok (ic_foundation c) \<and> word_ok (ic_protocol c) \<and> word_ok (ic_address c)"
    using parsed_fields [OF parsed] ok [of 0] ok [of 2] ok [of 4] by (cases "?ps = []") auto
next
  assume "word_ok (ic_foundation c) \<and> word_ok (ic_protocol c) \<and> word_ok (ic_address c)"
  then show "from_sdp (to_sdp c) = Some (c\<lparr>ic_related_address := None, ic_related_port := None\<rparr>)"
    using parsed_line [of c line_end] by (simp add: candidate_ok_def to_sdp_def text_line_def bare_def line_end_def white_space_def)
qed

section \<open>Descriptions carry the candidates\<close>

lemma not_candidates: "list_all (\<lambda>l. \<not> starts_with ''a=candidate:'' l) ls \<Longrightarrow> List.map_filter from_sdp ls = []"
  by (induction ls) (simp_all add: from_sdp_def List.map_filter_simps)

lemma candidates_read: "list_all candidate_ok cs \<Longrightarrow> List.map_filter from_sdp (map candidate_line cs) = map bare cs"
  using parsed_line [where sfx = "[]"] by (induction cs) (simp_all add: List.map_filter_simps)

lemma map_filter_append: "List.map_filter f (xs @ ys) = List.map_filter f xs @ List.map_filter f ys"
  by (simp add: List.map_filter_def)

text \<open>No identifier breaks a line.\<close>

definition ids_ok :: "transport \<Rightarrow> bool" where
  "ids_ok t \<longleftrightarrow> line_ok (tr_peer t) \<and> list_all (\<lambda>m. line_ok (mt_id m)) (tr_local_tracks t) \<and>
    list_all (\<lambda>c. candidate_ok c \<and> (case ic_related_address c of None \<Rightarrow> True | Some rel \<Rightarrow> line_ok rel)) (tr_local_candidates t)"

lemma video_codec_lines_ok: "list_all (\<lambda>l. line_ok l \<and> \<not> starts_with ''a=candidate:'' l) video_codec_lines"
  by (simp add: video_codec_lines_def)

lemma found_id_ok: "ids_ok t \<Longrightarrow> List.find P (tr_local_tracks t) = Some m \<Longrightarrow> line_ok (mt_id m)"
  by (auto simp: ids_ok_def list_all_iff find_Some_iff)

lemma ssrc_lines_ok:
  assumes "ids_ok t"
  shows "list_all (\<lambda>l. line_ok l \<and> \<not> starts_with ''a=candidate:'' l) (video_ssrc_lines t)"
  using assms found_id_ok [OF assms]
  by (auto simp: video_ssrc_lines_def ids_ok_def Let_def split: option.split)

lemma candidate_line_ok:
  assumes "candidate_ok c" "case ic_related_address c of None \<Rightarrow> True | Some rel \<Rightarrow> line_ok rel"
  shows "line_ok (candidate_line c)"
  using assms word_line_ok word_line_ok [OF type_word]
  by (simp add: candidate_line_def candidate_ok_def split: option.splits)

lemma audio_lines_ok:
  assumes "ids_ok t"
  shows "list_all (\<lambda>l. line_ok l \<and> \<not> starts_with ''a=candidate:'' l) (audio_lines t ty)"
  using assms found_id_ok [OF assms] by (auto simp: audio_lines_def ids_ok_def split: option.split)

lemma session_lines_ok:
  assumes "ids_ok t"
  shows "list_all (\<lambda>l. line_ok l \<and> \<not> starts_with ''a=candidate:'' l) (session_lines t)"
  using assms by (simp add: session_lines_def ids_ok_def)

lemma list_all_conj: "list_all (\<lambda>x. P x \<and> Q x) xs \<longleftrightarrow> list_all P xs \<and> list_all Q xs"
  by (auto simp: list_all_iff)

lemma sdp_lines_ok:
  assumes "ids_ok t"
  shows "list_all line_ok (sdp_lines t ty)"
  using assms session_lines_ok [OF assms] audio_lines_ok [OF assms, of ty] ssrc_lines_ok [OF assms] video_codec_lines_ok
  by (auto simp: sdp_lines_def video_lines_def list_all_conj ids_ok_def list_all_iff candidate_line_ok)

text \<open>Who reads the lines of a description finds the local candidates in it, in order and but for their
  related addresses, if the transport has a video track; without one it finds none.\<close>

theorem description_candidates:
  assumes "ids_ok t"
  shows "List.map_filter from_sdp (crlf_lines (generate_sdp t ty)) =
    (if has_kind VideoTrack t then map bare (tr_local_candidates t) else [])"
proof -
  have video: "List.map_filter from_sdp (video_lines t ty) = map bare (tr_local_candidates t)"
    using ssrc_lines_ok [OF assms] video_codec_lines_ok assms
    by (simp add: video_lines_def map_filter_append not_candidates candidates_read list_all_conj ids_ok_def List.map_filter_simps
        from_sdp_def)
  show ?thesis
    using session_lines_ok [OF assms] audio_lines_ok [OF assms, of ty]
    unfolding generate_sdp_def crlf_lines_concat [OF sdp_lines_ok [OF assms]]
    by (simp add: sdp_lines_def map_filter_append video not_candidates list_all_conj)
qed

definition demo_transport :: transport where
  "demo_transport = fst (gather_ice_candidates (add_track \<lparr>mt_id = ''v'', mt_kind = VideoTrack, mt_codec = ''VP8'', mt_ssrc = 1,
    mt_payload_type = 96\<rparr> (transport_new ''p'' transport_config_default)))"

theorem description_candidates_witness:
  "List.map_filter from_sdp (crlf_lines (generate_sdp demo_transport Offer)) = map bare simulated_candidates"
proof -
  have "ids_ok demo_transport"
    by (simp add: demo_transport_def ids_ok_def gather_ice_candidates_def add_track_def transport_new_def simulated_candidates_def
        candidate_ok_def word_ok_def white_space_def)
  from description_candidates [OF this, of Offer] show ?thesis
    by (simp add: demo_transport_def has_kind_def gather_ice_candidates_def add_track_def transport_new_def)
qed

section \<open>Runs of the transport\<close>

datatype transport_op =
    TpOffer uuid
  | TpAnswer sdp_session
  | TpLocal sdp_session
  | TpRemote sdp_session
  | TpCandidate ice_candidate
  | TpTrack media_track
  | TpGather
  | TpStart
  | TpStop
  | TpClose
  | TpSend input_event
  | TpRecv

text \<open>A call that waits changes nothing.\<close>

definition transport_step :: "transport_op \<Rightarrow> transport \<Rightarrow> transport" where
  "transport_step op t =
     (case op of
        TpOffer fresh \<Rightarrow> fst (create_offer fresh t)
      | TpAnswer s \<Rightarrow> fst (create_answer s t)
      | TpLocal s \<Rightarrow> set_local_description s t
      | TpRemote s \<Rightarrow> set_remote_description s t
      | TpCandidate c \<Rightarrow> add_ice_candidate c t
      | TpTrack m \<Rightarrow> add_track m t
      | TpGather \<Rightarrow> fst (gather_ice_candidates t)
      | TpStart \<Rightarrow> start_media t
      | TpStop \<Rightarrow> stop_media t
      | TpClose \<Rightarrow> close_transport t
      | TpSend e \<Rightarrow> (case send_input e t of None \<Rightarrow> t | Some (t, r) \<Rightarrow> t)
      | TpRecv \<Rightarrow> (case recv_input t of None \<Rightarrow> t | Some (t, r) \<Rightarrow> t))"

lemmas transport_ops = transport_step_def create_offer_def create_answer_def set_local_description_def
  set_remote_description_def add_ice_candidate_def add_track_def gather_ice_candidates_def start_media_def
  stop_media_def close_transport_def send_input_def recv_input_def Let_def

text \<open>The channels of frames are open exactly from a start to the next stop, and nothing is ever received from
  the peer.\<close>

definition transport_inv :: "transport \<Rightarrow> bool" where
  "transport_inv t \<longleftrightarrow> (tr_state t = PeerConnected \<longrightarrow> tr_video t) \<and> (tr_video t \<longleftrightarrow> tr_audio t) \<and>
    (tr_video t \<longleftrightarrow> tr_input t \<noteq> None) \<and> tr_remote_tracks t = [] \<and> tr_remote_peer t = None"

lemma transport_step_inv: "transport_inv t \<Longrightarrow> transport_inv (transport_step op t)"
  by (cases op) (auto simp: transport_ops transport_inv_def split: option.split list.split)

lemma transport_run_inv: "transport_inv (fold transport_step ops (transport_new fresh cfg))"
proof -
  have "transport_inv (fold transport_step ops t)" if "transport_inv t" for t
    using that by (induction ops arbitrary: t) (simp_all add: transport_step_inv)
  moreover have "transport_inv (transport_new fresh cfg)" by (simp add: transport_inv_def transport_new_def)
  ultimately show ?thesis by blast
qed

text \<open>A connected transport sends no frame: in every reachable transport whose state is connected each
  frame, of video or audio, fails, as its channel has lost its receiving end; and no transport ever reports
  a track or the identity of its peer.\<close>

theorem connected_sends_nothing:
  assumes "t = fold transport_step ops (transport_new fresh cfg)" "ws_state (transport_stats t) = PeerConnected"
  shows "(\<exists>e. send_video f t = Err e) \<and> (\<exists>e. send_audio g t = Err e) \<and> ws_remote_tracks (transport_stats t) = 0 \<and>
    ws_remote_peer (transport_stats t) = None"
  using transport_run_inv [of ops fresh cfg] assms
  by (auto simp: transport_inv_def transport_stats_def send_video_def send_audio_def)

theorem connected_sends_nothing_witness:
  "\<exists>e. send_video \<lparr>vf_timestamp = 0, vf_data = [], vf_keyframe = True, vf_width = 1, vf_height = 1\<rparr>
    (fold transport_step [TpStart] (transport_new ''p'' transport_config_default)) = Err e"
  using connected_sends_nothing [OF refl, of "[TpStart]" "''p''" transport_config_default
      "\<lparr>vf_timestamp = 0, vf_data = [], vf_keyframe = True, vf_width = 1, vf_height = 1\<rparr>"]
  by (simp add: transport_ops transport_stats_def)

text \<open>The events sent and received in a run.\<close>

definition input_step :: "transport_op \<Rightarrow> transport \<times> input_event list \<times> input_event list \<Rightarrow>
    transport \<times> input_event list \<times> input_event list" where
  "input_step op s =
     (case s of (t, sent, received) \<Rightarrow>
        (transport_step op t,
         sent @ (case op of TpSend e \<Rightarrow> if send_input e t = None then [] else [e] | _ \<Rightarrow> []),
         received @ (case op of TpRecv \<Rightarrow> (case recv_input t of Some (t', Some e) \<Rightarrow> [e] | _ \<Rightarrow> []) | _ \<Rightarrow> [])))"

lemma input_step_queue:
  assumes "tr_input t = Some q" "sent = received @ q" "length q \<le> channel_size" "op \<noteq> TpStart" "op \<noteq> TpStop"
    and "input_step op (t, sent, received) = (t', sent', received')"
  shows "\<exists>q'. tr_input t' = Some q' \<and> sent' = received' @ q' \<and> length q' \<le> channel_size"
  using assms by (cases op) (auto simp: input_step_def transport_ops split: list.splits if_splits)

text \<open>Input events come back to the side that sent them: between a start and a stop, whatever else is
  called, the events received are the first of those sent, in order, and at most a hundred wait.\<close>

theorem input_loops_back:
  assumes "fold input_step ops (start_media t, [], []) = (t', sent, received)"
    and "list_all (\<lambda>op. op \<noteq> TpStart \<and> op \<noteq> TpStop) ops"
  shows "\<exists>q. tr_input t' = Some q \<and> sent = received @ q \<and> length q \<le> 100"
proof -
  have "\<exists>q. tr_input t' = Some q \<and> sent' = received' @ q \<and> length q \<le> channel_size"
    if "fold input_step ops (u, sent, received) = (t', sent', received')" "tr_input u = Some q" "sent = received @ q"
      "length q \<le> channel_size" "list_all (\<lambda>op. op \<noteq> TpStart \<and> op \<noteq> TpStop) ops" for u sent received sent' received' q
    using that
  proof (induction ops arbitrary: u sent received q)
    case (Cons op ops)
    obtain u1 s1 r1 where one: "input_step op (u, sent, received) = (u1, s1, r1)" by (metis prod_cases3)
    have ops: "op \<noteq> TpStart" "op \<noteq> TpStop" using Cons.prems(5) by simp_all
    obtain q1 where "tr_input u1 = Some q1 \<and> s1 = r1 @ q1 \<and> length q1 \<le> channel_size"
      using input_step_queue [OF Cons.prems(2-4) ops one] by blast
    then show ?case using Cons.IH [of u1 s1 r1 q1] Cons.prems(1,5) one by simp
  qed simp
  from this [OF assms(1), of "[]"] show ?thesis using assms(2) by (simp add: start_media_def channel_size_def)
qed

theorem input_loops_back_witness:
  "case fold input_step [TpSend (KeyboardInput 65 True 0), TpSend (KeyboardInput 65 False 0), TpRecv]
      (start_media (transport_new ''p'' transport_config_default), [], []) of
    (t, sent, received) \<Rightarrow> \<exists>q. tr_input t = Some q \<and> sent = received @ q \<and> length q \<le> 100"
proof -
  obtain t sent received where run: "fold input_step [TpSend (KeyboardInput 65 True 0), TpSend (KeyboardInput 65 False 0), TpRecv]
      (start_media (transport_new ''p'' transport_config_default), [], []) = (t, sent, received)"
    by (metis prod_cases3)
  from input_loops_back [OF run] show ?thesis using run by simp
qed

end
