(* ===== verification/Streaming.thy ===== *)
theory Streaming
  imports Webrtc
begin

text \<open>
  \<^verbatim>\<open>src/src/ui_streaming_full.rs\<close>: capture, encoding and sending of frames, over the transport of \<open>Webrtc\<close>.
  The capture devices of \<^verbatim>\<open>x11_capture.rs\<close> and \<^verbatim>\<open>drm_capture.rs\<close> are a parameter, seen as the trait of the module shows
  them; so are the shades of the test pattern, which are sines of single precision.  The capture loop owns the source, the
  encoder and a copy of the transport that \<^verbatim>\<open>start\<close> hands it; it runs turn by turn between the other calls.  A panic
  is \<open>None\<close>.  The capture of \<^verbatim>\<open>DrmFramebufferCapture\<close>, which nothing uses, is left out.
\<close>

section \<open>Data\<close>

datatype video_codec = H264 | VP8 | VP9 | AV1

datatype capture_method =
    AutoMethod
  | DrmMethod
  | X11Method
  | WaylandMethod
  | GdiMethod
  | DxgiMethod
  | ScreenCaptureKitMethod
  | VirtualMethod

record streamer_config =
  uc_width :: u32
  uc_height :: u32
  uc_framerate :: u32
  uc_bitrate :: u32
  uc_codec :: video_codec
  uc_audio :: bool
  uc_sample_rate :: u32
  uc_channels :: u16
  uc_method :: capture_method
  uc_webrtc :: transport_config

definition streamer_config_default :: streamer_config where
  "streamer_config_default =
     \<lparr>uc_width = 1920, uc_height = 1080, uc_framerate = 30, uc_bitrate = 5000, uc_codec = H264, uc_audio = False,
      uc_sample_rate = 48000, uc_channels = 2, uc_method = AutoMethod, uc_webrtc = transport_config_default\<rparr>"

record captured_frame =
  cf_timestamp :: u64
  cf_sequence :: u64
  cf_data :: bytes
  cf_width :: u32
  cf_height :: u32
  cf_stride :: u32

record streaming_stats =
  ss_captured :: u64
  ss_encoded :: u64
  ss_sent :: u64
  ss_dropped :: u64
  ss_fps :: f32
  ss_encode_ms :: f32
  ss_bitrate :: f32
  ss_viewers :: nat

datatype ui_error = CaptureError string | EncodeError string | UiWebRtcError webrtc_error

section \<open>The virtual framebuffer\<close>

record virtual_capture =
  vc_width :: u32
  vc_height :: u32
  vc_sequence :: u64
  vc_data :: bytes

text \<open>The red of a column, the green of a row and the blue of a frame.\<close>

record shades =
  sh_red :: "u32 \<Rightarrow> u32 \<Rightarrow> byte"
  sh_green :: "u32 \<Rightarrow> u32 \<Rightarrow> byte"
  sh_blue :: "u64 \<Rightarrow> byte"

definition virtual_new :: "u32 \<Rightarrow> u32 \<Rightarrow> virtual_capture" where
  "virtual_new w h = \<lparr>vc_width = w, vc_height = h, vc_sequence = 0, vc_data = replicate (unat (w * h * 4)) 0\<rparr>"

definition pixel_index :: "u32 \<Rightarrow> u32 \<Rightarrow> u32 \<Rightarrow> nat" where
  "pixel_index w x y = unat ((y * w + x) * 4)"

definition put_pixel :: "nat \<Rightarrow> byte \<Rightarrow> byte \<Rightarrow> byte \<Rightarrow> bytes \<Rightarrow> bytes option" where
  "put_pixel i r g b d =
     (if i + 3 < length d then Some (d[i := b, i + 1 := g, i + 2 := r, i + 3 := 255]) else None)"

definition pixels :: "nat \<Rightarrow> nat \<Rightarrow> (nat \<times> nat) list" where
  "pixels w h = List.product [0..<h] [0..<w]"

fun draw :: "shades \<Rightarrow> virtual_capture \<Rightarrow> (nat \<times> nat) list \<Rightarrow> bytes \<Rightarrow> bytes option" where
  "draw sh c [] d = Some d"
| "draw sh c ((y, x) # ps) d =
     (case put_pixel (pixel_index (vc_width c) (of_nat x) (of_nat y)) (sh_red sh (of_nat x) (vc_width c))
        (sh_green sh (of_nat y) (vc_height c)) (sh_blue sh (vc_sequence c)) d of
        None \<Rightarrow> None
      | Some d \<Rightarrow> draw sh c ps d)"

definition virtual_frame :: "shades \<Rightarrow> u64 \<Rightarrow> virtual_capture \<Rightarrow> (virtual_capture \<times> captured_frame) option" where
  "virtual_frame sh now c =
     (let c = c\<lparr>vc_sequence := vc_sequence c + 1\<rparr> in
      case draw sh c (pixels (unat (vc_width c)) (unat (vc_height c))) (vc_data c) of
        None \<Rightarrow> None
      | Some d \<Rightarrow>
          Some (c\<lparr>vc_data := d\<rparr>,
            \<lparr>cf_timestamp = now, cf_sequence = vc_sequence c, cf_data = d, cf_width = vc_width c,
             cf_height = vc_height c, cf_stride = vc_width c * 4\<rparr>))"

record virtual_encoder =
  ve_width :: u32
  ve_height :: u32
  ve_pending :: bool

definition encoder_new :: virtual_encoder where
  "encoder_new = \<lparr>ve_width = 0, ve_height = 0, ve_pending = True\<rparr>"

definition encoder_init :: "u32 \<Rightarrow> u32 \<Rightarrow> virtual_encoder \<Rightarrow> virtual_encoder" where
  "encoder_init w h e = e\<lparr>ve_width := w, ve_height := h\<rparr>"

definition encode_frame :: "captured_frame \<Rightarrow> virtual_encoder \<Rightarrow> virtual_encoder \<times> video_frame" where
  "encode_frame f e =
     (e\<lparr>ve_pending := False\<rparr>,
      \<lparr>vf_timestamp = cf_timestamp f div 1000, vf_data = cf_data f, vf_keyframe = ve_pending e, vf_width = cf_width f,
       vf_height = cf_height f\<rparr>)"

definition encoder_request_keyframe :: "virtual_encoder \<Rightarrow> virtual_encoder" where
  "encoder_request_keyframe e = e\<lparr>ve_pending := True\<rparr>"

section \<open>The streamer\<close>

text \<open>Capture devices, as the trait shows them, and what the machine offers.\<close>

datatype 'x source = VirtualSource virtual_capture | DeviceSource 'x

record 'x capture_os =
  co_display :: bool
  co_card :: bool
  co_x11 :: "'x option"
  co_drm :: "'x option"
  co_init :: "'x \<Rightarrow> (ui_error, 'x) result"
  co_capture :: "u64 \<Rightarrow> 'x \<Rightarrow> 'x \<times> (ui_error, captured_frame) result"
  co_resolution :: "'x \<Rightarrow> u32 \<times> u32"
  co_shades :: shades

record 'x streamer =
  us_config :: streamer_config
  us_transport :: transport
  us_source :: "'x source"
  us_encoder :: virtual_encoder
  us_running :: bool
  us_stats :: streaming_stats
  us_viewers :: "string list"
  us_interval :: f32

definition detect_best_capture_method :: "'x capture_os \<Rightarrow> capture_method \<Rightarrow> capture_method" where
  "detect_best_capture_method os m =
     (if m = AutoMethod then (if co_display os then X11Method else if co_card os then DrmMethod else VirtualMethod) else m)"

definition device_or_virtual :: "u32 \<Rightarrow> u32 \<Rightarrow> 'x option \<Rightarrow> 'x source" where
  "device_or_virtual w h d = (case d of Some x \<Rightarrow> DeviceSource x | None \<Rightarrow> VirtualSource (virtual_new w h))"

definition stats_zero :: streaming_stats where
  "stats_zero =
     \<lparr>ss_captured = 0, ss_encoded = 0, ss_sent = 0, ss_dropped = 0, ss_fps = 0, ss_encode_ms = 0, ss_bitrate = 0,
      ss_viewers = 0\<rparr>"

text \<open>The interval of a frame rate of 0 is infinite, which no duration can be.\<close>

definition streamer_new :: "'x capture_os \<Rightarrow> uuid \<Rightarrow> streamer_config \<Rightarrow> 'x streamer option" where
  "streamer_new os fresh cfg =
     (let m = detect_best_capture_method os (uc_method cfg);
          (w, h) = (if m = VirtualMethod then (uc_width cfg, uc_height cfg) else (1920, 1080));
          src = (case m of
                   VirtualMethod \<Rightarrow> VirtualSource (virtual_new w h)
                 | X11Method \<Rightarrow> device_or_virtual w h (co_x11 os)
                 | DrmMethod \<Rightarrow> device_or_virtual w h (co_drm os)
                 | AutoMethod \<Rightarrow> device_or_virtual w h (case co_x11 os of None \<Rightarrow> co_drm os | Some x \<Rightarrow> Some x)
                 | _ \<Rightarrow> VirtualSource (virtual_new w h))
      in if uc_framerate cfg = 0 then None
         else Some
           \<lparr>us_config = cfg, us_transport = transport_new fresh (uc_webrtc cfg), us_source = src,
            us_encoder = encoder_new, us_running = False, us_stats = stats_zero, us_viewers = [],
            us_interval = f32_div 1 (f32_of_nat (unat (uc_framerate cfg)))\<rparr>)"

definition codec_str :: "video_codec \<Rightarrow> string" where
  "codec_str c = (case c of H264 \<Rightarrow> ''H264'' | VP8 \<Rightarrow> ''VP8'' | VP9 \<Rightarrow> ''VP9'' | AV1 \<Rightarrow> ''AV1'')"

definition source_init :: "'x capture_os \<Rightarrow> 'x source \<Rightarrow> (ui_error, 'x source) result" where
  "source_init os src =
     (case src of
        VirtualSource c \<Rightarrow> Ok src
      | DeviceSource x \<Rightarrow> (case co_init os x of Inl e \<Rightarrow> Err e | Inr x \<Rightarrow> Ok (DeviceSource x)))"

definition source_resolution :: "'x capture_os \<Rightarrow> 'x source \<Rightarrow> u32 \<times> u32" where
  "source_resolution os src =
     (case src of VirtualSource c \<Rightarrow> (vc_width c, vc_height c) | DeviceSource x \<Rightarrow> co_resolution os x)"

definition source_capture :: "'x capture_os \<Rightarrow> u64 \<Rightarrow> 'x source \<Rightarrow> ('x source \<times> (ui_error, captured_frame) result) option" where
  "source_capture os now src =
     (case src of
        VirtualSource c \<Rightarrow> (case virtual_frame (co_shades os) now c of None \<Rightarrow> None | Some (c, f) \<Rightarrow> Some (VirtualSource c, Ok f))
      | DeviceSource x \<Rightarrow> (case co_capture os now x of (x, r) \<Rightarrow> Some (DeviceSource x, r)))"

text \<open>The capture loop: what it owns.  Times are nanoseconds.\<close>

record 'x capture_loop =
  cl_source :: "'x source"
  cl_encoder :: virtual_encoder
  cl_transport :: transport
  cl_count :: u64
  cl_start :: nat

definition video_track :: "video_codec \<Rightarrow> media_track" where
  "video_track c = \<lparr>mt_id = ''video-0'', mt_kind = VideoTrack, mt_codec = codec_str c, mt_ssrc = 1, mt_payload_type = 96\<rparr>"

definition audio_track :: media_track where
  "audio_track = \<lparr>mt_id = ''audio-0'', mt_kind = AudioTrack, mt_codec = ''opus'', mt_ssrc = 2, mt_payload_type = 111\<rparr>"

definition streamer_start :: "'x capture_os \<Rightarrow> nat \<Rightarrow> 'x streamer \<Rightarrow> 'x streamer \<times> (ui_error, 'x capture_loop) result" where
  "streamer_start os now u =
     (case source_init os (us_source u) of
        Inl e \<Rightarrow> (u, Err e)
      | Inr src \<Rightarrow>
          let (w, h) = source_resolution os src;
              enc = encoder_init w h (us_encoder u);
              t = add_track (video_track (uc_codec (us_config u))) (us_transport u);
              t = (if uc_audio (us_config u) then add_track audio_track t else t);
              t = start_media t;
              u = u\<lparr>us_source := src, us_encoder := enc, us_transport := t, us_running := True\<rparr>
          in (u, Ok \<lparr>cl_source = src, cl_encoder = enc, cl_transport = t, cl_count = 0, cl_start = now\<rparr>))"

definition nanos_per_sec :: nat where
  "nanos_per_sec = 1000000000"

definition secs_f32 :: "nat \<Rightarrow> f32" where
  "secs_f32 n = f32_add (f32_of_nat (n div nanos_per_sec)) (f32_div (f32_of_nat (n mod nanos_per_sec)) (f32_of_nat nanos_per_sec))"

text \<open>One turn, at time \<open>now\<close>, with an encoding that takes \<open>ms\<close> milliseconds; the last component tells
  whether a frame was captured.\<close>

definition capture_turn :: "'x capture_os \<Rightarrow> nat \<Rightarrow> f32 \<Rightarrow> 'x capture_loop \<Rightarrow> streaming_stats \<Rightarrow>
    ('x capture_loop \<times> streaming_stats \<times> bool) option" where
  "capture_turn os now ms l s =
     (case source_capture os (of_nat now) (cl_source l) of
        None \<Rightarrow> None
      | Some (src, Inl e) \<Rightarrow> Some (l\<lparr>cl_source := src\<rparr>, s, False)
      | Some (src, Inr f) \<Rightarrow>
          let count = cl_count l + 1;
              (enc, vf) = encode_frame f (cl_encoder l);
              s = (case send_video vf (cl_transport l) of
                     Inl e \<Rightarrow> s\<lparr>ss_dropped := ss_dropped s + 1\<rparr>
                   | Inr u \<Rightarrow> s\<lparr>ss_encoded := ss_encoded s + 1, ss_sent := ss_sent s + 1, ss_encode_ms := ms\<rparr>);
              s = s\<lparr>ss_captured := count\<rparr>;
              elapsed = secs_f32 (now - cl_start l);
              l = l\<lparr>cl_source := src, cl_encoder := enc\<rparr>
          in if elapsed \<ge> 1
             then Some (l\<lparr>cl_count := 0, cl_start := now\<rparr>, s\<lparr>ss_fps := f32_div (f32_of_nat (unat count)) elapsed\<rparr>, True)
             else Some (l\<lparr>cl_count := count\<rparr>, s, True))"

definition streamer_stop :: "'x streamer \<Rightarrow> 'x streamer" where
  "streamer_stop u = u\<lparr>us_running := False, us_transport := stop_media (us_transport u)\<rparr>"

text \<open>The offer is made before the candidates are gathered.\<close>

definition streamer_offer :: "uuid \<Rightarrow> 'x streamer \<Rightarrow> 'x streamer \<times> sdp_session" where
  "streamer_offer fresh u =
     (case create_offer fresh (us_transport u) of
        (t, s) \<Rightarrow> (u\<lparr>us_transport := fst (gather_ice_candidates t)\<rparr>, s))"

definition set_answer :: "sdp_session \<Rightarrow> 'x streamer \<Rightarrow> 'x streamer" where
  "set_answer s u = u\<lparr>us_transport := set_remote_description s (us_transport u)\<rparr>"

definition add_candidate :: "ice_candidate \<Rightarrow> 'x streamer \<Rightarrow> 'x streamer" where
  "add_candidate c u = u\<lparr>us_transport := add_ice_candidate c (us_transport u)\<rparr>"

definition streamer_send_input :: "input_event \<Rightarrow> 'x streamer \<Rightarrow> ('x streamer \<times> (webrtc_error, unit) result) option" where
  "streamer_send_input e u =
     (case send_input e (us_transport u) of None \<Rightarrow> None | Some (t, r) \<Rightarrow> Some (u\<lparr>us_transport := t\<rparr>, r))"

definition streamer_recv_input :: "'x streamer \<Rightarrow> ('x streamer \<times> input_event option) option" where
  "streamer_recv_input u =
     (case recv_input (us_transport u) of None \<Rightarrow> None | Some (t, r) \<Rightarrow> Some (u\<lparr>us_transport := t\<rparr>, r))"

definition add_viewer :: "string \<Rightarrow> 'x streamer \<Rightarrow> 'x streamer" where
  "add_viewer v u =
     (let vs = us_viewers u @ [v] in u\<lparr>us_viewers := vs, us_stats := (us_stats u)\<lparr>ss_viewers := length vs\<rparr>\<rparr>)"

definition remove_viewer :: "string \<Rightarrow> 'x streamer \<Rightarrow> 'x streamer" where
  "remove_viewer v u =
     (let vs = filter (\<lambda>i. i \<noteq> v) (us_viewers u)
      in u\<lparr>us_viewers := vs, us_stats := (us_stats u)\<lparr>ss_viewers := length vs\<rparr>\<rparr>)"

definition streamer_request_keyframe :: "'x streamer \<Rightarrow> 'x streamer" where
  "streamer_request_keyframe u = u\<lparr>us_encoder := encoder_request_keyframe (us_encoder u)\<rparr>"

section \<open>The frames of the virtual framebuffer\<close>

text \<open>What the byte at a position of a frame should be.\<close>

definition pattern_byte :: "shades \<Rightarrow> u32 \<Rightarrow> u32 \<Rightarrow> u64 \<Rightarrow> nat \<Rightarrow> byte" where
  "pattern_byte sh w h n i =
     (let x = of_nat (i div 4 mod unat w); y = of_nat (i div 4 div unat w) in
      if i mod 4 = 0 then sh_blue sh n
      else if i mod 4 = 1 then sh_green sh y h
      else if i mod 4 = 2 then sh_red sh x w
      else 255)"

lemma pixel_index_mod: "pixel_index w (of_nat x) (of_nat y) = 4 * (y * unat w + x) mod 2 ^ 32"
proof -
  have "(of_nat y * w + of_nat x) * 4 = (of_nat (4 * (y * unat w + x)) :: u32)" by (simp add: algebra_simps)
  then show ?thesis by (simp only: pixel_index_def unat_of_nat) simp
qed

lemma pixel_below: "y < h \<Longrightarrow> x < w \<Longrightarrow> y * w + x < w * (h :: nat)"
proof -
  assume "y < h" "x < w"
  then have "y * w + x < Suc y * w" by simp
  also have "\<dots> \<le> h * w" using \<open>y < h\<close> by (intro mult_le_mono1) simp
  finally show ?thesis by (simp add: mult.commute)
qed

lemma put_pixel_nth:
  assumes "put_pixel (4 * p) r g b d = Some d'"
  shows "length d' = length d \<and> (\<forall>i < length d. d' ! i =
    (if i div 4 = p then (if i mod 4 = 0 then b else if i mod 4 = 1 then g else if i mod 4 = 2 then r else 255) else d ! i))"
proof -
  have d': "d' = d[4 * p := b, 4 * p + 1 := g, 4 * p + 2 := r, 4 * p + 3 := 255]" "4 * p + 3 < length d"
    using assms by (simp_all add: put_pixel_def split: if_splits)
  show ?thesis
  proof (intro conjI allI impI)
    fix i assume "i < length d"
    obtain q m where i: "i = 4 * q + m" "m < 4" by (metis div_mult_mod_eq mult.commute mod_less_divisor zero_less_numeral)
    then have qm: "i div 4 = q" "i mod 4 = m" by simp_all
    consider "m = 0" | "m = 1" | "m = 2" | "m = 3" using i(2) by linarith
    then show "d' ! i = (if i div 4 = p then
        (if i mod 4 = 0 then b else if i mod 4 = 1 then g else if i mod 4 = 2 then r else 255) else d ! i)"
      unfolding qm using d' \<open>i < length d\<close> i(1) by cases (auto simp: nth_list_update; presburger)+
  qed (simp add: d')
qed

text \<open>A loop over pixels that gives each a color of its own (blue, green, red), of which \<open>draw\<close> is one.\<close>

fun fill :: "(nat \<Rightarrow> nat \<Rightarrow> byte \<times> byte \<times> byte) \<Rightarrow> u32 \<Rightarrow> (nat \<times> nat) list \<Rightarrow> bytes \<Rightarrow> bytes option" where
  "fill color w [] d = Some d"
| "fill color w ((y, x) # ps) d =
     (case color x y of
        (b, g, r) \<Rightarrow>
          (case put_pixel (pixel_index w (of_nat x) (of_nat y)) r g b d of None \<Rightarrow> None | Some d \<Rightarrow> fill color w ps d))"

definition fill_byte :: "(nat \<Rightarrow> nat \<Rightarrow> byte \<times> byte \<times> byte) \<Rightarrow> u32 \<Rightarrow> nat \<Rightarrow> byte" where
  "fill_byte color w i =
     (case color (i div 4 mod unat w) (i div 4 div unat w) of
        (b, g, r) \<Rightarrow> if i mod 4 = 0 then b else if i mod 4 = 1 then g else if i mod 4 = 2 then r else 255)"

lemma fill_pixels:
  assumes "\<forall>(y, x) \<in> set ps. y < h \<and> x < unat w" "length d = 4 * (unat w * h)" "4 * (unat w * h) < 2 ^ 32"
  shows "\<exists>d'. fill color w ps d = Some d' \<and> length d' = length d \<and> (\<forall>i < length d. d' ! i =
    (if (i div 4 div unat w, i div 4 mod unat w) \<in> set ps then fill_byte color w i else d ! i))"
  using assms(1,2)
proof (induction ps arbitrary: d)
  case (Cons yx ps)
  obtain y x where yx: "yx = (y, x)" by fastforce
  obtain b g r where col: "color x y = (b, g, r)" by (metis prod_cases3)
  let ?p = "y * unat w + x"
  have p: "?p < unat w * h" using Cons.prems(1) yx by (simp add: pixel_below)
  have "4 * a < c" if "a < b" "4 * b < c" for a b c :: nat using that by linarith
  from this [OF p assms(3)] have "4 * ?p < 2 ^ 32" .
  then have idx: "pixel_index w (of_nat x) (of_nat y) = 4 * ?p" by (simp only: pixel_index_mod mod_less)
  have "4 * ?p + 3 < length d" using p Cons.prems(2) by simp
  then obtain d1 where d1: "put_pixel (4 * ?p) r g b d = Some d1" by (simp add: put_pixel_def)
  note d1_nth = put_pixel_nth [OF d1]
  have hit: "i div 4 = ?p \<longleftrightarrow> (i div 4 div unat w, i div 4 mod unat w) = (y, x)" for i
    using Cons.prems(1) yx by (auto simp: div_add1_eq)
  obtain d' where d': "fill color w ps d1 = Some d'" "length d' = length d1" "\<forall>i < length d1. d' ! i =
    (if (i div 4 div unat w, i div 4 mod unat w) \<in> set ps then fill_byte color w i else d1 ! i)"
    using Cons.IH [of d1] Cons.prems d1_nth by auto
  have "d' ! i = (if (i div 4 div unat w, i div 4 mod unat w) \<in> set (yx # ps) then fill_byte color w i else d ! i)"
    if "i < length d" for i
    using that d'(3) d1_nth hit [of i] yx col by (auto simp: fill_byte_def)
  then show ?case using d' d1 d1_nth yx idx col by auto
qed simp

lemma fill_all:
  assumes "length d = 4 * (unat w * h)" "4 * (unat w * h) < 2 ^ 32"
  shows "fill color w (pixels (unat w) h) d = Some (map (fill_byte color w) [0..<4 * (unat w * h)])"
proof -
  have "\<forall>(y, x) \<in> set (pixels (unat w) h). y < h \<and> x < unat w" by (auto simp: pixels_def)
  from fill_pixels [OF this assms, of color]
  obtain d' where d': "fill color w (pixels (unat w) h) d = Some d'" "length d' = length d"
    "\<forall>i < length d. d' ! i = (if (i div 4 div unat w, i div 4 mod unat w) \<in> set (pixels (unat w) h)
       then fill_byte color w i else d ! i)"
    by auto
  have "(i div 4 div unat w, i div 4 mod unat w) \<in> set (pixels (unat w) h)" if "i < length d" for i
  proof -
    have "i div 4 < unat w * h" using that assms(1) by (simp add: less_mult_imp_div_less mult.commute)
    then show ?thesis by (auto simp: pixels_def less_mult_imp_div_less mult.commute intro!: mod_less_divisor Nat.gr0I)
  qed
  then have "d' = map (fill_byte color w) [0..<4 * (unat w * h)]" using d' assms(1) by (intro nth_equalityI) auto
  then show ?thesis using d'(1) by simp
qed

definition virtual_color :: "shades \<Rightarrow> virtual_capture \<Rightarrow> nat \<Rightarrow> nat \<Rightarrow> byte \<times> byte \<times> byte" where
  "virtual_color sh c x y =
     (sh_blue sh (vc_sequence c), sh_green sh (of_nat y) (vc_height c), sh_red sh (of_nat x) (vc_width c))"

lemma draw_fill: "draw sh c ps d = fill (virtual_color sh c) (vc_width c) ps d"
  by (induction sh c ps d rule: draw.induct) (auto simp: virtual_color_def split: option.split)

lemma virtual_color_byte: "fill_byte (virtual_color sh c) (vc_width c) = pattern_byte sh (vc_width c) (vc_height c) (vc_sequence c)"
  by (rule ext) (simp add: fill_byte_def virtual_color_def pattern_byte_def Let_def)

lemma draw_length: "draw sh c ps d = Some d' \<Longrightarrow> length d' = length d"
  by (induction sh c ps d rule: draw.induct) (auto simp: put_pixel_def split: option.splits if_splits)

lemma draw_outside:
  assumes "(y, x) \<in> set ps" "length d \<le> pixel_index (vc_width c) (of_nat x) (of_nat y) + 3"
  shows "draw sh c ps d = None"
  using assms
proof (induction ps arbitrary: d)
  case (Cons yx ps)
  then show ?case
    by (cases yx) (auto simp: put_pixel_def split: option.split if_splits)
qed simp

fun virtual_frames :: "shades \<Rightarrow> u64 list \<Rightarrow> virtual_capture \<Rightarrow> captured_frame list option" where
  "virtual_frames sh [] c = Some []"
| "virtual_frames sh (t # ts) c =
     (case virtual_frame sh t c of
        None \<Rightarrow> None
      | Some (c, f) \<Rightarrow> (case virtual_frames sh ts c of None \<Rightarrow> None | Some fs \<Rightarrow> Some (f # fs)))"

definition pattern_frame :: "shades \<Rightarrow> u32 \<Rightarrow> u32 \<Rightarrow> u64 \<Rightarrow> u64 \<Rightarrow> captured_frame" where
  "pattern_frame sh w h now n =
     \<lparr>cf_timestamp = now, cf_sequence = n, cf_data = map (pattern_byte sh w h n) [0..<4 * (unat w * unat h)],
      cf_width = w, cf_height = h, cf_stride = w * 4\<rparr>"

lemma buffer_size: "unat (w * h * 4 :: u32) = 4 * (unat w * unat h) mod 2 ^ 32"
proof -
  have "w * h * 4 = (of_nat (4 * (unat w * unat h)) :: u32)" by (simp add: algebra_simps)
  then show ?thesis by (simp only: unat_of_nat) simp
qed

lemma pixel_set: "(y, x) \<in> set (pixels w h) \<longleftrightarrow> y < h \<and> x < w"
  by (auto simp: pixels_def)

lemma virtual_frame_fits:
  assumes "4 * (unat (vc_width c) * unat (vc_height c)) < 2 ^ 32" "length (vc_data c) = 4 * (unat (vc_width c) * unat (vc_height c))"
  shows "virtual_frame sh now c = Some (let f = pattern_frame sh (vc_width c) (vc_height c) now (vc_sequence c + 1) in
    (c\<lparr>vc_sequence := vc_sequence c + 1, vc_data := cf_data f\<rparr>, f))"
proof -
  let ?w = "vc_width c" and ?h = "vc_height c"
  let ?c = "c\<lparr>vc_sequence := vc_sequence c + 1\<rparr>"
  have "draw sh ?c (pixels (unat ?w) (unat ?h)) (vc_data c) =
      Some (map (pattern_byte sh ?w ?h (vc_sequence c + 1)) [0..<4 * (unat ?w * unat ?h)])"
    using fill_all [OF assms(2,1), of "virtual_color sh ?c"] virtual_color_byte [of sh ?c] by (simp add: draw_fill)
  then show ?thesis by (simp add: virtual_frame_def pattern_frame_def Let_def)
qed

lemma virtual_frame_panics:
  assumes "2 ^ 32 \<le> 4 * (unat (vc_width c) * unat (vc_height c))" "length (vc_data c) < 2 ^ 32"
  shows "virtual_frame sh now c = None"
proof -
  let ?w = "unat (vc_width c)" and ?h = "unat (vc_height c)"
  define p where "p = (2 ^ 30 - 1 :: nat)"
  have p: "p < ?w * ?h" using assms(1) by (simp add: p_def mult.commute)
  then have w: "0 < ?w" by (auto intro: Nat.gr0I)
  have "(p div ?w, p mod ?w) \<in> set (pixels ?w ?h)"
    using p w by (simp add: pixel_set less_mult_imp_div_less mult.commute)
  moreover have "pixel_index (vc_width c) (of_nat (p mod ?w)) (of_nat (p div ?w)) = 2 ^ 32 - 4"
    by (simp add: pixel_index_mod p_def)
  ultimately have "draw sh (c\<lparr>vc_sequence := vc_sequence c + 1\<rparr>) (pixels ?w ?h) (vc_data c) = None"
    using assms(2) by (intro draw_outside [of "p div ?w" "p mod ?w"]) simp_all
  then show ?thesis by (simp add: virtual_frame_def Let_def)
qed


section \<open>Video encoders\<close>

text \<open>What the trait \<^verbatim>\<open>VideoEncoderTrait\<close> promises of an encoder that passes frames through: a frame is a
  keyframe exactly when one is pending, encoding answers that, and a request makes one pending.  \<open>ready\<close> says that the
  encoder has been initialized, \<open>'c\<close> is what else an encoding depends on.\<close>

definition encoded_as :: "bool \<Rightarrow> captured_frame \<Rightarrow> video_frame" where
  "encoded_as key f =
     \<lparr>vf_timestamp = cf_timestamp f div 1000, vf_data = cf_data f, vf_keyframe = key, vf_width = cf_width f,
      vf_height = cf_height f\<rparr>"

text \<open>A run: each frame comes after a number of requests for a keyframe.\<close>

fun encode_run :: "('c \<Rightarrow> captured_frame \<Rightarrow> 'e \<Rightarrow> 'e \<times> (ui_error, video_frame) result) \<Rightarrow> ('e \<Rightarrow> 'e) \<Rightarrow>
    (nat \<times> 'c \<times> captured_frame) list \<Rightarrow> 'e \<Rightarrow> 'e \<times> (ui_error, video_frame) result list" where
  "encode_run enc req [] e = (e, [])"
| "encode_run enc req ((n, c, f) # fs) e =
     (case enc c f ((req ^^ n) e) of (e, r) \<Rightarrow> (case encode_run enc req fs e of (e, rs) \<Rightarrow> (e, r # rs)))"

definition run_keys :: "bool \<Rightarrow> (nat \<times> 'c \<times> captured_frame) list \<Rightarrow> nat \<Rightarrow> bool" where
  "run_keys pending fs k \<longleftrightarrow> (k = 0 \<and> pending) \<or> fst (fs ! k) > 0"

lemma run_keys_Cons: "run_keys p (x # fs) 0 \<longleftrightarrow> p \<or> fst x > 0" "run_keys p (x # fs) (Suc k) \<longleftrightarrow> run_keys False fs k"
  by (auto simp: run_keys_def)

lemma upt_Cons: "[0..<length (x # fs)] = 0 # map Suc [0..<length fs]"
  by (simp add: map_Suc_upt upt_conv_Cons del: upt_Suc)

locale video_encoder =
  fixes enc :: "'c \<Rightarrow> captured_frame \<Rightarrow> 'e \<Rightarrow> 'e \<times> (ui_error, video_frame) result"
    and req :: "'e \<Rightarrow> 'e"
    and pending :: "'e \<Rightarrow> bool"
    and ready :: "'e \<Rightarrow> bool"
  assumes encode_law: "ready e \<Longrightarrow> enc c f e = (e', r) \<Longrightarrow> r = Ok (encoded_as (pending e) f) \<and> \<not> pending e' \<and> ready e'"
    and request_law: "ready e \<Longrightarrow> pending (req e) \<and> ready (req e)"
begin

lemma requests_law: "ready e \<Longrightarrow> ready ((req ^^ n) e) \<and> (pending ((req ^^ n) e) \<longleftrightarrow> pending e \<or> n > 0)"
  by (induction n) (auto dest: request_law)

lemma run_frames:
  assumes "ready e" "encode_run enc req fs e = (e', rs)"
  shows "rs = map (\<lambda>k. Ok (encoded_as (run_keys (pending e) fs k) (snd (snd (fs ! k))))) [0..<length fs] \<and> ready e'"
  using assms
proof (induction fs arbitrary: e rs)
  case (Cons x fs)
  obtain n c f where x: "x = (n, c, f)" by (cases x) auto
  obtain e1 r where one: "enc c f ((req ^^ n) e) = (e1, r)" by fastforce
  obtain rs1 where rest: "encode_run enc req fs e1 = (e', rs1)" "rs = r # rs1"
    using Cons.prems(2) one unfolding x by (auto split: prod.splits)
  note law = encode_law [OF conjunct1 [OF requests_law [OF Cons.prems(1)]] one] requests_law [OF Cons.prems(1), of n]
  show ?case
    using Cons.IH [OF _ rest(1)] law rest(2) unfolding upt_Cons by (auto simp: x comp_def run_keys_Cons)
qed simp

end

text \<open>The virtual encoder as the trait shows it.\<close>

definition virtual_encode :: "'c \<Rightarrow> captured_frame \<Rightarrow> virtual_encoder \<Rightarrow> virtual_encoder \<times> (ui_error, video_frame) result" where
  "virtual_encode c f e = (case encode_frame f e of (e, v) \<Rightarrow> (e, Ok v))"

interpretation passing: video_encoder virtual_encode encoder_request_keyframe ve_pending "\<lambda>_. True"
  by unfold_locales (auto simp: virtual_encode_def encode_frame_def encoder_request_keyframe_def encoded_as_def)

section \<open>Runs of the streamer\<close>

text \<open>Turns of the capture loop and the calls that may come between them.\<close>

datatype ui_event =
    UiTurn nat f32
  | UiAddViewer string
  | UiRemoveViewer string
  | UiOffer uuid
  | UiAnswer sdp_session
  | UiCandidate ice_candidate
  | UiInput input_event
  | UiReceive
  | UiKeyframe
  | UiStop

text \<open>The run counts the frames captured; the loop makes no turn once the flag is down, and a panic ends it.\<close>

fun ui_run :: "'x capture_os \<Rightarrow> ui_event list \<Rightarrow> 'x streamer \<Rightarrow> 'x capture_loop \<Rightarrow> nat \<Rightarrow> 'x streamer \<times> nat" where
  "ui_run os [] u l n = (u, n)"
| "ui_run os (UiTurn now ms # es) u l n =
     (if us_running u then
        (case capture_turn os now ms l (us_stats u) of
           None \<Rightarrow> ui_run os (filter (\<lambda>e. case e of UiTurn t m \<Rightarrow> False | _ \<Rightarrow> True) es) u l n
         | Some (l, s, c) \<Rightarrow> ui_run os es (u\<lparr>us_stats := s\<rparr>) l (if c then n + 1 else n))
      else ui_run os es u l n)"
| "ui_run os (UiAddViewer v # es) u l n = ui_run os es (add_viewer v u) l n"
| "ui_run os (UiRemoveViewer v # es) u l n = ui_run os es (remove_viewer v u) l n"
| "ui_run os (UiOffer i # es) u l n = ui_run os es (fst (streamer_offer i u)) l n"
| "ui_run os (UiAnswer s # es) u l n = ui_run os es (set_answer s u) l n"
| "ui_run os (UiCandidate c # es) u l n = ui_run os es (add_candidate c u) l n"
| "ui_run os (UiInput e # es) u l n =
     ui_run os es (case streamer_send_input e u of None \<Rightarrow> u | Some (u, r) \<Rightarrow> u) l n"
| "ui_run os (UiReceive # es) u l n = ui_run os es (case streamer_recv_input u of None \<Rightarrow> u | Some (u, r) \<Rightarrow> u) l n"
| "ui_run os (UiKeyframe # es) u l n = ui_run os es (streamer_request_keyframe u) l n"
| "ui_run os (UiStop # es) u l n = ui_run os es (streamer_stop u) l n"

text \<open>The counters agree with the run: nothing sent, every captured frame dropped.\<close>

definition counters_ok :: "nat \<Rightarrow> 'x streamer \<Rightarrow> bool" where
  "counters_ok n u \<longleftrightarrow> ss_sent (us_stats u) = 0 \<and> ss_encoded (us_stats u) = 0 \<and> ss_dropped (us_stats u) = of_nat n \<and>
    ss_viewers (us_stats u) = length (us_viewers u)"

lemma capture_turn_drops:
  assumes "capture_turn os now ms l s = Some (l', s', c)" "tr_video (cl_transport l)"
  shows "tr_video (cl_transport l') \<and> ss_sent s' = ss_sent s \<and> ss_encoded s' = ss_encoded s \<and>
    ss_dropped s' = ss_dropped s + (if c then 1 else 0) \<and> ss_viewers s' = ss_viewers s"
  using assms
  by (auto simp: capture_turn_def send_video_def encode_frame_def Let_def split: option.splits sum.splits if_splits)

lemma ui_run_counters:
  assumes "ui_run os es u l n = (u', n')" "tr_video (cl_transport l)" "counters_ok n u"
  shows "counters_ok n' u'"
  using assms
proof (induction os es u l n rule: ui_run.induct)
  case (2 os now ms es u l n)
  show ?case
  proof (cases "capture_turn os now ms l (us_stats u)")
    case None
    then show ?thesis using 2 by (cases "us_running u") auto
  next
    case (Some r)
    obtain l1 s1 c where r: "r = (l1, s1, c)" by (metis prod_cases3)
    show ?thesis
    proof (cases "us_running u")
      case True
      have "tr_video (cl_transport l1) \<and> counters_ok (if c then n + 1 else n) (u\<lparr>us_stats := s1\<rparr>)"
        using capture_turn_drops [OF Some [unfolded r] "2.prems"(2)] "2.prems"(3) by (simp add: counters_ok_def)
      then show ?thesis using 2 True Some r by simp
    next
      case False
      then show ?thesis using 2 by simp
    qed
  qed
qed (auto simp: counters_ok_def add_viewer_def remove_viewer_def streamer_offer_def set_answer_def add_candidate_def
    streamer_send_input_def streamer_recv_input_def streamer_request_keyframe_def streamer_stop_def Let_def
    split: option.splits prod.splits)

text \<open>C28. Nothing is ever streamed: whatever is captured, by whatever device, and whatever is called between, a
  started streamer counts every captured frame as dropped and none as encoded or sent.\<close>

theorem every_frame_dropped:
  assumes "streamer_new os fresh cfg = Some u0" "streamer_start os now u0 = (u1, Ok l)"
    and "ui_run os es u1 l 0 = (u2, n)"
  shows "ss_dropped (us_stats u2) = of_nat n \<and> ss_sent (us_stats u2) = 0 \<and> ss_encoded (us_stats u2) = 0 \<and>
    ss_viewers (us_stats u2) = length (us_viewers u2)"
proof -
  have "tr_video (cl_transport l)" "us_stats u1 = stats_zero" "us_viewers u1 = []"
    using assms(1,2)
    by (auto simp: streamer_start_def streamer_new_def start_media_def Let_def split: sum.splits prod.splits if_splits)
  then show ?thesis using ui_run_counters [OF assms(3)] by (simp add: counters_ok_def stats_zero_def)
qed

section \<open>Offers of the streamer\<close>

text \<open>What a viewer reads in an offer.\<close>

definition offered_candidates :: "sdp_session \<Rightarrow> ice_candidate list" where
  "offered_candidates s = List.map_filter from_sdp (crlf_lines (sdp_text s))"

lemma new_transport:
  "streamer_new os fresh cfg = Some u0 \<Longrightarrow> us_transport u0 = transport_new fresh (uc_webrtc cfg)"
  by (auto simp: streamer_new_def Let_def split: prod.splits if_splits)

lemma started_transport:
  assumes "streamer_new os fresh cfg = Some u0" "streamer_start os now u0 = (u1, Ok l)"
  shows "has_kind VideoTrack (us_transport u1)" "tr_peer (us_transport u1) = fresh" "tr_local_candidates (us_transport u1) = []"
    "list_all (\<lambda>m. line_ok (mt_id m)) (tr_local_tracks (us_transport u1))"
  using assms(2) new_transport [OF assms(1)]
  by (auto simp: streamer_start_def has_kind_def add_track_def start_media_def transport_new_def video_track_def audio_track_def
      Let_def split: sum.splits prod.splits)

lemma simulated_ok: "list_all (\<lambda>c. candidate_ok c \<and> (case ic_related_address c of None \<Rightarrow> True | Some rel \<Rightarrow> line_ok rel)) simulated_candidates"
  by (simp add: simulated_candidates_def candidate_ok_def word_ok_def white_space_def)

text \<open>The offers of a started streamer: the first carries no candidate, and every later one the two
  simulated candidates, whose addresses are constants.\<close>

theorem offers_of_streamer:
  assumes "streamer_new os fresh cfg = Some u0" "streamer_start os now u0 = (u1, Ok l)" "line_ok fresh"
    and "streamer_offer i u1 = (u2, s1)" "streamer_offer j u2 = (u3, s2)"
  shows "offered_candidates s1 = [] \<and> offered_candidates s2 = map bare simulated_candidates"
proof -
  note t1 = started_transport [OF assms(1,2)]
  have ids1: "ids_ok (us_transport u1)" using t1 assms(3) by (simp add: ids_ok_def)
  have s1: "sdp_text s1 = generate_sdp (us_transport u1) Offer" and u2: "us_transport u2 =
      fst (gather_ice_candidates (fst (create_offer i (us_transport u1))))"
    using assms(4) by (auto simp: streamer_offer_def create_offer_def Let_def)
  have ids2: "ids_ok (us_transport u2)" "has_kind VideoTrack (us_transport u2)"
      "tr_local_candidates (us_transport u2) = simulated_candidates"
    using ids1 t1(1) simulated_ok by (simp_all add: u2 ids_ok_def gather_ice_candidates_def create_offer_def has_kind_def Let_def)
  have s2: "sdp_text s2 = generate_sdp (us_transport u2) Offer"
    using assms(5) by (auto simp: streamer_offer_def create_offer_def Let_def)
  show ?thesis
    using description_candidates [OF ids1] description_candidates [OF ids2(1)] t1 ids2
    by (simp add: offered_candidates_def s1 s2)
qed

section \<open>Examples\<close>

definition demo_shades :: shades where
  "demo_shades = \<lparr>sh_red = (\<lambda>x w. ucast x), sh_green = (\<lambda>y h. ucast y), sh_blue = (\<lambda>n. ucast n)\<rparr>"

definition bare_os :: "unit capture_os" where
  "bare_os = \<lparr>co_display = False, co_card = False, co_x11 = None, co_drm = None, co_init = (\<lambda>x. Ok x),
    co_capture = (\<lambda>t x. (x, Err (CaptureError ''''))), co_resolution = (\<lambda>x. (0, 0)), co_shades = demo_shades\<rparr>"

definition small_config :: streamer_config where
  "small_config = streamer_config_default\<lparr>uc_width := 2, uc_height := 1\<rparr>"

definition demo_streamer :: "unit streamer" where
  "demo_streamer = the (streamer_new bare_os ''p'' small_config)"

definition demo_loop :: "unit capture_loop" where
  "demo_loop = projr (snd (streamer_start bare_os 0 demo_streamer))"

lemma demo_new: "streamer_new bare_os ''p'' small_config = Some demo_streamer"
  by (simp add: demo_streamer_def streamer_new_def small_config_def streamer_config_default_def bare_os_def Let_def
      detect_best_capture_method_def)

lemma demo_source: "us_source demo_streamer = VirtualSource (virtual_new 2 1)"
  by (simp add: demo_streamer_def streamer_new_def small_config_def streamer_config_default_def bare_os_def Let_def
      detect_best_capture_method_def)

lemma demo_start: "streamer_start bare_os 0 demo_streamer = (fst (streamer_start bare_os 0 demo_streamer), Ok demo_loop)"
  by (simp add: demo_loop_def streamer_start_def source_init_def demo_source Let_def split_beta)

theorem every_frame_dropped_witness:
  "case ui_run bare_os [UiTurn 5 0, UiAddViewer ''a'', UiTurn 9 0, UiStop, UiTurn 10 0]
      (fst (streamer_start bare_os 0 demo_streamer)) demo_loop 0 of
     (u, n) \<Rightarrow> ss_dropped (us_stats u) = of_nat n \<and> ss_sent (us_stats u) = 0"
proof -
  obtain u n where run: "ui_run bare_os [UiTurn 5 0, UiAddViewer ''a'', UiTurn 9 0, UiStop, UiTurn 10 0]
      (fst (streamer_start bare_os 0 demo_streamer)) demo_loop 0 = (u, n)" by fastforce
  from every_frame_dropped [OF demo_new demo_start run] show ?thesis by (simp only: run split_conv simp_thms)
qed

theorem offers_of_streamer_witness:
  "offered_candidates (snd (streamer_offer ''i'' (fst (streamer_start bare_os 0 demo_streamer)))) = []"
proof -
  let ?u = "fst (streamer_start bare_os 0 demo_streamer)"
  obtain u2 s1 where one: "streamer_offer ''i'' ?u = (u2, s1)" by fastforce
  obtain u3 s2 where two: "streamer_offer ''j'' u2 = (u3, s2)" by fastforce
  show ?thesis using offers_of_streamer [OF demo_new demo_start _ one two] one by simp
qed

end
