(* ===== verification/S3Backend.thy ===== *)
theory S3Backend
  imports StateStore Text
begin

text \<open>
  \<^verbatim>\<open>src/src/s3_backend.rs\<close>: the S3 backend with a cache of its own and signed requests.  The server is a parameter, a
  function from a request and its state to its next state and a reply; so are SHA-256, HMAC, the hexadecimal
  encoding, the formatting of dates and the parsing of URLs (\<open>signing\<close>).  Keys are ASCII.  The unwrapping of a URL that does not
  parse panics (\<open>SsPanic\<close>).
\<close>

section \<open>Requests\<close>

record s3_config =
  s3c_endpoint :: string
  s3c_bucket :: string
  s3c_access_key :: string
  s3c_secret_key :: string
  s3c_region :: string
  s3c_path_style :: bool
  s3c_https :: bool

definition s3_config_default :: s3_config where
  "s3_config_default =
     \<lparr>s3c_endpoint = ''http://localhost:9000'', s3c_bucket = ''isa-states'', s3c_access_key = ''minioadmin'',
      s3c_secret_key = ''minioadmin'', s3c_region = ''us-east-1'', s3c_path_style = True, s3c_https = False\<rparr>"

definition s3_prefix :: "string \<Rightarrow> string" where
  "s3_prefix key = (if 2 \<le> length key then take 2 key else ''xx'')"

definition build_url :: "s3_config \<Rightarrow> string \<Rightarrow> string" where
  "build_url c key =
     (if s3c_path_style c
      then trim_end CHR ''/'' (s3c_endpoint c) @ ''/'' @ s3c_bucket c @ ''/'' @ s3_prefix key @ ''/'' @ key
      else (if s3c_https c then ''https'' else ''http'') @ ''://'' @
        trim_start ''https://'' (trim_start ''http://'' (s3c_endpoint c)) @ ''/'' @ s3c_bucket c @
        (if CHR ''.'' \<in> set (s3c_endpoint c) then '''' else ''.'') @ ''/'' @ s3_prefix key @ ''/'' @ key)"

record url_parts =
  up_path :: string
  up_query :: "string option"
  up_host :: "string option"

record signing =
  sg_sha :: "bytes \<Rightarrow> string"
  sg_hmac :: "bytes \<Rightarrow> bytes \<Rightarrow> bytes"
  sg_hex :: "bytes \<Rightarrow> string"
  sg_date :: "datetime \<Rightarrow> string"
  sg_stamp :: "datetime \<Rightarrow> string"
  sg_url :: "string \<Rightarrow> url_parts option"

definition host_or_localhost :: "url_parts \<Rightarrow> string" where
  "host_or_localhost p = (case up_host p of None \<Rightarrow> ''localhost'' | Some h \<Rightarrow> h)"

definition canonical_request :: "signing \<Rightarrow> string \<Rightarrow> url_parts \<Rightarrow> bytes \<Rightarrow> string" where
  "canonical_request sg meth p body =
     meth @ ''\<newline>'' @ up_path p @ ''\<newline>'' @ (case up_query p of None \<Rightarrow> '''' | Some q \<Rightarrow> q) @ ''\<newline>host:'' @ host_or_localhost p @
     ''\<newline>\<newline>host\<newline>'' @ sg_sha sg body"

definition sign_request :: "signing \<Rightarrow> s3_config \<Rightarrow> string \<Rightarrow> string \<Rightarrow> bytes \<Rightarrow> datetime \<Rightarrow> string" where
  "sign_request sg c meth url body now =
     (let date = sg_date sg now;
          p = (case sg_url sg url of Some p \<Rightarrow> p | None \<Rightarrow> \<lparr>up_path = ''/'', up_query = None, up_host = Some ''localhost''\<rparr>);
          hash = sg_sha sg (str_bytes (canonical_request sg meth p body));
          scope = date @ ''/'' @ s3c_region c @ ''/s3/aws4_request'';
          to_sign = ''AWS4-HMAC-SHA256\<newline>'' @ sg_stamp sg now @ ''\<newline>'' @ scope @ ''\<newline>'' @ hash;
          k_date = sg_hmac sg (str_bytes (''AWS4'' @ s3c_secret_key c)) (str_bytes date);
          k_region = sg_hmac sg k_date (str_bytes (s3c_region c));
          k_service = sg_hmac sg k_region (str_bytes ''s3'');
          k_signing = sg_hmac sg k_service (str_bytes ''aws4_request'')
      in ''AWS4-HMAC-SHA256 Credential='' @ s3c_access_key c @ ''/'' @ scope @ '', SignedHeaders=host, Signature='' @
         sg_hex sg (sg_hmac sg k_signing (str_bytes to_sign)))"

record s3_request =
  rq_method :: http_method
  rq_url :: string
  rq_authorization :: string
  rq_date :: string
  rq_host :: string
  rq_body :: bytes

text \<open>A reply: the request could not be sent, or its status with its body, which may fail to arrive.\<close>

datatype s3_reply = NotSent string | Replied nat "(string, bytes) result" string

section \<open>The backend\<close>

record 's cached_s3 =
  cs_config :: s3_config
  cs_cache :: "(string, bytes) hmap"
  cs_server :: 's

definition cached_s3_new :: "s3_config \<Rightarrow> 's \<Rightarrow> 's cached_s3" where
  "cached_s3_new c srv = \<lparr>cs_config = c, cs_cache = [], cs_server = srv\<rparr>"

type_synonym 's s3_http = "s3_request \<Rightarrow> 's \<Rightarrow> 's \<times> s3_reply"

definition method_str :: "http_method \<Rightarrow> string" where
  "method_str m = (case m of HttpPut \<Rightarrow> ''PUT'' | HttpGet \<Rightarrow> ''GET'' | HttpDelete \<Rightarrow> ''DELETE'' | HttpHead \<Rightarrow> ''HEAD'')"

text \<open>The signed request to a key and the server's reply; \<open>None\<close> when the URL does not parse.\<close>

definition exchange :: "signing \<Rightarrow> 's s3_http \<Rightarrow> datetime \<Rightarrow> http_method \<Rightarrow> string \<Rightarrow> bytes \<Rightarrow> 's cached_s3 \<Rightarrow>
    ('s cached_s3 \<times> s3_reply) option" where
  "exchange sg http now m key body b =
     (let url = build_url (cs_config b) key in
      case sg_url sg url of
        None \<Rightarrow> None
      | Some p \<Rightarrow>
          (case http \<lparr>rq_method = m, rq_url = url,
                      rq_authorization = sign_request sg (cs_config b) (method_str m) url body now,
                      rq_date = sg_stamp sg now, rq_host = host_or_localhost p, rq_body = body\<rparr> (cs_server b) of
             (srv, reply) \<Rightarrow> Some (b\<lparr>cs_server := srv\<rparr>, reply)))"

definition status_error :: "string \<Rightarrow> nat \<Rightarrow> string \<Rightarrow> store_error" where
  "status_error what n msg = SsIoError (''S3 '' @ what @ '' failed with status '' @ dec_str n @ '': '' @ msg)"

definition cached_put :: "signing \<Rightarrow> 's s3_http \<Rightarrow> datetime \<Rightarrow> string \<Rightarrow> bytes \<Rightarrow> 's cached_s3 \<Rightarrow>
    's cached_s3 \<times> (store_error, unit) result" where
  "cached_put sg http now key data b =
     (let b = b\<lparr>cs_cache := hm_insert key data (cs_cache b)\<rparr> in
      case exchange sg http now HttpPut key data b of
        None \<Rightarrow> (b, Err SsPanic)
      | Some (b, NotSent e) \<Rightarrow> (b, Err (SsIoError (''S3 PUT failed: '' @ e)))
      | Some (b, Replied n body msg) \<Rightarrow> (b, if success_status n then Ok () else Err (status_error ''PUT'' n msg)))"

definition cached_get :: "signing \<Rightarrow> 's s3_http \<Rightarrow> datetime \<Rightarrow> string \<Rightarrow> 's cached_s3 \<Rightarrow>
    's cached_s3 \<times> (store_error, bytes) result" where
  "cached_get sg http now key b =
     (case hm_get (cs_cache b) key of
        Some d \<Rightarrow> (b, Ok d)
      | None \<Rightarrow>
          (case exchange sg http now HttpGet key [] b of
             None \<Rightarrow> (b, Err SsPanic)
           | Some (b, NotSent e) \<Rightarrow> (b, Err (SsIoError (''S3 GET failed: '' @ e)))
           | Some (b, Replied n body msg) \<Rightarrow>
               if n = 200 then
                 (case body of
                    Inl e \<Rightarrow> (b, Err (SsIoError (''S3 GET read failed: '' @ e)))
                  | Inr d \<Rightarrow> (b\<lparr>cs_cache := hm_insert key d (cs_cache b)\<rparr>, Ok d))
               else if n = 404 then (b, Err (SsNotFound (''S3 object not found: '' @ key)))
               else (b, Err (status_error ''GET'' n msg))))"

definition cached_delete :: "signing \<Rightarrow> 's s3_http \<Rightarrow> datetime \<Rightarrow> string \<Rightarrow> 's cached_s3 \<Rightarrow>
    's cached_s3 \<times> (store_error, unit) result" where
  "cached_delete sg http now key b =
     (let b = b\<lparr>cs_cache := hm_remove key (cs_cache b)\<rparr> in
      case exchange sg http now HttpDelete key [] b of
        None \<Rightarrow> (b, Err SsPanic)
      | Some (b, NotSent e) \<Rightarrow> (b, Err (SsIoError (''S3 DELETE failed: '' @ e)))
      | Some (b, Replied n body msg) \<Rightarrow>
          (b, if \<not> success_status n \<and> n \<noteq> 404 then Err (status_error ''DELETE'' n msg) else Ok ()))"

definition cached_exists :: "signing \<Rightarrow> 's s3_http \<Rightarrow> datetime \<Rightarrow> string \<Rightarrow> 's cached_s3 \<Rightarrow>
    's cached_s3 \<times> (store_error, bool) result" where
  "cached_exists sg http now key b =
     (if hm_contains (cs_cache b) key then (b, Ok True)
      else
        (case exchange sg http now HttpHead key [] b of
           None \<Rightarrow> (b, Err SsPanic)
         | Some (b, NotSent e) \<Rightarrow> (b, Err (SsIoError (''S3 HEAD failed: '' @ e)))
         | Some (b, Replied n body msg) \<Rightarrow> (b, Ok (success_status n))))"

section \<open>URLs\<close>

lemma s3_prefix_length: "length (s3_prefix k) = 2"
  by (simp add: s3_prefix_def)

lemma prefix_key_inj: "s3_prefix k @ s @ k = s3_prefix k' @ s @ k' \<Longrightarrow> k = k'"
  by (simp add: s3_prefix_length append_eq_append_conv)

text \<open>Different keys have different URLs, in both styles.\<close>

lemma build_url_inj: "build_url c k = build_url c k' \<longleftrightarrow> k = k'"
  using prefix_key_inj [of k "''/''" k'] by (auto simp: build_url_def split: if_splits)

section \<open>Runs of the backend\<close>

datatype s3_op = S3Put datetime string bytes | S3Get datetime string | S3Delete datetime string | S3Exists datetime string

definition s3_step :: "signing \<Rightarrow> 's s3_http \<Rightarrow> s3_op \<Rightarrow> 's cached_s3 \<Rightarrow> 's cached_s3" where
  "s3_step sg http op b =
     (case op of
        S3Put now k d \<Rightarrow> fst (cached_put sg http now k d b)
      | S3Get now k \<Rightarrow> fst (cached_get sg http now k b)
      | S3Delete now k \<Rightarrow> fst (cached_delete sg http now k b)
      | S3Exists now k \<Rightarrow> fst (cached_exists sg http now k b))"

definition writes_key :: "string \<Rightarrow> s3_op \<Rightarrow> bool" where
  "writes_key k op = (case op of S3Put now k' d \<Rightarrow> k' = k | S3Delete now k' \<Rightarrow> k' = k | _ \<Rightarrow> False)"

lemma exchange_frame:
  assumes "exchange sg http now m k body b = Some (b', rep)"
  shows "cs_cache b' = cs_cache b" "cs_config b' = cs_config b"
    "\<exists>rq. rq_method rq = m \<and> rq_url rq = build_url (cs_config b) k \<and> rq_body rq = body \<and> http rq (cs_server b) = (cs_server b', rep)"
proof -
  have "\<exists>p. b' = b\<lparr>cs_server := cs_server b'\<rparr> \<and> http \<lparr>rq_method = m, rq_url = build_url (cs_config b) k,
      rq_authorization = sign_request sg (cs_config b) (method_str m) (build_url (cs_config b) k) body now,
      rq_date = sg_stamp sg now, rq_host = host_or_localhost p, rq_body = body\<rparr> (cs_server b) = (cs_server b', rep)"
    using assms by (auto simp: exchange_def Let_def split: option.splits prod.splits)
  then obtain p where b': "b' = b\<lparr>cs_server := cs_server b'\<rparr>" and rq: "http \<lparr>rq_method = m, rq_url = build_url (cs_config b) k,
      rq_authorization = sign_request sg (cs_config b) (method_str m) (build_url (cs_config b) k) body now,
      rq_date = sg_stamp sg now, rq_host = host_or_localhost p, rq_body = body\<rparr> (cs_server b) = (cs_server b', rep)" by blast
  show "\<exists>rq. rq_method rq = m \<and> rq_url rq = build_url (cs_config b) k \<and> rq_body rq = body \<and> http rq (cs_server b) = (cs_server b', rep)"
    using rq by (intro exI conjI) auto
  show "cs_cache b' = cs_cache b" "cs_config b' = cs_config b" by (subst b', simp)+
qed

lemma put_cached: "hm_get (cs_cache (fst (cached_put sg http now k d b))) k' = (if k' = k then Some d else hm_get (cs_cache b) k')"
  by (auto simp: cached_put_def Let_def exchange_frame(1) split: option.split s3_reply.split)

lemma delete_cached: "hm_get (cs_cache (fst (cached_delete sg http now k b))) k' = (if k' = k then None else hm_get (cs_cache b) k')"
  by (auto simp: cached_delete_def Let_def exchange_frame(1) split: option.split s3_reply.split)

lemma exists_cached: "cs_cache (fst (cached_exists sg http now k b)) = cs_cache b"
  by (auto simp: cached_exists_def exchange_frame(1) split: option.split s3_reply.split)

lemma get_cached: "hm_get (cs_cache b) k' = Some d \<Longrightarrow> hm_get (cs_cache (fst (cached_get sg http now k b))) k' = Some d"
  by (auto simp: cached_get_def exchange_frame(1) split: option.split s3_reply.split sum.split)

lemma step_keeps_cached:
  "hm_get (cs_cache b) k = Some d \<Longrightarrow> \<not> writes_key k op \<Longrightarrow> hm_get (cs_cache (s3_step sg http op b)) k = Some d"
  by (cases op) (simp_all add: s3_step_def writes_key_def put_cached delete_cached exists_cached get_cached)

text \<open>A put is read back, whether it succeeded or not: until the key is written again, every read returns
  what was put, and the key exists, without a request; a put that the server refused is no exception.\<close>

theorem put_read_back:
  assumes "cached_put sg http now k d b = (b1, r)" "list_all (\<lambda>op. \<not> writes_key k op) ops"
  defines "b2 \<equiv> fold (s3_step sg http) ops b1"
  shows "cached_get sg http now' k b2 = (b2, Ok d) \<and> cached_exists sg http now' k b2 = (b2, Ok True)"
proof -
  have "hm_get (cs_cache (fold (s3_step sg http) ops c)) k = Some d" if "hm_get (cs_cache c) k = Some d" for c
    using assms(2) that by (induction ops arbitrary: c) (simp_all add: step_keeps_cached)
  moreover have "hm_get (cs_cache b1) k = Some d" using put_cached [of sg http now k d b k] assms(1) by simp
  ultimately have "hm_get (cs_cache b2) k = Some d" by (simp add: b2_def)
  then show ?thesis by (auto simp: cached_get_def cached_exists_def hm_contains_def hm_get_def)
qed

section \<open>The cache and the server\<close>

text \<open>What S3 promises of an object: a stored body is what is read; a request that fails may have taken effect
  or not; no other object is touched.\<close>

definition object_server :: "'s s3_http \<Rightarrow> ('s \<Rightarrow> string \<Rightarrow> bytes option) \<Rightarrow> bool" where
  "object_server http holds \<longleftrightarrow>
     (\<forall>rq s s' rep. http rq s = (s', rep) \<longrightarrow>
        (\<forall>u. u \<noteq> rq_url rq \<longrightarrow> holds s' u = holds s u) \<and>
        (case rq_method rq of
           HttpPut \<Rightarrow>
             (case rep of
                Replied n body msg \<Rightarrow> if success_status n then holds s' (rq_url rq) = Some (rq_body rq)
                  else holds s' (rq_url rq) \<in> {holds s (rq_url rq), Some (rq_body rq)}
              | NotSent e \<Rightarrow> holds s' (rq_url rq) \<in> {holds s (rq_url rq), Some (rq_body rq)})
         | HttpDelete \<Rightarrow> holds s' (rq_url rq) \<in> {holds s (rq_url rq), None}
         | HttpGet \<Rightarrow> holds s' (rq_url rq) = holds s (rq_url rq) \<and>
             (\<forall>d msg. rep = Replied 200 (Inr d) msg \<longrightarrow> holds s (rq_url rq) = Some d)
         | HttpHead \<Rightarrow> holds s' (rq_url rq) = holds s (rq_url rq)))"

definition coherent :: "('s \<Rightarrow> string \<Rightarrow> bytes option) \<Rightarrow> 's cached_s3 \<Rightarrow> bool" where
  "coherent holds b \<longleftrightarrow>
     (\<forall>k d. hm_get (cs_cache b) k = Some d \<longrightarrow> holds (cs_server b) (build_url (cs_config b) k) = Some d)"

definition put_refused :: "signing \<Rightarrow> 's s3_http \<Rightarrow> s3_op \<Rightarrow> 's cached_s3 \<Rightarrow> bool" where
  "put_refused sg http op b = (case op of S3Put now k d \<Rightarrow> snd (cached_put sg http now k d b) \<noteq> Ok () | _ \<Rightarrow> False)"

fun no_put_refused :: "signing \<Rightarrow> 's s3_http \<Rightarrow> s3_op list \<Rightarrow> 's cached_s3 \<Rightarrow> bool" where
  "no_put_refused sg http [] b = True"
| "no_put_refused sg http (op # ops) b \<longleftrightarrow> \<not> put_refused sg http op b \<and> no_put_refused sg http ops (s3_step sg http op b)"

lemma object_server_others:
  "object_server http holds \<Longrightarrow> http rq s = (s', rep) \<Longrightarrow> u \<noteq> rq_url rq \<Longrightarrow> holds s' u = holds s u"
  unfolding object_server_def by blast

lemma coherent_step:
  assumes srv: "object_server http holds" and coh: "coherent holds b" and okp: "\<not> put_refused sg http op b"
  shows "coherent holds (s3_step sg http op b) \<and> cs_config (s3_step sg http op b) = cs_config b"
proof (cases op)
  case (S3Put now k d)
  let ?b = "b\<lparr>cs_cache := hm_insert k d (cs_cache b)\<rparr>"
  obtain b' n body msg where ex: "exchange sg http now HttpPut k d ?b = Some (b', Replied n body msg)" "success_status n"
      and st: "s3_step sg http op b = b'"
    using okp S3Put by (auto simp: put_refused_def s3_step_def cached_put_def Let_def split: option.splits s3_reply.splits if_splits)
  note fr = exchange_frame [OF ex(1)]
  obtain rq where rq: "rq_method rq = HttpPut" "rq_url rq = build_url (cs_config b) k" "rq_body rq = d"
      "http rq (cs_server b) = (cs_server b', Replied n body msg)" using fr(3) by auto
  have "holds (cs_server b') (build_url (cs_config b) k) = Some d"
    using srv [unfolded object_server_def, rule_format, OF rq(4)] rq ex(2) by simp
  moreover have "holds (cs_server b') (build_url (cs_config b) k') = holds (cs_server b) (build_url (cs_config b) k')" if "k' \<noteq> k" for k'
    using that by (intro object_server_others [OF srv rq(4)]) (simp add: rq(2) build_url_inj)
  ultimately show ?thesis using coh fr(1,2) st by (auto simp: coherent_def)
next
  case (S3Get now k)
  show ?thesis
  proof (cases "hm_get (cs_cache b) k")
    case (Some d)
    then show ?thesis using coh S3Get by (simp add: s3_step_def cached_get_def)
  next
    case None
    show ?thesis
    proof (cases "exchange sg http now HttpGet k [] b")
      case none: None
      then show ?thesis using coh S3Get None by (simp add: s3_step_def cached_get_def)
    next
      case (Some r)
      obtain b' rep where r: "r = (b', rep)" by fastforce
      note fr = exchange_frame [OF Some [unfolded r]]
      obtain rq where rq: "rq_method rq = HttpGet" "rq_url rq = build_url (cs_config b) k"
        "http rq (cs_server b) = (cs_server b', rep)" using fr(3) by auto
      note law = srv [unfolded object_server_def, rule_format, OF rq(3)]
      have same: "holds (cs_server b') u = holds (cs_server b) u" for u
        using law rq by (cases "u = rq_url rq") auto
      have got: "holds (cs_server b) (build_url (cs_config b) k) = Some d" if "rep = Replied 200 (Inr d) msg" for d msg
        using law rq that by simp
      show ?thesis using coh fr(1,2) S3Get None Some r same got
        by (auto simp: s3_step_def cached_get_def coherent_def split: s3_reply.split sum.split)
    qed
  qed
next
  case (S3Delete now k)
  let ?b = "b\<lparr>cs_cache := hm_remove k (cs_cache b)\<rparr>"
  show ?thesis
  proof (cases "exchange sg http now HttpDelete k [] ?b")
    case None
    then show ?thesis using coh S3Delete by (auto simp: s3_step_def cached_delete_def Let_def coherent_def)
  next
    case (Some r)
    obtain b' rep where r: "r = (b', rep)" by fastforce
    note fr = exchange_frame [OF Some [unfolded r]]
    obtain rq where rq: "rq_url rq = build_url (cs_config b) k" "http rq (cs_server b) = (cs_server b', rep)" using fr(3) by auto
    have "holds (cs_server b') (build_url (cs_config b) k') = holds (cs_server b) (build_url (cs_config b) k')" if "k' \<noteq> k" for k'
      using that by (intro object_server_others [OF srv rq(2)]) (simp add: rq(1) build_url_inj)
    then show ?thesis using coh fr(1,2) S3Delete Some r
      by (auto simp: s3_step_def cached_delete_def Let_def coherent_def split: s3_reply.split)
  qed
next
  case (S3Exists now k)
  show ?thesis
  proof (cases "hm_contains (cs_cache b) k \<or> exchange sg http now HttpHead k [] b = None")
    case True
    then show ?thesis using coh S3Exists by (auto simp: s3_step_def cached_exists_def)
  next
    case False
    then obtain b' rep where ex: "exchange sg http now HttpHead k [] b = Some (b', rep)" by auto
    note fr = exchange_frame [OF ex]
    obtain rq where rq: "rq_method rq = HttpHead" "http rq (cs_server b) = (cs_server b', rep)" using fr(3) by auto
    have "holds (cs_server b') u = holds (cs_server b) u" for u
      using srv [unfolded object_server_def, rule_format, OF rq(2)] rq by (cases "u = rq_url rq") auto
    then show ?thesis using coh fr(1,2) S3Exists False ex
      by (auto simp: s3_step_def cached_exists_def coherent_def split: s3_reply.split)
  qed
qed

text \<open>C8. Over a server that keeps its objects, and as long as no put has been refused, the cache agrees with the server
  after any run, so that whatever a read returns is what the server holds.\<close>

theorem reads_agree_with_server:
  assumes "object_server http holds" "no_put_refused sg http ops (cached_s3_new c srv)"
    and "b = fold (s3_step sg http) ops (cached_s3_new c srv)" "cached_get sg http now k b = (b', Ok d)"
  shows "holds (cs_server b) (build_url c k) = Some d"
proof -
  have "coherent holds (fold (s3_step sg http) ops b0) \<and> cs_config (fold (s3_step sg http) ops b0) = cs_config b0"
    if "coherent holds b0" "no_put_refused sg http ops b0" for b0
    using that
  proof (induction ops arbitrary: b0)
    case (Cons op ops)
    then show ?case using coherent_step [OF assms(1) Cons.prems(1), of sg op] by simp
  qed simp
  moreover have "coherent holds (cached_s3_new c srv)" by (simp add: coherent_def cached_s3_new_def)
  ultimately have "coherent holds b \<and> cs_config b = cs_config (cached_s3_new c srv)" using assms(2,3) by blast
  then have coh: "coherent holds b" "cs_config b = c" by (simp_all add: cached_s3_new_def)
  show ?thesis
  proof (cases "hm_get (cs_cache b) k")
    case (Some d')
    then show ?thesis using coh assms(4) by (auto simp: cached_get_def coherent_def)
  next
    case None
    then obtain b2 msg where ex: "exchange sg http now HttpGet k [] b = Some (b2, Replied 200 (Inr d) msg)"
      using assms(4) by (auto simp: cached_get_def split: option.splits s3_reply.splits sum.splits if_splits)
    obtain rq where rq: "rq_method rq = HttpGet" "rq_url rq = build_url (cs_config b) k"
        "http rq (cs_server b) = (cs_server b2, Replied 200 (Inr d) msg)" using exchange_frame(3) [OF ex] by auto
    show ?thesis using assms(1) [unfolded object_server_def, rule_format, OF rq(3)] rq coh(2) by simp
  qed
qed

section \<open>Examples\<close>

definition plain_signing :: signing where
  "plain_signing = \<lparr>sg_sha = (\<lambda>d. ''''), sg_hmac = (\<lambda>k d. []), sg_hex = (\<lambda>d. ''''), sg_date = (\<lambda>t. ''20240101''),
    sg_stamp = (\<lambda>t. ''20240101T000000Z''), sg_url = (\<lambda>u. Some \<lparr>up_path = ''/'', up_query = None, up_host = None\<rparr>)\<rparr>"

definition map_server :: "(string \<Rightarrow> bytes option) s3_http" where
  "map_server rq s =
     (case rq_method rq of
        HttpPut \<Rightarrow> (s(rq_url rq \<mapsto> rq_body rq), Replied 200 (Ok []) '''')
      | HttpDelete \<Rightarrow> (s(rq_url rq := None), Replied 204 (Ok []) '''')
      | HttpGet \<Rightarrow> (s, case s (rq_url rq) of None \<Rightarrow> Replied 404 (Ok []) '''' | Some d \<Rightarrow> Replied 200 (Ok d) '''')
      | HttpHead \<Rightarrow> (s, case s (rq_url rq) of None \<Rightarrow> Replied 404 (Ok []) '''' | Some d \<Rightarrow> Replied 200 (Ok []) ''''))"

lemma map_server_ok: "object_server map_server (\<lambda>s. s)"
  by (auto simp: object_server_def map_server_def success_status_def split: http_method.splits option.splits)

theorem put_read_back_witness:
  "cached_get plain_signing (\<lambda>rq s. (s, NotSent ''down'')) 1 ''k''
     (fst (cached_put plain_signing (\<lambda>rq s. (s, NotSent ''down'')) 0 ''k'' [1] (cached_s3_new s3_config_default ()))) =
   (fst (cached_put plain_signing (\<lambda>rq s. (s, NotSent ''down'')) 0 ''k'' [1] (cached_s3_new s3_config_default ())), Ok [1])"
  using put_read_back [OF prod.collapse [symmetric], where ops = "[]" and k = "''k''" and sg = plain_signing
      and http = "\<lambda>rq s. (s, NotSent ''down'')" and now = 0 and d = "[1]" and b = "cached_s3_new s3_config_default ()" and now' = 1]
  by simp

theorem reads_agree_with_server_witness:
  "cs_server (fold (s3_step plain_signing map_server) [S3Put 0 ''k'' [7], S3Delete 1 ''j'']
      (cached_s3_new s3_config_default Map.empty)) (build_url s3_config_default ''k'') = Some [7]"
proof -
  have puts: "no_put_refused plain_signing map_server [S3Put 0 ''k'' [7], S3Delete 1 ''j''] (cached_s3_new s3_config_default Map.empty)"
    by (simp add: put_refused_def cached_put_def exchange_def plain_signing_def map_server_def success_status_def Let_def)
  let ?b = "fold (s3_step plain_signing map_server) [S3Put 0 ''k'' [7], S3Delete 1 ''j''] (cached_s3_new s3_config_default Map.empty)"
  have "cached_get plain_signing map_server 2 ''k'' ?b = (?b, Ok [7])"
  proof -
    have "hm_get (cs_cache ?b) ''k'' = Some [7]" by (simp add: s3_step_def put_cached delete_cached)
    then show ?thesis by (simp add: cached_get_def)
  qed
  from reads_agree_with_server [OF map_server_ok puts refl this] show ?thesis .
qed

end
