(* ===== verification/Metrics.thy ===== *)
theory Metrics
  imports F32 Model
begin

text \<open>
  \<^verbatim>\<open>src/src/metrics.rs\<close>: counters, gauges and histograms, their export as Prometheus text and the snapshot of the
  totals.  A duration is a finite \<^verbatim>\<open>f64\<close>, the rational it denotes; sums round to double precision as in \<open>F32\<close> for
  singles (53 bits, least exponent -1074).  Overflow to infinity and NaN do not occur in it.  The
  printing of an \<^verbatim>\<open>f64\<close> is a parameter.
\<close>

section \<open>Double precision\<close>

type_synonym f64 = rat

definition f64_exp :: "rat \<Rightarrow> int" where
  "f64_exp x = (if 1 \<le> x then int (f32_up 1023 x) else - int (f32_dn 1022 x)) - 52"

definition f64_round_pos :: "rat \<Rightarrow> f64" where
  "f64_round_pos x = of_int (rne (x / 2 powi f64_exp x)) * 2 powi f64_exp x"

definition f64_round :: "rat \<Rightarrow> f64" where
  "f64_round x = (if x = 0 then 0 else if x < 0 then - f64_round_pos (- x) else f64_round_pos x)"

definition f64_add :: "f64 \<Rightarrow> f64 \<Rightarrow> f64" where "f64_add x y = f64_round (x + y)"
definition f64_mul :: "f64 \<Rightarrow> f64 \<Rightarrow> f64" where "f64_mul x y = f64_round (x * y)"
definition f64_div :: "f64 \<Rightarrow> f64 \<Rightarrow> f64" where "f64_div x y = f64_round (x / y)"
definition f64_of_nat :: "nat \<Rightarrow> f64" where "f64_of_nat n = f64_round (of_nat n)"

section \<open>The registry\<close>

datatype bound = UpTo f64 | Infinite

definition in_bound :: "f64 \<Rightarrow> bound \<Rightarrow> bool" where
  "in_bound v b \<longleftrightarrow> (case b of UpTo x \<Rightarrow> v \<le> x | Infinite \<Rightarrow> True)"

record histogram =
  hi_count :: u64
  hi_sum :: f64
  hi_buckets :: "(bound \<times> u64) list"

record metrics =
  mx_counters :: "(string, u64) hmap"
  mx_gauges :: "(string, 64 word) hmap"
  mx_histograms :: "(string, histogram) hmap"

definition bucket_bounds :: "bound list" where
  "bucket_bounds =
     map (\<lambda>x. UpTo (f64_round x)) [1 / 1000, 5 / 1000, 1 / 100, 25 / 1000, 5 / 100, 1 / 10, 25 / 100, 5 / 10, 1, 25 / 10, 5, 10] @
     [Infinite]"

definition histogram_new :: histogram where
  "histogram_new = \<lparr>hi_count = 0, hi_sum = 0, hi_buckets = map (\<lambda>b. (b, 0)) bucket_bounds\<rparr>"

definition metrics_inc :: "string \<Rightarrow> u64 \<Rightarrow> metrics \<Rightarrow> metrics" where
  "metrics_inc name v m = m\<lparr>mx_counters := hm_entry name 0 (\<lambda>c. c + v) (mx_counters m)\<rparr>"

definition metrics_dec :: "string \<Rightarrow> 64 word \<Rightarrow> metrics \<Rightarrow> metrics" where
  "metrics_dec name v m = m\<lparr>mx_gauges := hm_entry name 0 (\<lambda>g. g - v) (mx_gauges m)\<rparr>"

definition metrics_gauge :: "string \<Rightarrow> 64 word \<Rightarrow> metrics \<Rightarrow> metrics" where
  "metrics_gauge name v m = m\<lparr>mx_gauges := hm_entry name 0 (\<lambda>g. v) (mx_gauges m)\<rparr>"

definition observed :: "f64 \<Rightarrow> histogram \<Rightarrow> histogram" where
  "observed v h =
     \<lparr>hi_count = hi_count h + 1, hi_sum = f64_add (hi_sum h) v,
      hi_buckets = map (\<lambda>(b, c). (b, if in_bound v b then c + 1 else c)) (hi_buckets h)\<rparr>"

definition metrics_observe :: "string \<Rightarrow> f64 \<Rightarrow> metrics \<Rightarrow> metrics" where
  "metrics_observe name v m = m\<lparr>mx_histograms := hm_entry name histogram_new (observed v) (mx_histograms m)\<rparr>"

definition metrics_new :: metrics where
  "metrics_new =
     metrics_inc ''isa_errors_total'' 0 (metrics_inc ''isa_forks_total'' 0 (metrics_inc ''isa_resumes_total'' 0
       (metrics_inc ''isa_snapshots_total'' 0 \<lparr>mx_counters = [], mx_gauges = [], mx_histograms = []\<rparr>)))"

definition record_snapshot :: "f64 \<Rightarrow> u64 \<Rightarrow> metrics \<Rightarrow> metrics" where
  "record_snapshot secs bytes m =
     metrics_observe ''isa_snapshot_size_bytes'' (f64_of_nat (unat bytes))
       (metrics_observe ''isa_snapshot_duration_seconds'' secs (metrics_inc ''isa_snapshots_total'' 1 m))"

definition record_resume :: "f64 \<Rightarrow> u64 \<Rightarrow> metrics \<Rightarrow> metrics" where
  "record_resume secs pages m =
     metrics_observe ''isa_resume_pages_loaded'' (f64_of_nat (unat pages))
       (metrics_observe ''isa_resume_duration_seconds'' secs (metrics_inc ''isa_resumes_total'' 1 m))"

definition record_fork :: "metrics \<Rightarrow> metrics" where
  "record_fork m = metrics_inc ''isa_forks_total'' 1 m"

definition record_error :: "string \<Rightarrow> metrics \<Rightarrow> metrics" where
  "record_error ty m = metrics_inc (''isa_errors_'' @ ty) 1 (metrics_inc ''isa_errors_total'' 1 m)"

definition set_memory_metrics :: "u64 \<Rightarrow> u64 \<Rightarrow> u64 \<Rightarrow> metrics \<Rightarrow> metrics" where
  "set_memory_metrics hot warm cold m =
     metrics_gauge ''isa_memory_cold_bytes'' cold (metrics_gauge ''isa_memory_warm_bytes'' warm
       (metrics_gauge ''isa_memory_hot_bytes'' hot m))"

definition set_state_store_metrics :: "u64 \<Rightarrow> u64 \<Rightarrow> u64 \<Rightarrow> metrics \<Rightarrow> metrics" where
  "set_state_store_metrics sz states pages m =
     metrics_gauge ''isa_state_store_pages_total'' pages (metrics_gauge ''isa_state_store_states_total'' states
       (metrics_gauge ''isa_state_store_size_bytes'' sz m))"

text \<open>\<^verbatim>\<open>Timer\<close>: the histogram it was made for gets its duration.\<close>

record timer =
  ti_start :: f64
  ti_name :: string

definition observe_duration :: "f64 \<Rightarrow> timer \<Rightarrow> metrics \<Rightarrow> metrics" where
  "observe_duration elapsed t m = metrics_observe (ti_name t) elapsed m"

section \<open>Quantiles and export\<close>

fun first_bucket :: "u64 \<Rightarrow> (bound \<times> u64) list \<Rightarrow> bound option" where
  "first_bucket target [] = None"
| "first_bucket target ((b, c) # bs) = (if c \<ge> target then Some b else first_bucket target bs)"

definition quantile_target :: "u64 \<Rightarrow> f64 \<Rightarrow> u64" where
  "quantile_target n q = of_nat (min (nat \<lfloor>f64_mul (f64_of_nat (unat n)) q\<rfloor>) (2 ^ 64 - 1))"

definition calculate_quantile :: "(bound \<times> u64) list \<Rightarrow> u64 \<Rightarrow> f64 \<Rightarrow> bound" where
  "calculate_quantile bs n q =
     (case first_bucket (quantile_target n q) bs of
        Some b \<Rightarrow> b
      | None \<Rightarrow> (if bs = [] then Infinite else fst (last bs)))"

definition show_bound :: "(f64 \<Rightarrow> string) \<Rightarrow> bound \<Rightarrow> string" where
  "show_bound show b = (case b of UpTo x \<Rightarrow> show x | Infinite \<Rightarrow> ''inf'')"

definition dec_int :: "int \<Rightarrow> string" where
  "dec_int n = (if n < 0 then CHR ''-'' # dec_str (nat (- n)) else dec_str (nat n))"

definition counter_lines :: "string \<Rightarrow> string \<Rightarrow> metrics \<Rightarrow> string list" where
  "counter_lines name help m =
     [''# HELP '' @ name @ '' '' @ help, ''# TYPE '' @ name @ '' counter''] @
     (case hm_get (mx_counters m) name of None \<Rightarrow> [] | Some v \<Rightarrow> [name @ '' '' @ dec_str (unat v)])"

definition gauge_lines :: "string \<Rightarrow> string \<Rightarrow> metrics \<Rightarrow> string list" where
  "gauge_lines name help m =
     [''# HELP '' @ name @ '' '' @ help, ''# TYPE '' @ name @ '' gauge''] @
     (case hm_get (mx_gauges m) name of None \<Rightarrow> [] | Some v \<Rightarrow> [name @ '' '' @ dec_int (sint v)])"

definition histogram_lines :: "(f64 \<Rightarrow> string) \<Rightarrow> metrics \<Rightarrow> string list" where
  "histogram_lines show m =
     (let name = ''isa_snapshot_duration_seconds'' in
      case hm_get (mx_histograms m) name of
        None \<Rightarrow> []
      | Some h \<Rightarrow>
          (let quantile = (\<lambda>q. show_bound show (calculate_quantile (hi_buckets h) (hi_count h) (f64_round q))) in
           [''# HELP '' @ name @ '' Snapshot duration in seconds'', ''# TYPE '' @ name @ '' summary'',
            name @ ''{quantile=\"0.5\"} '' @ quantile (1 / 2),
            name @ ''{quantile=\"0.9\"} '' @ quantile (9 / 10),
            name @ ''{quantile=\"0.99\"} '' @ quantile (99 / 100),
            name @ ''_sum '' @ show (hi_sum h),
            name @ ''_count '' @ dec_str (unat (hi_count h))]))"

definition metric_lines :: "(f64 \<Rightarrow> string) \<Rightarrow> u64 \<Rightarrow> metrics \<Rightarrow> string list" where
  "metric_lines show uptime m =
     counter_lines ''isa_snapshots_total'' ''Total number of snapshots created'' m @
     counter_lines ''isa_resumes_total'' ''Total number of resumes performed'' m @
     counter_lines ''isa_forks_total'' ''Total number of forks performed'' m @
     counter_lines ''isa_errors_total'' ''Total number of errors'' m @
     gauge_lines ''isa_memory_hot_bytes'' ''Hot memory bytes'' m @
     gauge_lines ''isa_state_store_size_bytes'' ''Total state store size in bytes'' m @
     histogram_lines show m @
     [''# HELP isa_uptime_seconds Server uptime in seconds'', ''# TYPE isa_uptime_seconds gauge'',
      ''isa_uptime_seconds '' @ dec_str (unat uptime)]"

definition prometheus_metrics :: "(f64 \<Rightarrow> string) \<Rightarrow> u64 \<Rightarrow> metrics \<Rightarrow> string" where
  "prometheus_metrics show uptime m = concat (map (\<lambda>l. l @ ''\<newline>'') (metric_lines show uptime m))"

record metrics_snapshot =
  ms_snapshots :: u64
  ms_resumes :: u64
  ms_forks :: u64
  ms_errors :: u64
  ms_avg_snapshot_ms :: f64
  ms_avg_resume_ms :: f64
  ms_uptime :: u64

definition counter_value :: "string \<Rightarrow> metrics \<Rightarrow> u64" where
  "counter_value name m = (case hm_get (mx_counters m) name of None \<Rightarrow> 0 | Some v \<Rightarrow> v)"

definition average_ms :: "string \<Rightarrow> metrics \<Rightarrow> f64" where
  "average_ms name m =
     (case hm_get (mx_histograms m) name of
        None \<Rightarrow> 0
      | Some h \<Rightarrow>
          if hi_count h > 0 then f64_mul (f64_div (hi_sum h) (f64_of_nat (unat (hi_count h)))) 1000 else 0)"

definition take_metrics_snapshot :: "u64 \<Rightarrow> metrics \<Rightarrow> metrics_snapshot" where
  "take_metrics_snapshot uptime m =
     \<lparr>ms_snapshots = counter_value ''isa_snapshots_total'' m, ms_resumes = counter_value ''isa_resumes_total'' m,
      ms_forks = counter_value ''isa_forks_total'' m, ms_errors = counter_value ''isa_errors_total'' m,
      ms_avg_snapshot_ms = average_ms ''isa_snapshot_duration_seconds'' m,
      ms_avg_resume_ms = average_ms ''isa_resume_duration_seconds'' m, ms_uptime = uptime\<rparr>"

section \<open>Runs\<close>

datatype metrics_op =
    MxInc string u64
  | MxDec string "64 word"
  | MxGauge string "64 word"
  | MxObserve string f64
  | MxSnapshot f64 u64
  | MxResume f64 u64
  | MxFork
  | MxError string
  | MxMemory u64 u64 u64
  | MxStore u64 u64 u64

definition metrics_step :: "metrics_op \<Rightarrow> metrics \<Rightarrow> metrics" where
  "metrics_step op m =
     (case op of
        MxInc n v \<Rightarrow> metrics_inc n v m
      | MxDec n v \<Rightarrow> metrics_dec n v m
      | MxGauge n v \<Rightarrow> metrics_gauge n v m
      | MxObserve n v \<Rightarrow> metrics_observe n v m
      | MxSnapshot s b \<Rightarrow> record_snapshot s b m
      | MxResume s p \<Rightarrow> record_resume s p m
      | MxFork \<Rightarrow> record_fork m
      | MxError ty \<Rightarrow> record_error ty m
      | MxMemory h w c \<Rightarrow> set_memory_metrics h w c m
      | MxStore s n p \<Rightarrow> set_state_store_metrics s n p m)"

text \<open>The values that an operation observes under a name, and what it adds to a counter.\<close>

definition values_of :: "string \<Rightarrow> metrics_op \<Rightarrow> f64 list" where
  "values_of name op =
     (case op of
        MxObserve n v \<Rightarrow> if n = name then [v] else []
      | MxSnapshot s b \<Rightarrow>
          (if name = ''isa_snapshot_duration_seconds'' then [s]
           else if name = ''isa_snapshot_size_bytes'' then [f64_of_nat (unat b)] else [])
      | MxResume s p \<Rightarrow>
          (if name = ''isa_resume_duration_seconds'' then [s]
           else if name = ''isa_resume_pages_loaded'' then [f64_of_nat (unat p)] else [])
      | _ \<Rightarrow> [])"

definition added :: "string \<Rightarrow> metrics_op \<Rightarrow> u64" where
  "added name op =
     (case op of
        MxInc n v \<Rightarrow> if n = name then v else 0
      | MxSnapshot s b \<Rightarrow> if name = ''isa_snapshots_total'' then 1 else 0
      | MxResume s p \<Rightarrow> if name = ''isa_resumes_total'' then 1 else 0
      | MxFork \<Rightarrow> if name = ''isa_forks_total'' then 1 else 0
      | MxError ty \<Rightarrow> (if name = ''isa_errors_total'' then 1 else 0) + (if name = ''isa_errors_'' @ ty then 1 else 0)
      | _ \<Rightarrow> 0)"

lemmas metrics_ops = metrics_step_def metrics_inc_def metrics_dec_def metrics_gauge_def metrics_observe_def
  record_snapshot_def record_resume_def record_fork_def record_error_def set_memory_metrics_def set_state_store_metrics_def

lemma step_counter: "counter_value name (metrics_step op m) = counter_value name m + added name op"
  by (cases op) (simp_all add: metrics_ops counter_value_def added_def split: option.split)

lemma new_counters: "counter_value name metrics_new = 0"
  by (simp add: metrics_new_def metrics_inc_def counter_value_def)

lemma run_counter:
  "counter_value name (fold metrics_step ops m) = counter_value name m + sum_list (map (added name) ops)"
  by (induction ops arbitrary: m) (simp_all add: step_counter)

text \<open>A histogram as the list of its values makes it.\<close>

definition histogram_of :: "f64 list \<Rightarrow> histogram" where
  "histogram_of vs =
     \<lparr>hi_count = of_nat (length vs), hi_sum = foldl f64_add 0 vs,
      hi_buckets = map (\<lambda>b. (b, of_nat (length (filter (\<lambda>v. in_bound v b) vs)))) bucket_bounds\<rparr>"

lemma histogram_of_Nil: "histogram_of [] = histogram_new"
  by (simp add: histogram_of_def histogram_new_def)

lemma observed_snoc: "observed v (histogram_of vs) = histogram_of (vs @ [v])"
  by (simp add: observed_def histogram_of_def)

definition shows_values :: "metrics \<Rightarrow> string \<Rightarrow> f64 list \<Rightarrow> bool" where
  "shows_values m name vs \<longleftrightarrow> hm_get (mx_histograms m) name = (if vs = [] then None else Some (histogram_of vs))"

lemma observe_shows:
  assumes "shows_values m name vs"
  shows "shows_values (metrics_observe n v m) name (vs @ (if n = name then [v] else []))"
  using assms observed_snoc [of v vs]
  by (cases "vs = []") (auto simp: shows_values_def metrics_observe_def histogram_of_Nil [symmetric])

lemma step_shows:
  assumes "shows_values m name vs"
  shows "shows_values (metrics_step op m) name (vs @ values_of name op)"
proof -
  have two: "shows_values (metrics_observe n' v' (metrics_observe n v (metrics_inc i k m))) name
      ((vs @ (if n = name then [v] else [])) @ (if n' = name then [v'] else []))" for n n' v v' i k
    using assms by (intro observe_shows) (simp add: shows_values_def metrics_inc_def)
  show ?thesis
    using assms observe_shows [OF assms] two
    by (cases op) (auto simp: metrics_step_def values_of_def record_snapshot_def record_resume_def record_fork_def record_error_def
        set_memory_metrics_def set_state_store_metrics_def metrics_inc_def metrics_dec_def metrics_gauge_def shows_values_def)
qed

lemma run_shows: "shows_values (fold metrics_step ops metrics_new) name (concat (map (values_of name) ops))"
proof -
  have "shows_values (fold metrics_step ops m) name (us @ concat (map (values_of name) ops))" if "shows_values m name us" for m us
    using that
  proof (induction ops arbitrary: m us)
    case (Cons op ops)
    then show ?case using Cons.IH [OF step_shows [OF Cons.prems, of op]] by simp
  qed simp
  from this [of metrics_new "[]"] show ?thesis by (simp add: shows_values_def metrics_new_def metrics_inc_def)
qed

text \<open>C35. A histogram counts exactly: after any run a name that something was observed under shows the number of
  its values, the sum of them in the order of the run, and for every bucket the number of the values
  within its bound; a name without values has no histogram.\<close>

theorem histogram_exact:
  "hm_get (mx_histograms (fold metrics_step ops metrics_new)) name =
    (let vs = concat (map (values_of name) ops) in
     if vs = [] then None
     else Some \<lparr>hi_count = of_nat (length vs), hi_sum = foldl f64_add 0 vs,
       hi_buckets = map (\<lambda>b. (b, of_nat (length (filter (\<lambda>v. in_bound v b) vs)))) bucket_bounds\<rparr>)"
  using run_shows [of ops name] by (simp add: shows_values_def histogram_of_def Let_def)

lemma first_bucket_cases:
  "(case first_bucket t bs of
      Some b \<Rightarrow> \<exists>i < length bs. b = fst (bs ! i) \<and> t \<le> snd (bs ! i) \<and> (\<forall>j < i. snd (bs ! j) < t)
    | None \<Rightarrow> \<forall>j < length bs. snd (bs ! j) < t)"
proof (induction t bs rule: first_bucket.induct)
  case (2 t b c bs)
  show ?case
  proof (cases "t \<le> c")
    case True
    then show ?thesis by (auto intro!: exI [of _ 0])
  next
    case False
    show ?thesis
    proof (cases "first_bucket t bs")
      case None
      then show ?thesis using 2 False by (auto simp: nth_Cons split: nat.split)
    next
      case (Some b')
      then obtain i where "i < length bs" "b' = fst (bs ! i)" "t \<le> snd (bs ! i)" "\<forall>j < i. snd (bs ! j) < t" using 2 False by auto
      then show ?thesis using False Some by (auto simp: nth_Cons split: nat.split intro!: exI [of _ "Suc i"])
    qed
  qed
qed simp

lemma length_bounds: "length bucket_bounds = 13"
  by (simp add: bucket_bounds_def)

text \<open>A quantile is the bound of a bucket: of the first that holds as many values as the quantile asks for, and
  infinity when no other does.  A quantile that asks for none, as the median of a single value, is the
  first bound whatever the value was.\<close>

theorem quantile_bucket:
  fixes ops :: "metrics_op list"
  assumes "hm_get (mx_histograms (fold metrics_step ops metrics_new)) name = Some h"
    and "length (concat (map (values_of name) ops)) < 2 ^ 64"
  shows "\<exists>i < 13. calculate_quantile (hi_buckets h) (hi_count h) q = bucket_bounds ! i \<and>
    (i < 12 \<longrightarrow> unat (quantile_target (hi_count h) q) \<le>
      length (filter (\<lambda>v. in_bound v (bucket_bounds ! i)) (concat (map (values_of name) ops)))) \<and>
    (\<forall>j < i. length (filter (\<lambda>v. in_bound v (bucket_bounds ! j)) (concat (map (values_of name) ops))) <
      unat (quantile_target (hi_count h) q))"
proof -
  define vs where "vs = concat (map (values_of name) ops)"
  let ?t = "quantile_target (hi_count h) q" and ?bs = "hi_buckets h"
  have bs: "?bs = map (\<lambda>b. (b, of_nat (length (filter (\<lambda>v. in_bound v b) vs)))) bucket_bounds"
    using run_shows [of ops name] assms(1) by (auto simp: shows_values_def histogram_of_def vs_def split: if_splits)
  have count: "unat (of_nat (length (filter P vs)) :: u64) = length (filter P vs)" for P
    using assms(2) le_less_trans [OF length_filter_le [of P vs]] by (simp add: vs_def unat_of_nat)
  have snd_bs: "unat (snd (?bs ! i)) = length (filter (\<lambda>v. in_bound v (bucket_bounds ! i)) vs)"
      "fst (?bs ! i) = bucket_bounds ! i" if "i < 13" for i
    using that by (simp_all add: bs length_bounds count)
  have len: "length ?bs = 13" by (simp add: bs length_bounds)
  show ?thesis
  proof (cases "first_bucket ?t ?bs")
    case None
    then have all: "\<forall>j < 13. snd (?bs ! j) < ?t" using first_bucket_cases [where t = "?t" and bs = "?bs"] by (simp add: len)
    have "calculate_quantile ?bs (hi_count h) q = bucket_bounds ! 12"
      using None len snd_bs(2) [of 12] by (auto simp: calculate_quantile_def last_conv_nth)
    moreover have "length (filter (\<lambda>v. in_bound v (bucket_bounds ! j)) vs) < unat ?t" if "j < 12" for j
      using all [rule_format, of j] that snd_bs(1) [of j] by (simp add: word_less_nat_alt)
    ultimately show ?thesis unfolding vs_def by (intro exI [of _ 12]) simp
  next
    case (Some b)
    then obtain i where i: "i < 13" "b = fst (?bs ! i)" "?t \<le> snd (?bs ! i)" "\<forall>j < i. snd (?bs ! j) < ?t"
      using first_bucket_cases [where t = "?t" and bs = "?bs"] by (auto simp: len)
    have "length (filter (\<lambda>v. in_bound v (bucket_bounds ! j)) vs) < unat ?t" if "j < i" for j
      using i(1,4) that snd_bs(1) [of j] by (auto simp: word_less_nat_alt)
    moreover have "unat ?t \<le> length (filter (\<lambda>v. in_bound v (bucket_bounds ! i)) vs)"
      using i(3) snd_bs(1) [OF i(1)] by (simp add: word_le_nat_alt)
    moreover have "calculate_quantile ?bs (hi_count h) q = bucket_bounds ! i"
      using Some i(2) snd_bs(2) [OF i(1)] by (simp add: calculate_quantile_def)
    ultimately show ?thesis unfolding vs_def using i(1) by blast
  qed
qed

text \<open>The exported totals: in any run the text has for each of the four totals the line with what the run has
  added to it, modulo 2 to the 64.\<close>

theorem exported_totals:
  assumes "name \<in> {''isa_snapshots_total'', ''isa_resumes_total'', ''isa_forks_total'', ''isa_errors_total''}"
  shows "name @ '' '' @ dec_str (unat (sum_list (map (added name) ops))) \<in>
    set (metric_lines show uptime (fold metrics_step ops metrics_new))"
proof -
  let ?m = "fold metrics_step ops metrics_new"
  have keeps: "hm_get (mx_counters (fold metrics_step ops m)) name \<noteq> None" if "hm_get (mx_counters m) name \<noteq> None" for m
    using that
  proof (induction ops arbitrary: m)
    case (Cons op ops)
    have "hm_get (mx_counters (metrics_step op m)) name \<noteq> None"
      using Cons.prems by (cases op) (auto simp: metrics_ops)
    then show ?case using Cons.IH by simp
  qed simp
  moreover have "hm_get (mx_counters metrics_new) name \<noteq> None" using assms by (auto simp: metrics_new_def metrics_inc_def)
  ultimately obtain v where "hm_get (mx_counters ?m) name = Some v" by blast
  moreover from this have "v = sum_list (map (added name) ops)"
    using run_counter [of name ops metrics_new] new_counters [of name] by (simp add: counter_value_def)
  ultimately show ?thesis using assms by (auto simp: metric_lines_def counter_lines_def)
qed

theorem quantile_bucket_witness:
  "\<exists>i < 13. calculate_quantile (hi_buckets (histogram_of [3])) (hi_count (histogram_of [3])) (1 / 2) = bucket_bounds ! i"
proof -
  have "hm_get (mx_histograms (fold metrics_step [MxObserve ''t'' 3] metrics_new)) ''t'' = Some (histogram_of [3])"
    using run_shows [of "[MxObserve ''t'' 3]" "''t''"] by (simp add: shows_values_def values_of_def)
  from quantile_bucket [OF this, of "1 / 2"] show ?thesis by (auto simp: values_of_def)
qed

theorem exported_totals_witness:
  "''isa_errors_total 2'' \<in> set (metric_lines (\<lambda>x. '''') 5 (fold metrics_step [MxError ''io'', MxFork, MxError ''x''] metrics_new))"
proof -
  have "dec_str 2 = ''2''" by (simp add: dec_str.simps digit_char_def)
  then show ?thesis
    using exported_totals [of "''isa_errors_total''" "[MxError ''io'', MxFork, MxError ''x'']" "\<lambda>x. ''''" 5]
    by (simp add: added_def)
qed

end
