(* ===== verification/Config.thy ===== *)
theory Config
  imports Firecracker Text
begin

text \<open>
  \<^verbatim>\<open>src/src/config.rs\<close> and \<^verbatim>\<open>src/src/main.rs\<close>: the configuration with its defaults, read from a file or from the
  environment, and the start of the server from its arguments.  A document is what the TOML parser makes of a file:
  the values of the fields that it names, each of its type; which defaults fill the others is the code's.  Environment,
  file system, parser, the number of processors, the directives of the logger and the socket are parameters
  (\<open>server_os\<close>).  Texts are characters below 256.
\<close>

section \<open>Settings and defaults\<close>

record server_config =
  svc_host :: string
  svc_port :: u16
  svc_workers :: nat

record machine_settings =
  mcs_binary :: string
  mcs_jailer :: string
  mcs_workspace :: string
  mcs_use_jailer :: bool
  mcs_iface :: string

record store_settings =
  sts_backend :: string
  sts_path :: string
  sts_cache_mb :: nat
  sts_ttl_hours :: u64
  sts_gc :: bool
  sts_gc_secs :: u64

record quic_settings =
  qcs_port :: u16
  qcs_tls :: bool
  qcs_timeout :: u64

record logging_settings =
  lgs_level :: string
  lgs_format :: string

record isa_config =
  cfg_server :: server_config
  cfg_machine :: machine_settings
  cfg_store :: store_settings
  cfg_quic :: quic_settings
  cfg_logging :: logging_settings

datatype config_error = ConfigIoError string | ConfigParseError string

definition default_workers :: "nat \<Rightarrow> nat" where
  "default_workers cpus = max cpus 2"

definition server_default :: "nat \<Rightarrow> server_config" where
  "server_default cpus = \<lparr>svc_host = ''0.0.0.0'', svc_port = 3000, svc_workers = default_workers cpus\<rparr>"

definition machine_default :: machine_settings where
  "machine_default =
     \<lparr>mcs_binary = ''/usr/bin/firecracker'', mcs_jailer = ''/usr/bin/jailer'', mcs_workspace = ''/tmp/isa-workspace'',
      mcs_use_jailer = False, mcs_iface = ''eth0''\<rparr>"

definition store_settings_default :: store_settings where
  "store_settings_default =
     \<lparr>sts_backend = ''local'', sts_path = ''/tmp/isa-state-store'', sts_cache_mb = 1024, sts_ttl_hours = 24,
      sts_gc = True, sts_gc_secs = 3600\<rparr>"

definition quic_default :: quic_settings where
  "quic_default = \<lparr>qcs_port = 4433, qcs_tls = False, qcs_timeout = 30\<rparr>"

definition logging_default :: logging_settings where
  "logging_default = \<lparr>lgs_level = ''info'', lgs_format = ''full''\<rparr>"

definition config_default :: "nat \<Rightarrow> isa_config" where
  "config_default cpus =
     \<lparr>cfg_server = server_default cpus, cfg_machine = machine_default, cfg_store = store_settings_default,
      cfg_quic = quic_default, cfg_logging = logging_default\<rparr>"

section \<open>Documents\<close>

record server_doc =
  svd_host :: "string option"
  svd_port :: "u16 option"
  svd_workers :: "nat option"

record machine_doc =
  mcd_binary :: "string option"
  mcd_jailer :: "string option"
  mcd_workspace :: "string option"
  mcd_use_jailer :: "bool option"
  mcd_iface :: "string option"

record store_doc =
  std_backend :: "string option"
  std_path :: "string option"
  std_cache_mb :: "nat option"
  std_ttl_hours :: "u64 option"
  std_gc :: "bool option"
  std_gc_secs :: "u64 option"

record quic_doc =
  qcd_port :: "u16 option"
  qcd_tls :: "bool option"
  qcd_timeout :: "u64 option"

record logging_doc =
  lgd_level :: "string option"
  lgd_format :: "string option"

record config_doc =
  doc_server :: "server_doc option"
  doc_machine :: "machine_doc option"
  doc_store :: "store_doc option"
  doc_quic :: "quic_doc option"
  doc_logging :: "logging_doc option"

abbreviation field_or :: "'a \<Rightarrow> 'a option \<Rightarrow> 'a" where
  "field_or d v \<equiv> (case v of None \<Rightarrow> d | Some x \<Rightarrow> x)"

definition server_of_doc :: "nat \<Rightarrow> server_doc \<Rightarrow> server_config" where
  "server_of_doc cpus d =
     \<lparr>svc_host = field_or ''0.0.0.0'' (svd_host d), svc_port = field_or 3000 (svd_port d),
      svc_workers = field_or (default_workers cpus) (svd_workers d)\<rparr>"

definition machine_of_doc :: "machine_doc \<Rightarrow> machine_settings" where
  "machine_of_doc d =
     \<lparr>mcs_binary = field_or ''/usr/bin/firecracker'' (mcd_binary d), mcs_jailer = field_or ''/usr/bin/jailer'' (mcd_jailer d),
      mcs_workspace = field_or ''/tmp/isa-workspace'' (mcd_workspace d), mcs_use_jailer = field_or False (mcd_use_jailer d),
      mcs_iface = field_or ''eth0'' (mcd_iface d)\<rparr>"

definition store_of_doc :: "store_doc \<Rightarrow> store_settings" where
  "store_of_doc d =
     \<lparr>sts_backend = field_or ''local'' (std_backend d), sts_path = field_or ''/tmp/isa-state-store'' (std_path d),
      sts_cache_mb = field_or 1024 (std_cache_mb d), sts_ttl_hours = field_or 24 (std_ttl_hours d),
      sts_gc = field_or True (std_gc d), sts_gc_secs = field_or 3600 (std_gc_secs d)\<rparr>"

definition quic_of_doc :: "quic_doc \<Rightarrow> quic_settings" where
  "quic_of_doc d =
     \<lparr>qcs_port = field_or 4433 (qcd_port d), qcs_tls = field_or False (qcd_tls d), qcs_timeout = field_or 30 (qcd_timeout d)\<rparr>"

definition logging_of_doc :: "logging_doc \<Rightarrow> logging_settings" where
  "logging_of_doc d = \<lparr>lgs_level = field_or ''info'' (lgd_level d), lgs_format = field_or ''full'' (lgd_format d)\<rparr>"

definition config_of_doc :: "nat \<Rightarrow> config_doc \<Rightarrow> isa_config" where
  "config_of_doc cpus d =
     \<lparr>cfg_server = (case doc_server d of None \<Rightarrow> server_default cpus | Some s \<Rightarrow> server_of_doc cpus s),
      cfg_machine = (case doc_machine d of None \<Rightarrow> machine_default | Some s \<Rightarrow> machine_of_doc s),
      cfg_store = (case doc_store d of None \<Rightarrow> store_settings_default | Some s \<Rightarrow> store_of_doc s),
      cfg_quic = (case doc_quic d of None \<Rightarrow> quic_default | Some s \<Rightarrow> quic_of_doc s),
      cfg_logging = (case doc_logging d of None \<Rightarrow> logging_default | Some s \<Rightarrow> logging_of_doc s)\<rparr>"

section \<open>Loading\<close>

record server_os =
  so_env :: "string \<Rightarrow> string option"
  so_exists :: "string \<Rightarrow> bool"
  so_read :: "string \<Rightarrow> (string, string) result"
  so_toml :: "string \<Rightarrow> (string, config_doc) result"
  so_cpus :: nat
  so_directive :: "string \<Rightarrow> (string, unit) result"
  so_bind :: "string \<Rightarrow> (string, unit) result"

definition from_file :: "server_os \<Rightarrow> string \<Rightarrow> (config_error, isa_config) result" where
  "from_file os path =
     (case so_read os path of
        Inl e \<Rightarrow> Err (ConfigIoError (''Failed to read config file: '' @ e))
      | Inr content \<Rightarrow>
          (case so_toml os content of
             Inl e \<Rightarrow> Err (ConfigParseError (''Failed to parse config: '' @ e))
           | Inr d \<Rightarrow> Ok (config_of_doc (so_cpus os) d)))"

definition parse_u16 :: "string \<Rightarrow> u16 option" where
  "parse_u16 s = map_option of_nat (parse_uint 65536 s)"

definition from_env :: "server_os \<Rightarrow> isa_config" where
  "from_env os =
     (let c = config_default (so_cpus os);
          c = (case so_env os ''ISA_API_PORT'' of
                 None \<Rightarrow> c
               | Some port \<Rightarrow>
                   (case parse_u16 port of
                      None \<Rightarrow> c
                    | Some p \<Rightarrow> c\<lparr>cfg_server := (cfg_server c)\<lparr>svc_port := p\<rparr>\<rparr>));
          c = (case so_env os ''ISA_API_HOST'' of
                 None \<Rightarrow> c | Some host \<Rightarrow> c\<lparr>cfg_server := (cfg_server c)\<lparr>svc_host := host\<rparr>\<rparr>);
          c = (case so_env os ''ISA_WORKSPACE'' of
                 None \<Rightarrow> c | Some ws \<Rightarrow> c\<lparr>cfg_machine := (cfg_machine c)\<lparr>mcs_workspace := ws\<rparr>\<rparr>);
          c = (case so_env os ''ISA_STATE_STORE'' of
                 None \<Rightarrow> c | Some path \<Rightarrow> c\<lparr>cfg_store := (cfg_store c)\<lparr>sts_path := path\<rparr>\<rparr>)
      in (case so_env os ''RUST_LOG'' of
            None \<Rightarrow> c | Some level \<Rightarrow> c\<lparr>cfg_logging := (cfg_logging c)\<lparr>lgs_level := level\<rparr>\<rparr>))"

definition load_config :: "server_os \<Rightarrow> string option \<Rightarrow> isa_config" where
  "load_config os path =
     (case path of
        None \<Rightarrow> from_env os
      | Some p \<Rightarrow>
          if so_exists os p then (case from_file os p of Inr c \<Rightarrow> c | Inl e \<Rightarrow> from_env os) else from_env os)"

definition api_address :: "isa_config \<Rightarrow> string" where
  "api_address c = svc_host (cfg_server c) @ '':'' @ dec_str (unat (svc_port (cfg_server c)))"

text \<open>The conversion names five of the seven fields of its target; the other two are those of \<open>base\<close>.\<close>

definition to_firecracker_config :: "fc_settings \<Rightarrow> isa_config \<Rightarrow> fc_settings" where
  "to_firecracker_config base c =
     base\<lparr>fs_binary := mcs_binary (cfg_machine c), fs_jailer := mcs_jailer (cfg_machine c),
       fs_workspace := mcs_workspace (cfg_machine c), fs_use_jailer := mcs_use_jailer (cfg_machine c),
       fs_iface := mcs_iface (cfg_machine c)\<rparr>"


section \<open>The start of the server\<close>

datatype server_args = ShowHelp | Options "string option" "u16 option"

text \<open>The loop over the arguments after the name of the program; an option without a value is ignored, and a port
  that is no number counts as none.\<close>

fun parse_args :: "string list \<Rightarrow> string option \<Rightarrow> u16 option \<Rightarrow> server_args" where
  "parse_args [] config_path port = Options config_path port"
| "parse_args (a # args) config_path port =
     (if a = ''--config'' \<or> a = ''-c'' then
        (case args of [] \<Rightarrow> Options config_path port | v # args \<Rightarrow> parse_args args (Some v) port)
      else if a = ''--port'' \<or> a = ''-p'' then
        (case args of [] \<Rightarrow> Options config_path port | v # args \<Rightarrow> parse_args args config_path (parse_u16 v))
      else if a = ''--help'' \<or> a = ''-h'' then ShowHelp
      else parse_args args config_path port)"

datatype started =
    HelpPrinted
  | LoggerRefused string
  | NotBound string
  | Serving string isa_config

definition log_directives :: "isa_config \<Rightarrow> string list" where
  "log_directives c = [''isa_workspace='' @ lgs_level (cfg_logging c), ''tokio=warn'', ''h2=warn'', ''quinn=warn'']"

fun directives_ok :: "server_os \<Rightarrow> string list \<Rightarrow> (string, unit) result" where
  "directives_ok os [] = Ok ()"
| "directives_ok os (d # ds) = (case so_directive os d of Inl e \<Rightarrow> Err e | Inr u \<Rightarrow> directives_ok os ds)"

definition override_port :: "u16 option \<Rightarrow> isa_config \<Rightarrow> isa_config" where
  "override_port port c =
     (case port of None \<Rightarrow> c | Some p \<Rightarrow> c\<lparr>cfg_server := (cfg_server c)\<lparr>svc_port := p\<rparr>\<rparr>)"

definition server_main :: "server_os \<Rightarrow> string list \<Rightarrow> started" where
  "server_main os args =
     (case parse_args args None None of
        ShowHelp \<Rightarrow> HelpPrinted
      | Options config_path port \<Rightarrow>
          let c = override_port port (load_config os config_path) in
          case directives_ok os (log_directives c) of
            Inl e \<Rightarrow> LoggerRefused e
          | Inr u \<Rightarrow>
              let addr = api_address c in
              (case so_bind os addr of Inl e \<Rightarrow> NotBound e | Inr u \<Rightarrow> Serving addr c))"

section \<open>Documents fill the defaults\<close>

definition doc_of_config :: "isa_config \<Rightarrow> config_doc" where
  "doc_of_config c =
     \<lparr>doc_server = Some \<lparr>svd_host = Some (svc_host (cfg_server c)), svd_port = Some (svc_port (cfg_server c)),
        svd_workers = Some (svc_workers (cfg_server c))\<rparr>,
      doc_machine = Some \<lparr>mcd_binary = Some (mcs_binary (cfg_machine c)), mcd_jailer = Some (mcs_jailer (cfg_machine c)),
        mcd_workspace = Some (mcs_workspace (cfg_machine c)), mcd_use_jailer = Some (mcs_use_jailer (cfg_machine c)),
        mcd_iface = Some (mcs_iface (cfg_machine c))\<rparr>,
      doc_store = Some \<lparr>std_backend = Some (sts_backend (cfg_store c)), std_path = Some (sts_path (cfg_store c)),
        std_cache_mb = Some (sts_cache_mb (cfg_store c)), std_ttl_hours = Some (sts_ttl_hours (cfg_store c)),
        std_gc = Some (sts_gc (cfg_store c)), std_gc_secs = Some (sts_gc_secs (cfg_store c))\<rparr>,
      doc_quic = Some \<lparr>qcd_port = Some (qcs_port (cfg_quic c)), qcd_tls = Some (qcs_tls (cfg_quic c)),
        qcd_timeout = Some (qcs_timeout (cfg_quic c))\<rparr>,
      doc_logging = Some \<lparr>lgd_level = Some (lgs_level (cfg_logging c)), lgd_format = Some (lgs_format (cfg_logging c))\<rparr>\<rparr>"

lemma config_written_and_read: "config_of_doc cpus (doc_of_config c) = c"
  by (simp add: config_of_doc_def doc_of_config_def server_of_doc_def machine_of_doc_def store_of_doc_def
      quic_of_doc_def logging_of_doc_def)

lemma empty_document:
  "config_of_doc cpus \<lparr>doc_server = None, doc_machine = None, doc_store = None, doc_quic = None, doc_logging = None\<rparr> =
     config_default cpus"
  by (simp add: config_of_doc_def config_default_def)

lemma empty_sections:
  "server_of_doc cpus \<lparr>svd_host = None, svd_port = None, svd_workers = None\<rparr> = server_default cpus"
  "machine_of_doc \<lparr>mcd_binary = None, mcd_jailer = None, mcd_workspace = None, mcd_use_jailer = None, mcd_iface = None\<rparr> =
     machine_default"
  "store_of_doc \<lparr>std_backend = None, std_path = None, std_cache_mb = None, std_ttl_hours = None, std_gc = None,
     std_gc_secs = None\<rparr> = store_settings_default"
  "quic_of_doc \<lparr>qcd_port = None, qcd_tls = None, qcd_timeout = None\<rparr> = quic_default"
  "logging_of_doc \<lparr>lgd_level = None, lgd_format = None\<rparr> = logging_default"
  by (simp_all add: server_of_doc_def server_default_def machine_of_doc_def machine_default_def store_of_doc_def
      store_settings_default_def quic_of_doc_def quic_default_def logging_of_doc_def logging_default_def)

section \<open>Which address is served\<close>

text \<open>An argument is an option with its value, a request for help, or a word that means nothing; at the end there
  may be an option without its value.\<close>

datatype server_arg = ConfigArg string string | PortArg string string | HelpArg string | OtherArg string

definition is_flag :: "string \<Rightarrow> bool" where
  "is_flag w \<longleftrightarrow> w \<in> {''--config'', ''-c'', ''--port'', ''-p'', ''--help'', ''-h''}"

fun arg_ok :: "server_arg \<Rightarrow> bool" where
  "arg_ok (ConfigArg f v) \<longleftrightarrow> f \<in> {''--config'', ''-c''}"
| "arg_ok (PortArg f v) \<longleftrightarrow> f \<in> {''--port'', ''-p''}"
| "arg_ok (HelpArg f) \<longleftrightarrow> f \<in> {''--help'', ''-h''}"
| "arg_ok (OtherArg w) \<longleftrightarrow> \<not> is_flag w"

fun arg_words :: "server_arg \<Rightarrow> string list" where
  "arg_words (ConfigArg f v) = [f, v]"
| "arg_words (PortArg f v) = [f, v]"
| "arg_words (HelpArg f) = [f]"
| "arg_words (OtherArg w) = [w]"

fun is_help :: "server_arg \<Rightarrow> bool" where
  "is_help (HelpArg f) \<longleftrightarrow> True"
| "is_help a \<longleftrightarrow> False"

fun port_value :: "server_arg \<Rightarrow> string option" where
  "port_value (PortArg f v) = Some v"
| "port_value a = None"

fun config_value :: "server_arg \<Rightarrow> string option" where
  "config_value (ConfigArg f v) = Some v"
| "config_value a = None"

definition dangling :: "string list \<Rightarrow> bool" where
  "dangling ws \<longleftrightarrow> ws \<in> {[], [''--config''], [''-c''], [''--port''], [''-p'']}"

definition last_of :: "'a list \<Rightarrow> 'a option" where
  "last_of xs = (if xs = [] then None else Some (last xs))"

lemma last_of_simps [simp]: "last_of [] = None" "last_of (xs @ [x]) = Some x"
  by (simp_all add: last_of_def)

lemma last_of_Cons: "last_of (x # xs) = (case last_of xs of None \<Rightarrow> Some x | Some y \<Rightarrow> Some y)"
  by (simp add: last_of_def)

text \<open>The last path and the last text given as a port, from the left.\<close>

definition last_path :: "server_arg list \<Rightarrow> string option" where
  "last_path opts = last_of (List.map_filter config_value opts)"

definition last_port :: "server_arg list \<Rightarrow> u16 option" where
  "last_port opts = (case last_of (List.map_filter port_value opts) of None \<Rightarrow> None | Some v \<Rightarrow> parse_u16 v)"

definition options_form :: "string list \<Rightarrow> bool" where
  "options_form args \<longleftrightarrow> (\<exists>opts tail. list_all arg_ok opts \<and> dangling tail \<and> args = concat (map arg_words opts) @ tail)"

lemma options_form_more: "arg_ok opt \<Longrightarrow> options_form args \<Longrightarrow> options_form (arg_words opt @ args)"
  unfolding options_form_def by (elim exE conjE, rule_tac x = "opt # opts" in exI) auto

lemma options_form_dangling: "dangling tail \<Longrightarrow> options_form tail"
  unfolding options_form_def by (rule exI [of _ "[]"]) auto

lemma flag_cases:
  obtains "a \<in> {''--config'', ''-c''}" | "a \<in> {''--port'', ''-p''}" | "a \<in> {''--help'', ''-h''}" | "\<not> is_flag a"
  by (auto simp: is_flag_def)

text \<open>Every list of arguments has this form.\<close>

lemma args_are_options: "options_form args"
proof (induction args rule: induct_list012)
  case 1
  show ?case by (rule options_form_dangling) (simp add: dangling_def)
next
  case (2 a)
  note none = options_form_dangling [of "[]", unfolded dangling_def, simplified]
  show ?case
    by (cases a rule: flag_cases)
      (use none options_form_more [of "HelpArg a" "[]"] options_form_more [of "OtherArg a" "[]"]
       in \<open>auto intro!: options_form_dangling simp: dangling_def\<close>)
next
  case (3 a b args)
  show ?case
    by (cases a rule: flag_cases)
      (use 3 options_form_more [of "ConfigArg a b"] options_form_more [of "PortArg a b"]
         options_form_more [of "HelpArg a"] options_form_more [of "OtherArg a"] in auto)
qed

lemma map_filter_Cons_case:
  "List.map_filter f (x # xs) = (case f x of None \<Rightarrow> [] | Some y \<Rightarrow> [y]) @ List.map_filter f xs"
  by (simp add: List.map_filter_simps split: option.split)

lemma parse_args_options:
  assumes "list_all arg_ok opts" "dangling tail"
  shows "parse_args (concat (map arg_words opts) @ tail) c p =
    (if list_ex is_help opts then ShowHelp
     else Options (case last_path opts of None \<Rightarrow> c | Some v \<Rightarrow> Some v)
       (case last_of (List.map_filter port_value opts) of None \<Rightarrow> p | Some v \<Rightarrow> parse_u16 v))"
  using assms(1)
proof (induction opts arbitrary: c p)
  case Nil
  then show ?case using assms(2) by (auto simp: dangling_def last_path_def List.map_filter_simps)
next
  case (Cons opt opts)
  then show ?case
    by (cases opt) (auto simp: last_path_def map_filter_Cons_case last_of_Cons is_flag_def split: option.split)
qed

definition chosen_file :: "server_os \<Rightarrow> string option \<Rightarrow> isa_config option" where
  "chosen_file os path =
     (case path of
        None \<Rightarrow> None
      | Some p \<Rightarrow> if so_exists os p then (case from_file os p of Inr c \<Rightarrow> Some c | Inl e \<Rightarrow> None) else None)"

lemma load_config_file: "load_config os path = (case chosen_file os path of Some c \<Rightarrow> c | None \<Rightarrow> from_env os)"
  by (auto simp: load_config_def chosen_file_def split: option.split sum.split)

lemma from_env_fields:
  "svc_host (cfg_server (from_env os)) = field_or ''0.0.0.0'' (so_env os ''ISA_API_HOST'')"
  "svc_port (cfg_server (from_env os)) = field_or 3000 (Option.bind (so_env os ''ISA_API_PORT'') parse_u16)"
  "lgs_level (cfg_logging (from_env os)) = field_or ''info'' (so_env os ''RUST_LOG'')"
  by (simp_all add: from_env_def config_default_def server_default_def logging_default_def Let_def split: option.split)

lemma override_port_fields:
  "svc_host (cfg_server (override_port p c)) = svc_host (cfg_server c)"
  "svc_port (cfg_server (override_port p c)) = field_or (svc_port (cfg_server c)) p"
  "cfg_logging (override_port p c) = cfg_logging c"
  by (simp_all add: override_port_def split: option.split)

text \<open>C20. The start of the server, for every list of arguments: help is printed when an option asks for it.
  Otherwise the host is the file's, if the last path given names a file that exists and parses, and else the
  environment's, and else \<open>0.0.0.0\<close>; the port is the last one given, if that is a number, and else found in
  the same places, 3000 in the end.  A file that is read hides the whole environment.  The directives of the logger are
  checked before the address is bound.\<close>

theorem server_address:
  assumes "list_all arg_ok opts" "dangling tail"
  shows "server_main os (concat (map arg_words opts) @ tail) =
    (if list_ex is_help opts then HelpPrinted
     else let from_path = chosen_file os (last_path opts);
              host = (case from_path of Some c \<Rightarrow> svc_host (cfg_server c)
                      | None \<Rightarrow> field_or ''0.0.0.0'' (so_env os ''ISA_API_HOST''));
              port = field_or (case from_path of Some c \<Rightarrow> svc_port (cfg_server c)
                      | None \<Rightarrow> field_or 3000 (Option.bind (so_env os ''ISA_API_PORT'') parse_u16)) (last_port opts);
              level = (case from_path of Some c \<Rightarrow> lgs_level (cfg_logging c)
                       | None \<Rightarrow> field_or ''info'' (so_env os ''RUST_LOG''));
              addr = host @ '':'' @ dec_str (unat port)
          in case directives_ok os [''isa_workspace='' @ level, ''tokio=warn'', ''h2=warn'', ''quinn=warn''] of
               Inl e \<Rightarrow> LoggerRefused e
             | Inr u \<Rightarrow>
                 (case so_bind os addr of
                    Inl e \<Rightarrow> NotBound e
                  | Inr u \<Rightarrow> Serving addr
                      (override_port (last_port opts) (case from_path of Some c \<Rightarrow> c | None \<Rightarrow> from_env os))))"
proof -
  have path: "(case last_path opts of None \<Rightarrow> None | Some v \<Rightarrow> Some v) = last_path opts"
    by (simp split: option.split)
  have port: "(case last_of (List.map_filter port_value opts) of None \<Rightarrow> None | Some v \<Rightarrow> parse_u16 v) = last_port opts"
    by (simp add: last_port_def)
  have run: "server_main os (concat (map arg_words opts) @ tail) =
      (if list_ex is_help opts then HelpPrinted
       else let c = override_port (last_port opts) (load_config os (last_path opts)); addr = api_address c in
            case directives_ok os (log_directives c) of
              Inl e \<Rightarrow> LoggerRefused e
            | Inr u \<Rightarrow> (case so_bind os addr of Inl e \<Rightarrow> NotBound e | Inr u \<Rightarrow> Serving addr c))"
    unfolding server_main_def parse_args_options [OF assms] path port Let_def
    by (cases "list_ex is_help opts") (simp_all only: if_True if_False server_args.case)
  show ?thesis
    unfolding run load_config_file log_directives_def api_address_def Let_def override_port_fields
    by (cases "chosen_file os (last_path opts)") (simp_all only: option.case from_env_fields)
qed

definition demo_server_os :: server_os where
  "demo_server_os =
     \<lparr>so_env = (\<lambda>v. if v = ''ISA_API_PORT'' then Some ''8080'' else None), so_exists = (\<lambda>p. p = ''isa.toml''),
      so_read = (\<lambda>p. Ok ''''),
      so_toml = (\<lambda>t. Ok \<lparr>doc_server = Some \<lparr>svd_host = Some ''10.0.0.1'', svd_port = None, svd_workers = None\<rparr>,
        doc_machine = None, doc_store = None, doc_quic = None, doc_logging = None\<rparr>),
      so_cpus = 8, so_directive = (\<lambda>d. Ok ()), so_bind = (\<lambda>a. Ok ())\<rparr>"

text \<open>The file names no port, so the server takes the default and not the environment's; a second port that is
  no number takes the first one back.\<close>

lemma server_address_witness:
  "\<exists>c. server_main demo_server_os [''--port'', ''9000'', ''-c'', ''isa.toml'', ''verbose'', ''-p'', ''none'', ''-p''] =
     Serving (''10.0.0.1:'' @ dec_str 3000) c"
proof -
  let ?opts = "[PortArg ''--port'' ''9000'', ConfigArg ''-c'' ''isa.toml'', OtherArg ''verbose'', PortArg ''-p'' ''none'']"
  have ok: "list_all arg_ok ?opts" "dangling [''-p'']" by (simp_all add: is_flag_def dangling_def)
  have none: "parse_u16 ''none'' = None" by (simp add: parse_u16_def parse_uint_def digit_of_def)
  have opts: "\<not> list_ex is_help ?opts" "last_path ?opts = Some ''isa.toml''" "last_port ?opts = None"
    by (simp_all add: last_path_def last_port_def map_filter_Cons_case List.map_filter_simps last_of_def none)
  obtain c where c: "chosen_file demo_server_os (Some ''isa.toml'') = Some c" "svc_host (cfg_server c) = ''10.0.0.1''"
      "svc_port (cfg_server c) = 3000"
    by (simp add: chosen_file_def from_file_def demo_server_os_def config_of_doc_def server_of_doc_def)
  have os: "directives_ok demo_server_os ds = Ok ()" "so_bind demo_server_os a = Ok ()" for ds a
    by (induction ds) (simp_all add: demo_server_os_def)
  have port: "unat (3000 :: u16) = 3000" by simp
  show ?thesis
    using server_address [OF ok, of demo_server_os] unfolding opts c Let_def os option.case port if_False sum.case by auto
qed

end
