(* ===== verification/Cli.thy ===== *)
theory Cli
  imports Model Text
begin

text \<open>
  \<^verbatim>\<open>src/src/bin/cli.rs\<close> and the routes of \<^verbatim>\<open>src/src/api.rs\<close>: the requests of the command line, what it prints and how it
  ends, against a server that routes them.  The arguments are given as parsed (\<open>command\<close>); sending a request, the JSON
  of replies and the user's answer are parameters.  The router (axum) hands a request to the handler of its path and
  method, answers 405 with an empty body when only the method differs, and 404 when nothing fits.
\<close>

section \<open>Routes\<close>

datatype verb = GET | POST

datatype api_endpoint =
    CreateSnapshot | ResumeState | ForkState | GetStatus | DeleteState | ListStates | GetMetrics | GetHealth
  | StateSocket string | CollabSocket string

datatype routed = Handled api_endpoint | MethodNotAllowed | NoRoute

definition routes :: "(string \<times> verb \<times> api_endpoint) list" where
  "routes =
     [(''/v1/snapshot'', POST, CreateSnapshot), (''/v1/resume'', POST, ResumeState), (''/v1/fork'', POST, ForkState),
      (''/v1/status'', POST, GetStatus), (''/v1/delete'', POST, DeleteState), (''/v1/list'', GET, ListStates),
      (''/metrics'', GET, GetMetrics), (''/health'', GET, GetHealth)]"

text \<open>A parameter of a path is one segment that is not empty.\<close>

definition segment_of :: "string \<Rightarrow> string \<Rightarrow> string option" where
  "segment_of prefix path =
     (if starts_with prefix path \<and> drop (length prefix) path \<noteq> [] \<and> CHR ''/'' \<notin> set (drop (length prefix) path)
      then Some (drop (length prefix) path) else None)"

definition path_route :: "string \<Rightarrow> (verb \<times> api_endpoint) option" where
  "path_route path =
     (case map_of routes path of
        Some r \<Rightarrow> Some r
      | None \<Rightarrow>
          (case segment_of ''/ws/state/'' path of
             Some i \<Rightarrow> Some (GET, StateSocket i)
           | None \<Rightarrow>
               (case segment_of ''/ws/collab/'' path of Some i \<Rightarrow> Some (GET, CollabSocket i) | None \<Rightarrow> None)))"

definition route :: "verb \<Rightarrow> string \<Rightarrow> routed" where
  "route v path =
     (case path_route path of
        None \<Rightarrow> NoRoute
      | Some (w, e) \<Rightarrow> if v = w then Handled e else MethodNotAllowed)"

section \<open>Commands\<close>

datatype command =
    SnapshotCmd string string
  | ResumeCmd string string string
  | ForkCmd string "string option"
  | StatusCmd
  | ListCmd "string option"
  | DeleteCmd string bool

datatype cli_body =
    NoBody
  | SnapshotBody snapshot_request
  | ResumeBody resume_request
  | ForkBody fork_request
  | DeleteBody string

record cli_request =
  cr_verb :: verb
  cr_url :: string
  cr_body :: cli_body

record cli_reply =
  cl_status :: nat
  cl_text :: string

record resumed =
  rd_accepted :: bool
  rd_region :: string
  rd_mode :: string

record status_line =
  stl_status :: string
  stl_states :: nat
  stl_entries :: nat

text \<open>The readings of a body: of each response, of an error, and of any JSON as the texts of its fields.\<close>

record cli_json =
  cj_snapshot :: "string \<Rightarrow> (string, string) result"
  cj_resume :: "string \<Rightarrow> (string, resumed) result"
  cj_fork :: "string \<Rightarrow> (string, string) result"
  cj_status :: "string \<Rightarrow> (string, status_line) result"
  cj_value :: "string \<Rightarrow> (string, string \<Rightarrow> string option) result"
  cj_error :: "string \<Rightarrow> (string, string) result"

text \<open>The requests that were sent, the lines that were printed, and the end.\<close>

type_synonym cli_end = "cli_request list \<times> string list \<times> (string, unit) result"

type_synonym send_request = "cli_request \<Rightarrow> (string, cli_reply) result"

definition check_mark :: string where
  "check_mark = [CHR 0xE2, CHR 0x9C, CHR 0x93]"

text \<open>What the commands share: send, read the body of a success with \<open>good\<close>, else its error.\<close>

definition failed_reply :: "cli_json \<Rightarrow> string \<Rightarrow> string \<Rightarrow> string list \<times> (string, unit) result" where
  "failed_reply js what body = (case cj_error js body of Inl e \<Rightarrow> ([], Err e) | Inr e \<Rightarrow> ([], Err (what @ '': '' @ e)))"

definition cli_call :: "cli_json \<Rightarrow> send_request \<Rightarrow> cli_request \<Rightarrow> string \<Rightarrow> (string \<Rightarrow> (string, string list) result) \<Rightarrow> cli_end" where
  "cli_call js send rq what good =
     (case send rq of
        Inl e \<Rightarrow> ([rq], [], Err e)
      | Inr r \<Rightarrow>
          if success_status (cl_status r)
          then (case good (cl_text r) of Inl e \<Rightarrow> ([rq], [], Err e) | Inr out \<Rightarrow> ([rq], out, Ok ()))
          else ([rq], failed_reply js what (cl_text r)))"

definition cmd_snapshot :: "cli_json \<Rightarrow> send_request \<Rightarrow> string \<Rightarrow> string \<Rightarrow> string \<Rightarrow> cli_end" where
  "cmd_snapshot js send host label ttl =
     cli_call js send
       \<lparr>cr_verb = POST, cr_url = host @ ''/v1/snapshot'',
        cr_body = SnapshotBody \<lparr>snap_label = label, snap_ttl = Some ttl\<rparr>\<rparr>
       ''Failed to create snapshot''
       (\<lambda>t. case cj_snapshot js t of
              Inl e \<Rightarrow> Err e | Inr i \<Rightarrow> Ok [check_mark @ '' Snapshot created'', ''  State ID: '' @ i])"

definition cmd_resume :: "cli_json \<Rightarrow> send_request \<Rightarrow> string \<Rightarrow> string \<Rightarrow> string \<Rightarrow> string \<Rightarrow> cli_end" where
  "cmd_resume js send host i mode region =
     cli_call js send
       \<lparr>cr_verb = POST, cr_url = host @ ''/v1/resume'',
        cr_body = ResumeBody \<lparr>res_state_id = i, res_mode = Some mode, res_region = Some region\<rparr>\<rparr>
       ''Failed to resume state''
       (\<lambda>t. case cj_resume js t of
              Inl e \<Rightarrow> Err e
            | Inr r \<Rightarrow> Ok [check_mark @ '' State resumed'', ''  Region: '' @ rd_region r, ''  Mode: '' @ rd_mode r])"

definition cmd_fork :: "cli_json \<Rightarrow> send_request \<Rightarrow> string \<Rightarrow> string \<Rightarrow> string option \<Rightarrow> cli_end" where
  "cmd_fork js send host i label =
     cli_call js send
       \<lparr>cr_verb = POST, cr_url = host @ ''/v1/fork'', cr_body = ForkBody \<lparr>fork_state_id = i, fork_label = label\<rparr>\<rparr>
       ''Failed to fork state''
       (\<lambda>t. case cj_fork js t of
              Inl e \<Rightarrow> Err e | Inr i \<Rightarrow> Ok [check_mark @ '' State forked'', ''  New State ID: '' @ i])"

definition cmd_status :: "cli_json \<Rightarrow> send_request \<Rightarrow> string \<Rightarrow> cli_end" where
  "cmd_status js send host =
     cli_call js send \<lparr>cr_verb = POST, cr_url = host @ ''/v1/status'', cr_body = NoBody\<rparr> ''Failed to get status''
       (\<lambda>t. case cj_status js t of
              Inl e \<Rightarrow> Err e
            | Inr s \<Rightarrow> Ok [''ISA Workspace Status'', ''  Status: '' @ stl_status s,
                ''  Stored States: '' @ dec_str (stl_states s), ''  Log Entries: '' @ dec_str (stl_entries s)])"

definition cmd_list :: "cli_json \<Rightarrow> send_request \<Rightarrow> string \<Rightarrow> string option \<Rightarrow> cli_end" where
  "cmd_list js send host pattern =
     cli_call js send \<lparr>cr_verb = GET, cr_url = host @ ''/v1/status'', cr_body = NoBody\<rparr> ''Failed to list states''
       (\<lambda>t. case cj_value js t of
              Inl e \<Rightarrow> Err e
            | Inr v \<Rightarrow>
                Ok ([''ISA Workspace States'',
                     ''  Status: '' @ (case v ''status'' of None \<Rightarrow> ''\"unknown\"'' | Some x \<Rightarrow> x),
                     ''  Stored States: '' @ (case v ''stored_states'' of None \<Rightarrow> ''0'' | Some x \<Rightarrow> x)] @
                    (case pattern of None \<Rightarrow> [] | Some p \<Rightarrow> [''  Filter: '' @ p])))"

text \<open>The answer counts when it is \<open>y\<close> or \<open>Y\<close> between white space; reading it may fail.\<close>

definition trim :: "string \<Rightarrow> string" where
  "trim s = rev (dropWhile white_space (rev (dropWhile white_space s)))"

definition consents :: "string \<Rightarrow> bool" where
  "consents answer \<longleftrightarrow> trim answer = ''y'' \<or> trim answer = ''Y''"

definition delete_request :: "string \<Rightarrow> string \<Rightarrow> cli_request" where
  "delete_request host i = \<lparr>cr_verb = POST, cr_url = host @ ''/v1/delete'', cr_body = DeleteBody i\<rparr>"

definition delete_end :: "cli_json \<Rightarrow> cli_reply \<Rightarrow> string list \<times> (string, unit) result" where
  "delete_end js r =
     (if success_status (cl_status r) then ([check_mark @ '' State deleted successfully''], Ok ())
      else if cl_status r = 404 then ([''State not found''], Ok ())
      else if cl_status r = 405 then
        ([''Note: Delete endpoint not available on this server'', ''Delete state manually from the state store''], Ok ())
      else failed_reply js ''Failed to delete state'' (cl_text r))"

definition cmd_delete :: "cli_json \<Rightarrow> send_request \<Rightarrow> (string, string) result \<Rightarrow> string \<Rightarrow> string \<Rightarrow> bool \<Rightarrow> cli_end" where
  "cmd_delete js send answer host i force =
     (let prompt = (if force then [] else [''Delete state '' @ i @ ''? [y/N] '']);
          go = (case send (delete_request host i) of
                  Inl e \<Rightarrow> ([delete_request host i], prompt, Err e)
                | Inr r \<Rightarrow> (case delete_end js r of (out, res) \<Rightarrow> ([delete_request host i], prompt @ out, res)))
      in if force then go
         else (case answer of
                 Inl e \<Rightarrow> ([], prompt, Err e)
               | Inr a \<Rightarrow> if consents a then go else ([], prompt @ [''Cancelled''], Ok ())))"

definition run_command :: "cli_json \<Rightarrow> send_request \<Rightarrow> (string, string) result \<Rightarrow> string \<Rightarrow> command \<Rightarrow> cli_end" where
  "run_command js send answer host c =
     (case c of
        SnapshotCmd label ttl \<Rightarrow> cmd_snapshot js send host label ttl
      | ResumeCmd i mode region \<Rightarrow> cmd_resume js send host i mode region
      | ForkCmd i label \<Rightarrow> cmd_fork js send host i label
      | StatusCmd \<Rightarrow> cmd_status js send host
      | ListCmd pattern \<Rightarrow> cmd_list js send host pattern
      | DeleteCmd i force \<Rightarrow> cmd_delete js send answer host i force)"

text \<open>The exit code of \<^verbatim>\<open>main\<close> and the line on the error stream.\<close>

definition cli_main :: "cli_json \<Rightarrow> send_request \<Rightarrow> (string, string) result \<Rightarrow> string \<Rightarrow> command \<Rightarrow>
    cli_request list \<times> string list \<times> string list \<times> nat" where
  "cli_main js send answer host c =
     (case run_command js send answer host c of
        (rqs, out, Inl e) \<Rightarrow> (rqs, out, [''Error: '' @ e], 1)
      | (rqs, out, Inr u) \<Rightarrow> (rqs, out, [], 0))"


section \<open>The command line against the server\<close>

text \<open>The server at \<open>host\<close> with its handlers.\<close>

definition path_of :: "string \<Rightarrow> cli_request \<Rightarrow> string" where
  "path_of host rq = drop (length host) (cr_url rq)"

definition served_by :: "string \<Rightarrow> (api_endpoint \<Rightarrow> cli_body \<Rightarrow> cli_reply) \<Rightarrow> send_request" where
  "served_by host handle rq =
     (if starts_with host (cr_url rq)
      then (case route (cr_verb rq) (path_of host rq) of
              Handled e \<Rightarrow> Ok (handle e (cr_body rq))
            | MethodNotAllowed \<Rightarrow> Ok \<lparr>cl_status = 405, cl_text = ''''\<rparr>
            | NoRoute \<Rightarrow> Ok \<lparr>cl_status = 404, cl_text = ''''\<rparr>)
      else Err ''connection refused'')"

text \<open>The handler that a command is meant for, with what it is given; the command that lists states is meant for
  \<open>ListStates\<close>.\<close>

fun meant_for :: "command \<Rightarrow> api_endpoint \<times> cli_body" where
  "meant_for (SnapshotCmd label ttl) = (CreateSnapshot, SnapshotBody \<lparr>snap_label = label, snap_ttl = Some ttl\<rparr>)"
| "meant_for (ResumeCmd i mode region) =
     (ResumeState, ResumeBody \<lparr>res_state_id = i, res_mode = Some mode, res_region = Some region\<rparr>)"
| "meant_for (ForkCmd i label) = (ForkState, ForkBody \<lparr>fork_state_id = i, fork_label = label\<rparr>)"
| "meant_for StatusCmd = (GetStatus, NoBody)"
| "meant_for (ListCmd pattern) = (ListStates, NoBody)"
| "meant_for (DeleteCmd i force) = (DeleteState, DeleteBody i)"

text \<open>Whether the user lets the command go on, and whether a reply is a success for it.\<close>

fun goes_on :: "(string, string) result \<Rightarrow> command \<Rightarrow> bool" where
  "goes_on answer (DeleteCmd i force) \<longleftrightarrow> force \<or> (case answer of Inl e \<Rightarrow> False | Inr a \<Rightarrow> consents a)"
| "goes_on answer c \<longleftrightarrow> True"

abbreviation is_ok :: "('e, 'a) result \<Rightarrow> bool" where
  "is_ok r \<equiv> (case r of Inl e \<Rightarrow> False | Inr x \<Rightarrow> True)"

fun reply_succeeds :: "cli_json \<Rightarrow> command \<Rightarrow> cli_reply \<Rightarrow> bool" where
  "reply_succeeds js (SnapshotCmd label ttl) r \<longleftrightarrow> success_status (cl_status r) \<and> is_ok (cj_snapshot js (cl_text r))"
| "reply_succeeds js (ResumeCmd i mode region) r \<longleftrightarrow> success_status (cl_status r) \<and> is_ok (cj_resume js (cl_text r))"
| "reply_succeeds js (ForkCmd i label) r \<longleftrightarrow> success_status (cl_status r) \<and> is_ok (cj_fork js (cl_text r))"
| "reply_succeeds js StatusCmd r \<longleftrightarrow> success_status (cl_status r) \<and> is_ok (cj_status js (cl_text r))"
| "reply_succeeds js (ListCmd pattern) r \<longleftrightarrow> success_status (cl_status r) \<and> is_ok (cj_value js (cl_text r))"
| "reply_succeeds js (DeleteCmd i force) r \<longleftrightarrow> success_status (cl_status r) \<or> cl_status r = 404 \<or> cl_status r = 405"

definition is_list :: "command \<Rightarrow> bool" where
  "is_list c \<longleftrightarrow> (\<exists>pattern. c = ListCmd pattern)"

lemma route_facts:
  "route POST ''/v1/snapshot'' = Handled CreateSnapshot" "route POST ''/v1/resume'' = Handled ResumeState"
  "route POST ''/v1/fork'' = Handled ForkState" "route POST ''/v1/status'' = Handled GetStatus"
  "route POST ''/v1/delete'' = Handled DeleteState" "route GET ''/v1/status'' = MethodNotAllowed"
  by (simp_all add: route_def path_route_def routes_def)

lemma served_requests:
  "served_by host handle \<lparr>cr_verb = v, cr_url = host @ path, cr_body = b\<rparr> =
    (case route v path of Handled e \<Rightarrow> Ok (handle e b)
     | MethodNotAllowed \<Rightarrow> Ok \<lparr>cl_status = 405, cl_text = ''''\<rparr> | NoRoute \<Rightarrow> Ok \<lparr>cl_status = 404, cl_text = ''''\<rparr>)"
  by (simp add: served_by_def path_of_def split: routed.split)


lemma cli_call_requests: "fst (cli_call js send rq what good) = [rq]"
  by (auto simp: cli_call_def split: sum.split)

lemma failed_reply_fails: "is_ok (snd (failed_reply js what t)) \<longleftrightarrow> False"
  by (auto simp: failed_reply_def split: sum.split)

lemma cli_call_ok:
  "is_ok (snd (snd (cli_call js send rq what good))) \<longleftrightarrow>
     (case send rq of Inl e \<Rightarrow> False | Inr r \<Rightarrow> success_status (cl_status r) \<and> is_ok (good (cl_text r)))"
  by (auto simp: cli_call_def failed_reply_fails split: sum.split)

lemma path_of_simps [simp]:
  "path_of host \<lparr>cr_verb = v, cr_url = host @ path, cr_body = b\<rparr> = path"
  by (simp add: path_of_def)

lemma exit_code: "snd (snd (snd (cli_main js send answer host c))) = (if is_ok (snd (snd (run_command js send answer host c))) then 0 else 1)"
  by (auto simp: cli_main_def split: prod.split sum.split)

lemma cli_main_requests: "fst (cli_main js send answer host c) = fst (run_command js send answer host c)"
  by (auto simp: cli_main_def split: prod.split sum.split)

lemma cmd_delete_ok:
  "is_ok (snd (snd (cmd_delete js send answer host i force))) \<longleftrightarrow>
     (if goes_on answer (DeleteCmd i force)
      then (case send (delete_request host i) of Inl e \<Rightarrow> False | Inr r \<Rightarrow> is_ok (snd (delete_end js r)))
      else is_ok answer)"
  by (simp add: cmd_delete_def Let_def split: sum.split prod.split)

lemmas command_defs = run_command_def cmd_snapshot_def cmd_resume_def cmd_fork_def cmd_status_def cmd_list_def

lemma command_requests:
  assumes "\<not> is_list c"
  shows "map (\<lambda>rq. (route (cr_verb rq) (path_of host rq), cr_body rq)) (fst (run_command js send answer host c)) =
    (if goes_on answer c then [(Handled (fst (meant_for c)), snd (meant_for c))] else [])"
proof (cases c)
  case (DeleteCmd i force)
  then show ?thesis
    by (auto simp: run_command_def cmd_delete_def delete_request_def path_of_def route_facts split: sum.split prod.split)
qed (use assms in \<open>simp_all add: command_defs cli_call_requests route_facts is_list_def\<close>)

text \<open>C21. The command line against the server.  Every command but \<open>list\<close> sends one request, which reaches the handler
  that it is meant for with what the command was given, unless a deletion is not confirmed, which sends nothing;
  it exits with 0 exactly when the handler's reply is a success for it, or when the user declined.  \<open>list\<close> asks for
  the status with the wrong method: whatever the server holds, it is refused and the command fails.\<close>

theorem commands_reach_handlers:
  assumes "\<And>m. cj_error js '''' \<noteq> Ok m"
    and "cli_main js (served_by host handle) answer host c = (requests, out, err, code)"
  shows "map (\<lambda>rq. (route (cr_verb rq) (path_of host rq), cr_body rq)) requests =
      (if is_list c then [(MethodNotAllowed, NoBody)]
       else if goes_on answer c then [(Handled (fst (meant_for c)), snd (meant_for c))] else []) \<and>
    code = (if is_list c then 1
            else if goes_on answer c then (if reply_succeeds js c (handle (fst (meant_for c)) (snd (meant_for c))) then 0 else 1)
            else if is_ok answer then 0 else 1)"
proof -
  let ?run = "run_command js (served_by host handle) answer host c"
  have rqs: "requests = fst ?run" and code: "code = (if is_ok (snd (snd ?run)) then 0 else 1)"
    using cli_main_requests [of js "served_by host handle" answer host c] exit_code [of js "served_by host handle" answer host c] assms(2)
    by simp_all
  show ?thesis
  proof (cases c)
    case (ListCmd pattern)
    have "cj_error js '''' = Inr m \<longleftrightarrow> False" for m using assms(1) by simp
    then show ?thesis
      unfolding rqs code
      by (simp add: ListCmd command_defs cli_call_requests cli_call_ok path_of_def route_facts is_list_def served_requests
          success_status_def)
  next
    case (DeleteCmd i force)
    have "served_by host handle (delete_request host i) = Ok (handle DeleteState (DeleteBody i))"
      by (simp add: delete_request_def served_requests route_facts)
    moreover have "is_ok (snd (delete_end js r)) \<longleftrightarrow> reply_succeeds js c r" for r
      by (simp add: DeleteCmd delete_end_def failed_reply_fails)
    ultimately have "is_ok (snd (snd ?run)) \<longleftrightarrow>
        (if goes_on answer c then reply_succeeds js c (handle DeleteState (DeleteBody i)) else is_ok answer)"
      by (simp add: DeleteCmd run_command_def cmd_delete_ok del: goes_on.simps reply_succeeds.simps)
    then show ?thesis
      unfolding rqs code using command_requests [of c host js "served_by host handle" answer]
      by (simp add: DeleteCmd is_list_def del: goes_on.simps reply_succeeds.simps)
  qed (unfold rqs code, insert command_requests [of c host js "served_by host handle" answer],
    simp_all add: is_list_def command_defs cli_call_ok served_requests route_facts split: sum.split)
qed


definition demo_cli_json :: cli_json where
  "demo_cli_json =
     \<lparr>cj_snapshot = (\<lambda>t. Ok t), cj_resume = (\<lambda>t. Err ''no response''), cj_fork = (\<lambda>t. Ok t),
      cj_status = (\<lambda>t. Err ''no response''), cj_value = (\<lambda>t. Ok (\<lambda>f. None)),
      cj_error = (\<lambda>t. if t = '''' then Err ''empty'' else Ok t)\<rparr>"

text \<open>A server that answers everything with success: \<open>list\<close> fails and a deletion that is answered with \<open>n\<close> is not
  sent.\<close>

lemma commands_reach_handlers_witness:
  "(\<exists>out err. cli_main demo_cli_json (served_by ''http://h'' (\<lambda>e b. \<lparr>cl_status = 200, cl_text = ''id''\<rparr>)) (Ok ''y'') ''http://h''
      (ListCmd None) = ([\<lparr>cr_verb = GET, cr_url = ''http://h/v1/status'', cr_body = NoBody\<rparr>], out, err, 1)) \<and>
   (\<exists>out err. cli_main demo_cli_json (served_by ''http://h'' (\<lambda>e b. \<lparr>cl_status = 200, cl_text = ''id''\<rparr>)) (Ok ''n'') ''http://h''
      (DeleteCmd ''s'' False) = ([], out, err, 0))"
proof -
  let ?serve = "served_by ''http://h'' (\<lambda>e b. \<lparr>cl_status = 200, cl_text = ''id''\<rparr>)"
  have json: "cj_error demo_cli_json '''' \<noteq> Ok m" for m by (simp add: demo_cli_json_def)
  obtain rqs out err code where l: "cli_main demo_cli_json ?serve (Ok ''y'') ''http://h'' (ListCmd None) = (rqs, out, err, code)"
    using prod_cases4 by blast
  obtain rqs' out' err' code' where d: "cli_main demo_cli_json ?serve (Ok ''n'') ''http://h'' (DeleteCmd ''s'' False) = (rqs', out', err', code')"
    using prod_cases4 by blast
  have "rqs = [\<lparr>cr_verb = GET, cr_url = ''http://h/v1/status'', cr_body = NoBody\<rparr>]"
    using cli_main_requests [of demo_cli_json ?serve "Ok ''y''" "''http://h''" "ListCmd None"] l
    by (simp add: command_defs cli_call_requests)
  moreover have "code = 1" using commands_reach_handlers [OF json l] by (simp add: is_list_def)
  moreover have "\<not> consents ''n''" by (simp add: consents_def trim_def white_space_def)
  then have "rqs' = []" "code' = 0" using commands_reach_handlers [OF json d] by (simp_all add: is_list_def)
  ultimately show ?thesis using l d by blast
qed

end
