(* ===== verification/SocketIntercept.thy ===== *)
theory SocketIntercept
  imports SocketProxy Text
begin

text \<open>
  \<^verbatim>\<open>src/src/socket_intercept.rs\<close>: the library that is preloaded into a program and sends its connections through the
  socket proxy.  The functions of the C library that it wraps, with the state of the kernel, are a parameter (\<open>libc\<close>);
  a call that receives answers with a number and the bytes that it wrote to the buffer.  Addresses are in the byte order
  of a little-endian machine, as the kernel takes them.  The parser and the text of addresses are parameters.
\<close>

section \<open>Configuration\<close>

record intercept_config =
  ic_proxy :: socket_addr
  ic_enabled :: bool
  ic_log :: bool

definition default_proxy :: socket_addr where
  "default_proxy = AddrV4 [127, 0, 0, 1] 14433"

text \<open>The environment and the parser of addresses; the default address is in the program text.\<close>

definition intercept_config_default :: "(string \<Rightarrow> string option) \<Rightarrow> (string \<Rightarrow> socket_addr option) \<Rightarrow> intercept_config" where
  "intercept_config_default env parse =
     \<lparr>ic_proxy = (case env ''ISA_PROXY'' of
                    None \<Rightarrow> default_proxy
                  | Some s \<Rightarrow> (case parse s of None \<Rightarrow> default_proxy | Some a \<Rightarrow> a)),
      ic_enabled = (case env ''ISA_INTERCEPT'' of None \<Rightarrow> True | Some v \<Rightarrow> v = ''1'' \<or> v = ''true''),
      ic_log = True\<rparr>"

section \<open>The C library\<close>

text \<open>An address as the kernel takes it: port and IPv4 address are numbers whose bytes in memory are in network order.\<close>

datatype sockaddr = Inet u16 u32 | Inet6 u16 bytes u32 u32 | OtherFamily u16

record 'k libc =
  lb_found :: "string \<Rightarrow> bool"
  lb_socket :: "int \<Rightarrow> int \<Rightarrow> int \<Rightarrow> 'k \<Rightarrow> 'k \<times> int"
  lb_connect :: "int \<Rightarrow> sockaddr \<Rightarrow> nat \<Rightarrow> 'k \<Rightarrow> 'k \<times> int"
  lb_send :: "int \<Rightarrow> bytes \<Rightarrow> int \<Rightarrow> 'k \<Rightarrow> 'k \<times> int"
  lb_recv :: "int \<Rightarrow> nat \<Rightarrow> int \<Rightarrow> 'k \<Rightarrow> 'k \<times> int \<times> bytes"
  lb_close :: "int \<Rightarrow> 'k \<Rightarrow> 'k \<times> int"

definition swap16 :: "u16 \<Rightarrow> u16" where
  "swap16 w = from_be16 (ucast w) (ucast (drop_bit 8 w))"

definition swap32 :: "u32 \<Rightarrow> u32" where
  "swap32 w = from_be32 (ucast w) (ucast (drop_bit 8 w)) (ucast (drop_bit 16 w)) (ucast (drop_bit 24 w))"

text \<open>The address that a call names; an address of another family is refused.\<close>

definition read_sockaddr :: "sockaddr \<Rightarrow> socket_addr option" where
  "read_sockaddr a =
     (case a of
        Inet port ip \<Rightarrow> Some (AddrV4 (be32 (swap32 ip)) (swap16 port))
      | Inet6 port ip flow scope \<Rightarrow> Some (AddrV6 ip (swap16 port) 0 0)
      | OtherFamily f \<Rightarrow> None)"

text \<open>The address of the proxy for the kernel; \<open>None\<close> is the panic on IPv6.\<close>

fun socketaddr_to_sockaddr :: "socket_addr \<Rightarrow> sockaddr option" where
  "socketaddr_to_sockaddr (AddrV4 [a, b, c, d] port) = Some (Inet (swap16 port) (swap32 (from_be32 a b c d)))"
| "socketaddr_to_sockaddr _ = None"

section \<open>The interception\<close>

record intercepted =
  it_dest :: socket_addr
  it_fd :: int
  it_connected :: bool

text \<open>Which functions have been found, and the tracked sockets.\<close>

record intercept =
  is_config :: intercept_config
  is_socket :: bool
  is_connect :: bool
  is_send :: bool
  is_recv :: bool
  is_close :: bool
  is_sockets :: "(int, intercepted) hmap"

definition intercept_new :: "intercept_config \<Rightarrow> intercept" where
  "intercept_new cfg =
     \<lparr>is_config = cfg, is_socket = False, is_connect = False, is_send = False, is_recv = False, is_close = False,
      is_sockets = []\<rparr>"

definition intercept_init :: "'k libc \<Rightarrow> intercept \<Rightarrow> intercept" where
  "intercept_init lb s =
     s\<lparr>is_socket := is_socket s \<or> lb_found lb ''socket'', is_connect := is_connect s \<or> lb_found lb ''connect'',
       is_send := is_send s \<or> lb_found lb ''send'', is_recv := is_recv s \<or> lb_found lb ''recv'',
       is_close := is_close s \<or> lb_found lb ''close''\<rparr>"

definition ensure_initialized :: "'k libc \<Rightarrow> intercept \<Rightarrow> intercept" where
  "ensure_initialized lb s = (if is_socket s then s else intercept_init lb s)"

definition connect_request :: "(socket_addr \<Rightarrow> string) \<Rightarrow> socket_addr \<Rightarrow> bytes" where
  "connect_request text_of dest =
     str_bytes (''CONNECT '' @ text_of dest @ '' HTTP/1.1'' @ crlf @ ''Host: '' @ text_of dest @ crlf @ crlf)"

text \<open>\<^verbatim>\<open>contains("200")\<close> on the lossy text of the bytes: the replacement of bytes that are no text makes no digits.\<close>

definition says_200 :: "bytes \<Rightarrow> bool" where
  "says_200 d \<longleftrightarrow> sublist (str_bytes ''200'') d"

text \<open>After the connection to the proxy: the request, one read of at most 256 bytes, and the entry of the socket.\<close>

definition proxy_handshake :: "'k libc \<Rightarrow> (socket_addr \<Rightarrow> string) \<Rightarrow> int \<Rightarrow> socket_addr \<Rightarrow> intercept \<Rightarrow> 'k \<Rightarrow>
    intercept \<times> 'k \<times> int" where
  "proxy_handshake lb text_of fd dest s k =
     (if \<not> is_send s then (s, k, -1)
      else (case lb_send lb fd (connect_request text_of dest) 0 k of
              (k, sent) \<Rightarrow>
                if sent > 0 \<and> is_recv s then
                  (case lb_recv lb fd 256 0 k of
                     (k, received, buf) \<Rightarrow>
                       if received > 0 \<and> says_200 (take (nat received) buf)
                       then (s\<lparr>is_sockets := hm_insert fd \<lparr>it_dest = dest, it_fd = fd, it_connected = True\<rparr> (is_sockets s)\<rparr>,
                             k, 0)
                       else (s, k, -1))
                else (s, k, -1)))"

definition intercept_connect :: "'k libc \<Rightarrow> (socket_addr \<Rightarrow> string) \<Rightarrow> int \<Rightarrow> sockaddr \<Rightarrow> nat \<Rightarrow> intercept \<Rightarrow> 'k \<Rightarrow>
    (intercept \<times> 'k \<times> int) option" where
  "intercept_connect lb text_of fd addr len s k =
     (let s = ensure_initialized lb s in
      if \<not> ic_enabled (is_config s) then
        (if is_connect s then (case lb_connect lb fd addr len k of (k, r) \<Rightarrow> Some (s, k, r)) else Some (s, k, -1))
      else (case read_sockaddr addr of
              None \<Rightarrow> Some (s, k, -1)
            | Some dest \<Rightarrow>
                (case socketaddr_to_sockaddr (ic_proxy (is_config s)) of
                   None \<Rightarrow> None
                 | Some proxy \<Rightarrow>
                     if is_connect s then
                       (case lb_connect lb fd proxy 16 k of
                          (k, r) \<Rightarrow> if r = 0 then Some (proxy_handshake lb text_of fd dest s k) else Some (s, k, -1))
                     else Some (s, k, -1))))"

text \<open>The descriptor that a call is made on.\<close>

definition call_fd :: "int \<Rightarrow> intercept \<Rightarrow> int" where
  "call_fd fd s = (case hm_get (is_sockets s) fd of Some t \<Rightarrow> if it_connected t then it_fd t else fd | None \<Rightarrow> fd)"

definition intercept_send :: "'k libc \<Rightarrow> int \<Rightarrow> bytes \<Rightarrow> int \<Rightarrow> intercept \<Rightarrow> 'k \<Rightarrow> intercept \<times> 'k \<times> int" where
  "intercept_send lb fd buf flags s k =
     (let s = ensure_initialized lb s in
      if is_send s then (case lb_send lb (call_fd fd s) buf flags k of (k, r) \<Rightarrow> (s, k, r)) else (s, k, -1))"

definition intercept_recv :: "'k libc \<Rightarrow> int \<Rightarrow> nat \<Rightarrow> int \<Rightarrow> intercept \<Rightarrow> 'k \<Rightarrow> intercept \<times> 'k \<times> int \<times> bytes" where
  "intercept_recv lb fd len flags s k =
     (let s = ensure_initialized lb s in
      if is_recv s then (case lb_recv lb (call_fd fd s) len flags k of (k, r) \<Rightarrow> (s, k, r)) else (s, k, -1, []))"

definition intercept_close :: "'k libc \<Rightarrow> int \<Rightarrow> intercept \<Rightarrow> 'k \<Rightarrow> intercept \<times> 'k \<times> int" where
  "intercept_close lb fd s k =
     (let s = ensure_initialized lb s; s = s\<lparr>is_sockets := hm_remove fd (is_sockets s)\<rparr> in
      if is_close s then (case lb_close lb fd k of (k, r) \<Rightarrow> (s, k, r)) else (s, k, -1))"

definition intercept_socket :: "'k libc \<Rightarrow> int \<Rightarrow> int \<Rightarrow> int \<Rightarrow> intercept \<Rightarrow> 'k \<Rightarrow> intercept \<times> 'k \<times> int" where
  "intercept_socket lb domain ty protocol s k =
     (let s = ensure_initialized lb s in
      if is_socket s then (case lb_socket lb domain ty protocol k of (k, r) \<Rightarrow> (s, k, r)) else (s, k, -1))"


section \<open>Calls on intercepted sockets\<close>

text \<open>What a program and the kernel can do: calls of the wrapped functions, and changes of the kernel in between.\<close>

inductive io_reach :: "'k libc \<Rightarrow> (socket_addr \<Rightarrow> string) \<Rightarrow> intercept_config \<Rightarrow> intercept \<Rightarrow> 'k \<Rightarrow> bool"
  for lb :: "'k libc" and text_of :: "socket_addr \<Rightarrow> string" and cfg :: intercept_config where
  io_start: "io_reach lb text_of cfg (intercept_new cfg) k"
| io_kernel: "io_reach lb text_of cfg s k \<Longrightarrow> io_reach lb text_of cfg s k'"
| io_socket: "io_reach lb text_of cfg s k \<Longrightarrow> intercept_socket lb dm ty pr s k = (s', k', r) \<Longrightarrow> io_reach lb text_of cfg s' k'"
| io_connect: "io_reach lb text_of cfg s k \<Longrightarrow> intercept_connect lb text_of fd addr len s k = Some (s', k', r) \<Longrightarrow>
    io_reach lb text_of cfg s' k'"
| io_send: "io_reach lb text_of cfg s k \<Longrightarrow> intercept_send lb fd buf flags s k = (s', k', r) \<Longrightarrow> io_reach lb text_of cfg s' k'"
| io_recv: "io_reach lb text_of cfg s k \<Longrightarrow> intercept_recv lb fd n flags s k = (s', k', r) \<Longrightarrow> io_reach lb text_of cfg s' k'"
| io_close: "io_reach lb text_of cfg s k \<Longrightarrow> intercept_close lb fd s k = (s', k', r) \<Longrightarrow> io_reach lb text_of cfg s' k'"

definition intercept_inv :: "'k libc \<Rightarrow> intercept_config \<Rightarrow> intercept \<Rightarrow> bool" where
  "intercept_inv lb cfg s \<longleftrightarrow>
     is_config s = cfg \<and>
     (is_socket s \<longrightarrow> (lb_found lb ''connect'' \<longrightarrow> is_connect s) \<and> (lb_found lb ''send'' \<longrightarrow> is_send s) \<and>
        (lb_found lb ''recv'' \<longrightarrow> is_recv s) \<and> (lb_found lb ''close'' \<longrightarrow> is_close s)) \<and>
     (\<forall>fd t. hm_get (is_sockets s) fd = Some t \<longrightarrow> it_fd t = fd \<and> it_connected t \<and> ic_enabled cfg)"

lemma ensure_initialized_inv:
  "intercept_inv lb cfg s \<Longrightarrow> intercept_inv lb cfg (ensure_initialized lb s)"
  by (auto simp: intercept_inv_def ensure_initialized_def intercept_init_def)

lemma ensure_initialized_sockets [simp]:
  "is_sockets (ensure_initialized lb s) = is_sockets s" "is_config (ensure_initialized lb s) = is_config s"
  by (simp_all add: ensure_initialized_def intercept_init_def)

lemma handshake_inv:
  "intercept_inv lb cfg s \<Longrightarrow> ic_enabled cfg \<Longrightarrow> intercept_inv lb cfg (fst (proxy_handshake lb text_of fd dest s k))"
  by (auto simp: proxy_handshake_def intercept_inv_def split: prod.split)

lemma connect_inv:
  assumes "intercept_connect lb text_of fd addr len s k = Some (s', k', r)" "intercept_inv lb cfg s"
  shows "intercept_inv lb cfg s'"
proof -
  note init = ensure_initialized_inv [OF assms(2)]
  have cfg: "is_config s = cfg" using assms(2) by (simp add: intercept_inv_def)
  have "intercept_inv lb cfg t" if "proxy_handshake lb text_of fd dest (ensure_initialized lb s) j = (t, j', r')" "ic_enabled cfg"
    for dest j t j' r'
    using handshake_inv [OF init that(2), of text_of fd dest j] that(1) by simp
  then show ?thesis
    using assms(1) init by (auto simp: intercept_connect_def Let_def cfg split: if_splits option.splits prod.splits)
qed

lemma io_reach_inv: "io_reach lb text_of cfg s k \<Longrightarrow> intercept_inv lb cfg s"
proof (induction rule: io_reach.induct)
  case (io_start k)
  then show ?case by (simp add: intercept_inv_def intercept_new_def)
next
  case (io_connect s k fd addr len s' k' r)
  then show ?case by (blast intro: connect_inv)
next
  case (io_close s k fd s' k' r)
  have "intercept_inv lb cfg ((ensure_initialized lb s)\<lparr>is_sockets := hm_remove fd (is_sockets s)\<rparr>)"
    using ensure_initialized_inv [OF io_close.IH] by (auto simp: intercept_inv_def)
  then show ?case using io_close.hyps by (auto simp: intercept_close_def Let_def split: if_splits prod.splits)
qed (auto simp: intercept_socket_def intercept_send_def intercept_recv_def Let_def
       dest: ensure_initialized_inv split: if_splits prod.splits)

definition finds_all :: "'k libc \<Rightarrow> bool" where
  "finds_all lb \<longleftrightarrow> (\<forall>f \<in> {''socket'', ''connect'', ''send'', ''recv'', ''close''}. lb_found lb f)"

lemma initialized_finds:
  assumes "intercept_inv lb cfg s" "finds_all lb"
  shows "is_socket (ensure_initialized lb s)" "is_connect (ensure_initialized lb s)" "is_send (ensure_initialized lb s)"
    "is_recv (ensure_initialized lb s)" "is_close (ensure_initialized lb s)"
  using assms by (auto simp: intercept_inv_def finds_all_def ensure_initialized_def intercept_init_def)

lemma call_fd_same: "intercept_inv lb cfg s \<Longrightarrow> call_fd fd s = fd"
  by (auto simp: call_fd_def intercept_inv_def split: option.split)

text \<open>C16. After connecting, interception is transparent: whatever the program has done, sending, receiving and
  closing do what the system's functions do on the same descriptor, and a closed descriptor is not tracked.  Only what is
  connected through the proxy is tracked, and only while interception is enabled.\<close>

theorem interception_transparent:
  assumes "io_reach lb text_of cfg s k" "finds_all lb"
  shows "snd (intercept_send lb fd buf flags s k) = lb_send lb fd buf flags k \<and>
    snd (intercept_recv lb fd n flags s k) = lb_recv lb fd n flags k \<and>
    snd (intercept_close lb fd s k) = lb_close lb fd k \<and>
    hm_get (is_sockets (fst (intercept_close lb fd s k))) fd = None \<and>
    (hm_get (is_sockets s) fd \<noteq> None \<longrightarrow> ic_enabled cfg)"
proof -
  note inv = io_reach_inv [OF assms(1)]
  note init = ensure_initialized_inv [OF inv] initialized_finds [OF inv assms(2)]
  have "call_fd fd (ensure_initialized lb s) = fd" by (rule call_fd_same [OF init(1)])
  moreover have "hm_get (is_sockets s) fd \<noteq> None \<longrightarrow> ic_enabled cfg" using inv by (auto simp: intercept_inv_def)
  ultimately show ?thesis
    using init(2-) by (simp add: intercept_send_def intercept_recv_def intercept_close_def Let_def split: prod.split)
qed

section \<open>A connection through the proxy\<close>

text \<open>Byte orders.\<close>

lemma swap_swap: "swap32 (swap32 w) = w" "swap16 (swap16 v) = v"
proof -
  have four: "swap32 (from_be32 a b c d) = from_be32 d c b a" for a b c d
    using be32_from_be32 [of a b c d] by (simp add: swap32_def be32_def)
  have two: "swap16 (from_be16 a b) = from_be16 b a" for a b
    using be16_from_be16 [of a b] by (simp add: swap16_def be16_def)
  show "swap32 (swap32 w) = w" by (subst (2) swap32_def) (simp add: four)
  show "swap16 (swap16 v) = v" by (subst (2) swap16_def) (simp add: two)
qed

lemma proxy_address_read: "socketaddr_to_sockaddr a = Some x \<Longrightarrow> read_sockaddr x = Some a"
  by (induction a rule: socketaddr_to_sockaddr.induct) (auto simp: read_sockaddr_def swap_swap be32_from_be32)

text \<open>A kernel with connections to one peer, which answers the first bytes that it is sent with a list of chunks.\<close>

record peer_wire =
  wr_to :: "sockaddr option"
  wr_out :: bytes
  wr_in :: "bytes list"

definition peer_libc :: "(bytes \<Rightarrow> bytes list) \<Rightarrow> (int \<Rightarrow> peer_wire) libc" where
  "peer_libc peer =
     \<lparr>lb_found = (\<lambda>f. True), lb_socket = (\<lambda>d t p k. (k, 3)),
      lb_connect = (\<lambda>fd a len k. (k(fd := \<lparr>wr_to = Some a, wr_out = [], wr_in = []\<rparr>), 0)),
      lb_send = (\<lambda>fd d flags k.
        (k(fd := (k fd)\<lparr>wr_out := wr_out (k fd) @ d, wr_in := (if wr_out (k fd) = [] then peer d else wr_in (k fd))\<rparr>),
         int (length d))),
      lb_recv = (\<lambda>fd n flags k.
        (case read_stream n (wr_in (k fd)) of
           (d, rest) \<Rightarrow> (k(fd := (k fd)\<lparr>wr_in := rest\<rparr>), int (length d), d))),
      lb_close = (\<lambda>fd k. (k(fd := \<lparr>wr_to = None, wr_out = [], wr_in = []\<rparr>), 0))\<rparr>"

text \<open>The proxy as the peer: its answer, followed by what the remote sends when it forwards, cut into chunks.\<close>

definition proxy_peer :: "proxy_env \<Rightarrow> (socket_addr \<Rightarrow> (string, unit) result) \<Rightarrow> nat \<Rightarrow> (socket_addr \<Rightarrow> bytes) \<Rightarrow>
    (bytes \<Rightarrow> bytes list) \<Rightarrow> bytes \<Rightarrow> bytes list" where
  "proxy_peer env connect buffer remote chunks data =
     (case open_connection env connect buffer [data] of
        Quit reply \<Rightarrow> [reply]
      | Forward a reply rest \<Rightarrow> chunks (reply @ remote a))"

text \<open>The proxy's reading of requests: ASCII is read as it is, and an address as it is written.\<close>

definition ascii :: "string \<Rightarrow> bool" where
  "ascii s \<longleftrightarrow> list_all (\<lambda>c. (of_char c :: nat) < 128) s"

definition reads_requests :: "proxy_env \<Rightarrow> (socket_addr \<Rightarrow> string) \<Rightarrow> socket_addr \<Rightarrow> bool" where
  "reads_requests env text_of dest \<longleftrightarrow>
     ascii (text_of dest) \<and> word_ok (text_of dest) \<and> pe_addr env (text_of dest) = Some dest \<and>
     (\<forall>s. ascii s \<longrightarrow> pe_lossy env (str_bytes s) = s \<and>
        pe_first_word env s = (case split_whitespace s of [] \<Rightarrow> None | w # ws \<Rightarrow> Some w))"

lemma request_read:
  assumes "reads_requests env text_of dest"
  shows "target_addr env (connect_request text_of dest) = Some dest"
proof -
  let ?rest = "text_of dest @ CHR '' '' # ''HTTP/1.1'' @ crlf @ ''Host: '' @ text_of dest @ crlf @ crlf"
  have show_ok: "ascii (text_of dest)" "word_ok (text_of dest)" and addr: "pe_addr env (text_of dest) = Some dest"
    using assms by (simp_all add: reads_requests_def)
  have asc: "ascii (''CONNECT '' @ ?rest)" "ascii ?rest" using show_ok(1) by (simp_all add: ascii_def crlf_def)
  have req: "connect_request text_of dest = str_bytes (''CONNECT '' @ ?rest)" by (simp add: connect_request_def)
  have lossy: "pe_lossy env (connect_request text_of dest) = ''CONNECT '' @ ?rest"
    using assms asc(1) unfolding req reads_requests_def by blast
  have "split_whitespace ?rest = text_of dest # words_from [] (''HTTP/1.1'' @ crlf @ ''Host: '' @ text_of dest @ crlf @ crlf)"
    unfolding split_whitespace_def by (rule split_word [OF show_ok(2)]) (simp add: white_space_def)
  then have "pe_first_word env ?rest = Some (text_of dest)" using assms asc(2) unfolding reads_requests_def by simp
  then show ?thesis using addr by (simp add: target_addr_def lossy strip_prefix_def)
qed


definition proxy_libc :: "proxy_env \<Rightarrow> (socket_addr \<Rightarrow> (string, unit) result) \<Rightarrow> nat \<Rightarrow> (socket_addr \<Rightarrow> bytes) \<Rightarrow>
    (bytes \<Rightarrow> bytes list) \<Rightarrow> (int \<Rightarrow> peer_wire) libc" where
  "proxy_libc env connect buffer remote chunks = peer_libc (proxy_peer env connect buffer remote chunks)"

lemma proxy_answers:
  assumes "reads_requests env text_of dest" "length (connect_request text_of dest) \<le> min buffer 8192"
  shows "proxy_peer env connect buffer remote chunks (connect_request text_of dest) =
    (case connect dest of Inl e \<Rightarrow> [reply_502] | Inr u \<Rightarrow> chunks (reply_200 @ remote dest))"
proof -
  let ?r = "connect_request text_of dest"
  have "read_stream (min buffer 8192) [?r] = (?r, [])" using assms(2) by (simp add: read_stream_def)
  moreover have "?r \<noteq> []" by (simp add: connect_request_def str_bytes_def)
  ultimately show ?thesis by (simp add: proxy_peer_def open_connection_def request_read [OF assms(1)] split: sum.split)
qed

lemma reply_facts: "says_200 (reply_200 @ d)" "\<not> says_200 reply_502" "length reply_200 = 39" "length reply_502 = 28"
proof -
  have "reply_200 = str_bytes ''HTTP/1.1 '' @ str_bytes ''200'' @ str_bytes ('' Connection Established'' @ crlf @ crlf)"
    by (simp add: reply_200_def flip: str_bytes_append)
  then show "says_200 (reply_200 @ d)" unfolding says_200_def by (metis append.assoc sublist_appendI)
  show "\<not> says_200 reply_502" by (simp add: says_200_def reply_502_def str_bytes_def crlf_def sublist_Cons_right prefix_Cons)
  show "length reply_200 = 39" "length reply_502 = 28" by (simp_all add: reply_200_def reply_502_def crlf_def)
qed

lemma connect_to_peer:
  assumes "io_reach (peer_libc peer) text_of cfg s k" "ic_enabled cfg"
    and "socketaddr_to_sockaddr (ic_proxy cfg) = Some p" "read_sockaddr addr = Some dest"
    and "peer (connect_request text_of dest) = ch # later" "ch \<noteq> []"
  obtains s' k' where "intercept_connect (peer_libc peer) text_of fd addr len s k =
      Some (s', k', if says_200 (take 256 ch) then 0 else -1)"
    "is_sockets s' = (if says_200 (take 256 ch)
       then hm_insert fd \<lparr>it_dest = dest, it_fd = fd, it_connected = True\<rparr> (is_sockets s) else is_sockets s)"
    "concat (wr_in (k' fd)) = drop 256 ch @ concat later"
proof -
  note inv = io_reach_inv [OF assms(1)]
  have all: "finds_all (peer_libc peer)" by (simp add: finds_all_def peer_libc_def)
  note init = initialized_finds [OF inv all]
  have cfg: "is_config s = cfg" using inv by (simp add: intercept_inv_def)
  have len: "length (connect_request text_of dest) > 0" by (simp add: connect_request_def)
  define t where "t = ensure_initialized (peer_libc peer) s"
  have t: "is_connect t" "is_send t" "is_recv t" "is_config t = cfg" "is_sockets t = is_sockets s"
    using init cfg by (simp_all add: t_def)
  obtain w where hand: "proxy_handshake (peer_libc peer) text_of fd dest t
        (k(fd := \<lparr>wr_to = Some p, wr_out = [], wr_in = []\<rparr>)) =
      ((if says_200 (take 256 ch)
        then t\<lparr>is_sockets := hm_insert fd \<lparr>it_dest = dest, it_fd = fd, it_connected = True\<rparr> (is_sockets t)\<rparr> else t),
       k(fd := w), if says_200 (take 256 ch) then 0 else -1)"
    and w: "concat (wr_in w) = drop 256 ch @ concat later"
  proof -
    define w where "w = \<lparr>wr_to = Some p, wr_out = connect_request text_of dest,
      wr_in = (if drop 256 ch = [] then later else drop 256 ch # later)\<rparr>"
    have "length ch > 0" using assms(6) by simp
    moreover have "take (min (length ch) 256) ch = take 256 ch" by (cases "length ch \<le> 256") simp_all
    moreover have "concat (wr_in w) = drop 256 ch @ concat later" by (simp add: w_def)
    ultimately show thesis
      using that [of w] assms(5) len by (simp add: proxy_handshake_def peer_libc_def t read_stream_def w_def)
  qed
  have "intercept_connect (peer_libc peer) text_of fd addr len s k =
      Some (proxy_handshake (peer_libc peer) text_of fd dest t (k(fd := \<lparr>wr_to = Some p, wr_out = [], wr_in = []\<rparr>)))"
    unfolding intercept_connect_def t_def [symmetric] Let_def
    by (simp add: t assms(2,3,4)) (simp add: peer_libc_def)
  then show thesis using that hand w t(5) by simp
qed



section \<open>Witnesses\<close>

definition plain_text :: "bytes \<Rightarrow> string" where
  "plain_text d = map (\<lambda>b. char_of (unat b)) d"

lemma plain_text_bytes [simp]: "plain_text (str_bytes s) = s"
proof -
  have "unat (of_char c :: byte) = of_char c" for c
  proof -
    have "(of_char c :: byte) = of_nat (of_char c)" by (simp only: of_nat_of_char)
    then show ?thesis using nat_of_char_less_256 [of c] by (simp add: unat_of_nat)
  qed
  then show ?thesis by (simp add: plain_text_def str_bytes_def comp_def)
qed

definition demo_dest :: socket_addr where
  "demo_dest = AddrV4 [10, 0, 0, 5] 22"

definition demo_request_env :: proxy_env where
  "demo_request_env =
     \<lparr>pe_lossy = plain_text,
      pe_first_word = (\<lambda>s. case split_whitespace s of [] \<Rightarrow> None | w # ws \<Rightarrow> Some w), pe_trim = (\<lambda>s. s),
      pe_addr = (\<lambda>w. if w = ''10.0.0.5:22'' then Some demo_dest else None)\<rparr>"

definition greeting_libc :: "(int \<Rightarrow> peer_wire) libc" where
  "greeting_libc = proxy_libc demo_request_env (\<lambda>a. Ok ()) 65536 (\<lambda>a. str_bytes ''SSH-2.0'') (\<lambda>d. [d])"

definition demo_intercept :: intercept where
  "demo_intercept = intercept_new (intercept_config_default (\<lambda>v. None) (\<lambda>s. None))"

lemma demo_requests: "reads_requests demo_request_env (\<lambda>a. ''10.0.0.5:22'') demo_dest"
  by (simp add: reads_requests_def ascii_def word_ok_def white_space_def demo_request_env_def)


lemma interception_transparent_witness:
  "snd (intercept_recv greeting_libc 5 10 0 demo_intercept (\<lambda>fd. \<lparr>wr_to = None, wr_out = [], wr_in = [[1, 2]]\<rparr>)) =
     lb_recv greeting_libc 5 10 0 (\<lambda>fd. \<lparr>wr_to = None, wr_out = [], wr_in = [[1, 2]]\<rparr>)"
proof -
  have reach: "io_reach greeting_libc (\<lambda>a. ''a'') (intercept_config_default (\<lambda>v. None) (\<lambda>s. None)) demo_intercept
      (\<lambda>fd. \<lparr>wr_to = None, wr_out = [], wr_in = [[1, 2]]\<rparr>)"
    unfolding demo_intercept_def by (rule io_start)
  have "finds_all greeting_libc" by (simp add: finds_all_def greeting_libc_def proxy_libc_def peer_libc_def)
  from interception_transparent [OF reach this, of 5 "[]" 0 10] show ?thesis by simp
qed

end
