(* ===== verification/Websocket.thy ===== *)
theory Websocket
  imports Model F32
begin

text \<open>
  \<^verbatim>\<open>src/src/websocket.rs\<close>: what the two handlers of sockets answer to the messages of a client, and what they hand to
  the manager for the others.  A socket is the list of its incoming messages with the time at which each is handled; the
  end of the list is the end of the stream.  JSON is a parameter, and so are identifiers and clocks.  The results of sends are
  ignored by the code.  The delivery of broadcasts is not modelled: the manager keeps receivers and calls
  \<^verbatim>\<open>send\<close> on them, which receivers do not have.
\<close>

section \<open>Events and messages\<close>

text \<open>The payloads that the code builds, and any other JSON value.\<close>

datatype payload = TimeOnly datetime | ContentAt string datetime | OtherJson string

datatype ws_event =
    SnapshotProgress string string f32 u64 u64
  | ResumeProgress string string f32 u64 u64
  | CollaborativeEvent string string string payload
  | ErrorEvent string u16
  | Heartbeat u64

datatype ws_message =
    TextMessage string
  | BinaryMessage bytes
  | PingMessage bytes
  | PongMessage bytes
  | CloseMessage
  | BrokenMessage string

record ws_json =
  wj_write :: "ws_event \<Rightarrow> string option"
  wj_read :: "string \<Rightarrow> ws_event option"

definition event_message :: "ws_json \<Rightarrow> ws_event \<Rightarrow> ws_message list" where
  "event_message js e = (case wj_write js e of None \<Rightarrow> [] | Some t \<Rightarrow> [TextMessage t])"

section \<open>The events of the manager\<close>

definition snapshot_progress :: "string \<Rightarrow> string \<Rightarrow> f32 \<Rightarrow> u64 \<Rightarrow> u64 \<Rightarrow> string \<times> ws_event" where
  "snapshot_progress state_id phase percent n elapsed = (state_id, SnapshotProgress state_id phase percent n elapsed)"

definition resume_progress :: "string \<Rightarrow> string \<Rightarrow> f32 \<Rightarrow> u64 \<Rightarrow> u64 \<Rightarrow> string \<times> ws_event" where
  "resume_progress state_id phase percent pages elapsed = (state_id, ResumeProgress state_id phase percent pages elapsed)"

definition send_error :: "string \<Rightarrow> string \<Rightarrow> u16 \<Rightarrow> string \<times> ws_event" where
  "send_error state_id msg code = (state_id, ErrorEvent msg code)"

section \<open>The socket of a state\<close>

text \<open>The replies of the loop; times are milliseconds.\<close>

fun state_loop :: "ws_json \<Rightarrow> (u64 \<times> ws_message) list \<Rightarrow> ws_message list" where
  "state_loop js [] = []"
| "state_loop js ((now, TextMessage t) # ms) =
     (case wj_read js t of
        Some (Heartbeat stamp) \<Rightarrow> event_message js (Heartbeat now) @ state_loop js ms
      | _ \<Rightarrow> state_loop js ms)"
| "state_loop js ((now, CloseMessage) # ms) = []"
| "state_loop js ((now, PingMessage d) # ms) = PongMessage d # state_loop js ms"
| "state_loop js ((now, BrokenMessage e) # ms) = []"
| "state_loop js ((now, BinaryMessage d) # ms) = state_loop js ms"
| "state_loop js ((now, PongMessage d) # ms) = state_loop js ms"

definition handle_state_socket :: "ws_json \<Rightarrow> string \<Rightarrow> (u64 \<times> ws_message) list \<Rightarrow> ws_message list" where
  "handle_state_socket js state_id ms =
     event_message js (SnapshotProgress state_id ''connected'' 0 0 0) @ state_loop js ms"

section \<open>The socket of a session\<close>

text \<open>The replies to the client, and the events that are handed to the manager for the session.\<close>

fun collab_loop :: "ws_json \<Rightarrow> string \<Rightarrow> string \<Rightarrow> (datetime \<times> ws_message) list \<Rightarrow> ws_message list \<times> ws_event list" where
  "collab_loop js sid uid [] = ([], [])"
| "collab_loop js sid uid ((now, TextMessage t) # ms) =
     (case collab_loop js sid uid ms of
        (out, evs) \<Rightarrow>
          (out, (if wj_read js t = None then [] else [CollaborativeEvent sid uid ''message'' (ContentAt t now)]) @ evs))"
| "collab_loop js sid uid ((now, CloseMessage) # ms) = ([], [CollaborativeEvent sid uid ''left'' (TimeOnly now)])"
| "collab_loop js sid uid ((now, PingMessage d) # ms) =
     (case collab_loop js sid uid ms of (out, evs) \<Rightarrow> (PongMessage d # out, evs))"
| "collab_loop js sid uid ((now, BrokenMessage e) # ms) = ([], [])"
| "collab_loop js sid uid ((now, BinaryMessage d) # ms) = collab_loop js sid uid ms"
| "collab_loop js sid uid ((now, PongMessage d) # ms) = collab_loop js sid uid ms"

definition handle_collab_socket :: "ws_json \<Rightarrow> string \<Rightarrow> uuid \<Rightarrow> datetime \<Rightarrow> (datetime \<times> ws_message) list \<Rightarrow>
    ws_message list \<times> ws_event list" where
  "handle_collab_socket js sid uid now ms =
     (case collab_loop js sid uid ms of
        (out, evs) \<Rightarrow> (event_message js (CollaborativeEvent sid uid ''joined'' (TimeOnly now)) @ out, evs))"

section \<open>What a client and its session see\<close>

definition ends_socket :: "ws_message \<Rightarrow> bool" where
  "ends_socket m \<longleftrightarrow> m = CloseMessage \<or> (\<exists>e. m = BrokenMessage e)"

text \<open>The messages that are handled, and how the handling ended.\<close>

definition handled :: "('t \<times> ws_message) list \<Rightarrow> ('t \<times> ws_message) list" where
  "handled ms = takeWhile (\<lambda>m. \<not> ends_socket (snd m)) ms"

definition ended_by :: "('t \<times> ws_message) list \<Rightarrow> ('t \<times> ws_message) option" where
  "ended_by ms = (case dropWhile (\<lambda>m. \<not> ends_socket (snd m)) ms of [] \<Rightarrow> None | m # rest \<Rightarrow> Some m)"

definition reply_to :: "ws_json \<Rightarrow> u64 \<times> ws_message \<Rightarrow> ws_message list" where
  "reply_to js m =
     (case snd m of
        PingMessage d \<Rightarrow> [PongMessage d]
      | TextMessage t \<Rightarrow> (if \<exists>stamp. wj_read js t = Some (Heartbeat stamp) then event_message js (Heartbeat (fst m)) else [])
      | _ \<Rightarrow> [])"

lemma state_loop_replies: "state_loop js ms = concat (map (reply_to js) (handled ms))"
proof (induction js ms rule: state_loop.induct)
  case (2 js now t ms)
  then show ?case
    by (auto simp: handled_def reply_to_def ends_socket_def split: option.split ws_event.split)
qed (auto simp: handled_def reply_to_def ends_socket_def)

lemma collab_loop_events:
  "collab_loop js sid uid ms =
     (concat (map (\<lambda>m. case snd m of PingMessage d \<Rightarrow> [PongMessage d] | _ \<Rightarrow> []) (handled ms)),
      concat (map (\<lambda>m. case snd m of
          TextMessage t \<Rightarrow> if wj_read js t = None then [] else [CollaborativeEvent sid uid ''message'' (ContentAt t (fst m))]
        | _ \<Rightarrow> []) (handled ms)) @
      (case ended_by ms of
         Some (now, CloseMessage) \<Rightarrow> [CollaborativeEvent sid uid ''left'' (TimeOnly now)] | _ \<Rightarrow> []))"
  by (induction js sid uid ms rule: collab_loop.induct) (auto simp: handled_def ended_by_def ends_socket_def)

text \<open>A client that follows a state gets the greeting, the echoes of its pings and the answers to its heartbeats
  up to the message that ends the socket, and nothing else: no progress of a snapshot or a resume.\<close>

theorem state_socket_replies:
  "handle_state_socket js state_id ms =
     event_message js (SnapshotProgress state_id ''connected'' 0 0 0) @ concat (map (reply_to js) (handled ms))"
  by (simp add: handle_state_socket_def state_loop_replies)

text \<open>A session is told of every text of a member that is an event, in order, as the text it was, and of a
  departure only when the member closes the socket: not of the arrival, and not of a departure when the connection
  breaks or its stream ends.\<close>

theorem session_events:
  "snd (handle_collab_socket js sid uid now ms) =
     concat (map (\<lambda>m. case snd m of
         TextMessage t \<Rightarrow> if wj_read js t = None then [] else [CollaborativeEvent sid uid ''message'' (ContentAt t (fst m))]
       | _ \<Rightarrow> []) (handled ms)) @
     (case ended_by ms of
        Some (t, CloseMessage) \<Rightarrow> [CollaborativeEvent sid uid ''left'' (TimeOnly t)] | _ \<Rightarrow> [])"
  by (simp add: handle_collab_socket_def collab_loop_events)

end
