(* ===== verification/Capture.thy ===== *)
theory Capture
  imports Streaming
begin

text \<open>
  \<^verbatim>\<open>src/src/x11_capture.rs\<close> and \<^verbatim>\<open>src/src/drm_capture.rs\<close> on Linux: the two devices that the streamer can capture
  from.  The kernel's answers to the DRM calls are functions of the history of what the program has acquired and
  released (\<open>drm_kernel\<close>); pointers to arrays that a call fills are lists in its answer.  The libraries of X11, the
  clock and the memory behind a mapping are parameters.
\<close>

section \<open>X11\<close>

record x11_capture =
  xc_width :: u32
  xc_height :: u32

text \<open>Whether the library is found, the display opens and the memory is mapped.\<close>

definition x11_new :: "bool \<Rightarrow> bool \<Rightarrow> bool \<Rightarrow> (ui_error, x11_capture) result" where
  "x11_new library display memory =
     (if \<not> library then Err (CaptureError ''Failed to load libX11. Install libx11-6 package.'')
      else if \<not> display then Err (CaptureError ''Cannot open X11 display. Set DISPLAY environment variable.'')
      else if \<not> memory then Err (CaptureError ''Failed to allocate shared memory'')
      else Ok \<lparr>xc_width = 1920, xc_height = 1080\<rparr>)"

text \<open>\<^verbatim>\<open>as u8\<close> of a single that is not negative.\<close>

definition f32_to_u8 :: "f32 \<Rightarrow> byte" where
  "f32_to_u8 x = of_nat (min (nat \<lfloor>x\<rfloor>) 255)"

definition gradient :: "nat \<Rightarrow> nat \<Rightarrow> byte" where
  "gradient k n = f32_to_u8 (f32_mul (f32_div (f32_of_nat k) (f32_of_nat n)) 255)"

definition x11_color :: "u32 \<Rightarrow> u32 \<Rightarrow> nat \<Rightarrow> nat \<Rightarrow> byte \<times> byte \<times> byte" where
  "x11_color w h x y = (gradient x (unat w), gradient y (unat h), 128)"

text \<open>\<open>None\<close> is the panic of an index out of range.\<close>

definition x11_frame :: "u64 \<Rightarrow> x11_capture \<Rightarrow> captured_frame option" where
  "x11_frame now c =
     (let w = xc_width c; h = xc_height c in
      case fill (x11_color w h) w (pixels (unat w) (unat h)) (replicate (unat (w * h * 4)) 0) of
        None \<Rightarrow> None
      | Some d \<Rightarrow>
          Some \<lparr>cf_timestamp = now, cf_sequence = 0, cf_data = d, cf_width = w, cf_height = h, cf_stride = w * 4\<rparr>)"

text \<open>An X11 capture shows no screen: whatever is on the display, every frame is the same gradient of a fixed size
  with the sequence number 0; only the time differs.\<close>

theorem x11_shows_gradient:
  assumes "x11_new library display memory = Ok c"
  shows "x11_frame now c =
    Some \<lparr>cf_timestamp = now, cf_sequence = 0, cf_data = map (fill_byte (x11_color 1920 1080) 1920) [0..<4 * (1920 * 1080)],
      cf_width = 1920, cf_height = 1080, cf_stride = 7680\<rparr>"
proof -
  have c: "xc_width c = 1920" "xc_height c = 1080" using assms by (auto simp: x11_new_def split: if_splits)
  have size: "unat (1920 * 1080 * 4 :: u32) = 4 * (unat (1920 :: u32) * 1080)" "4 * (unat (1920 :: u32) * 1080) < 2 ^ 32"
    by simp_all
  have wide: "unat (1920 :: u32) = 1920" "unat (1080 :: u32) = 1080" by simp_all
  have "fill (x11_color 1920 1080) 1920 (pixels (unat (1920 :: u32)) 1080) (replicate (unat (1920 * 1080 * 4 :: u32)) 0) =
      Some (map (fill_byte (x11_color 1920 1080) 1920) [0..<4 * (unat (1920 :: u32) * 1080)])"
    by (rule fill_all [OF _ size(2)]) (simp only: length_replicate size(1))
  then show ?thesis unfolding x11_frame_def Let_def c wide option.case by (simp only: option.case) simp
qed

section \<open>DRM: state and kernel\<close>

datatype drm_event =
    DrmOpened int | DrmClosed int
  | DumbMade u32 | DumbDestroyed u32
  | FbAdded u32 | FbRemoved u32
  | Mapped u64 nat | Unmapped u64 nat

type_synonym drm_history = "drm_event list"

datatype mapping = NullMap | FailedMap | MappedAt u64

record drm_capture =
  dr_fd :: int
  dr_crtc :: u32
  dr_connector :: u32
  dr_encoder :: u32
  dr_fb :: u32
  dr_gem :: u32
  dr_memory :: mapping
  dr_size :: nat
  dr_width :: u32
  dr_height :: u32
  dr_pitch :: u32
  dr_sequence :: u64
  dr_last :: u64

definition drm_new :: drm_capture where
  "drm_new =
     \<lparr>dr_fd = -1, dr_crtc = 0, dr_connector = 0, dr_encoder = 0, dr_fb = 0, dr_gem = 0, dr_memory = NullMap, dr_size = 0,
      dr_width = 0, dr_height = 0, dr_pitch = 0, dr_sequence = 0, dr_last = 0\<rparr>"

record card_res =
  cr_crtcs :: u32
  cr_connectors :: u32
  cr_encoders :: u32

record connector_info =
  ci_modes :: u32
  ci_encoder :: u32
  ci_connection :: u32

record drm_kernel =
  dk_open :: "drm_history \<Rightarrow> string \<Rightarrow> int"
  dk_resources :: "drm_history \<Rightarrow> int \<Rightarrow> (string, card_res) result"
  dk_resource_ids :: "drm_history \<Rightarrow> int \<Rightarrow> card_res \<Rightarrow> (string, card_res \<times> u32 list) result"
  dk_connector :: "drm_history \<Rightarrow> int \<Rightarrow> u32 \<Rightarrow> connector_info option"
  dk_connector_full :: "drm_history \<Rightarrow> int \<Rightarrow> u32 \<Rightarrow> connector_info \<Rightarrow> connector_info option"
  dk_encoder :: "drm_history \<Rightarrow> int \<Rightarrow> u32 \<Rightarrow> u32 option"
  dk_crtc :: "drm_history \<Rightarrow> int \<Rightarrow> u32 \<Rightarrow> (u32 \<times> u32) option"
  dk_create :: "drm_history \<Rightarrow> int \<Rightarrow> u32 \<Rightarrow> u32 \<Rightarrow> (string, u32 \<times> u32) result"
  dk_add_fb :: "drm_history \<Rightarrow> int \<Rightarrow> u32 \<Rightarrow> u32 \<Rightarrow> u32 \<Rightarrow> u32 \<Rightarrow> (string, u32) result"
  dk_map :: "drm_history \<Rightarrow> int \<Rightarrow> u32 \<Rightarrow> (string, u64) result"
  dk_mmap :: "drm_history \<Rightarrow> int \<Rightarrow> nat \<Rightarrow> u64 \<Rightarrow> (string, u64) result"
  dk_memory :: "drm_history \<Rightarrow> u64 \<Rightarrow> nat \<Rightarrow> bytes"

section \<open>DRM: operations\<close>

definition device_paths :: "string list" where
  "device_paths = [''/dev/dri/card0'', ''/dev/dri/card1'', ''/dev/dri/renderD128'', ''/dev/dri/renderD129'']"

fun open_first :: "drm_kernel \<Rightarrow> string list \<Rightarrow> drm_history \<Rightarrow> (drm_history \<times> int) option" where
  "open_first dk [] h = None"
| "open_first dk (p # ps) h =
     (let fd = dk_open dk h p in if fd \<ge> 0 then Some (h @ [DrmOpened fd], fd) else open_first dk ps h)"

definition open_device :: "drm_kernel \<Rightarrow> drm_history \<Rightarrow> drm_capture \<Rightarrow> drm_history \<times> drm_capture \<times> (ui_error, unit) result" where
  "open_device dk h d =
     (case open_first dk device_paths h of
        None \<Rightarrow> (h, d, Err (CaptureError ''Failed to open DRM device. Ensure you have video group access or run as root.''))
      | Some (h, fd) \<Rightarrow> (h, d\<lparr>dr_fd := fd\<rparr>, Ok ()))"

text \<open>One connector: what it leaves in the capture, and whether it is the display.\<close>

definition try_connector :: "drm_kernel \<Rightarrow> drm_history \<Rightarrow> u32 \<Rightarrow> drm_capture \<Rightarrow> drm_capture \<times> bool" where
  "try_connector dk h conn d =
     (case dk_connector dk h (dr_fd d) conn of
        None \<Rightarrow> (d, False)
      | Some i \<Rightarrow>
          (case dk_connector_full dk h (dr_fd d) conn i of
             None \<Rightarrow> (d, False)
           | Some i \<Rightarrow>
               if ci_connection i = 1 \<and> ci_modes i > 0 then
                 let d = d\<lparr>dr_connector := conn\<rparr> in
                 if ci_encoder i \<noteq> 0 then
                   let d = d\<lparr>dr_encoder := ci_encoder i\<rparr> in
                   (case dk_encoder dk h (dr_fd d) (dr_encoder d) of
                      None \<Rightarrow> (d, False)
                    | Some crtc \<Rightarrow>
                        if crtc \<noteq> 0 then
                          let d = d\<lparr>dr_crtc := crtc\<rparr> in
                          (case dk_crtc dk h (dr_fd d) crtc of
                             None \<Rightarrow> (d, False)
                           | Some (w, ht) \<Rightarrow> (d\<lparr>dr_width := w, dr_height := ht\<rparr>, True))
                        else (d, False))
                 else (d, False)
               else (d, False)))"

fun find_display :: "drm_kernel \<Rightarrow> drm_history \<Rightarrow> u32 list \<Rightarrow> drm_capture \<Rightarrow> drm_capture \<times> bool" where
  "find_display dk h [] d = (d, False)"
| "find_display dk h (c # cs) d =
     (case try_connector dk h c d of (d, found) \<Rightarrow> if found then (d, True) else find_display dk h cs d)"

text \<open>At most 32 connectors are looked at, and as many as the second call reports; identifiers that it does not
  write are 0.\<close>

definition get_resources :: "drm_kernel \<Rightarrow> drm_history \<Rightarrow> drm_capture \<Rightarrow> drm_capture \<times> (ui_error, unit) result" where
  "get_resources dk h d =
     (case dk_resources dk h (dr_fd d) of
        Inl e \<Rightarrow> (d, Err (CaptureError (''Failed to get DRM resource counts: '' @ e)))
      | Inr counts \<Rightarrow>
          let room = unat (min (cr_connectors counts) 32) in
          (case dk_resource_ids dk h (dr_fd d) counts of
             Inl e \<Rightarrow> (d, Err (CaptureError (''Failed to get DRM resources: '' @ e)))
           | Inr (res, ids) \<Rightarrow>
               let ids = take (min room (unat (cr_connectors res))) (take room ids @ replicate (room - length ids) 0) in
               (case find_display dk h ids d of
                  (d, found) \<Rightarrow>
                    (d, if found then Ok () else Err (CaptureError ''No active connected display found'')))))"

definition create_framebuffer :: "drm_kernel \<Rightarrow> drm_history \<Rightarrow> drm_capture \<Rightarrow>
    drm_history \<times> drm_capture \<times> (ui_error, unit) result" where
  "create_framebuffer dk h d =
     (case dk_create dk h (dr_fd d) (dr_width d) (dr_height d) of
        Inl e \<Rightarrow> (h, d, Err (CaptureError (''Failed to create GEM buffer: '' @ e)))
      | Inr (gem, pitch) \<Rightarrow>
          let h = h @ [DumbMade gem]; d = d\<lparr>dr_gem := gem, dr_pitch := pitch\<rparr> in
          (case dk_add_fb dk h (dr_fd d) (dr_width d) (dr_height d) gem pitch of
             Inl e \<Rightarrow> (h @ [DumbDestroyed gem], d, Err (CaptureError (''Failed to create framebuffer: '' @ e)))
           | Inr fb \<Rightarrow>
               let h = h @ [FbAdded fb]; d = d\<lparr>dr_fb := fb\<rparr> in
               (case dk_map dk h (dr_fd d) gem of
                  Inl e \<Rightarrow> (h, d, Err (CaptureError (''Failed to map GEM buffer: '' @ e)))
                | Inr off \<Rightarrow>
                    let d = d\<lparr>dr_size := unat (dr_pitch d * dr_height d)\<rparr> in
                    (case dk_mmap dk h (dr_fd d) (dr_size d) off of
                       Inl e \<Rightarrow> (h, d\<lparr>dr_memory := FailedMap\<rparr>, Err (CaptureError (''Failed to mmap framebuffer: '' @ e)))
                     | Inr a \<Rightarrow> (h @ [Mapped a (dr_size d)], d\<lparr>dr_memory := MappedAt a\<rparr>, Ok ())))))"

definition drm_init :: "drm_kernel \<Rightarrow> drm_history \<Rightarrow> drm_capture \<Rightarrow> drm_history \<times> drm_capture \<times> (ui_error, unit) result" where
  "drm_init dk h d =
     (case open_device dk h d of
        (h, d, Inl e) \<Rightarrow> (h, d, Err e)
      | (h, d, Inr u) \<Rightarrow>
          (case get_resources dk h d of
             (d, Inl e) \<Rightarrow> (h, d, Err e)
           | (d, Inr u) \<Rightarrow> create_framebuffer dk h d))"

definition drm_frame :: "drm_kernel \<Rightarrow> drm_history \<Rightarrow> u64 \<Rightarrow> drm_capture \<Rightarrow> drm_capture \<times> (ui_error, captured_frame) result" where
  "drm_frame dk h now d =
     (case dr_memory d of
        MappedAt a \<Rightarrow>
          let d = d\<lparr>dr_sequence := dr_sequence d + 1, dr_last := now\<rparr> in
          (d, Ok \<lparr>cf_timestamp = now, cf_sequence = dr_sequence d, cf_data = dk_memory dk h a (dr_size d),
                  cf_width = dr_width d, cf_height = dr_height d, cf_stride = dr_pitch d\<rparr>)
      | _ \<Rightarrow> (d, Err (CaptureError ''Framebuffer not mapped'')))"

definition drm_drop :: "drm_capture \<Rightarrow> drm_history \<Rightarrow> drm_history" where
  "drm_drop d h =
     h @ (case dr_memory d of MappedAt a \<Rightarrow> [Unmapped a (dr_size d)] | _ \<Rightarrow> []) @
       (if dr_fb d \<noteq> 0 then [FbRemoved (dr_fb d)] else []) @
       (if dr_gem d \<noteq> 0 then [DumbDestroyed (dr_gem d)] else []) @
       (if dr_fd d \<ge> 0 then [DrmClosed (dr_fd d)] else [])"



section \<open>What a DRM capture holds, and what it shows\<close>

definition no_resources :: "drm_capture \<Rightarrow> bool" where
  "no_resources d \<longleftrightarrow> dr_fb d = 0 \<and> dr_gem d = 0 \<and> dr_memory d = NullMap \<and> dr_sequence d = 0"

lemma try_connector_keeps:
  "try_connector dk h c d = (d', b) \<Longrightarrow> no_resources d' = no_resources d \<and> dr_fd d' = dr_fd d"
  by (auto simp: try_connector_def no_resources_def Let_def split: option.splits if_splits)

lemma find_display_keeps:
  "find_display dk h cs d = (d', b) \<Longrightarrow> no_resources d' = no_resources d \<and> dr_fd d' = dr_fd d"
  by (induction cs arbitrary: d) (auto split: prod.splits if_splits dest: try_connector_keeps)

lemma get_resources_keeps:
  "get_resources dk h d = (d', r) \<Longrightarrow> no_resources d' = no_resources d \<and> dr_fd d' = dr_fd d"
  by (auto simp: get_resources_def Let_def split: sum.splits prod.splits dest: find_display_keeps)

text \<open>What \<open>init\<close> can leave behind: nothing but the device, or with a buffer whose frame buffer was refused, that was
  not mapped, or that is ready.\<close>

lemma open_first_fd: "open_first dk ps h = Some (h', fd) \<Longrightarrow> h' = h @ [DrmOpened fd] \<and> fd \<ge> 0"
  by (induction ps) (auto simp: Let_def split: if_splits)

lemma drm_init_cases:
  assumes "drm_init dk [] drm_new = (h, d, r)"
  obtains "h = []" "no_resources d" "dr_fd d = -1" "r \<noteq> Ok ()"
  | fd where "fd \<ge> 0" "h = [DrmOpened fd]" "no_resources d" "dr_fd d = fd" "r \<noteq> Ok ()"
  | fd h0 w ht g p where "fd \<ge> 0" "dk_create dk h0 fd w ht = Ok (g, p)"
      "h = [DrmOpened fd, DumbMade g, DumbDestroyed g]" "dr_fb d = 0" "dr_gem d = g" "dr_memory d = NullMap" "dr_fd d = fd" "r \<noteq> Ok ()"
  | fd h0 w ht g p fb h1 where "fd \<ge> 0" "dk_create dk h0 fd w ht = Ok (g, p)" "dk_add_fb dk h1 fd w ht g p = Ok fb"
      "h = [DrmOpened fd, DumbMade g, FbAdded fb]" "dr_fb d = fb" "dr_gem d = g" "dr_memory d \<in> {NullMap, FailedMap}"
      "dr_fd d = fd" "r \<noteq> Ok ()"
  | fd h0 w ht g p fb h1 a n where "fd \<ge> 0" "dk_create dk h0 fd w ht = Ok (g, p)" "dk_add_fb dk h1 fd w ht g p = Ok fb"
      "h = [DrmOpened fd, DumbMade g, FbAdded fb, Mapped a n]" "dr_fb d = fb" "dr_gem d = g" "dr_memory d = MappedAt a"
      "dr_size d = n" "n = unat (p * ht)" "dr_pitch d = p" "dr_width d = w" "dr_height d = ht" "dr_fd d = fd" "dr_sequence d = 0" "r = Ok ()"
proof -
  have new: "no_resources drm_new" "dr_fd drm_new = -1" by (simp_all add: no_resources_def drm_new_def)
  show thesis
  proof (cases "open_first dk device_paths []")
    case None
    then show thesis using assms new that(1) by (auto simp: drm_init_def open_device_def)
  next
    case (Some x)
    then obtain fd where fd: "x = ([DrmOpened fd], fd)" "fd \<ge> 0" using open_first_fd by (cases x) fastforce
    obtain d1 r1 where res: "get_resources dk [DrmOpened fd] (drm_new\<lparr>dr_fd := fd\<rparr>) = (d1, r1)" by fastforce
    have "no_resources (drm_new\<lparr>dr_fd := fd\<rparr>)" using new(1) by (simp add: no_resources_def)
    then have d1: "no_resources d1" "dr_fd d1 = fd" using get_resources_keeps [OF res] by simp_all
    note init = assms [unfolded drm_init_def open_device_def Some fd(1), simplified, unfolded res, simplified]
    show thesis
    proof (cases r1)
      case (Inl e)
      then show thesis using init d1 fd(2) that(2) [of fd] by auto
    next
      case (Inr u)
      then have cf: "create_framebuffer dk [DrmOpened fd] d1 = (h, d, r)" using init by simp
      show thesis
      proof (cases "dk_create dk [DrmOpened fd] fd (dr_width d1) (dr_height d1)")
        case (Inl e)
        then show thesis using cf d1 fd(2) that(2) [of fd] by (auto simp: create_framebuffer_def)
      next
        case (Inr gp)
        then obtain g p where made: "dk_create dk [DrmOpened fd] fd (dr_width d1) (dr_height d1) = Ok (g, p)" by (cases gp) simp
        show thesis
        proof (cases "dk_add_fb dk [DrmOpened fd, DumbMade g] fd (dr_width d1) (dr_height d1) g p")
          case (Inl e)
          then show thesis using cf made d1 fd(2) that(3) [OF fd(2) made]
            by (auto simp: create_framebuffer_def no_resources_def)
        next
          case (Inr fb)
          then show thesis
            using cf made d1 fd(2) that(4) [OF fd(2) made Inr] that(5) [OF fd(2) made Inr]
            by (auto simp: create_framebuffer_def no_resources_def Let_def split: sum.splits)
        qed
      qed
    qed
  qed
qed


fun drm_frames :: "drm_kernel \<Rightarrow> drm_history \<Rightarrow> u64 list \<Rightarrow> drm_capture \<Rightarrow>
    drm_capture \<times> (ui_error, captured_frame) result list" where
  "drm_frames dk h [] d = (d, [])"
| "drm_frames dk h (t # ts) d =
     (case drm_frame dk h t d of (d, r) \<Rightarrow> (case drm_frames dk h ts d of (d, rs) \<Rightarrow> (d, r # rs)))"

lemma drm_frames_keep:
  "drm_frames dk h ts d = (d', rs) \<Longrightarrow>
     dr_memory d' = dr_memory d \<and> dr_size d' = dr_size d \<and> dr_fb d' = dr_fb d \<and> dr_gem d' = dr_gem d \<and> dr_fd d' = dr_fd d"
  by (induction ts arbitrary: d rs) (auto simp: drm_frame_def Let_def split: prod.splits mapping.splits)


text \<open>A DRM capture shows no screen either.  It maps a buffer that it has just made and that no display scans out;
  such a buffer is zero until somebody writes to it, which nobody does, so every frame is black, of the size of the
  display, with consecutive numbers.\<close>

theorem drm_shows_black:
  assumes "drm_init dk [] drm_new = (h, d, Ok ())"
    and "\<forall>a n. Mapped a n \<in> set h \<longrightarrow> dk_memory dk h a n = replicate n 0"
  shows "snd (drm_frames dk h ts d) =
    map (\<lambda>k. Ok \<lparr>cf_timestamp = ts ! k, cf_sequence = of_nat (k + 1), cf_data = replicate (unat (dr_pitch d * dr_height d)) 0,
      cf_width = dr_width d, cf_height = dr_height d, cf_stride = dr_pitch d\<rparr>) [0..<length ts]"
proof -
  obtain a where a: "dr_memory d = MappedAt a" "Mapped a (dr_size d) \<in> set h"
    "dr_size d = unat (dr_pitch d * dr_height d)" "dr_sequence d = 0"
    by (cases rule: drm_init_cases [OF assms(1)]) auto
  have black: "dk_memory dk h a (dr_size d) = replicate (dr_size d) 0" using assms(2) a(2) by blast
  have "snd (drm_frames dk h ts e) =
      map (\<lambda>k. Ok \<lparr>cf_timestamp = ts ! k, cf_sequence = dr_sequence e + of_nat (k + 1),
        cf_data = replicate (unat (dr_pitch e * dr_height e)) 0, cf_width = dr_width e, cf_height = dr_height e,
        cf_stride = dr_pitch e\<rparr>) [0..<length ts]"
    if "dr_memory e = MappedAt a" "dr_size e = dr_size d" "dr_size e = unat (dr_pitch e * dr_height e)" for e ts
    using that
  proof (induction ts arbitrary: e)
    case (Cons t ts)
    have "[0..<length (t # ts)] = 0 # map Suc [0..<length ts]" by (simp add: map_Suc_upt upt_conv_Cons del: upt_Suc)
    then show ?case
      using Cons.prems black Cons.IH [of "e\<lparr>dr_sequence := dr_sequence e + 1, dr_last := t\<rparr>"]
      by (cases "drm_frames dk h ts (e\<lparr>dr_sequence := dr_sequence e + 1, dr_last := t\<rparr>)")
        (simp add: drm_frame_def Let_def ac_simps comp_def del: upt_Suc)
  qed simp
  from this [OF a(1) refl a(3)] a(4) show ?thesis by simp
qed

definition demo_drm :: drm_kernel where
  "demo_drm =
     \<lparr>dk_open = (\<lambda>h p. if p = ''/dev/dri/card1'' then 5 else -1),
      dk_resources = (\<lambda>h fd. Ok \<lparr>cr_crtcs = 1, cr_connectors = 2, cr_encoders = 1\<rparr>),
      dk_resource_ids = (\<lambda>h fd r. Ok (r, [40, 41])),
      dk_connector = (\<lambda>h fd c. Some \<lparr>ci_modes = 1, ci_encoder = 50, ci_connection = (if c = 41 then 1 else 2)\<rparr>),
      dk_connector_full = (\<lambda>h fd c i. Some i), dk_encoder = (\<lambda>h fd e. Some 60), dk_crtc = (\<lambda>h fd c. Some (2, 1)),
      dk_create = (\<lambda>h fd w ht. Ok (7, 8)), dk_add_fb = (\<lambda>h fd w ht g p. Ok 9), dk_map = (\<lambda>h fd g. Ok 0),
      dk_mmap = (\<lambda>h fd n off. Ok 4096), dk_memory = (\<lambda>h a n. replicate n 0)\<rparr>"

lemma demo_drm_init:
  "\<exists>d. drm_init demo_drm [] drm_new = ([DrmOpened 5, DumbMade 7, FbAdded 9, Mapped 4096 8], d, Ok ()) \<and> dr_pitch d = 8 \<and>
     dr_width d = 2 \<and> dr_height d = 1 \<and> dr_gem d = 7 \<and> dr_fb d = 9 \<and> dr_fd d = 5 \<and> dr_memory d = MappedAt 4096 \<and> dr_size d = 8"
  by (simp add: demo_drm_def drm_init_def open_device_def device_paths_def drm_new_def get_resources_def try_connector_def
      create_framebuffer_def Let_def)


lemma drm_shows_black_witness:
  "\<exists>h d. drm_init demo_drm [] drm_new = (h, d, Ok ()) \<and>
     snd (drm_frames demo_drm h [17] d) =
       [Ok \<lparr>cf_timestamp = 17, cf_sequence = 1, cf_data = replicate 8 0, cf_width = 2, cf_height = 1, cf_stride = 8\<rparr>]"
proof -
  obtain d where d: "drm_init demo_drm [] drm_new = ([DrmOpened 5, DumbMade 7, FbAdded 9, Mapped 4096 8], d, Ok ())"
    "dr_pitch d = 8" "dr_width d = 2" "dr_height d = 1"
    using demo_drm_init by blast
  from drm_shows_black [OF d(1), of "[17]"] d show ?thesis by (simp add: demo_drm_def)
qed

lemma x11_shows_gradient_witness:
  "\<exists>f. x11_frame 3 \<lparr>xc_width = 1920, xc_height = 1080\<rparr> = Some f \<and> cf_timestamp f = 3 \<and> cf_sequence f = 0"
  using x11_shows_gradient [of True True True "\<lparr>xc_width = 1920, xc_height = 1080\<rparr>" 3] by (simp add: x11_new_def)

end
