(* ===== verification/Encoder.thy ===== *)
theory Encoder
  imports Streaming
begin

text \<open>
  \<^verbatim>\<open>src/src/ffmpeg_encoder.rs\<close> as it is built without the \<^verbatim>\<open>ffmpeg\<close> feature: the encoder that passes frames through with its
  statistics, and the scaler.  The time that an encoding takes and the device files are parameters.  What the feature adds
  drives the ffmpeg library and is not modelled.
\<close>

section \<open>Configuration\<close>

datatype encoder_preset =
  UltraFast | SuperFast | VeryFast | Faster | Fast | Medium | Slow | Slower | VerySlow

definition to_x264_preset :: "encoder_preset \<Rightarrow> string" where
  "to_x264_preset p =
     (case p of
        UltraFast \<Rightarrow> ''ultrafast'' | SuperFast \<Rightarrow> ''superfast'' | VeryFast \<Rightarrow> ''veryfast'' | Faster \<Rightarrow> ''faster''
      | Fast \<Rightarrow> ''fast'' | Medium \<Rightarrow> ''medium'' | Slow \<Rightarrow> ''slow'' | Slower \<Rightarrow> ''slower'' | VerySlow \<Rightarrow> ''veryslow'')"

datatype hardware = NoHardware | Vaapi | Nvenc | Amf | Videotoolbox | Qsv

record ff_config =
  fg_codec :: video_codec
  fg_bitrate :: u32
  fg_framerate :: u32
  fg_gop :: u32
  fg_preset :: encoder_preset
  fg_hardware :: hardware
  fg_profile :: "string option"
  fg_level :: "string option"

definition ff_config_default :: ff_config where
  "ff_config_default =
     \<lparr>fg_codec = H264, fg_bitrate = 5000, fg_framerate = 30, fg_gop = 60, fg_preset = Medium, fg_hardware = NoHardware,
      fg_profile = None, fg_level = None\<rparr>"

record encoder_stats =
  en_frames :: u64
  en_bytes :: u64
  en_encode_ms :: f32
  en_bitrate :: f32
  en_keyframes :: u64

record ff_encoder =
  fe_config :: ff_config
  fe_width :: u32
  fe_height :: u32
  fe_initialized :: bool
  fe_pending :: bool
  fe_stats :: encoder_stats
  fe_count :: u64
  fe_total_ms :: f32

definition ff_new :: ff_encoder where
  "ff_new =
     \<lparr>fe_config = ff_config_default, fe_width = 0, fe_height = 0, fe_initialized = False, fe_pending = True,
      fe_stats = \<lparr>en_frames = 0, en_bytes = 0, en_encode_ms = 0, en_bitrate = 0, en_keyframes = 0\<rparr>, fe_count = 0,
      fe_total_ms = 0\<rparr>"

definition ff_with_config :: "ff_config \<Rightarrow> ff_encoder" where
  "ff_with_config cfg = ff_new\<lparr>fe_config := cfg\<rparr>"

section \<open>Encoding\<close>

definition check_hw_accel :: "(string \<Rightarrow> bool) \<Rightarrow> hardware \<Rightarrow> bool" where
  "check_hw_accel exists hw =
     (case hw of
        NoHardware \<Rightarrow> True
      | Vaapi \<Rightarrow> exists ''/dev/dri/renderD128''
      | Nvenc \<Rightarrow> exists ''/dev/nvidia0''
      | _ \<Rightarrow> False)"

definition get_codec_name :: "ff_encoder \<Rightarrow> string" where
  "get_codec_name e =
     (case fg_codec (fe_config e) of
        H264 \<Rightarrow> ''libx264'' | VP8 \<Rightarrow> ''libvpx'' | VP9 \<Rightarrow> ''libvpx-vp9'' | AV1 \<Rightarrow> ''libaom-av1'')"

definition ff_init :: "(string \<Rightarrow> bool) \<Rightarrow> u32 \<Rightarrow> u32 \<Rightarrow> video_codec \<Rightarrow> ff_encoder \<Rightarrow> ff_encoder" where
  "ff_init exists w h codec e =
     (let cfg = (fe_config e)\<lparr>fg_codec := codec\<rparr>;
          cfg = (if fg_hardware cfg \<noteq> NoHardware \<and> \<not> check_hw_accel exists (fg_hardware cfg)
                 then cfg\<lparr>fg_hardware := NoHardware\<rparr> else cfg)
      in e\<lparr>fe_width := w, fe_height := h, fe_config := cfg, fe_initialized := True\<rparr>)"

definition encode_software :: "f32 \<Rightarrow> captured_frame \<Rightarrow> ff_encoder \<Rightarrow> ff_encoder \<times> video_frame" where
  "encode_software ms f e =
     (let key = fe_pending e; s = fe_stats e;
          s = (if key then s\<lparr>en_keyframes := en_keyframes s + 1\<rparr> else s);
          s = s\<lparr>en_frames := en_frames s + 1, en_bytes := en_bytes s + of_nat (length (cf_data f)), en_encode_ms := ms\<rparr>
      in (e\<lparr>fe_pending := False, fe_stats := s, fe_count := fe_count e + 1, fe_total_ms := f32_add (fe_total_ms e) ms\<rparr>,
          \<lparr>vf_timestamp = cf_timestamp f div 1000, vf_data = cf_data f, vf_keyframe = key, vf_width = cf_width f,
           vf_height = cf_height f\<rparr>))"

definition ff_encode :: "f32 \<Rightarrow> captured_frame \<Rightarrow> ff_encoder \<Rightarrow> ff_encoder \<times> (ui_error, video_frame) result" where
  "ff_encode ms f e =
     (if \<not> fe_initialized e then (e, Err (EncodeError ''Encoder not initialized''))
      else (case encode_software ms f e of (e, v) \<Rightarrow> (e, Ok v)))"

definition ff_request_keyframe :: "ff_encoder \<Rightarrow> ff_encoder" where
  "ff_request_keyframe e = e\<lparr>fe_pending := True\<rparr>"

section \<open>Runs of the encoder\<close>

text \<open>The encoder keeps the promise of the trait, so that what a run returns is a fact of \<open>video_encoder\<close>.  In a run each
  frame comes after a number of requests for a keyframe, and with the time that its encoding takes.\<close>

interpretation software: video_encoder ff_encode ff_request_keyframe fe_pending fe_initialized
  by unfold_locales
    (auto simp: ff_encode_def encode_software_def encoded_as_def ff_request_keyframe_def Let_def split: if_splits)

definition key_at :: "(nat \<times> f32 \<times> captured_frame) list \<Rightarrow> nat \<Rightarrow> bool" where
  "key_at fs k \<longleftrightarrow> k = 0 \<or> fst (fs ! k) > 0"

definition stats_grow :: "encoder_stats \<Rightarrow> encoder_stats \<Rightarrow> nat \<Rightarrow> nat \<Rightarrow> nat \<Rightarrow> bool" where
  "stats_grow s s' frames amount keys \<longleftrightarrow>
     en_frames s' = en_frames s + of_nat frames \<and> en_bytes s' = en_bytes s + of_nat amount \<and>
     en_keyframes s' = en_keyframes s + of_nat keys"

lemma encode_grows:
  assumes "fe_initialized e" "ff_encode ms f e = (e', r)"
  shows "stats_grow (fe_stats e) (fe_stats e') 1 (length (cf_data f)) (if fe_pending e then 1 else 0)"
  using assms by (auto simp: stats_grow_def ff_encode_def encode_software_def Let_def)

lemma requests_stats [simp]: "fe_stats ((ff_request_keyframe ^^ n) e) = fe_stats e"
  by (induction n) (simp_all add: ff_request_keyframe_def)

lemma run_grows:
  assumes "fe_initialized e" "encode_run ff_encode ff_request_keyframe fs e = (e', rs)"
  shows "stats_grow (fe_stats e) (fe_stats e') (length fs) (sum_list (map (\<lambda>(n, ms, f). length (cf_data f)) fs))
    (length (filter (run_keys (fe_pending e) fs) [0..<length fs]))"
  using assms
proof (induction fs arbitrary: e rs)
  case (Cons x fs)
  obtain n ms f where x: "x = (n, ms, f)" by (cases x) auto
  obtain e1 r where one: "ff_encode ms f ((ff_request_keyframe ^^ n) e) = (e1, r)" by fastforce
  note req = software.requests_law [OF Cons.prems(1), of n]
  note law = software.encode_law [OF conjunct1 [OF req] one] encode_grows [OF conjunct1 [OF req] one]
  obtain rs1 where rest: "encode_run ff_encode ff_request_keyframe fs e1 = (e', rs1)"
    using Cons.prems(2) one unfolding x by (auto split: prod.splits)
  have "length (filter (run_keys (fe_pending e) (x # fs)) [0..<length (x # fs)]) =
      (if fe_pending e \<or> n > 0 then 1 else 0) + length (filter (run_keys False fs) [0..<length fs])"
    unfolding upt_Cons by (simp add: filter_map comp_def run_keys_Cons x)
  then show ?case using Cons.IH [OF _ rest] law req by (simp add: x stats_grow_def)
qed (simp add: stats_grow_def)

text \<open>The two encoders are the same for whoever uses the trait: the software encoder returns the frames of the virtual
  one, whatever is encoded and requested.\<close>

lemma encoders_agree:
  "snd (encode_run ff_encode ff_request_keyframe fs (ff_init exists w h codec (ff_with_config cfg))) =
   snd (encode_run virtual_encode encoder_request_keyframe fs (encoder_init w h encoder_new))"
proof -
  let ?e = "ff_init exists w h codec (ff_with_config cfg)" and ?v = "encoder_init w h encoder_new"
  obtain e rs v rs' where run: "encode_run ff_encode ff_request_keyframe fs ?e = (e, rs)"
    "encode_run virtual_encode encoder_request_keyframe fs ?v = (v, rs')" by fastforce
  have start: "fe_initialized ?e" "fe_pending ?e" "ve_pending ?v"
    by (simp_all add: ff_init_def ff_with_config_def ff_new_def encoder_init_def encoder_new_def Let_def)
  show ?thesis
    using software.run_frames [OF start(1) run(1)] passing.run_frames [OF TrueI run(2)] start run by simp
qed



section \<open>The scaler\<close>

record video_scaler =
  vs_src_width :: u32
  vs_src_height :: u32
  vs_dst_width :: u32
  vs_dst_height :: u32

text \<open>\<^verbatim>\<open>as usize\<close> of a single that is not negative, and the column or row of the source for one of the
  destination, on a side of \<open>n\<close> pixels that is scaled to \<open>m\<close>.\<close>

definition f32_to_usize :: "f32 \<Rightarrow> nat" where
  "f32_to_usize x = min (nat \<lfloor>x\<rfloor>) (2 ^ 64 - 1)"

definition source_at :: "u32 \<Rightarrow> u32 \<Rightarrow> nat \<Rightarrow> nat" where
  "source_at n m i =
     (let ratio = f32_div (f32_of_nat (unat n)) (f32_of_nat (unat m)) in
      min (f32_to_usize (f32_mul (f32_of_nat i) ratio)) (if n = 0 then 2 ^ 64 - 1 else unat n - 1))"

text \<open>\<^verbatim>\<open>copy_from_slice\<close> of four bytes; \<open>None\<close> is the panic of a range outside a slice.\<close>

definition copy_pixel :: "nat \<Rightarrow> nat \<Rightarrow> bytes \<Rightarrow> bytes \<Rightarrow> bytes option" where
  "copy_pixel dst src data out =
     (if dst + 4 \<le> length out \<and> src + 4 \<le> length data
      then Some (take dst out @ take 4 (drop src data) @ drop (dst + 4) out) else None)"

fun scale_pixels :: "video_scaler \<Rightarrow> captured_frame \<Rightarrow> (nat \<times> nat) list \<Rightarrow> bytes \<Rightarrow> bytes option" where
  "scale_pixels s f [] out = Some out"
| "scale_pixels s f ((y, x) # ps) out =
     (let src_x = source_at (cf_width f) (vs_dst_width s) x; src_y = source_at (cf_height f) (vs_dst_height s) y;
          src = (src_y * unat (cf_width f) + src_x) * 4; dst = (y * unat (vs_dst_width s) + x) * 4
      in case copy_pixel dst src (cf_data f) out of None \<Rightarrow> None | Some out \<Rightarrow> scale_pixels s f ps out)"

definition scale :: "video_scaler \<Rightarrow> captured_frame \<Rightarrow> bytes \<Rightarrow> bytes option" where
  "scale s f out =
     (if cf_width f = vs_dst_width s \<and> cf_height f = vs_dst_height s
      then (if length out = length (cf_data f) then Some (cf_data f) else None)
      else scale_pixels s f (pixels (unat (vs_dst_width s)) (unat (vs_dst_height s))) out)"

lemma source_below: "n \<noteq> 0 \<Longrightarrow> source_at n m i < unat n"
proof -
  assume "n \<noteq> 0"
  then have "0 < unat n" by (simp add: unat_gt_0)
  then show ?thesis using \<open>n \<noteq> 0\<close> by (auto simp: source_at_def Let_def)
qed

lemma source_mono: "i \<le> j \<Longrightarrow> source_at n m i \<le> source_at n m j"
proof -
  assume "i \<le> j"
  let ?r = "f32_div (f32_of_nat (unat n)) (f32_of_nat (unat m))"
  have "f32_of_nat i * ?r \<le> f32_of_nat j * ?r"
    using \<open>i \<le> j\<close> by (intro mult_right_mono f32_of_nat_mono f32_div_nonneg) simp_all
  then have "f32_mul (f32_of_nat i) ?r \<le> f32_mul (f32_of_nat j) ?r" by (simp add: f32_mul_def f32_round_mono)
  then have "f32_to_usize (f32_mul (f32_of_nat i) ?r) \<le> f32_to_usize (f32_mul (f32_of_nat j) ?r)"
    by (simp add: f32_to_usize_def floor_mono nat_mono min.coboundedI1 min_le_iff_disj)
  then show ?thesis by (auto simp: source_at_def Let_def min_def)
qed

text \<open>Scaling down by a whole number takes every so-manieth pixel, without rounding errors.\<close>

lemma source_whole:
  assumes "unat n = k * unat m" "unat n \<le> 2 ^ 24" "i < unat m"
  shows "source_at n m i = i * k"
proof -
  have m: "0 < unat m" using assms(3) by simp
  have k: "k \<le> 2 ^ 24" "unat m \<le> 2 ^ 24 \<or> k = 0" "i * k < unat n \<or> k = 0"
  proof -
    have "k \<le> k * unat m" "unat m \<le> k * unat m \<or> k = 0" using m by auto
    then show "k \<le> 2 ^ 24" "unat m \<le> 2 ^ 24 \<or> k = 0" using assms(1,2) by linarith+
    show "i * k < unat n \<or> k = 0" using assms(1,3) by (auto simp: mult.commute)
  qed
  show ?thesis
  proof (cases "k = 0")
    case True
    then have "n = 0" using assms(1) by (simp add: unat_eq_zero)
    then show ?thesis using True by (simp add: source_at_def f32_to_usize_def f32_div_def f32_mul_def f32_of_nat_def)
  next
    case False
    have "i * k \<le> 2 ^ 24" using k(3) assms(2) False by linarith
    moreover have "i \<le> 2 ^ 24" using k(2) assms(3) False by linarith
    moreover have "f32_div (f32_of_nat (unat n)) (f32_of_nat (unat m)) = of_nat k"
    proof -
      have "f32_div (f32_of_nat (a * b)) (f32_of_nat b) = of_nat a" if "0 < b" "a * b \<le> 2 ^ 24" "a \<le> 2 ^ 24" "b \<le> 2 ^ 24"
        for a b :: nat
        using that by (simp add: f32_of_nat_exact f32_div_def f32_round_nat)
      from this [of "unat m" k] show ?thesis using m k False assms(1,2) by simp
    qed
    ultimately have "f32_mul (f32_of_nat i) (f32_div (f32_of_nat (unat n)) (f32_of_nat (unat m))) = of_nat (i * k)"
      by (simp add: f32_of_nat_exact f32_mul_def f32_round_nat flip: of_nat_mult)
    moreover have "i * k < unat n" using k(3) False by simp
    then have "i * k \<le> unat n - 1" "n \<noteq> 0" by (auto simp: unat_eq_zero)
    moreover have "unat n < 2 ^ 32" using unsigned_less [of n, where 'a = nat] by simp
    moreover have "nat \<lfloor>(of_nat (i * k) :: rat)\<rfloor> = i * k" by (simp only: floor_of_nat nat_int)
    ultimately show ?thesis by (simp add: source_at_def f32_to_usize_def del: of_nat_mult)
  qed
qed

lemma copy_pixel_nth:
  assumes "copy_pixel (4 * p) (4 * q) data out = Some out'"
  shows "length out' = length out \<and> (\<forall>i < length out. out' ! i = (if i div 4 = p then data ! (4 * q + i mod 4) else out ! i))"
proof -
  have o: "out' = take (4 * p) out @ take 4 (drop (4 * q) data) @ drop (4 * p + 4) out"
    and len: "4 * p + 4 \<le> length out" "4 * q + 4 \<le> length data"
    using assms by (simp_all add: copy_pixel_def split: if_splits)
  have mid: "length (take 4 (drop (4 * q) data)) = 4" using len(2) by simp
  show ?thesis
  proof (intro conjI allI impI)
    show "length out' = length out" using o len by simp
    fix i assume i: "i < length out"
    consider "i < 4 * p" | "4 * p \<le> i" "i < 4 * p + 4" | "4 * p + 4 \<le> i" by linarith
    then show "out' ! i = (if i div 4 = p then data ! (4 * q + i mod 4) else out ! i)"
    proof cases
      case 1
      then show ?thesis using o i len by (auto simp: nth_append)
    next
      case 2
      then obtain m where m: "i = 4 * p + m" "m < 4" using le_Suc_ex by fastforce
      then have "i div 4 = p" "i mod 4 = m" by simp_all
      moreover have "out' ! i = take 4 (drop (4 * q) data) ! m" using o m len mid by (simp add: nth_append)
      ultimately show ?thesis using m(2) len(2) by simp
    next
      case 3
      then have "i div 4 \<noteq> p" by presburger
      moreover have "\<not> i < 4 * p" "\<not> i - 4 * p < 4" "4 * p + 4 + (i - 4 * p - 4) = i" using 3 by linarith+
      then have "out' ! i = out ! i" using o i len mid by (simp add: nth_append)
      ultimately show ?thesis by simp
    qed
  qed
qed


lemma scale_pixels_exact:
  assumes "\<forall>(y, x) \<in> set ps. y < unat (vs_dst_height s) \<and> x < unat (vs_dst_width s)"
    and "cf_width f \<noteq> 0" "cf_height f \<noteq> 0" "4 * (unat (cf_width f) * unat (cf_height f)) \<le> length (cf_data f)"
    and "length out = 4 * (unat (vs_dst_width s) * unat (vs_dst_height s))"
  shows "\<exists>out'. scale_pixels s f ps out = Some out' \<and> length out' = length out \<and> (\<forall>i < length out. out' ! i =
    (let y = i div 4 div unat (vs_dst_width s); x = i div 4 mod unat (vs_dst_width s) in
     if (y, x) \<in> set ps
     then cf_data f ! (4 * (source_at (cf_height f) (vs_dst_height s) y * unat (cf_width f) +
            source_at (cf_width f) (vs_dst_width s) x) + i mod 4)
     else out ! i))"
  using assms(1,5)
proof (induction ps arbitrary: out)
  case (Cons yx ps)
  obtain y x where yx: "yx = (y, x)" by fastforce
  let ?w = "unat (vs_dst_width s)" and ?sw = "unat (cf_width f)"
  define q where "q = source_at (cf_height f) (vs_dst_height s) y * ?sw + source_at (cf_width f) (vs_dst_width s) x"
  define p where "p = y * ?w + x"
  have p: "p < ?w * unat (vs_dst_height s)" using Cons.prems(1) yx by (simp add: p_def pixel_below)
  have q: "q < ?sw * unat (cf_height f)" unfolding q_def by (intro pixel_below source_below assms(2,3))
  have "4 * p + 4 \<le> length out" "4 * q + 4 \<le> length (cf_data f)" using p q Cons.prems(2) assms(4) by linarith+
  then obtain o1 where o1: "copy_pixel (4 * p) (4 * q) (cf_data f) out = Some o1" by (simp add: copy_pixel_def)
  note o1_nth = copy_pixel_nth [OF o1]
  have hit: "i div 4 = p \<longleftrightarrow> (i div 4 div ?w, i div 4 mod ?w) = (y, x)" for i
    using Cons.prems(1) yx by (auto simp: p_def div_add1_eq)
  have step: "scale_pixels s f (yx # ps) out = scale_pixels s f ps o1"
    using o1 by (simp add: yx p_def q_def Let_def mult.commute)
  obtain out' where out': "scale_pixels s f ps o1 = Some out'" "length out' = length o1" "\<forall>i < length o1. out' ! i =
    (let y = i div 4 div ?w; x = i div 4 mod ?w in
     if (y, x) \<in> set ps
     then cf_data f ! (4 * (source_at (cf_height f) (vs_dst_height s) y * ?sw + source_at (cf_width f) (vs_dst_width s) x) + i mod 4)
     else o1 ! i)"
    using Cons.IH [of o1] Cons.prems o1_nth by auto
  have "out' ! i = (let y = i div 4 div ?w; x = i div 4 mod ?w in
     if (y, x) \<in> set (yx # ps)
     then cf_data f ! (4 * (source_at (cf_height f) (vs_dst_height s) y * ?sw + source_at (cf_width f) (vs_dst_width s) x) + i mod 4)
     else out ! i)" if "i < length out" for i
    using that out'(3) o1_nth hit [of i] by (auto simp: yx q_def Let_def)
  then show ?case using out' o1_nth step by auto
qed simp

definition scaled_col :: "video_scaler \<Rightarrow> captured_frame \<Rightarrow> nat \<Rightarrow> nat" where
  "scaled_col s f = source_at (cf_width f) (vs_dst_width s)"

definition scaled_row :: "video_scaler \<Rightarrow> captured_frame \<Rightarrow> nat \<Rightarrow> nat" where
  "scaled_row s f = source_at (cf_height f) (vs_dst_height s)"



definition wide_frame :: captured_frame where
  "wide_frame =
     \<lparr>cf_timestamp = 5000, cf_sequence = 1, cf_data = [1, 2, 3, 4, 5, 6, 7, 8], cf_width = 2, cf_height = 1, cf_stride = 8\<rparr>"



end
