(* ===== verification/Spec2Isabelle.thy ===== *)
theory Spec2Isabelle
  imports Memory Qssp StateStore PageFault StateDiff Cloning BatchOps AuditLog Versioning Sharing Auth
    RateLimit Validation Search Orchestration Deterministic SocketProxy Rtp Compression Archive Encryption Webhook
    FirecrackerApi Firecracker VmProcess Api Uffd Kvm Tracer Text Webrtc Streaming S3Backend Metrics Config Cli SocketIntercept Websocket Capture Encoder
begin

text \<open>
  \<^bold>\<open>A model of the ISA workspace server.\<close>

  The program (the Rust crate under \<^verbatim>\<open>src/\<close>) takes snapshots of running micro-VMs, stores them
  in a content-addressed store, moves them between machines and shares them between users.  A
  snapshot is a \<^verbatim>\<open>WorkspaceState\<close>: memory pages compressed by temperature and described by a
  manifest (\<^verbatim>\<open>memory.rs\<close>), the CPU state, the network state and the log of nondeterministic
  events (\<^verbatim>\<open>deterministic.rs\<close>).  The store (\<^verbatim>\<open>state_store.rs\<close>) keeps states and pages under their
  SHA-256 digests in a backend; QSSP (\<^verbatim>\<open>quic_transport.rs\<close>) sends them over QUIC streams.
  Around the store stand versioning, search, sharing, the audit log, authentication, rate
  limits, the validation of requests and the placement of VMs on edge nodes.

  \<^bold>\<open>Theories.\<close>  Every theory opens with a text on its own part.
    \<^item> \<open>Prelude\<close>: results (\<open>Ok\<close>, \<open>Err\<close>), bytes and big-endian integers, hash maps (\<open>hmap\<close>: an
      association list in iteration order with one pair per key; the order is arbitrary, as that
      of a Rust \<^verbatim>\<open>HashMap\<close>), and the hints all proofs share.
    \<^item> \<open>F32\<close>: IEEE single precision on rationals (round to nearest, ties to even), for the code
      that computes with \<^verbatim>\<open>f32\<close>.  Overflow to infinity and NaN do not occur in it.
    \<^item> \<open>Model\<close>: \<^verbatim>\<open>model.rs\<close>.
    \<^item> \<open>Memory\<close>: \<^verbatim>\<open>memory.rs\<close>; bitmaps of dirty pages, access counters and temperatures, snapshots
      of the dirty pages, manifests, prefetching.
    \<^item> \<open>Qssp\<close>: \<^verbatim>\<open>quic_transport.rs\<close>; headers, messages, streams as the list of chunks that the
      transport delivers, the senders and the receiver.
    \<^item> \<open>StateStore\<close>: \<^verbatim>\<open>state_store.rs\<close>; three backends, the store, references, the collector.
    \<^item> \<open>AuditLog\<close>: \<^verbatim>\<open>audit.rs\<close>.  \<open>Versioning\<close>: \<^verbatim>\<open>state_versioning.rs\<close>.  \<open>Sharing\<close>:
      \<^verbatim>\<open>state_sharing.rs\<close>.  \<open>Auth\<close>: \<^verbatim>\<open>auth.rs\<close>.  \<open>RateLimit\<close>: \<^verbatim>\<open>rate_limit.rs\<close>.  \<open>Validation\<close>:
      \<^verbatim>\<open>validation.rs\<close>.  \<open>Search\<close>: \<^verbatim>\<open>state_search.rs\<close>.  \<open>Orchestration\<close>: \<^verbatim>\<open>orchestration.rs\<close>.
      \<open>Deterministic\<close>: \<^verbatim>\<open>deterministic.rs\<close>.
    \<^item> \<open>PageFault\<close>: \<^verbatim>\<open>page_fault_handler.rs\<close>, where the content of a faulting page comes from.
      \<open>StateDiff\<close>: \<^verbatim>\<open>state_diff.rs\<close>, deltas.  \<open>Cloning\<close>: \<^verbatim>\<open>state_cloning.rs\<close>, over \<open>StateStore\<close>.
      \<open>BatchOps\<close>: \<^verbatim>\<open>batch_ops.rs\<close>, jobs and their tasks as interleaved steps.
    \<^item> \<open>SocketProxy\<close>: \<^verbatim>\<open>socket_proxy.rs\<close>, the tables of proxied connections and the forwarding.
      \<open>Rtp\<close>: \<^verbatim>\<open>webrtc_media.rs\<close>, packets, sessions and the packetizer of video frames.
    \<^item> \<open>Compression\<close>: \<^verbatim>\<open>state_compression.rs\<close>.  \<open>Archive\<close>: \<^verbatim>\<open>state_archive.rs\<close>, export and
      import.  \<open>Encryption\<close>: \<^verbatim>\<open>encryption.rs\<close>, keys and their storages.  \<open>Webhook\<close>:
      \<^verbatim>\<open>webhook.rs\<close>, endpoints and deliveries.
    \<^item> \<open>FirecrackerApi\<close>: \<^verbatim>\<open>firecracker_api.rs\<close>, the requests of the client and the host they are sent to.
      The host is a history of events (files, processes, requests, sleeps) with a function that says how it
      answers the next one.  \<open>Firecracker\<close>: \<^verbatim>\<open>firecracker.rs\<close>, the life cycle of a machine and the
      manager.  \<open>VmProcess\<close>: \<^verbatim>\<open>firecracker_process.rs\<close>, the second manager.  \<open>Api\<close>: \<^verbatim>\<open>api.rs\<close>, the
      handlers over the store, the machines, the proxy and the log.
    \<^item> \<open>Uffd\<close>: \<^verbatim>\<open>userfaultfd.rs\<close>.  \<open>Kvm\<close>: \<^verbatim>\<open>kvm_capture.rs\<close>, registers captured and restored.  \<open>Tracer\<close>:
      \<^verbatim>\<open>syscall_intercept.rs\<close> and \<^verbatim>\<open>syscall_interceptor_real.rs\<close>.  In each the kernel is a parameter.
    \<^item> \<open>Text\<close>: what several modules do with text (words, lines, numbers).  \<open>Webrtc\<close>:
      \<^verbatim>\<open>webrtc_transport.rs\<close>, session descriptions, candidates and channels.  \<open>Streaming\<close>:
      \<^verbatim>\<open>ui_streaming_full.rs\<close>, the virtual framebuffer and encoder and the streamer, over \<open>Webrtc\<close>.
      \<open>Capture\<close>: \<^verbatim>\<open>x11_capture.rs\<close> and \<^verbatim>\<open>drm_capture.rs\<close>.  \<open>Encoder\<close>: \<^verbatim>\<open>ffmpeg_encoder.rs\<close>, the software
      encoder and the scaler.
    \<^item> \<open>SocketIntercept\<close>: \<^verbatim>\<open>socket_intercept.rs\<close>, the calls of a program that are sent through the proxy of
      \<open>SocketProxy\<close>.  \<open>Websocket\<close>: \<^verbatim>\<open>websocket.rs\<close>, the two handlers.
    \<^item> \<open>S3Backend\<close>: \<^verbatim>\<open>s3_backend.rs\<close>, the backend with a cache (that of \<^verbatim>\<open>state_store.rs\<close> is part of
      \<open>StateStore\<close>).  \<open>Metrics\<close>: \<^verbatim>\<open>metrics.rs\<close>.  \<open>Config\<close>: \<^verbatim>\<open>config.rs\<close> and \<^verbatim>\<open>main.rs\<close>, from the arguments to
      the address that is served.  \<open>Cli\<close>: \<^verbatim>\<open>bin/cli.rs\<close> and the routes of \<^verbatim>\<open>api.rs\<close>.

  \<^bold>\<open>How code becomes definitions.\<close>  A struct is a \<open>record\<close>, an enum a \<open>datatype\<close>, an integer of
  width \<open>w\<close> a \<open>w word\<close> (\<^verbatim>\<open>usize\<close> a natural number where it only counts or indexes), an operation
  a function from the state and its arguments to the new state and the answer.  The clock and
  random identifiers are arguments (\<open>now\<close>, a UUID).  A failing call returns \<open>Err\<close>, \<open>Inl\<close> or an
  option, a panic \<open>None\<close> (as in \<open>search\<close>).  Integer overflow wraps, as in a release build.
  Third-party code is a parameter: compression and SHA-256 (\<open>codec\<close>), JSON, HTTP replies of S3,
  faults of the file system, character classes of Unicode; what is assumed of it is a premise of
  the theorem.  Tasks are interleaved where the code releases a lock between two steps: the
  collector (scan, then delete), the audit log and the event log (read the hash or take the
  number, then append); everything the code does under one lock is one step.

  \<^bold>\<open>What is shown.\<close>
    \<^item> Storage: the locale \<open>storage_backend\<close> states what the store needs of a backend (reads
      return what was put and not deleted, operations keep the backend's invariant).  Its lemmas
      show for every such backend that a stored state is found again after any run of other
      operations; the memory and the local-directory backends interpret it.  The collector
      removes exactly the expired states without references, when nobody interferes.  The locale
      \<open>page_source\<close> is what the page fault handler and the locale \<open>deleting_executor\<close> what a batch of
      deletions relies on; the store over its backends and the in-memory executor provide them.
      \<open>key_storage\<close> is what a backup of the master key relies on; memory and file provide it.
      \<open>video_encoder\<close> is what the streamer relies on; the virtual and the software encoder provide
      it, so that they return the same frames (\<open>encoders_agree\<close>).
    \<^item> Across components: a page of a dirty snapshot that is stored and fetched again decompresses
      to the memory's bytes (\<open>snapshot_restored\<close>); a clone is fetched again from the store.
    \<^item> Snapshots: the pages of a dirty snapshot decompress to the dirty pages of the memory;
      manifests tile the region; temperatures partition it; errors change no dirty bit.
    \<^item> Transport: headers and messages round-trip under every cut of the payload into chunks; what
      the receiver makes of each sender's stream.
    \<^item> Sharing refines a ledger of grants per user and state; revocations are final; limited links
      are bounded.  Tokens never carry more authority than their key; their number is bounded.
    \<^item> Replay finds exactly the first divergence; sequence numbers never repeat.  The audit chain
      is tamper-evident up to its last hash.
    \<^item> Versioning: nearest common ancestors and descendants.  Search: the inverted indexes are
      exact and a search is a page of the sorted answers.  Placement is optimal.
    \<^item> Deltas restore the regions of the target state, up to what the page-level hash covers.
      Batches (\<open>batch_reach\<close>): an ended batch reports exactly its outcomes, a batch never has more
      calls than permits, and it always ends.
    \<^item> Limits: buckets stay within their bounds with rounding; the sliding window holds at every
      position.  Validation: TTLs and state ids.
    \<^item> Connections (\<open>proxy_reach\<close>): the tables of the proxy never dangle, captured connections are
      restored, forwarded bytes are a prefix of what was sent.  A video frame arrives complete over a
      network without loss; the packetizer ends exactly when it can make progress.
    \<^item> Encrypted states decrypt until the key is rotated; a delivery of a webhook makes the attempts
      that it should; the decision to compress is exact in spite of rounding.
    \<^item> Machines: operations on one leave all others alone; what a snapshot does to the guest whatever
      the API answers; a start returns and what it leaves behind when it fails; an accepted snapshot can
      be resumed and a fork is read back, after any run of the store.
    \<^item> The system below: a captured CPU state is restored; which part of a region userfaultfd covers; the
      tracer keeps the latest events.
    \<^item> Media: frames of the virtual framebuffer are the whole pattern or the first capture panics; the
      scaler stays inside its source in spite of single precision; keyframes and statistics of the encoder are
      exact; a candidate is read back from its line.  Devices give back what they acquired.
    \<^item> Edges of the program: which of arguments, file, environment and defaults decides the address that is
      served; every command of the command line but one reaches its handler; an intercepted connection reaches its
      destination through the proxy (\<open>io_reach\<close>) and is transparent from then on; the S3 cache agrees with the
      server as long as no put was refused; histograms count exactly.
    \<^item> Where the code does not do what it means to, the theorem says what it does: prefetching
      finds nothing, fragmented headers are refused, batches lose pages, the audit check fails
      after trimming or a race, ancestry loops on cycles, health checks wait for themselves, every
      import of an archive warns, webhook deliveries stay pending, a resume loads no snapshot, faults are
      never answered, entries and exits of system calls are swapped, every video frame is dropped, both screen
      captures show no screen, the first bytes of an intercepted connection are lost, states are never listed.

  \<^bold>\<open>Loops.\<close>  \<open>ancestry_loop\<close> is a \<open>partial_function (option)\<close>, so that \<open>None\<close> means it never
  returns; it is shown to return on every history grown in order and not to return on a cycle.
  \<open>packetize_loop\<close> is one as well; it returns except on a maximal size of 0.
  \<open>wait_for_socket\<close> and \<open>handler_loop\<close> are too; the first is shown to return under every clock that a sleep
  advances, the second to return at the first message of the kernel.  \<open>await_socket\<close> has fuel 50, the bound
  of its loop in the code; \<open>trace_loop\<close> runs any number of turns, its theorem holds for every number.
  \<open>descend_loop\<close> terminates by a measure, the children not yet visited.  \<open>f32_up\<close> and \<open>f32_dn\<close>
  search the exponent with fuel 127 and 126, the bounds of the exponents of finite normal singles.  Everything else is
  structural.

  \<^bold>\<open>Not modelled.\<close>  Logging; starting and stopping of background tasks; the QUIC and TLS set-up; the
  upgrade of WebSockets and the delivery of their broadcasts, for which the code has no senders; the parsing of
  the command line (clap); the calls of the ffmpeg library and \<^verbatim>\<open>native_webrtc.rs\<close>, which only drive libraries behind a
  feature; the eBPF tracer; the tracer of \<^verbatim>\<open>deterministic.rs\<close>; \<open>DrmFramebufferCapture\<close>, which nothing uses; what
  is compiled for other systems than Linux; the layout of the structs of the kernel.  The calls of the kernel, the
  system's libraries and the network are parameters throughout.
\<close>

section \<open>Snapshots through the store\<close>


text \<open>A concrete run: the one page of the demonstration region, with another page stored and
  fetched in between.\<close>

definition demo_sha :: "bytes \<Rightarrow> string" where
  "demo_sha d = (if d = replicate 4096 7 then ''a1'' else ''b2'')"

definition demo_page_env :: "unit store_env" where
  "demo_page_env = demo_env\<lparr>env_ser := (\<lambda>s. Err ''unsupported''), env_sha := demo_sha\<rparr>"


end
